(* ===== verification/Marvel_Prelude.thy ===== *)
theory Marvel_Prelude
  imports Main "HOL-Library.Multiset" "HOL-Library.Sublist"
begin

text \<open>
  Shared vocabulary of the development: Go's \<open>time.Time\<close> and \<open>time.Duration\<close>, the pieces of the
  \<open>strconv\<close> and \<open>strings\<close> packages the modelled code calls, the stable sort behind
  \<open>sort.SliceStable\<close>, and the list lemmas the components share.

  Conventions. A Go \<open>int\<close> or \<open>int64\<close> counter is an \<open>int\<close>; where the code depends on the
  width (shifts, bit sets, saturating subtraction, \<open>Atoi\<close>'s range) the width is written out.
  A \<open>time.Time\<close> is the number of nanoseconds since Go's zero \<open>Time\<close> (1 January of year 1,
  UTC), so \<open>IsZero\<close> is \<open>= 0\<close>. Every clock value the modelled code compares went through
  \<open>UTC()\<close>, which strips the monotonic reading, so wall-clock arithmetic is what runs.
  Strings are byte strings; the whitespace test is the ASCII one.
\<close>

named_theorems time_simps \<open>unfolding of the time and duration vocabulary\<close>
named_theorems string_simps \<open>unfolding of the string vocabulary\<close>

section \<open>Times and durations\<close>

type_synonym time = int
type_synonym duration = int

abbreviation (input) zero_time :: time where
  "zero_time \<equiv> 0"

definition is_zero :: "time \<Rightarrow> bool" where
  [time_simps]: "is_zero t \<longleftrightarrow> t = 0"

definition second :: duration where
  [time_simps]: "second = 1000000000"

definition minute :: duration where
  [time_simps]: "minute = 60 * second"

definition hour :: duration where
  [time_simps]: "hour = 60 * minute"

definition max_duration :: duration where
  [time_simps]: "max_duration = 2 ^ 63 - 1"

definition min_duration :: duration where
  [time_simps]: "min_duration = - (2 ^ 63)"

text \<open>\<open>t.Sub(u)\<close> saturates at the 64-bit range of a \<open>Duration\<close>.\<close>

definition time_sub :: "time \<Rightarrow> time \<Rightarrow> duration" where
  [time_simps]: "time_sub t u = max min_duration (min max_duration (t - u))"

lemma time_sub_exact:
  "min_duration \<le> t - u \<Longrightarrow> t - u \<le> max_duration \<Longrightarrow> time_sub t u = t - u"
  by (simp add: time_sub_def)

lemma time_sub_gt_iff:
  "min_duration \<le> d \<Longrightarrow> d < max_duration \<Longrightarrow> d < time_sub t u \<longleftrightarrow> d < t - u"
  by (auto simp: time_sub_def)

lemma time_sub_ge_iff:
  "min_duration < d \<Longrightarrow> d \<le> max_duration \<Longrightarrow> d \<le> time_sub t u \<longleftrightarrow> d \<le> t - u"
  by (auto simp: time_sub_def)

section \<open>Decimal numbers\<close>

fun nat_digits :: "nat \<Rightarrow> string" where
  "nat_digits n = (if n < 10 then [char_of (48 + n)]
                   else nat_digits (n div 10) @ [char_of (48 + n mod 10)])"

declare nat_digits.simps [simp del]

text \<open>\<open>strconv.Itoa\<close> and the \<open>%d\<close> verb.\<close>

definition itoa :: "int \<Rightarrow> string" where
  "itoa i = (if i < 0 then CHR ''-'' # nat_digits (nat (- i)) else nat_digits (nat i))"

definition is_digit :: "char \<Rightarrow> bool" where
  [string_simps]: "is_digit c \<longleftrightarrow> 48 \<le> (of_char c :: nat) \<and> (of_char c :: nat) \<le> 57"

definition digit_val :: "char \<Rightarrow> nat" where
  [string_simps]: "digit_val c = (of_char c :: nat) - 48"

definition digits_val :: "string \<Rightarrow> nat" where
  [string_simps]: "digits_val s = foldl (\<lambda>a c. 10 * a + digit_val c) 0 s"

text \<open>
  \<open>strconv.Atoi\<close>: an optional sign, then one or more decimal digits, with the value inside
  the 64-bit range. \<open>None\<close> is the error.
\<close>

definition atoi :: "string \<Rightarrow> int option" where
  "atoi s =
     (let (neg, ds) = (case s of
          [] \<Rightarrow> (False, [])
        | c # cs \<Rightarrow> if c = CHR ''-'' then (True, cs) else if c = CHR ''+'' then (False, cs) else (False, s))
      in if ds = [] \<or> \<not> list_all is_digit ds then None
         else let v = (if neg then - int (digits_val ds) else int (digits_val ds))
              in if - (2 ^ 63) \<le> v \<and> v < 2 ^ 63 then Some v else None)"

lemma digit_char [simp]:
  "d < 10 \<Longrightarrow> is_digit (char_of (48 + d))" "d < 10 \<Longrightarrow> digit_val (char_of (48 + d)) = d" for d :: nat
  by (simp_all add: string_simps of_char_of)

lemma digits_val_snoc: "digits_val (s @ [c]) = 10 * digits_val s + digit_val c"
  by (simp add: digits_val_def)

lemma nat_digits_all_digits: "list_all is_digit (nat_digits n)"
  by (induction n rule: nat_digits.induct) (subst nat_digits.simps, simp)

lemma nat_digits_nonempty [simp]: "nat_digits n \<noteq> []"
  by (subst nat_digits.simps) simp

lemma digits_val_nat_digits: "digits_val (nat_digits n) = n"
proof (induction n rule: nat_digits.induct)
  case (1 n)
  show ?case
  proof (cases "n < 10")
    case True
    then show ?thesis by (subst nat_digits.simps) (simp add: digits_val_def)
  next
    case False
    with 1 show ?thesis by (subst nat_digits.simps) (simp add: digits_val_snoc)
  qed
qed

lemma nat_digits_hd: "is_digit (hd (nat_digits n))"
  using nat_digits_all_digits[of n] by (cases "nat_digits n") simp_all

lemma not_digit_sign [simp]: "\<not> is_digit (CHR ''-'')" "\<not> is_digit (CHR ''+'')"
  by (simp_all add: is_digit_def)

lemma nat_digits_inj: "nat_digits m = nat_digits n \<longleftrightarrow> m = n"
  by (metis digits_val_nat_digits)

lemma atoi_nat_digits: "int n < 2 ^ 63 \<Longrightarrow> atoi (nat_digits n) = Some (int n)"
  using nat_digits_hd[of n] nat_digits_all_digits[of n] digits_val_nat_digits[of n]
  by (cases "nat_digits n") (auto simp: atoi_def)

text \<open>Printing and reading a 64-bit number is a round trip.\<close>

lemma atoi_itoa:
  assumes "- (2 ^ 63) \<le> i" and "i < 2 ^ 63"
  shows "atoi (itoa i) = Some i"
proof (cases "i < 0")
  case True
  then show ?thesis
    using assms by (auto simp: itoa_def atoi_def digits_val_nat_digits nat_digits_all_digits)
next
  case False
  then show ?thesis using assms atoi_nat_digits[of "nat i"] by (simp add: itoa_def)
qed

section \<open>Strings\<close>

text \<open>\<open>strings.HasPrefix\<close>, \<open>strings.Contains\<close>, \<open>strings.Join\<close>, \<open>strings.Cut\<close> and
  \<open>strings.Split\<close> on a one-byte separator, \<open>strings.Fields\<close>.\<close>

definition has_prefix :: "string \<Rightarrow> string \<Rightarrow> bool" where
  [string_simps]: "has_prefix s p \<longleftrightarrow> take (length p) s = p"

definition contains :: "string \<Rightarrow> string \<Rightarrow> bool" where
  [string_simps]: "contains s w \<longleftrightarrow> list_ex (\<lambda>t. has_prefix t w) (suffixes s)"

fun join :: "string \<Rightarrow> string list \<Rightarrow> string" where
  "join sep [] = []"
| "join sep [x] = x"
| "join sep (x # y # ys) = x @ sep @ join sep (y # ys)"

fun cut :: "char \<Rightarrow> string \<Rightarrow> string \<times> string \<times> bool" where
  "cut c [] = ([], [], False)"
| "cut c (x # xs) = (if x = c then ([], xs, True)
                     else case cut c xs of (a, b, f) \<Rightarrow> (x # a, b, f))"

fun split_on :: "char \<Rightarrow> string \<Rightarrow> string list" where
  "split_on c [] = [[]]"
| "split_on c (x # xs) = (if x = c then [] # split_on c xs
                          else case split_on c xs of [] \<Rightarrow> [[x]] | y # ys \<Rightarrow> (x # y) # ys)"

definition is_space :: "char \<Rightarrow> bool" where
  [string_simps]: "is_space c \<longleftrightarrow> (of_char c :: nat) \<in> {9, 10, 11, 12, 13, 32}"

fun fields_acc :: "string \<Rightarrow> string \<Rightarrow> string list" where
  "fields_acc acc [] = (if acc = [] then [] else [acc])"
| "fields_acc acc (x # xs) =
     (if is_space x then (if acc = [] then fields_acc [] xs else acc # fields_acc [] xs)
      else fields_acc (acc @ [x]) xs)"

definition str_fields :: "string \<Rightarrow> string list" where
  "str_fields s = fields_acc [] s"

lemma has_prefix_iff: "has_prefix s p \<longleftrightarrow> (\<exists>t. s = p @ t)"
proof
  assume "has_prefix s p"
  then have "s = p @ drop (length p) s" by (metis append_take_drop_id has_prefix_def)
  then show "\<exists>t. s = p @ t" ..
qed (auto simp: has_prefix_def)

lemma cut_found: "cut c (xs @ c # ys) = (xs, ys, True)" if "c \<notin> set xs" for xs
  using that by (induction xs) auto

lemma cut_absent: "c \<notin> set xs \<Longrightarrow> cut c xs = (xs, [], False)"
  by (induction xs) auto

lemma split_on_nonempty [simp]: "split_on c xs \<noteq> []"
  by (induction xs) (auto split: list.splits)

lemma split_on_absent: "c \<notin> set xs \<Longrightarrow> split_on c xs = [xs]"
  by (induction xs) auto

section \<open>Stable sorting\<close>

text \<open>\<open>sort.SliceStable(xs, less)\<close>.\<close>

fun insert_by :: "('a \<Rightarrow> 'a \<Rightarrow> bool) \<Rightarrow> 'a \<Rightarrow> 'a list \<Rightarrow> 'a list" where
  "insert_by lt x [] = [x]"
| "insert_by lt x (y # ys) = (if lt y x then y # insert_by lt x ys else x # y # ys)"

definition sort_by :: "('a \<Rightarrow> 'a \<Rightarrow> bool) \<Rightarrow> 'a list \<Rightarrow> 'a list" where
  "sort_by lt xs = foldr (insert_by lt) xs []"

lemma mset_insert_by [simp]: "mset (insert_by lt x xs) = add_mset x (mset xs)"
  by (induction xs) auto

lemma mset_sort_by [simp]: "mset (sort_by lt xs) = mset xs"
  by (induction xs) (auto simp: sort_by_def)

lemma set_sort_by [simp]: "set (sort_by lt xs) = set xs"
  by (metis mset_sort_by set_mset_mset)

lemma length_sort_by [simp]: "length (sort_by lt xs) = length xs"
  by (metis mset_sort_by size_mset)

lemma sort_by_Nil [simp]: "sort_by lt [] = []"
  by (simp add: sort_by_def)

text \<open>A strict weak order, as \<open>sort\<close> asks of its \<open>less\<close>: the result never steps down.\<close>

lemma sorted_insert_by:
  assumes trans: "\<And>a b c. \<not> lt b a \<Longrightarrow> \<not> lt c b \<Longrightarrow> \<not> lt c a"
    and asym: "\<And>a b. lt a b \<Longrightarrow> \<not> lt b a"
    and "sorted_wrt (\<lambda>a b. \<not> lt b a) xs"
  shows "sorted_wrt (\<lambda>a b. \<not> lt b a) (insert_by lt x xs)"
  using assms(3)
proof (induction xs)
  case (Cons y ys)
  have set_ins: "set (insert_by lt x ys) = insert x (set ys)"
    by (metis mset_insert_by set_mset_add_mset_insert set_mset_mset)
  show ?case
  proof (cases "lt y x")
    case True
    with Cons set_ins asym show ?thesis by auto
  next
    case False
    with Cons.prems trans have "\<forall>z\<in>set ys. \<not> lt z x" by auto
    with False Cons.prems show ?thesis by auto
  qed
qed simp

lemma sorted_sort_by:
  assumes "\<And>a b c. \<not> lt b a \<Longrightarrow> \<not> lt c b \<Longrightarrow> \<not> lt c a"
    and "\<And>a b. lt a b \<Longrightarrow> \<not> lt b a"
  shows "sorted_wrt (\<lambda>a b. \<not> lt b a) (sort_by lt xs)"
proof (induction xs)
  case (Cons x xs)
  from sorted_insert_by[OF assms Cons.IH] show ?case by (simp add: sort_by_def)
qed simp

text \<open>On distinguishable elements the result does not depend on the input order.\<close>

lemma sorted_wrt_unique:
  assumes "sorted_wrt R xs" and "sorted_wrt R ys" and "mset xs = mset ys"
    and "\<And>a b. a \<in> set xs \<Longrightarrow> b \<in> set xs \<Longrightarrow> R a b \<Longrightarrow> R b a \<Longrightarrow> a = b"
  shows "xs = ys"
  using assms
proof (induction xs arbitrary: ys)
  case (Cons x xs)
  then obtain y ys' where ys: "ys = y # ys'" by (cases ys) auto
  have eq: "set (x # xs) = set (y # ys')" using Cons.prems(3) ys by (metis set_mset_mset)
  have "x = y"
  proof (rule ccontr)
    assume "x \<noteq> y"
    with eq have "y \<in> set xs" "x \<in> set ys'" by auto
    with Cons.prems ys have "R x y" "R y x" by auto
    with Cons.prems(4)[of x y] \<open>y \<in> set xs\<close> \<open>x \<noteq> y\<close> show False by auto
  qed
  with Cons ys show ?case by auto
qed simp

lemma sort_by_perm:
  assumes "\<And>a b c. \<not> lt b a \<Longrightarrow> \<not> lt c b \<Longrightarrow> \<not> lt c a"
    and "\<And>a b. lt a b \<Longrightarrow> \<not> lt b a"
    and "mset xs = mset ys" and "\<And>a b. a \<in> set xs \<Longrightarrow> b \<in> set xs \<Longrightarrow> a \<noteq> b \<Longrightarrow> lt a b \<or> lt b a"
  shows "sort_by lt xs = sort_by lt ys"
  by (rule sorted_wrt_unique[OF sorted_sort_by[OF assms(1,2)] sorted_sort_by[OF assms(1,2)]])
    (use assms(3,4) in auto)

text \<open>Elements that \<open>less\<close> does not tell apart keep their input order.\<close>

lemma filter_insert_by:
  assumes "\<And>a b. P a \<Longrightarrow> P b \<Longrightarrow> \<not> lt a b"
  shows "filter P (insert_by lt x xs) = (if P x then x # filter P xs else filter P xs)"
  using assms by (induction xs) auto

lemma sort_by_stable:
  assumes "\<And>a b. P a \<Longrightarrow> P b \<Longrightarrow> \<not> lt a b"
  shows "filter P (sort_by lt xs) = filter P xs"
  using assms by (induction xs) (auto simp: sort_by_def filter_insert_by)

lemma distinct_remdups_adj_sorted: "sorted xs \<Longrightarrow> distinct (remdups_adj xs)"
  by (induction xs rule: remdups_adj.induct) auto

section \<open>Counting\<close>

abbreviation count_if :: "('a \<Rightarrow> bool) \<Rightarrow> 'a list \<Rightarrow> int" where
  "count_if P xs \<equiv> int (length (filter P xs))"

text \<open>The \<open>for range \<dots> if \<dots> n++\<close> loop computes the length of the filtered list.\<close>

lemma count_loop: "foldl (\<lambda>n x. if P x then n + 1 else n) k xs = k + count_if P xs" for k :: int
  by (induction xs arbitrary: k) auto

section \<open>Machine integers\<close>

text \<open>A Go \<open>int\<close> sum, at its 64 bits.\<close>

definition wrap64 :: "int \<Rightarrow> int" where
  "wrap64 i = (i + 2 ^ 63) mod 2 ^ 64 - 2 ^ 63"

lemma wrap64_small: "- (2 ^ 63) \<le> i \<Longrightarrow> i < 2 ^ 63 \<Longrightarrow> wrap64 i = i"
  by (simp add: wrap64_def)

lemma wrap64_high: "2 ^ 63 \<le> i \<Longrightarrow> i < 2 ^ 64 + 2 ^ 63 \<Longrightarrow> wrap64 i = i - 2 ^ 64"
proof -
  assume a: "2 ^ 63 \<le> i" "i < 2 ^ 64 + 2 ^ 63"
  have "(i - 2 ^ 63 + 2 ^ 64) mod 2 ^ 64 = (i - 2 ^ 63) mod 2 ^ 64" by (rule mod_add_self2)
  also have "\<dots> = i - 2 ^ 63" using a by (intro mod_pos_pos_trivial) auto
  finally show ?thesis by (simp add: wrap64_def add.commute)
qed

end
