(* ===== verification/Resources.thy ===== *)
theory Resources
  imports Marvel_Prelude "HOL-Library.Char_ord" "HOL-Library.List_Lexorder"
begin

text \<open>
  The resource model of \<open>internal/api\<close>: sessions, roles and teams (\<open>types.go\<close>), the replica
  accounting of \<open>budget.go\<close> and \<open>schedule_clock.go\<close>, the hibernate mark (\<open>hibernate.go\<close>), the
  quiet test (\<open>quiet.go\<close>) and the replica bound (\<open>replicas.go\<close>).

  Each record has the fields of its struct that some modelled operation reads or writes. A Go
  pointer that may be nil is an \<open>option\<close>; a Go map is a partial map. A string type whose unknown
  values the code handles (\<open>RestartPolicy\<close>, \<open>HealthCheckType\<close>, \<open>ConvergencePosture\<close>,
  \<open>UnmeasuredMode\<close>) stays a string; the other enumerations are datatypes.
\<close>

named_theorems slot_simps \<open>the liveness and slot predicates\<close>

section \<open>Enumerations\<close>

datatype SessionState =
    SessionPending | SessionRunning | SessionSucceeded | SessionFailed
  | SessionCrashLoopBackOff | SessionCrashed

datatype HealthState = HealthUnknown | HealthAlive | HealthHealthy | HealthUnhealthy

datatype ActivityState = ActivityUnknown | ActivityActive | ActivityStalled

datatype ShiftPhase = ShiftNone | ShiftLaunching | ShiftDraining

datatype HibernateState = HibernateHibernated | HibernateWaking

datatype RuntimeMode = RuntimeModeInteractive | RuntimeModeHeadless

definition RestartAlways :: string where "RestartAlways = ''always''"
definition RestartOnFailure :: string where "RestartOnFailure = ''on-failure''"
definition RestartNever :: string where "RestartNever = ''never''"

definition HealthCheckHeartbeat :: string where "HealthCheckHeartbeat = ''heartbeat''"
definition HealthCheckProcessAlive :: string where "HealthCheckProcessAlive = ''process-alive''"

definition PostureHold :: string where "PostureHold = ''hold''"
definition PostureConverge :: string where "PostureConverge = ''converge''"

definition ContextFeedStatusline :: string where "ContextFeedStatusline = ''statusline''"

definition ContextSourceNone :: string where "ContextSourceNone = []"
definition ContextSourceAccountant :: string where "ContextSourceAccountant = ''accountant''"
definition ContextSourceHeartbeat :: string where "ContextSourceHeartbeat = ''heartbeat''"

definition GlobalRoleSupervisor :: string where "GlobalRoleSupervisor = ''supervisor''"

lemmas restart_policies = RestartAlways_def RestartOnFailure_def RestartNever_def
lemmas postures = PostureHold_def PostureConverge_def
lemmas healthcheck_types = HealthCheckHeartbeat_def HealthCheckProcessAlive_def

section \<open>Structures\<close>

record HealthCheck =
  hc_Type :: string
  hc_Timeout :: duration
  hc_FailureThreshold :: int

record Runtime =
  rt_Name :: string
  rt_Mode :: RuntimeMode
  rt_ContextFeed :: string
  rt_Backend :: string

record Session =
  sess_WorkDir :: string
  sess_Name :: string
  sess_Workspace :: string
  sess_Team :: string
  sess_Role :: string
  sess_Generation :: int
  sess_Runtime :: Runtime
  sess_State :: SessionState
  sess_LastHeartbeat :: time
  sess_HealthState :: HealthState
  sess_ActivityState :: ActivityState
  sess_FailureCount :: int
  sess_RestartCount :: int
  sess_LastHealthCheck :: time
  sess_CreatedAt :: time
  sess_PausedTotal :: duration
  sess_PauseAppliedSince :: time
  sess_HarnessHome :: string
  sess_Predecessor :: string
  sess_HandoffRequestedAt :: time
  sess_ExitStatus :: string
  sess_Firing :: string
  sess_Reason :: string
  sess_ContextAt :: time
  sess_ContextTokens :: int
  sess_ContextLimit :: int
  sess_ContextSource :: string
  sess_ContextRequests :: int
  sess_SpendOut :: "int option"
  sess_SpendPromptTokens :: "int option"
  sess_HeartbeatTokenHash :: string
  sess_Ending :: bool
  sess_PaneID :: string
  sess_KillError :: string
  sess_TotalsChangedAt :: time

record ScheduleHistory =
  sh_Succeeded :: int
  sh_Failed :: int

record SchedulePolicy =
  sp_Cron :: string
  sp_Timezone :: string
  sp_DSTAck :: bool
  sp_Concurrency :: string
  sp_StartingDeadline :: duration
  sp_ActiveDeadline :: duration
  sp_Jitter :: duration
  sp_StaleAfter :: duration
  sp_Retries :: int
  sp_OnFailure :: string
  sp_History :: "ScheduleHistory option"
  sp_Suspend :: bool

record ShiftCondition =
  sc_On :: string
  sc_HeadroomTokens :: int
  sc_MaxAge :: duration
  sc_QuietFor :: duration
  sc_MaxDefer :: duration

record ShiftPolicy =
  shp_On :: string
  shp_HeadroomTokens :: int
  shp_Any :: "ShiftCondition list"
  shp_Handoff :: string
  shp_HandoffMarker :: string
  shp_HandoffWindow :: duration

record Role =
  role_Name :: string
  role_Replicas :: int
  role_WorkDir :: string
  role_Runtime :: Runtime
  role_RestartPolicy :: string
  role_GlobalRole :: string
  role_HealthCheck :: "HealthCheck option"
  role_Schedule :: "SchedulePolicy option"
  role_MaxRestarts :: int
  role_ActivityTimeout :: duration
  role_Writes :: "string list"
  role_Shift :: "ShiftPolicy option"

record ShiftRequest =
  sr_Session :: string
  sr_RequestedAt :: time
  sr_Cause :: string
  sr_NoticeUndelivered :: string
  sr_Escalated :: bool

record ShiftState =
  sh_Phase :: ShiftPhase
  sh_OldGeneration :: int
  sh_RoleIndex :: nat
  sh_Roles :: "string list"
  sh_StartedAt :: time
  sh_Drained :: "string \<rightharpoonup> int"
  sh_HandoffRequests :: "string \<rightharpoonup> ShiftRequest"

record Budget =
  MaxSessions :: int
  MaxTokens :: int
  OnUnmeasured :: string

record AdmissionState =
  as_Held :: bool
  as_Role :: string
  as_Reason :: string
  as_Since :: time

record HibernateMark =
  hm_State :: HibernateState
  hm_Since :: time
  hm_Roles :: "string list"
  hm_Seats :: "string list"

record TeamPruning =
  tp_Source :: string
  tp_At :: time

record TeamClaims =
  tc_Sources :: "(string \<times> time) list"
  tc_ReleasedBy :: string

record RetireRequest =
  rq_Session :: string
  rq_Role :: string
  rq_RequestedAt :: time
  rq_Window :: duration
  rq_Path :: string
  rq_Marker :: string
  rq_NoticeUndelivered :: string

record Team =
  team_Name :: string
  team_Workspace :: string
  team_Roles :: "Role list"
  team_WorkDir :: string
  team_Budget :: Budget
  team_Generation :: int
  team_Shift :: ShiftState
  team_ShiftRequests :: "string \<rightharpoonup> ShiftRequest"
  team_Admission :: AdmissionState
  team_ConvergencePosture :: string
  team_Pruning :: "TeamPruning option"
  team_Retiring :: "(string \<times> RetireRequest) list"
  team_Hibernate :: "HibernateMark option"
  team_Claims :: "TeamClaims option"
  team_HibernateRequests :: "(string \<times> ShiftRequest) list"

text \<open>The zero values \<open>api.ShiftState{}\<close> and \<open>api.AdmissionState{}\<close>.\<close>

definition no_shift :: ShiftState where
  "no_shift = \<lparr>sh_Phase = ShiftNone, sh_OldGeneration = 0, sh_RoleIndex = 0, sh_Roles = [],
     sh_StartedAt = zero_time, sh_Drained = Map.empty, sh_HandoffRequests = Map.empty\<rparr>"

definition no_admission :: AdmissionState where
  "no_admission = \<lparr>as_Held = False, as_Role = [], as_Reason = [], as_Since = zero_time\<rparr>"

section \<open>Keys and ages\<close>

definition session_key :: "Session \<Rightarrow> string" where
  "session_key s = sess_Workspace s @ ''/'' @ sess_Name s"

definition team_key :: "Team \<Rightarrow> string" where
  "team_key t = team_Workspace t @ ''/'' @ team_Name t"

definition role_key :: "string \<Rightarrow> string \<Rightarrow> string \<Rightarrow> string" where
  "role_key workspace team role = workspace @ ''/'' @ team @ ''/'' @ role"

definition AgeAt :: "Session \<Rightarrow> time \<Rightarrow> duration" where
  "AgeAt s now =
     (let age = time_sub now (sess_CreatedAt s);
          age' = (if 0 < sess_PausedTotal s then age - sess_PausedTotal s else age)
      in max age' 0)"

section \<open>Liveness and replica slots\<close>

fun CountsAsAlive :: "SessionState \<Rightarrow> bool" where
  "CountsAsAlive SessionPending = True"
| "CountsAsAlive SessionRunning = True"
| "CountsAsAlive SessionCrashLoopBackOff = True"
| "CountsAsAlive _ = False"

abbreviation alive :: "Session \<Rightarrow> bool" where
  "alive s \<equiv> CountsAsAlive (sess_State s)"

definition CountAlive :: "Session list \<Rightarrow> int" where
  "CountAlive sessions = foldl (\<lambda>n s. if alive s then n + 1 else n) 0 sessions"

definition ExitConfig :: string where "ExitConfig = ''78''"

definition IsConfigError :: "Session \<Rightarrow> bool" where
  [slot_simps]: "IsConfigError s \<longleftrightarrow>
     rt_Mode (sess_Runtime s) = RuntimeModeHeadless \<and> sess_State s = SessionFailed \<and>
     sess_ExitStatus s = ExitConfig"

definition OccupiesReplicaSlot :: "Session \<Rightarrow> bool" where
  [slot_simps]: "OccupiesReplicaSlot s \<longleftrightarrow>
     (if alive s then True
      else rt_Mode (sess_Runtime s) = RuntimeModeHeadless \<and>
           (sess_State s = SessionSucceeded \<or> IsConfigError s))"

definition CountReplicaSlots :: "Session list \<Rightarrow> int" where
  "CountReplicaSlots sessions =
     foldl (\<lambda>n s. if OccupiesReplicaSlot s then n + 1 else n) 0 sessions"

definition OccupiesFiringSlot :: "Session \<Rightarrow> string \<Rightarrow> bool" where
  [slot_simps]: "OccupiesFiringSlot s firing \<longleftrightarrow>
     (if firing = [] \<or> sess_Firing s \<noteq> firing then False
      else alive s \<or> sess_State s = SessionSucceeded)"

definition CountFiringSlots :: "Session list \<Rightarrow> string \<Rightarrow> int" where
  "CountFiringSlots sessions firing =
     foldl (\<lambda>n s. if OccupiesFiringSlot s firing then n + 1 else n) 0 sessions"

text \<open>\<open>api.Budget.Declared\<close>, \<open>Unmeasured\<close> and \<open>Team.DesiredReplicas\<close>, \<open>Team.Posture\<close>.\<close>

definition Declared :: "Budget \<Rightarrow> bool" where
  "Declared b \<longleftrightarrow> 0 < MaxSessions b \<or> 0 < MaxTokens b"

definition UnmeasuredRefuse :: string where "UnmeasuredRefuse = ''refuse''"
definition UnmeasuredAdmit :: string where "UnmeasuredAdmit = ''admit''"

definition Unmeasured_mode :: "Budget \<Rightarrow> string" where
  "Unmeasured_mode b = (if OnUnmeasured b = UnmeasuredRefuse then UnmeasuredRefuse else UnmeasuredAdmit)"

definition DesiredReplicas :: "Team \<Rightarrow> Role \<Rightarrow> int" where
  "DesiredReplicas t r = (if team_Pruning t \<noteq> None then 0 else role_Replicas r)"

definition Posture :: "Team \<Rightarrow> string" where
  "Posture t = (if team_ConvergencePosture t = PostureConverge then PostureConverge else PostureHold)"

text \<open>\<open>api.ValidateReplicas\<close>: \<open>Some\<close> is the error text.\<close>

definition MinScaleReplicas :: int where "MinScaleReplicas = 0"

definition ValidateReplicas :: "string \<Rightarrow> string \<Rightarrow> int \<Rightarrow> string option" where
  "ValidateReplicas team role n =
     (if n < MinScaleReplicas
      then Some (''team '' @ team @ '' role '' @ role @ '': replicas '' @ itoa n @
                 '' is below the minimum of '' @ itoa MinScaleReplicas)
      else None)"

section \<open>The quiet test\<close>

definition DefaultQuietWindow :: duration where "DefaultQuietWindow = 10 * minute"

definition QuietWindow :: "Role option \<Rightarrow> duration \<Rightarrow> duration" where
  "QuietWindow role cluster =
     (case role of
        Some r \<Rightarrow> if 0 < role_ActivityTimeout r then role_ActivityTimeout r
                  else if 0 < cluster then cluster else DefaultQuietWindow
      | None \<Rightarrow> if 0 < cluster then cluster else DefaultQuietWindow)"

definition Quiet :: "Session \<Rightarrow> duration \<Rightarrow> time \<Rightarrow> bool" where
  "Quiet s window now \<longleftrightarrow> is_zero (sess_ContextAt s) \<or> window < time_sub now (sess_ContextAt s)"

section \<open>The hibernate mark\<close>

definition Covers :: "HibernateMark option \<Rightarrow> string \<Rightarrow> bool" where
  "Covers m role = (case m of None \<Rightarrow> False | Some m \<Rightarrow> hm_Roles m = [] \<or> role \<in> set (hm_Roles m))"

definition IsSupervisorRole :: "Role \<Rightarrow> bool" where
  "IsSupervisorRole r \<longleftrightarrow> role_GlobalRole r = GlobalRoleSupervisor \<or>
     (role_GlobalRole r = [] \<and> role_Name r = ''supervisor'')"

text \<open>\<open>slices.Sort\<close> on strings is bytewise, the lexicographic order of \<open>Char_ord\<close>; \<open>slices.Compact\<close> drops
  adjacent repeats.\<close>

definition HibernateRolesAfter :: "HibernateMark option \<Rightarrow> string list \<Rightarrow> string list" where
  "HibernateRolesAfter prev roles =
     (if roles = [] \<or> (case prev of Some m \<Rightarrow> hm_Roles m = [] | None \<Rightarrow> False) then []
      else let out = (case prev of None \<Rightarrow> [] | Some m \<Rightarrow> hm_Roles m) @ roles
           in remdups_adj (sort out))"

definition BackendNone :: string where "BackendNone = ''none''"

definition BackendLabel :: "Role \<Rightarrow> string" where
  "BackendLabel r = (if rt_Backend (role_Runtime r) = [] then BackendNone else rt_Backend (role_Runtime r))"

fun SelectRoles :: "Role list \<Rightarrow> string list \<Rightarrow> string list \<Rightarrow> string list" where
  "SelectRoles [] include except = []"
| "SelectRoles (r # rs) include except =
     (if include \<noteq> [] \<and> BackendLabel r \<notin> set include then SelectRoles rs include except
      else if BackendLabel r \<in> set except then SelectRoles rs include except
      else role_Name r # SelectRoles rs include except)"

section \<open>A small team\<close>

text \<open>The instance at which the properties of the development are applied.\<close>

definition example_runtime :: Runtime where
  "example_runtime = \<lparr>rt_Name = ''claude'', rt_Mode = RuntimeModeInteractive, rt_ContextFeed = [], rt_Backend = []\<rparr>"

definition example_session :: "string \<Rightarrow> string \<Rightarrow> int \<Rightarrow> time \<Rightarrow> Session" where
  "example_session name role gen created =
     \<lparr>sess_WorkDir = [], sess_Name = name, sess_Workspace = ''ws'', sess_Team = ''squad'', sess_Role = role,
      sess_Generation = gen, sess_Runtime = example_runtime, sess_State = SessionRunning,
      sess_LastHeartbeat = created, sess_HealthState = HealthUnknown, sess_ActivityState = ActivityUnknown,
      sess_FailureCount = 0, sess_RestartCount = 0, sess_LastHealthCheck = zero_time, sess_CreatedAt = created,
      sess_PausedTotal = 0, sess_PauseAppliedSince = zero_time, sess_HarnessHome = [], sess_Predecessor = [], sess_HandoffRequestedAt = zero_time, sess_ExitStatus = [],
      sess_Firing = [], sess_Reason = [], sess_ContextAt = zero_time, sess_ContextTokens = 0, sess_ContextLimit = 0,
      sess_ContextSource = [], sess_ContextRequests = 0, sess_SpendOut = None, sess_SpendPromptTokens = None,
      sess_HeartbeatTokenHash = [], sess_Ending = False, sess_PaneID = ''%1'', sess_KillError = [],
      sess_TotalsChangedAt = zero_time\<rparr>"

definition example_role :: "string \<Rightarrow> int \<Rightarrow> Role" where
  "example_role name n =
     \<lparr>role_Name = name, role_Replicas = n, role_WorkDir = [], role_Runtime = example_runtime,
      role_RestartPolicy = RestartAlways, role_GlobalRole = [], role_HealthCheck = None, role_Schedule = None,
      role_MaxRestarts = 3, role_ActivityTimeout = 0, role_Writes = [], role_Shift = None\<rparr>"

definition example_team :: Team where
  "example_team =
     \<lparr>team_Name = ''squad'', team_Workspace = ''ws'',
      team_Roles = [example_role ''supervisor'' 1, example_role ''dev'' 2], team_WorkDir = [],
      team_Budget = \<lparr>MaxSessions = 0, MaxTokens = 0, OnUnmeasured = []\<rparr>, team_Generation = 1,
      team_Shift = no_shift, team_ShiftRequests = Map.empty, team_Admission = no_admission,
      team_ConvergencePosture = PostureConverge, team_Pruning = None, team_Retiring = [],
      team_Hibernate = None, team_Claims = None, team_HibernateRequests = []\<rparr>"

lemmas example_defs = example_runtime_def example_session_def example_role_def example_team_def
  no_shift_def no_admission_def

section \<open>Facts the components share\<close>

lemma CountAlive_eq: "CountAlive ss = count_if alive ss"
  by (simp add: CountAlive_def count_loop)

lemma CountReplicaSlots_eq: "CountReplicaSlots ss = count_if OccupiesReplicaSlot ss"
  by (simp add: CountReplicaSlots_def count_loop)

lemma CountFiringSlots_eq: "CountFiringSlots ss f = count_if (\<lambda>s. OccupiesFiringSlot s f) ss"
  by (simp add: CountFiringSlots_def count_loop)

lemmas slot_counts = CountAlive_eq CountReplicaSlots_eq CountFiringSlots_eq

lemma count_if_nonneg: "0 \<le> count_if P xs"
  by simp

lemma count_if_le_length: "count_if P xs \<le> int (length xs)"
  by simp

lemma count_if_mono: "(\<And>x. x \<in> set xs \<Longrightarrow> P x \<Longrightarrow> Q x) \<Longrightarrow> count_if P xs \<le> count_if Q xs"
  by (induction xs) auto

lemma count_if_mset: "mset xs = mset ys \<Longrightarrow> count_if P xs = count_if P ys"
  by (metis mset_filter size_mset)

lemma alive_occupies: "alive s \<Longrightarrow> OccupiesReplicaSlot s"
  by (simp add: slot_simps)

lemma AgeAt_nonneg [simp]: "0 \<le> AgeAt s now"
  by (simp add: AgeAt_def Let_def)

lemma AgeAt_le: "sess_CreatedAt s \<le> now \<Longrightarrow> AgeAt s now \<le> now - sess_CreatedAt s"
  by (auto simp: AgeAt_def Let_def time_sub_def max_duration_def min_duration_def)

lemma SelectRoles_eq:
  "SelectRoles rs include except =
     map role_Name (filter (\<lambda>r. (include = [] \<or> BackendLabel r \<in> set include) \<and>
                                BackendLabel r \<notin> set except) rs)"
  by (induction rs) auto

text \<open>
  Replica accounting (ADR-010): an interactive session holds its replica slot exactly while its
  process is alive; a headless one holds it while alive, once it succeeded, and after an exit 78,
  and in no other state.
\<close>

theorem replica_slot_rule:
  "OccupiesReplicaSlot s \<longleftrightarrow>
     (case rt_Mode (sess_Runtime s) of
        RuntimeModeInteractive \<Rightarrow> sess_State s \<in> {SessionPending, SessionRunning, SessionCrashLoopBackOff}
      | RuntimeModeHeadless \<Rightarrow>
          sess_State s \<in> {SessionPending, SessionRunning, SessionCrashLoopBackOff, SessionSucceeded} \<or>
          (sess_State s = SessionFailed \<and> sess_ExitStatus s = ''78''))"
  by (cases "sess_State s"; cases "rt_Mode (sess_Runtime s)") (simp_all add: slot_simps ExitConfig_def)

text \<open>
  Adding a hibernate to a team's mark covers exactly the roles the old mark covered and the
  roles just hibernated (all of them for a whole-team hibernate), and the stored role list is
  sorted without repeats.
\<close>

theorem HibernateRolesAfter_covers:
  "(Covers (Some (m\<lparr>hm_Roles := HibernateRolesAfter prev roles\<rparr>)) r \<longleftrightarrow>
     Covers prev r \<or> roles = [] \<or> r \<in> set roles) \<and>
   sorted (HibernateRolesAfter prev roles) \<and> distinct (HibernateRolesAfter prev roles)"
proof -
  have ne: "remdups_adj (sort (xs @ roles)) \<noteq> []" if "roles \<noteq> []" for xs
    using that by (metis append_is_Nil_conv remdups_adj_Nil_iff set_empty set_sort)
  have "Covers (Some (m\<lparr>hm_Roles := HibernateRolesAfter prev roles\<rparr>)) r \<longleftrightarrow>
     Covers prev r \<or> roles = [] \<or> r \<in> set roles"
    using ne[of "[]"] ne[of "hm_Roles (the prev)"]
    by (auto simp: Covers_def HibernateRolesAfter_def Let_def split: option.splits)
  moreover have "sorted (HibernateRolesAfter prev roles) \<and> distinct (HibernateRolesAfter prev roles)"
    by (auto simp: HibernateRolesAfter_def Let_def sorted_remdups_adj distinct_remdups_adj_sorted)
  ultimately show ?thesis by simp
qed

end
