(* ===== verification/Schedule_Status.thy ===== *)
theory Schedule_Status
  imports Resources
begin

text \<open>
  \<open>internal/api/schedule_status.go\<close>: the run history and the freshness alarm a scheduled role keeps
  beside its spec. The token figures of a run (\<open>RunTokens\<close>) are carried by the code and read by
  no operation modelled here, so the record leaves them out. The store half of the file
  (\<open>UpdateScheduleStatus\<close> and its companions) is in \<open>Store\<close>.
\<close>

datatype RunOutcome = RunSucceeded | RunFailed | RunCancelled

record RunRecord =
  run_Session :: string
  run_Firing :: string
  run_DueAt :: time
  run_CatchUp :: bool
  run_StartedAt :: time
  run_EndedAt :: time
  run_Outcome :: RunOutcome
  run_ExitStatus :: string
  run_Result :: string
  run_ResultTruncated :: bool
  run_StderrTail :: string

record ScheduleStatus =
  ss_Key :: string
  ss_Since :: time
  ss_LastSucceededAt :: time
  ss_Stale :: bool
  ss_StaleChangedAt :: time
  ss_History :: "RunRecord list"
  ss_SpecKey :: string
  ss_NextDueAt :: time
  ss_NextFireAt :: time
  ss_Firing :: string
  ss_FiringDueAt :: time
  ss_FiringCatchUp :: bool
  ss_FiringMissed :: int
  ss_Attempts :: int
  ss_RetryAfter :: time
  ss_Settled :: bool
  ss_Frozen :: bool
  ss_Suspended :: bool
  ss_PausedSinceAnchor :: duration
  ss_PauseAppliedSince :: time

text \<open>The zero value with its key, as a first update finds it.\<close>

definition new_status :: "string \<Rightarrow> ScheduleStatus" where
  "new_status key =
     \<lparr>ss_Key = key, ss_Since = zero_time, ss_LastSucceededAt = zero_time, ss_Stale = False,
      ss_StaleChangedAt = zero_time, ss_History = [], ss_SpecKey = [], ss_NextDueAt = zero_time,
      ss_NextFireAt = zero_time, ss_Firing = [], ss_FiringDueAt = zero_time, ss_FiringCatchUp = False,
      ss_FiringMissed = 0, ss_Attempts = 0, ss_RetryAfter = zero_time, ss_Settled = False,
      ss_Frozen = False, ss_Suspended = False, ss_PausedSinceAnchor = 0, ss_PauseAppliedSince = zero_time\<rparr>"

section \<open>The text a run record keeps\<close>

definition maxRunResultBytes :: nat where "maxRunResultBytes = 4096"
definition maxRunStderrTailBytes :: nat where "maxRunStderrTailBytes = 4096"

text \<open>\<open>utf8.RuneStart\<close>: not a continuation byte \<open>10xxxxxx\<close>.\<close>

definition rune_start :: "char \<Rightarrow> bool" where
  "rune_start c \<longleftrightarrow> (of_char c :: nat) div 64 \<noteq> 2"

text \<open>The two loops that move a cut to a rune boundary.\<close>

fun cut_back :: "string \<Rightarrow> nat \<Rightarrow> nat" where
  "cut_back s 0 = 0"
| "cut_back s (Suc n) = (if \<not> rune_start (s ! Suc n) then cut_back s n else Suc n)"

function cut_forward :: "string \<Rightarrow> nat \<Rightarrow> nat" where
  "cut_forward s n = (if n < length s \<and> \<not> rune_start (s ! n) then cut_forward s (n + 1) else n)"
  by auto
termination by (relation "measure (\<lambda>(s, n). length s - n)") auto

declare cut_forward.simps [simp del]

definition SetResult :: "string \<Rightarrow> RunRecord \<Rightarrow> RunRecord" where
  "SetResult s r =
     (let r' = r\<lparr>run_ResultTruncated := maxRunResultBytes < length s\<rparr>
      in if \<not> run_ResultTruncated r' then r'\<lparr>run_Result := s\<rparr>
         else r'\<lparr>run_Result := take (cut_back s maxRunResultBytes) s\<rparr>)"

definition SetStderrTail :: "string \<Rightarrow> RunRecord \<Rightarrow> RunRecord" where
  "SetStderrTail s r =
     (if maxRunStderrTailBytes < length s
      then r\<lparr>run_StderrTail := drop (cut_forward s (length s - maxRunStderrTailBytes)) s\<rparr>
      else r\<lparr>run_StderrTail := s\<rparr>)"

definition run_Duration :: "RunRecord \<Rightarrow> duration" where
  "run_Duration r =
     (if is_zero (run_StartedAt r) \<or> run_EndedAt r < run_StartedAt r then 0
      else time_sub (run_EndedAt r) (run_StartedAt r))"

section \<open>The run history\<close>

text \<open>\<open>ScheduleStatus.AddRun\<close>; the two loops over the history are \<open>class_excess\<close> and \<open>drop_class\<close>.\<close>

abbreviation same_class :: "bool \<Rightarrow> RunRecord \<Rightarrow> bool" where
  "same_class succeeded x \<equiv> (run_Outcome x = RunSucceeded) = succeeded"

definition class_excess :: "bool \<Rightarrow> int \<Rightarrow> RunRecord list \<Rightarrow> int" where
  "class_excess succeeded limit h = foldl (\<lambda>n x. if same_class succeeded x then n + 1 else n) (- limit) h"

fun drop_class :: "bool \<Rightarrow> int \<Rightarrow> RunRecord list \<Rightarrow> RunRecord list" where
  "drop_class succeeded excess [] = []"
| "drop_class succeeded excess (x # xs) =
     (if same_class succeeded x \<and> 0 < excess then drop_class succeeded (excess - 1) xs
      else x # drop_class succeeded excess xs)"

definition AddRun :: "RunRecord \<Rightarrow> ScheduleHistory \<Rightarrow> ScheduleStatus \<Rightarrow> ScheduleStatus" where
  "AddRun r h st =
     (let st1 = (if is_zero (ss_Since st) then st\<lparr>ss_Since := run_EndedAt r\<rparr> else st);
          st2 = (if run_Outcome r = RunSucceeded \<and> ss_LastSucceededAt st1 < run_EndedAt r
                 then st1\<lparr>ss_LastSucceededAt := run_EndedAt r, ss_PausedSinceAnchor := 0\<rparr> else st1);
          st3 = st2\<lparr>ss_History := ss_History st2 @ [r]\<rparr>;
          succeeded = (run_Outcome r = RunSucceeded);
          limit = (if succeeded then sh_Succeeded h else sh_Failed h);
          excess = class_excess succeeded limit (ss_History st3)
      in if excess \<le> 0 then st3
         else st3\<lparr>ss_History := drop_class succeeded excess (ss_History st3)\<rparr>)"

definition defaultScheduleHistorySucceeded :: int where "defaultScheduleHistorySucceeded = 3"
definition defaultScheduleHistoryFailed :: int where "defaultScheduleHistoryFailed = 3"

definition HistoryBound :: "SchedulePolicy \<Rightarrow> ScheduleHistory" where
  "HistoryBound p =
     (case sp_History p of
        None \<Rightarrow> \<lparr>sh_Succeeded = defaultScheduleHistorySucceeded, sh_Failed = defaultScheduleHistoryFailed\<rparr>
      | Some h \<Rightarrow> h)"

section \<open>The freshness alarm\<close>

text \<open>\<open>EvaluateFreshness\<close> returns the new status and whether the alarm changed.\<close>

definition EvaluateFreshness :: "time \<Rightarrow> duration \<Rightarrow> ScheduleStatus \<Rightarrow> ScheduleStatus \<times> bool" where
  "EvaluateFreshness now staleAfter st =
     (let st1 = (if is_zero (ss_Since st) then st\<lparr>ss_Since := now\<rparr> else st);
          anchor = (if is_zero (ss_LastSucceededAt st1) then ss_Since st1 else ss_LastSucceededAt st1);
          stale = (staleAfter < time_sub now anchor - max (ss_PausedSinceAnchor st1) 0)
      in if stale = ss_Stale st1 then (st1, False)
         else (st1\<lparr>ss_Stale := stale, ss_StaleChangedAt := now\<rparr>, True))"

section \<open>Properties\<close>

lemma cut_back_le: "cut_back s n \<le> n"
  by (induction n) auto

lemma cut_back_boundary: "cut_back s n = 0 \<or> rune_start (s ! cut_back s n)"
  by (induction n) auto

lemma cut_back_dropped: "cut_back s n < k \<Longrightarrow> k \<le> n \<Longrightarrow> \<not> rune_start (s ! k)"
  by (induction n) (auto split: if_splits elim: le_SucE)

lemma cut_forward_ge: "n \<le> cut_forward s n"
proof (induction s n rule: cut_forward.induct)
  case (1 s n)
  then show ?case by (subst cut_forward.simps) auto
qed

lemma cut_forward_boundary: "cut_forward s n < length s \<Longrightarrow> rune_start (s ! cut_forward s n)"
proof (induction s n rule: cut_forward.induct)
  case (1 s n)
  then show ?case by (subst cut_forward.simps) (use 1 in \<open>auto simp: cut_forward.simps[of s n]\<close>)
qed

lemma class_excess_eq: "class_excess b limit h = count_if (same_class b) h - limit"
  by (simp add: class_excess_def count_loop)

text \<open>Dropping touches one class, takes its oldest members, and keeps the order of the rest.\<close>

lemma drop_class_other: "filter (same_class (\<not> b)) (drop_class b n h) = filter (same_class (\<not> b)) h"
  by (induction b n h rule: drop_class.induct) auto

lemma drop_class_same: "filter (same_class b) (drop_class b n h) = drop (nat n) (filter (same_class b) h)"
proof (induction b n h rule: drop_class.induct)
  case (2 b n x xs)
  then show ?case by (cases "0 < n") (auto simp: drop_Cons' nat_diff_distrib)
qed simp

lemma drop_class_subseq: "subseq (drop_class b n h) h"
  by (induction b n h rule: drop_class.induct) auto

definition class_limit :: "bool \<Rightarrow> ScheduleHistory \<Rightarrow> int" where
  "class_limit succeeded h = (if succeeded then sh_Succeeded h else sh_Failed h)"

lemma AddRun_history:
  fixes r h st
  defines "b \<equiv> run_Outcome r = RunSucceeded" and "H \<equiv> ss_History st @ [r]"
  shows "ss_History (AddRun r h st) = drop_class b (class_excess b (class_limit b h) H) H"
proof -
  have none: "drop_class b n xs = xs" if "n \<le> 0" for n xs
    using that by (induction xs) auto
  show ?thesis unfolding b_def H_def using none[unfolded b_def]
    by (auto simp: AddRun_def Let_def class_limit_def)
qed

text \<open>
  \<open>AddRun\<close> bounds the history per class: of the run's own class exactly the newest
  \<open>history\<close>-many runs stay, in order, the other class is left as it was, and the record as a whole
  is the old history with the run appended, less the dropped runs.
\<close>

theorem AddRun_keeps_newest:
  fixes r h st
  defines "b \<equiv> run_Outcome r = RunSucceeded" and "H \<equiv> ss_History st @ [r]"
  shows "filter (same_class b) (ss_History (AddRun r h st)) =
           drop (nat (count_if (same_class b) H - class_limit b h)) (filter (same_class b) H) \<and>
         filter (same_class (\<not> b)) (ss_History (AddRun r h st)) = filter (same_class (\<not> b)) (ss_History st) \<and>
         subseq (ss_History (AddRun r h st)) H"
  unfolding AddRun_history b_def H_def
  by (simp add: drop_class_same drop_class_other drop_class_subseq class_excess_eq)

lemma AddRun_failure_keeps_success:
  assumes "run_Outcome r \<noteq> RunSucceeded"
  shows "filter (same_class True) (ss_History (AddRun r h st)) = filter (same_class True) (ss_History st)"
    and "ss_LastSucceededAt (AddRun r h st) = ss_LastSucceededAt st"
  using assms drop_class_other[of False] by (auto simp: AddRun_def Let_def)

text \<open>
  A streak of failed or cancelled runs, however long, cannot push a success out of the history
  or move the last-success time the freshness alarm reads.
\<close>

theorem failure_streak_keeps_successes:
  assumes "\<forall>r\<in>set rs. run_Outcome r \<noteq> RunSucceeded"
  shows "filter (same_class True) (ss_History (foldl (\<lambda>st r. AddRun r h st) st rs)) =
           filter (same_class True) (ss_History st) \<and>
         ss_LastSucceededAt (foldl (\<lambda>st r. AddRun r h st) st rs) = ss_LastSucceededAt st"
  using assms by (induction rs arbitrary: st) (auto simp: AddRun_failure_keeps_success[simplified])

definition example_run :: "RunOutcome \<Rightarrow> time \<Rightarrow> RunRecord" where
  "example_run oc t = \<lparr>run_Session = ''ws/s'', run_Firing = [], run_DueAt = zero_time, run_CatchUp = False,
     run_StartedAt = zero_time, run_EndedAt = t, run_Outcome = oc, run_ExitStatus = [], run_Result = [],
     run_ResultTruncated = False, run_StderrTail = []\<rparr>"

theorem failure_streak_keeps_successes_witness:
  "ss_LastSucceededAt (foldl (\<lambda>st r. AddRun r \<lparr>sh_Succeeded = 1, sh_Failed = 1\<rparr> st)
     (AddRun (example_run RunSucceeded 7) \<lparr>sh_Succeeded = 1, sh_Failed = 1\<rparr> (new_status ''k''))
     [example_run RunFailed 8, example_run RunCancelled 9]) = 7"
proof -
  let ?st = "AddRun (example_run RunSucceeded 7) \<lparr>sh_Succeeded = 1, sh_Failed = 1\<rparr> (new_status ''k'')"
  let ?rs = "[example_run RunFailed 8, example_run RunCancelled 9]"
  have "\<forall>r\<in>set ?rs. run_Outcome r \<noteq> RunSucceeded" by (simp add: example_run_def)
  from failure_streak_keeps_successes[OF this, of "\<lparr>sh_Succeeded = 1, sh_Failed = 1\<rparr>" ?st]
  have "ss_LastSucceededAt (foldl (\<lambda>st r. AddRun r \<lparr>sh_Succeeded = 1, sh_Failed = 1\<rparr> st) ?st ?rs) =
          ss_LastSucceededAt ?st" by simp
  also have "ss_LastSucceededAt ?st = 7"
    by (simp add: AddRun_def new_status_def example_run_def class_excess_def Let_def time_simps)
  finally show ?thesis .
qed

text \<open>
  The result text of a run: a text within the cap is stored whole; a longer one is stored as a
  prefix of at most 4096 bytes that ends on a rune boundary, and in a text with no four
  continuation bytes in a row (every UTF-8 text) at most three bytes are lost to that.
\<close>

theorem SetResult_prefix:
  "(length s \<le> maxRunResultBytes \<longrightarrow> run_Result (SetResult s r) = s \<and> \<not> run_ResultTruncated (SetResult s r)) \<and>
   (maxRunResultBytes < length s \<longrightarrow>
      (\<exists>n. run_Result (SetResult s r) = take n s \<and> n \<le> maxRunResultBytes \<and> (n = 0 \<or> rune_start (s ! n)) \<and>
           ((\<forall>i. i + 3 < length s \<longrightarrow> (\<exists>k \<le> 3. rune_start (s ! (i + k)))) \<longrightarrow> maxRunResultBytes \<le> n + 3)) \<and>
      run_ResultTruncated (SetResult s r))"
proof (cases "length s \<le> maxRunResultBytes")
  case True
  then show ?thesis by (simp add: SetResult_def Let_def)
next
  case False
  let ?n = "cut_back s maxRunResultBytes"
  have close: "maxRunResultBytes \<le> ?n + 3"
    if runs: "\<forall>i. i + 3 < length s \<longrightarrow> (\<exists>k \<le> 3. rune_start (s ! (i + k)))"
  proof (rule ccontr)
    assume far: "\<not> maxRunResultBytes \<le> ?n + 3"
    let ?i = "maxRunResultBytes - 3"
    have "?i + 3 < length s" using False by (simp add: maxRunResultBytes_def)
    with runs obtain k where "k \<le> 3" "rune_start (s ! (?i + k))" by blast
    moreover have "?n < ?i + k" "?i + k \<le> maxRunResultBytes"
      using far \<open>k \<le> 3\<close> by (simp_all add: maxRunResultBytes_def)
    ultimately show False using cut_back_dropped by blast
  qed
  have cut: "run_Result (SetResult s r) = take ?n s" "run_ResultTruncated (SetResult s r)"
    using False by (simp_all add: SetResult_def Let_def)
  have "?n \<le> maxRunResultBytes" "?n = 0 \<or> rune_start (s ! ?n)" by (rule cut_back_le, rule cut_back_boundary)
  with False cut close show ?thesis by (intro conjI impI exI[of _ ?n]) simp_all
qed

theorem SetResult_prefix_witness:
  "run_Result (SetResult ''done'' (example_run RunSucceeded 7)) = ''done''"
  using SetResult_prefix[of "''done''" "example_run RunSucceeded 7"] by (simp add: maxRunResultBytes_def)

text \<open>
  The freshness alarm: after an evaluation the schedule is stale exactly when more than
  \<open>stale_after\<close> of unpaused time has passed since the last success (or since the schedule was first
  seen), a change is reported exactly when the alarm flips, and evaluating again at the same
  time reports none.
\<close>

definition fresh_anchor :: "time \<Rightarrow> ScheduleStatus \<Rightarrow> time" where
  "fresh_anchor now st =
     (if ss_LastSucceededAt st \<noteq> 0 then ss_LastSucceededAt st else if ss_Since st \<noteq> 0 then ss_Since st else now)"

theorem EvaluateFreshness_stale:
  "ss_Stale (fst (EvaluateFreshness now d st)) =
     (d < time_sub now (fresh_anchor now st) - max (ss_PausedSinceAnchor st) 0) \<and>
   snd (EvaluateFreshness now d st) = (ss_Stale (fst (EvaluateFreshness now d st)) \<noteq> ss_Stale st) \<and>
   snd (EvaluateFreshness now d (fst (EvaluateFreshness now d st))) = False"
  by (auto simp: EvaluateFreshness_def fresh_anchor_def Let_def is_zero_def)

end
