(* ===== verification/Readiness.thy ===== *)
theory Readiness
  imports Marvel_Prelude
begin

text \<open>
  \<open>internal/asof/asof.go\<close>, the cell with an age, and the record half of
  \<open>internal/api/readiness.go\<close>: the stored form of a seat's readiness, the closed shapes a record
  is checked against, and the cells built from records. The store operations on these records
  (\<open>RecordDuty\<close>, \<open>deleteSeatDutiesLocked\<close>, the load) are in \<open>Store\<close>.
\<close>

section \<open>A reading with its age\<close>

datatype CellState = Fresh | Stale | NoneObserved

record 'a Cell =
  cell_Value :: 'a
  cell_ObservedAt :: time
  cell_ValidUntil :: time
  cell_Source :: string

definition cell_State :: "'a Cell \<Rightarrow> time \<Rightarrow> CellState" where
  "cell_State c now =
     (if is_zero (cell_ObservedAt c) then NoneObserved
      else if \<not> is_zero (cell_ValidUntil c) \<and> cell_ValidUntil c < now then Stale
      else Fresh)"

definition DashNone :: string where "DashNone = ''-''"
definition MarkStale :: string where "MarkStale = ''?''"

definition Render :: "'a Cell \<Rightarrow> time \<Rightarrow> ('a \<Rightarrow> string) \<Rightarrow> string" where
  "Render c now format =
     (case cell_State c now of NoneObserved \<Rightarrow> DashNone | Stale \<Rightarrow> MarkStale | Fresh \<Rightarrow> format (cell_Value c))"

section \<open>The record\<close>

definition DutyProven :: string where "DutyProven = ''proven''"
definition DutyFail :: string where "DutyFail = ''fail''"
definition DutyUnproven :: string where "DutyUnproven = ''unproven''"
definition DutyWithdrawn :: string where "DutyWithdrawn = ''withdrawn''"

lemmas duty_states = DutyProven_def DutyFail_def DutyUnproven_def DutyWithdrawn_def

definition SetByDaemon :: string where "SetByDaemon = ''daemon''"

record DutyRecord =
  duty_Seat :: string
  duty_Duty :: string
  duty_Withdrawn :: bool
  duty_State :: string
  duty_Source :: string
  duty_Seq :: int
  duty_ObservedAt :: time
  duty_ValidUntil :: time
  duty_SetBy :: string

definition dutyVantages :: "string list" where
  "dutyVantages = [''seat'', ''pane'', ''host'', ''peer'']"

definition dutyStages :: "string list" where
  "dutyStages = [''reach'', ''auth'', ''dialog'', ''denial'', ''turn'', ''ack'']"

definition dutyCodes :: "string list" where
  "dutyCodes = [''dns'', ''connect'', ''tls'', ''auth-rejected'', ''forbidden'', ''rate-limited'',
     ''unsupported'', ''no-turn-reader'', ''no-dialog-pattern'',
     ''consent'', ''trust'', ''folder-trust'', ''logged-out'', ''unknown'']"

definition withdrawnSources :: "string list" where
  "withdrawnSources = [''by:seat'', ''by:supervisor'', ''by:director'']"

definition dutyWriters :: "string list" where "dutyWriters = [SetByDaemon]"

definition dutyNameMax :: nat where "dutyNameMax = 48"
definition dutySeatMax :: nat where "dutySeatMax = 128"

text \<open>The two anchored patterns, as the automata that decide them.\<close>

definition is_lower :: "char \<Rightarrow> bool" where
  "is_lower c \<longleftrightarrow> 97 \<le> (of_char c :: nat) \<and> (of_char c :: nat) \<le> 122"

definition is_upper :: "char \<Rightarrow> bool" where
  "is_upper c \<longleftrightarrow> 65 \<le> (of_char c :: nat) \<and> (of_char c :: nat) \<le> 90"

text \<open>\<open>^[a-z][a-z0-9]*([.-][a-z0-9]+)*$\<close>; the flag says the last character was no separator.\<close>

fun duty_tail :: "bool \<Rightarrow> string \<Rightarrow> bool" where
  "duty_tail ok [] = ok"
| "duty_tail ok (c # cs) =
     (if is_lower c \<or> is_digit c then duty_tail True cs
      else if ok \<and> (c = CHR ''.'' \<or> c = CHR ''-'') then duty_tail False cs
      else False)"

definition dutyNameRE :: "string \<Rightarrow> bool" where
  "dutyNameRE s = (case s of [] \<Rightarrow> False | c # cs \<Rightarrow> is_lower c \<and> duty_tail True cs)"

text \<open>\<open>^[A-Za-z0-9][A-Za-z0-9._/-]*$\<close>.\<close>

definition seat_char :: "char \<Rightarrow> bool" where
  "seat_char c \<longleftrightarrow> is_upper c \<or> is_lower c \<or> is_digit c \<or> c \<in> set ''._/-''"

definition dutySeatRE :: "string \<Rightarrow> bool" where
  "dutySeatRE s = (case s of [] \<Rightarrow> False
     | c # cs \<Rightarrow> (is_upper c \<or> is_lower c \<or> is_digit c) \<and> list_all seat_char cs)"

definition DutyCellName :: "string \<Rightarrow> string" where "DutyCellName d = ''duty.'' @ d"
definition WithdrawnCellName :: "string \<Rightarrow> string" where "WithdrawnCellName d = ''withdrawn.'' @ d"

definition cellName :: "DutyRecord \<Rightarrow> string" where
  "cellName r = (if duty_Withdrawn r then WithdrawnCellName (duty_Duty r) else DutyCellName (duty_Duty r))"

definition dutyKey :: "string \<Rightarrow> string \<Rightarrow> string" where
  "dutyKey seat cell = seat @ ''|'' @ cell"

definition validDutySource :: "string \<Rightarrow> bool" where
  "validDutySource s =
     (let parts = split_on (CHR '':'') s
      in if length parts < 2 \<or> 3 < length parts then False
         else if parts ! 0 \<notin> set dutyVantages \<or> parts ! 1 \<notin> set dutyStages then False
         else length parts = 2 \<or> parts ! 2 \<in> set dutyCodes)"

datatype DutyError =
    BadSeat | BadDuty | BadWriter | NoObservedAt | WithdrawnState | WithdrawnSource | WithdrawnExpires
  | NeedsValidUntil string | ValidUntilOrder | BadState | BadSource

text \<open>\<open>ValidateDutyRecord\<close>: \<open>None\<close> is the nil error. The switch on the state of an observation is
  \<open>duty_time_check\<close>.\<close>

definition duty_time_check :: "DutyRecord \<Rightarrow> DutyError option" where
  "duty_time_check r =
     (if duty_State r = DutyProven \<or> duty_State r = DutyFail then
        (if is_zero (duty_ValidUntil r) \<or> \<not> duty_ObservedAt r < duty_ValidUntil r
         then Some (NeedsValidUntil (duty_State r)) else None)
      else if duty_State r = DutyUnproven then
        (if \<not> is_zero (duty_ValidUntil r) \<and> \<not> duty_ObservedAt r < duty_ValidUntil r
         then Some ValidUntilOrder else None)
      else Some BadState)"

definition ValidateDutyRecord :: "DutyRecord \<Rightarrow> DutyError option" where
  "ValidateDutyRecord r =
     (if dutySeatMax < length (duty_Seat r) \<or> \<not> dutySeatRE (duty_Seat r) then Some BadSeat
      else if dutyNameMax < length (duty_Duty r) \<or> \<not> dutyNameRE (duty_Duty r) then Some BadDuty
      else if duty_SetBy r \<notin> set dutyWriters then Some BadWriter
      else if is_zero (duty_ObservedAt r) then Some NoObservedAt
      else if duty_Withdrawn r then
        (if duty_State r \<noteq> DutyWithdrawn then Some WithdrawnState
         else if duty_Source r \<notin> set withdrawnSources then Some WithdrawnSource
         else if \<not> is_zero (duty_ValidUntil r) then Some WithdrawnExpires
         else None)
      else
        (case duty_time_check r of
           Some e \<Rightarrow> Some e
         | None \<Rightarrow> if duty_State r = DutyUnproven \<and> duty_Source r = [] then None
                   else if \<not> validDutySource (duty_Source r) then Some BadSource
                   else None))"

section \<open>Cells from records\<close>

definition duty_cell :: "DutyRecord \<Rightarrow> string Cell" where
  "duty_cell r = \<lparr>cell_Value = duty_State r, cell_ObservedAt = duty_ObservedAt r,
     cell_ValidUntil = (if duty_Withdrawn r then zero_time else duty_ValidUntil r), cell_Source = duty_Source r\<rparr>"

text \<open>\<open>ReadinessCells\<close>: the loop threads the highest sequence number seen per cell name.\<close>

fun readiness_loop :: "DutyRecord list \<Rightarrow> (string \<rightharpoonup> int) \<Rightarrow> (string \<rightharpoonup> string Cell) \<Rightarrow> (string \<rightharpoonup> string Cell)" where
  "readiness_loop [] seqs out = out"
| "readiness_loop (r # rs) seqs out =
     (if (case seqs (cellName r) of Some prev \<Rightarrow> duty_Seq r < prev | None \<Rightarrow> False)
      then readiness_loop rs seqs out
      else readiness_loop rs (seqs(cellName r \<mapsto> duty_Seq r)) (out(cellName r \<mapsto> duty_cell r)))"

definition ReadinessCells :: "DutyRecord list \<Rightarrow> (string \<rightharpoonup> string Cell)" where
  "ReadinessCells recs = readiness_loop recs Map.empty Map.empty"

section \<open>Properties\<close>

lemma join_split_on: "join [c] (split_on c s) = s"
proof (induction s)
  case (Cons x xs)
  show ?case
  proof (cases "split_on c xs")
    case Nil
    then show ?thesis by simp
  next
    case c: (Cons y ys)
    then show ?thesis using Cons.IH by (cases ys) auto
  qed
qed simp

text \<open>The sources a validated observation can carry: a finite list of fixed words.\<close>

definition closed_sources :: "string list" where
  "closed_sources =
     concat (map (\<lambda>v. concat (map (\<lambda>st. (v @ '':'' @ st) #
        map (\<lambda>c. v @ '':'' @ st @ '':'' @ c) dutyCodes) dutyStages)) dutyVantages)"

lemma validDutySource_closed: "validDutySource s \<Longrightarrow> s \<in> set closed_sources"
proof -
  assume v: "validDutySource s"
  let ?p = "split_on (CHR '':'') s"
  have s: "join '':'' ?p = s" by (rule join_split_on)
  from v have two: "?p ! 0 \<in> set dutyVantages" "?p ! 1 \<in> set dutyStages"
    and n: "length ?p = 2 \<or> (length ?p = 3 \<and> ?p ! 2 \<in> set dutyCodes)"
    by (auto simp: validDutySource_def Let_def split: if_splits)
  from n show ?thesis
  proof
    assume "length ?p = 2"
    then obtain a b where p: "?p = [a, b]" by (auto simp: length_Suc_conv numeral_2_eq_2)
    then have "s = a @ '':'' @ b" using s by simp
    then show ?thesis using two p by (force simp: closed_sources_def)
  next
    assume c: "length ?p = 3 \<and> ?p ! 2 \<in> set dutyCodes"
    then obtain a b d where p: "?p = [a, b, d]" by (auto simp: length_Suc_conv numeral_3_eq_3)
    then have "s = a @ '':'' @ b @ '':'' @ d" using s by simp
    then show ?thesis using two p c by (force simp: closed_sources_def)
  qed
qed

lemma valid_seat_no_bar: "ValidateDutyRecord r = None \<Longrightarrow> CHR ''|'' \<notin> set (duty_Seat r)"
proof -
  assume "ValidateDutyRecord r = None"
  then have "dutySeatRE (duty_Seat r)" by (auto simp: ValidateDutyRecord_def split: if_splits)
  moreover have "\<not> seat_char (CHR ''|'')" "\<not> is_upper (CHR ''|'')" "\<not> is_lower (CHR ''|'')" "\<not> is_digit (CHR ''|'')"
    by (simp_all add: seat_char_def is_upper_def is_lower_def is_digit_def)
  ultimately show ?thesis
    by (auto simp: dutySeatRE_def list_all_iff split: list.splits)
qed

text \<open>The key of a validated record names its seat and its cell.\<close>

lemma dutyKey_inj:
  assumes "ValidateDutyRecord r = None" and "ValidateDutyRecord r' = None"
    and "dutyKey (duty_Seat r) c = dutyKey (duty_Seat r') c'"
  shows "duty_Seat r = duty_Seat r' \<and> c = c'"
proof -
  have "cut (CHR ''|'') (dutyKey (duty_Seat x) d) = (duty_Seat x, d, True)" if "ValidateDutyRecord x = None" for x d
    using cut_found[OF valid_seat_no_bar[OF that], of d] by (simp add: dutyKey_def)
  from this[OF assms(1), of c] this[OF assms(2), of c'] assms(3)
  show ?thesis by (metis prod.inject)
qed

lemma valid_record_iff:
  "ValidateDutyRecord r = None \<longleftrightarrow>
     length (duty_Seat r) \<le> dutySeatMax \<and> dutySeatRE (duty_Seat r) \<and>
     length (duty_Duty r) \<le> dutyNameMax \<and> dutyNameRE (duty_Duty r) \<and>
     duty_SetBy r \<in> set dutyWriters \<and> \<not> is_zero (duty_ObservedAt r) \<and>
     (if duty_Withdrawn r
      then duty_State r = DutyWithdrawn \<and> duty_Source r \<in> set withdrawnSources \<and> is_zero (duty_ValidUntil r)
      else duty_time_check r = None \<and>
           (validDutySource (duty_Source r) \<or> (duty_State r = DutyUnproven \<and> duty_Source r = [])))"
  by (auto simp: ValidateDutyRecord_def split: option.splits)

lemma duty_time_check_ages:
  "duty_time_check r = None \<Longrightarrow> duty_State r = DutyProven \<or> duty_State r = DutyFail \<Longrightarrow> \<not> is_zero (duty_ValidUntil r)"
  by (auto simp: duty_time_check_def split: if_splits)

text \<open>
  A record that passes \<open>ValidateDutyRecord\<close> cannot carry free text and cannot stay fresh for
  ever: its source is one of the fixed words of the vocabulary (or absent for an unproven duty),
  its writer is the daemon, and the cell of a proven or failed duty is stale once its
  \<open>valid_until\<close> has passed, while a withdrawal's cell never expires into ready.
\<close>

theorem valid_record_closed_and_ages:
  assumes "ValidateDutyRecord r = None"
  shows "duty_Source r \<in> set ([] # withdrawnSources @ closed_sources) \<and> duty_SetBy r = SetByDaemon \<and>
    (duty_Withdrawn r \<longrightarrow> cell_State (duty_cell r) now = Fresh) \<and>
    (\<not> duty_Withdrawn r \<and> duty_State r \<in> {DutyProven, DutyFail} \<and> duty_ValidUntil r < now \<longrightarrow>
       cell_State (duty_cell r) now = Stale)"
  using assms[unfolded valid_record_iff] validDutySource_closed[of "duty_Source r"] duty_time_check_ages[of r]
  by (cases "duty_Withdrawn r") (auto simp: duty_cell_def cell_State_def dutyWriters_def is_zero_def)

definition example_duty :: DutyRecord where
  "example_duty = \<lparr>duty_Seat = ''ws/dev-1'', duty_Duty = ''git.push'', duty_Withdrawn = False,
     duty_State = DutyFail, duty_Source = ''seat:auth:forbidden'', duty_Seq = 0, duty_ObservedAt = 5,
     duty_ValidUntil = 10, duty_SetBy = SetByDaemon\<rparr>"

lemma example_duty_valid: "ValidateDutyRecord example_duty = None"
  by (simp add: ValidateDutyRecord_def duty_time_check_def example_duty_def dutySeatRE_def dutyNameRE_def is_upper_def is_lower_def
      is_digit_def seat_char_def dutyWriters_def is_zero_def duty_states validDutySource_def dutyVantages_def
      dutyStages_def dutyCodes_def dutySeatMax_def dutyNameMax_def)

theorem valid_record_closed_and_ages_witness:
  "ValidateDutyRecord example_duty = None \<and> cell_State (duty_cell example_duty) 11 = Stale"
  using example_duty_valid valid_record_closed_and_ages[OF example_duty_valid, of 11]
  by (simp add: example_duty_def)

text \<open>The state of the loop after it read \<open>ds\<close>: per name, the newest record and its cell.\<close>

definition newest_cell :: "DutyRecord list \<Rightarrow> string \<Rightarrow> int \<Rightarrow> string Cell \<Rightarrow> bool" where
  "newest_cell ds n q c \<longleftrightarrow> (\<exists>r\<in>set ds. cellName r = n \<and> duty_Seq r = q \<and> c = duty_cell r) \<and>
     (\<forall>r\<in>set ds. cellName r = n \<longrightarrow> duty_Seq r \<le> q)"

fun cell_entry :: "DutyRecord list \<Rightarrow> string \<Rightarrow> int option \<Rightarrow> string Cell option \<Rightarrow> bool" where
  "cell_entry ds n None None = (n \<notin> cellName ` set ds)"
| "cell_entry ds n (Some q) (Some c) = newest_cell ds n q c"
| "cell_entry ds n _ _ = False"

lemma cell_entry_other: "n \<noteq> cellName r \<Longrightarrow> cell_entry (ds @ [r]) n q c = cell_entry ds n q c"
  by (cases q; cases c) (auto simp: newest_cell_def)

lemma cell_entry_skip:
  "cell_entry ds (cellName r) (Some q) c \<Longrightarrow> duty_Seq r < q \<Longrightarrow> cell_entry (ds @ [r]) (cellName r) (Some q) c"
  by (cases c) (auto simp: newest_cell_def)

lemma cell_entry_take:
  assumes "cell_entry ds (cellName r) q c" and "\<And>p. q = Some p \<Longrightarrow> p \<le> duty_Seq r"
  shows "cell_entry (ds @ [r]) (cellName r) (Some (duty_Seq r)) (Some (duty_cell r))"
proof -
  have "duty_Seq x \<le> duty_Seq r" if x: "x \<in> set ds" "cellName x = cellName r" for x
  proof (cases q)
    case None
    then show ?thesis using assms(1) x by (cases c) (auto intro: rev_image_eqI)
  next
    case (Some p)
    then have "duty_Seq x \<le> p" using assms(1) x by (cases c) (auto simp: newest_cell_def)
    with assms(2)[OF Some] show ?thesis by simp
  qed
  then show ?thesis by (auto simp: newest_cell_def)
qed

lemma readiness_loop_cells:
  "\<forall>n. cell_entry ds n (seqs n) (out n) \<Longrightarrow>
   \<exists>sq. \<forall>n. cell_entry (ds @ rs) n (sq n) (readiness_loop rs seqs out n)"
proof (induction rs arbitrary: ds seqs out)
  case (Cons r rs)
  show ?case
  proof (cases "\<exists>q. seqs (cellName r) = Some q \<and> duty_Seq r < q")
    case True
    then obtain q where q: "seqs (cellName r) = Some q" "duty_Seq r < q" by blast
    then have "\<forall>n. cell_entry (ds @ [r]) n (seqs n) (out n)"
      using Cons.prems cell_entry_other cell_entry_skip by metis
    from Cons.IH[OF this] q show ?thesis by simp
  next
    case False
    let ?sq = "seqs(cellName r \<mapsto> duty_Seq r)" and ?out = "out(cellName r \<mapsto> duty_cell r)"
    have "cell_entry (ds @ [r]) (cellName r) (Some (duty_Seq r)) (Some (duty_cell r))"
      using False Cons.prems by (intro cell_entry_take[of ds r "seqs (cellName r)" "out (cellName r)"]) force+
    then have "\<forall>n. cell_entry (ds @ [r]) n (?sq n) (?out n)"
      using Cons.prems cell_entry_other by simp
    from Cons.IH[OF this] have "\<exists>sq. \<forall>n. cell_entry (ds @ r # rs) n (sq n) (readiness_loop rs ?sq ?out n)"
      by (simp only: append.assoc append_Cons append_Nil)
    moreover have "readiness_loop (r # rs) seqs out = readiness_loop rs ?sq ?out"
      using False by (simp split: option.splits)
    ultimately show ?thesis by (simp only:)
  qed
qed auto

text \<open>
  C38. A seat's readiness shows the newest word on each cell. In whatever order the records come, \<open>ReadinessCells\<close> has a
  cell for exactly the names some record has, and each cell is that of a record with the highest
  sequence number of its name. When the records all validate, the cell of a duty proven or failed reads
  stale once the newest record's \<open>valid_until\<close> has passed, and that of a withdrawn duty always reads
  fresh.
\<close>

theorem ReadinessCells_newest:
  "case ReadinessCells recs n of
     None \<Rightarrow> n \<notin> cellName ` set recs
   | Some c \<Rightarrow> \<exists>r\<in>set recs. cellName r = n \<and> c = duty_cell r \<and> (\<forall>x\<in>set recs. cellName x = n \<longrightarrow> duty_Seq x \<le> duty_Seq r) \<and>
       (ValidateDutyRecord r = None \<longrightarrow>
         (duty_Withdrawn r \<longrightarrow> cell_State c now = Fresh) \<and>
         (\<not> duty_Withdrawn r \<and> duty_State r \<in> {DutyProven, DutyFail} \<and> duty_ValidUntil r < now \<longrightarrow> cell_State c now = Stale))"
proof -
  have "\<forall>n. cell_entry [] n (Map.empty n) (Map.empty n)" by simp
  from readiness_loop_cells[OF this, of recs] obtain sq where e: "cell_entry recs n (sq n) (ReadinessCells recs n)"
    by (auto simp: ReadinessCells_def)
  show ?thesis
  proof (cases "ReadinessCells recs n")
    case None
    with e show ?thesis by (cases "sq n") auto
  next
    case (Some c)
    with e obtain q where "newest_cell recs n q c" by (cases "sq n") auto
    then obtain r where r: "r \<in> set recs" "cellName r = n" "duty_Seq r = q" "c = duty_cell r" "\<forall>x\<in>set recs. cellName x = n \<longrightarrow> duty_Seq x \<le> q"
      by (auto simp: newest_cell_def)
    moreover have "(duty_Withdrawn r \<longrightarrow> cell_State c now = Fresh) \<and>
        (\<not> duty_Withdrawn r \<and> duty_State r \<in> {DutyProven, DutyFail} \<and> duty_ValidUntil r < now \<longrightarrow> cell_State c now = Stale)"
      if "ValidateDutyRecord r = None"
      using that[unfolded valid_record_iff] duty_time_check_ages[of r] by (cases "duty_Withdrawn r") (auto simp: r(4) duty_cell_def cell_State_def is_zero_def)
    ultimately show ?thesis using Some by auto
  qed
qed

theorem ReadinessCells_newest_witness:
  "\<exists>c. ReadinessCells [example_duty\<lparr>duty_Seq := 4\<rparr>, example_duty] (cellName example_duty) = Some c \<and> cell_State c 11 = Stale"
proof -
  let ?recs = "[example_duty\<lparr>duty_Seq := 4\<rparr>, example_duty]" and ?n = "cellName example_duty"
  have v: "ValidateDutyRecord x = None \<and> \<not> duty_Withdrawn x \<and> duty_State x = DutyFail \<and> duty_ValidUntil x < 11" if "x \<in> set ?recs" for x
    using that example_duty_valid by (auto simp: valid_record_iff duty_time_check_def example_duty_def)
  note newest = ReadinessCells_newest[where recs = ?recs and n = ?n and now = 11]
  obtain c where c: "ReadinessCells ?recs ?n = Some c" using newest by (cases "ReadinessCells ?recs ?n") simp_all
  let ?ages = "\<lambda>r. ValidateDutyRecord r = None \<longrightarrow> (duty_Withdrawn r \<longrightarrow> cell_State c 11 = Fresh) \<and>
      (\<not> duty_Withdrawn r \<and> duty_State r \<in> {DutyProven, DutyFail} \<and> duty_ValidUntil r < 11 \<longrightarrow> cell_State c 11 = Stale)"
  have "\<exists>r\<in>set ?recs. ?ages r" using newest unfolding c option.case by (elim bexE conjE) (rule bexI)
  then obtain r where "r \<in> set ?recs" "?ages r" by (rule bexE)
  with v[of r] c show ?thesis by simp
qed

end
