(* ===== verification/Store.thy ===== *)
theory Store
  imports Resources Schedule_Status Readiness "HOL-Library.Word" "HOL-Library.AList"
begin

text \<open>
  The resource store: \<open>internal/api/store.go\<close> (the tables and their operations),
  \<open>internal/api/bolt.go\<close> (the write-through to the bbolt file and the load at start),
  \<open>internal/api/write_set.go\<close> (the batched flush of a tick), the store half of
  \<open>schedule_status.go\<close> and of \<open>readiness.go\<close>.

  A Go map is an association list; its order stands for the order a \<open>range\<close> over the map happens
  to take. Snapshots are values, so the clone helpers are the identity here. The bbolt library is
  a parameter: \<open>commits n\<close> says whether the \<open>n\<close>-th write transaction the store starts commits, and
  a transaction that does not commit changes nothing in the file. A record and its JSON are
  identified: the encoder is total and the decoder its inverse on the modelled fields. The
  callback of an update returns the record it left behind and, if it failed, an error text: the
  code hands it a pointer into the store, so what it wrote stays either way.

  The workspace, endpoint and policy tables have the shape of the session and team tables and are
  not repeated; credentials, cadence status and exposure records are not modelled.
\<close>

named_theorems store_simps \<open>the tables after a persistence step\<close>

section \<open>The file\<close>

datatype Bucket = bucketSessions | bucketTeams | bucketRoleHealth | bucketScheduleStatus
  | bucketDutyReadiness | bucketMeta

record RoleHealthRecord =
  rhr_Key :: string
  rhr_RestartCount :: int
  rhr_LastRestartAt :: time
  rhr_BackoffUntil :: time

datatype Value = VSession Session | VTeam Team | VRoleHealth RoleHealthRecord
  | VSchedule ScheduleStatus | VDuty DutyRecord | VSeq int

record Bolt =
  bolt_data :: "((Bucket \<times> string) \<times> Value) list"
  bolt_version :: "64 word"

type_synonym commit_oracle = "nat \<Rightarrow> bool"

datatype StoreError = ErrNotFound string | ErrAlreadyExists string | ErrBolt | ErrCallback string
  | ErrUnmarshal string | ErrWithdrawalNotBuilt | ErrDuty DutyError

record Store =
  st_sessions :: "(string \<times> Session) list"
  st_teams :: "(string \<times> Team) list"
  st_scheduleStatus :: "(string \<times> ScheduleStatus) list"
  st_duties :: "(string \<times> DutyRecord) list"
  st_dutySeq :: int
  st_dutyOrphans :: "string list"
  st_bolt :: "Bolt option"
  st_boltUpdates :: nat
  st_persisted :: "Bucket \<times> string \<rightharpoonup> Value"

type_synonym 'a result = "Store \<times> 'a"

definition NewStore :: Store where
  "NewStore = \<lparr>st_sessions = [], st_teams = [], st_scheduleStatus = [], st_duties = [], st_dutySeq = 0,
     st_dutyOrphans = [], st_bolt = None, st_boltUpdates = 0, st_persisted = Map.empty\<rparr>"

section \<open>Persistence\<close>

definition bumpVersion :: "Bolt \<Rightarrow> Bolt" where
  "bumpVersion db = db\<lparr>bolt_version := bolt_version db + 1\<rparr>"

definition bolt_put :: "Bucket \<Rightarrow> string \<Rightarrow> Value \<Rightarrow> Bolt \<Rightarrow> Bolt" where
  "bolt_put b k v db = db\<lparr>bolt_data := AList.update (b, k) v (bolt_data db)\<rparr>"

definition bolt_delete :: "Bucket \<Rightarrow> string \<Rightarrow> Bolt \<Rightarrow> Bolt" where
  "bolt_delete b k db = db\<lparr>bolt_data := AList.delete (b, k) (bolt_data db)\<rparr>"

definition bolt_get :: "Bolt \<Rightarrow> Bucket \<Rightarrow> string \<Rightarrow> Value option" where
  "bolt_get db b k = map_of (bolt_data db) (b, k)"

definition boltUpdate :: "commit_oracle \<Rightarrow> (Bolt \<Rightarrow> Bolt) \<Rightarrow> Bolt \<Rightarrow> Store \<Rightarrow> StoreError option result" where
  "boltUpdate commits fn db s =
     (let n = st_boltUpdates s; s' = s\<lparr>st_boltUpdates := n + 1\<rparr>
      in if commits n then (s'\<lparr>st_bolt := Some (fn db)\<rparr>, None) else (s', Some ErrBolt))"

definition rememberPersisted :: "Bucket \<Rightarrow> string \<Rightarrow> Value \<Rightarrow> Store \<Rightarrow> Store" where
  "rememberPersisted b k img s = s\<lparr>st_persisted := (st_persisted s)((b, k) \<mapsto> img)\<rparr>"

definition putBytes :: "commit_oracle \<Rightarrow> Bucket \<Rightarrow> string \<Rightarrow> Value \<Rightarrow> Value \<Rightarrow> Bolt \<Rightarrow> Store \<Rightarrow> StoreError option result" where
  "putBytes commits b k data img db s =
     (case boltUpdate commits (\<lambda>d. bumpVersion (bolt_put b k data d)) db s of
        (s', Some e) \<Rightarrow> (s', Some e)
      | (s', None) \<Rightarrow> (rememberPersisted b k img s', None))"

text \<open>\<open>compareImage\<close>; \<open>ptr\<close> says the record was passed by pointer, which only a \<open>*Session\<close> is
  tested for.\<close>

definition compareImage :: "bool \<Rightarrow> Value \<Rightarrow> Value" where
  "compareImage ptr v =
     (case v of
        VSession sess \<Rightarrow> if \<not> ptr \<or> is_zero (sess_LastHealthCheck sess) then v
                         else VSession (sess\<lparr>sess_LastHealthCheck := zero_time\<rparr>)
      | _ \<Rightarrow> v)"

definition persistPut :: "commit_oracle \<Rightarrow> Bucket \<Rightarrow> string \<Rightarrow> bool \<Rightarrow> Value \<Rightarrow> Store \<Rightarrow> StoreError option result" where
  "persistPut commits b k ptr v s =
     (case st_bolt s of
        None \<Rightarrow> (s, None)
      | Some db \<Rightarrow> putBytes commits b k v (compareImage ptr v) db s)"

definition persistPutIfChanged :: "commit_oracle \<Rightarrow> Bucket \<Rightarrow> string \<Rightarrow> bool \<Rightarrow> Value \<Rightarrow> Store \<Rightarrow> StoreError option result" where
  "persistPutIfChanged commits b k ptr v s =
     (case st_bolt s of
        None \<Rightarrow> (s, None)
      | Some db \<Rightarrow>
          if st_persisted s (b, k) = Some (compareImage ptr v) then (s, None)
          else putBytes commits b k v (compareImage ptr v) db s)"

definition persistDelete :: "commit_oracle \<Rightarrow> Bucket \<Rightarrow> string \<Rightarrow> Store \<Rightarrow> StoreError option result" where
  "persistDelete commits b k s =
     (case st_bolt s of
        None \<Rightarrow> (s, None)
      | Some db \<Rightarrow>
          (case boltUpdate commits (\<lambda>d. bumpVersion (bolt_delete b k d)) db s of
             (s', None) \<Rightarrow> (s'\<lparr>st_persisted := (st_persisted s')((b, k) := None)\<rparr>, None)
           | (s', Some e) \<Rightarrow> (s', Some e)))"

definition ResourceVersion :: "Store \<Rightarrow> 64 word" where
  "ResourceVersion s = (case st_bolt s of None \<Rightarrow> 0 | Some db \<Rightarrow> bolt_version db)"

section \<open>Sessions\<close>

abbreviation session_at :: "Store \<Rightarrow> string \<rightharpoonup> Session" where
  "session_at s \<equiv> map_of (st_sessions s)"

definition CreateSession :: "commit_oracle \<Rightarrow> Session \<Rightarrow> Store \<Rightarrow> StoreError option result" where
  "CreateSession commits sess s =
     (if session_at s (session_key sess) \<noteq> None then (s, Some (ErrAlreadyExists (session_key sess)))
      else case persistPut commits bucketSessions (session_key sess) False (VSession sess) s of
        (s', Some e) \<Rightarrow> (s', Some e)
      | (s', None) \<Rightarrow> (s'\<lparr>st_sessions := AList.update (session_key sess) sess (st_sessions s')\<rparr>, None))"

definition GetSession :: "Store \<Rightarrow> string \<Rightarrow> StoreError + Session" where
  "GetSession s k = (case session_at s k of None \<Rightarrow> Inl (ErrNotFound k) | Some sess \<Rightarrow> Inr sess)"

definition ListSessions :: "Store \<Rightarrow> Session list" where
  "ListSessions s = map snd (st_sessions s)"

definition ListSessionsByTeam :: "Store \<Rightarrow> string \<Rightarrow> string \<Rightarrow> Session list" where
  "ListSessionsByTeam s ws team =
     filter (\<lambda>x. sess_Workspace x = ws \<and> sess_Team x = team) (ListSessions s)"

definition ListSessionsByTeamRole :: "Store \<Rightarrow> string \<Rightarrow> string \<Rightarrow> string \<Rightarrow> Session list" where
  "ListSessionsByTeamRole s ws team role =
     filter (\<lambda>x. sess_Workspace x = ws \<and> sess_Team x = team \<and> sess_Role x = role) (ListSessions s)"

definition ListSessionsByTeamRoleGeneration :: "Store \<Rightarrow> string \<Rightarrow> string \<Rightarrow> string \<Rightarrow> int \<Rightarrow> Session list" where
  "ListSessionsByTeamRoleGeneration s ws team role gen =
     filter (\<lambda>x. sess_Workspace x = ws \<and> sess_Team x = team \<and> sess_Role x = role \<and>
                 sess_Generation x = gen) (ListSessions s)"

text \<open>\<open>deleteSeatDutiesLocked\<close>: the loop over the records present when it starts.\<close>

fun delete_duties :: "commit_oracle \<Rightarrow> string \<Rightarrow> (string \<times> DutyRecord) list \<Rightarrow> Store \<Rightarrow> StoreError option result" where
  "delete_duties commits seat [] s = (s, None)"
| "delete_duties commits seat ((k, r) # rest) s =
     (if duty_Seat r \<noteq> seat then delete_duties commits seat rest s
      else case persistDelete commits bucketDutyReadiness k s of
        (s', Some e) \<Rightarrow> (s', Some e)
      | (s', None) \<Rightarrow> delete_duties commits seat rest (s'\<lparr>st_duties := AList.delete k (st_duties s')\<rparr>))"

definition deleteSeatDutiesLocked :: "commit_oracle \<Rightarrow> string \<Rightarrow> Store \<Rightarrow> StoreError option result" where
  "deleteSeatDutiesLocked commits seat s = delete_duties commits seat (st_duties s) s"

definition DeleteSession :: "commit_oracle \<Rightarrow> string \<Rightarrow> Store \<Rightarrow> StoreError option result" where
  "DeleteSession commits k s =
     (if session_at s k = None then (s, Some (ErrNotFound k))
      else case persistDelete commits bucketSessions k s of
        (s', Some e) \<Rightarrow> (s', Some e)
      | (s', None) \<Rightarrow> deleteSeatDutiesLocked commits k (s'\<lparr>st_sessions := AList.delete k (st_sessions s')\<rparr>))"

definition UpdateSession :: "commit_oracle \<Rightarrow> string \<Rightarrow> (Session \<Rightarrow> Session \<times> string option) \<Rightarrow> Store \<Rightarrow> StoreError option result" where
  "UpdateSession commits k fn s =
     (case session_at s k of
        None \<Rightarrow> (s, Some (ErrNotFound k))
      | Some sess \<Rightarrow>
          let (sess', e) = fn sess; s' = s\<lparr>st_sessions := AList.update k sess' (st_sessions s)\<rparr>
          in case e of
               Some msg \<Rightarrow> (s', Some (ErrCallback msg))
             | None \<Rightarrow> persistPutIfChanged commits bucketSessions (session_key sess') True (VSession sess') s')"

section \<open>Teams\<close>

abbreviation team_at :: "Store \<Rightarrow> string \<rightharpoonup> Team" where
  "team_at s \<equiv> map_of (st_teams s)"

definition CreateTeam :: "commit_oracle \<Rightarrow> Team \<Rightarrow> Store \<Rightarrow> StoreError option result" where
  "CreateTeam commits t s =
     (if team_at s (team_key t) \<noteq> None then (s, Some (ErrAlreadyExists (team_key t)))
      else case persistPut commits bucketTeams (team_key t) False (VTeam t) s of
        (s', Some e) \<Rightarrow> (s', Some e)
      | (s', None) \<Rightarrow> (s'\<lparr>st_teams := AList.update (team_key t) t (st_teams s')\<rparr>, None))"

definition GetTeam :: "Store \<Rightarrow> string \<Rightarrow> StoreError + Team" where
  "GetTeam s k = (case team_at s k of None \<Rightarrow> Inl (ErrNotFound k) | Some t \<Rightarrow> Inr t)"

definition ListTeams :: "Store \<Rightarrow> Team list" where
  "ListTeams s = map snd (st_teams s)"

definition DeleteTeam :: "commit_oracle \<Rightarrow> string \<Rightarrow> Store \<Rightarrow> StoreError option result" where
  "DeleteTeam commits k s =
     (if team_at s k = None then (s, Some (ErrNotFound k))
      else case persistDelete commits bucketTeams k s of
        (s', Some e) \<Rightarrow> (s', Some e)
      | (s', None) \<Rightarrow> (s'\<lparr>st_teams := AList.delete k (st_teams s')\<rparr>, None))"

definition UpdateTeam :: "commit_oracle \<Rightarrow> string \<Rightarrow> (Team \<Rightarrow> Team \<times> string option) \<Rightarrow> Store \<Rightarrow> StoreError option result" where
  "UpdateTeam commits k fn s =
     (case team_at s k of
        None \<Rightarrow> (s, Some (ErrNotFound k))
      | Some t \<Rightarrow>
          let (t', e) = fn t; s' = s\<lparr>st_teams := AList.update k t' (st_teams s)\<rparr>
          in case e of
               Some msg \<Rightarrow> (s', Some (ErrCallback msg))
             | None \<Rightarrow> persistPutIfChanged commits bucketTeams (team_key t') True (VTeam t') s')"

text \<open>The sessions of a team in key order, as \<open>MarkPruning\<close> and \<open>DeleteTeamIf\<close> show them to their
  check.\<close>

definition team_sessions_sorted :: "Store \<Rightarrow> Team \<Rightarrow> Session list" where
  "team_sessions_sorted s t =
     sort_by (\<lambda>a b. session_key a < session_key b) (ListSessionsByTeam s (team_Workspace t) (team_Name t))"

text \<open>\<open>MarkPruning\<close> returns the reason the check gave, or an error.\<close>

definition MarkPruning :: "commit_oracle \<Rightarrow> string \<Rightarrow> TeamPruning \<Rightarrow> (Team \<Rightarrow> Session list \<Rightarrow> string) \<Rightarrow> Store \<Rightarrow>
    (StoreError + string) result" where
  "MarkPruning commits k p check s =
     (case team_at s k of
        None \<Rightarrow> (s, Inl (ErrNotFound k))
      | Some t \<Rightarrow>
          let reason = check t (team_sessions_sorted s t)
          in if reason \<noteq> [] then (s, Inr reason)
             else let t' = t\<lparr>team_Pruning := Some p\<rparr>;
                      s1 = s\<lparr>st_teams := AList.update k t' (st_teams s)\<rparr>
                  in case persistPut commits bucketTeams k True (VTeam t') s1 of
                       (s2, Some e) \<Rightarrow> (s2\<lparr>st_teams := AList.update k (t'\<lparr>team_Pruning := team_Pruning t\<rparr>) (st_teams s2)\<rparr>, Inl e)
                     | (s2, None) \<Rightarrow> (s2, Inr []))"

text \<open>\<open>DeleteTeamIf\<close> returns the reason and the keys of the sessions its check saw.\<close>

definition DeleteTeamIf :: "commit_oracle \<Rightarrow> string \<Rightarrow> (Team \<Rightarrow> Session list \<Rightarrow> string) \<Rightarrow> Store \<Rightarrow>
    (StoreError + string \<times> string list) result" where
  "DeleteTeamIf commits k check s =
     (case team_at s k of
        None \<Rightarrow> (s, Inl (ErrNotFound k))
      | Some t \<Rightarrow>
          if team_Pruning t = None then (s, Inr (''kept: named again by an apply'', []))
          else let seen = team_sessions_sorted s t; reason = check t seen
               in if reason \<noteq> [] then (s, Inr (reason, []))
                  else case persistDelete commits bucketTeams k s of
                    (s', Some e) \<Rightarrow> (s', Inl e)
                  | (s', None) \<Rightarrow> (s'\<lparr>st_teams := AList.delete k (st_teams s')\<rparr>, Inr ([], map session_key seen)))"

section \<open>Role health, schedule status and readiness records\<close>

text \<open>\<open>Bucket.ForEach\<close> visits a bucket in key order.\<close>

definition bucket_entries :: "Bolt \<Rightarrow> Bucket \<Rightarrow> (string \<times> Value) list" where
  "bucket_entries db b =
     sort_by (\<lambda>x y. fst x < fst y) [(k, v). ((b', k), v) \<leftarrow> bolt_data db, b' = b]"

definition PersistRoleHealth :: "commit_oracle \<Rightarrow> RoleHealthRecord \<Rightarrow> Store \<Rightarrow> StoreError option result" where
  "PersistRoleHealth commits rec s = persistPut commits bucketRoleHealth (rhr_Key rec) False (VRoleHealth rec) s"

fun list_role_health :: "(string \<times> Value) list \<Rightarrow> StoreError + RoleHealthRecord list" where
  "list_role_health [] = Inr []"
| "list_role_health ((k, v) # rest) =
     (case v of
        VRoleHealth rec \<Rightarrow>
          (case list_role_health rest of
             Inl e \<Rightarrow> Inl e
           | Inr out \<Rightarrow> Inr ((if rhr_Key rec = [] then rec\<lparr>rhr_Key := k\<rparr> else rec) # out))
      | _ \<Rightarrow> Inl (ErrUnmarshal k))"

definition ListRoleHealth :: "Store \<Rightarrow> StoreError + RoleHealthRecord list" where
  "ListRoleHealth s =
     (case st_bolt s of None \<Rightarrow> Inr [] | Some db \<Rightarrow> list_role_health (bucket_entries db bucketRoleHealth))"

definition DeleteRoleHealth :: "commit_oracle \<Rightarrow> string \<Rightarrow> Store \<Rightarrow> StoreError option result" where
  "DeleteRoleHealth commits k s = persistDelete commits bucketRoleHealth k s"

abbreviation schedule_at :: "Store \<Rightarrow> string \<rightharpoonup> ScheduleStatus" where
  "schedule_at s \<equiv> map_of (st_scheduleStatus s)"

definition GetScheduleStatus :: "Store \<Rightarrow> string \<Rightarrow> ScheduleStatus \<times> bool" where
  "GetScheduleStatus s k =
     (case schedule_at s k of None \<Rightarrow> (new_status [], False) | Some st \<Rightarrow> (st, True))"

text \<open>\<open>UpdateScheduleStatus\<close>: \<open>fn\<close> returns the status it left and whether it changed it. Unlike the
  other updates it works on a copy, so a failed write leaves memory as it was.\<close>

definition UpdateScheduleStatus :: "commit_oracle \<Rightarrow> string \<Rightarrow> (ScheduleStatus \<Rightarrow> ScheduleStatus \<times> bool) \<Rightarrow> Store \<Rightarrow>
    (ScheduleStatus \<times> StoreError option) result" where
  "UpdateScheduleStatus commits k fn s =
     (let found = schedule_at s k; st = (case found of None \<Rightarrow> new_status k | Some x \<Rightarrow> x);
          (work, changed) = fn st
      in if \<not> changed \<and> found \<noteq> None then (s, st, None)
         else let work' = work\<lparr>ss_Key := k\<rparr>
              in case persistPut commits bucketScheduleStatus k True (VSchedule work') s of
                   (s', Some e) \<Rightarrow> (s', st, Some e)
                 | (s', None) \<Rightarrow> (s'\<lparr>st_scheduleStatus := AList.update k work' (st_scheduleStatus s')\<rparr>, work', None))"

definition DeleteScheduleStatus :: "commit_oracle \<Rightarrow> string \<Rightarrow> Store \<Rightarrow> StoreError option result" where
  "DeleteScheduleStatus commits k s =
     (if schedule_at s k = None then (s, None)
      else case persistDelete commits bucketScheduleStatus k s of
        (s', Some e) \<Rightarrow> (s', Some e)
      | (s', None) \<Rightarrow> (s'\<lparr>st_scheduleStatus := AList.delete k (st_scheduleStatus s')\<rparr>, None))"

definition metaKeyReadinessSeq :: string where "metaKeyReadinessSeq = ''readiness_seq''"

abbreviation duty_at :: "Store \<Rightarrow> string \<rightharpoonup> DutyRecord" where
  "duty_at s \<equiv> map_of (st_duties s)"

definition seatHasSessionLocked :: "Store \<Rightarrow> string \<Rightarrow> bool" where
  "seatHasSessionLocked s seat \<longleftrightarrow> session_at s seat \<noteq> None"

text \<open>\<open>RecordDuty\<close>; \<open>now\<close> is the clock read that fills a zero \<open>ObservedAt\<close>. The part under the lock,
  after the seat check, is \<open>store_duty\<close>.\<close>

definition store_duty :: "commit_oracle \<Rightarrow> DutyRecord \<Rightarrow> Store \<Rightarrow> (StoreError + DutyRecord) result" where
  "store_duty commits r s =
     (let nxt = st_dutySeq s + 1
      in case persistPut commits bucketMeta metaKeyReadinessSeq False (VSeq nxt) s of
           (s1, Some e) \<Rightarrow> (s1, Inl e)
         | (s1, None) \<Rightarrow>
             let s2 = s1\<lparr>st_dutySeq := nxt\<rparr>; r' = r\<lparr>duty_Seq := nxt\<rparr>; k = dutyKey (duty_Seat r') (cellName r')
             in case persistPut commits bucketDutyReadiness k True (VDuty r') s2 of
                  (s3, Some e) \<Rightarrow> (s3, Inl e)
                | (s3, None) \<Rightarrow> (s3\<lparr>st_duties := AList.update k r' (st_duties s3)\<rparr>, Inr r'))"

definition RecordDuty :: "commit_oracle \<Rightarrow> time \<Rightarrow> DutyRecord \<Rightarrow> Store \<Rightarrow> (StoreError + DutyRecord) result" where
  "RecordDuty commits now r0 s =
     (if duty_Withdrawn r0 then (s, Inl ErrWithdrawalNotBuilt)
      else
        let r = (if is_zero (duty_ObservedAt r0) then r0\<lparr>duty_ObservedAt := now\<rparr> else r0)
        in case ValidateDutyRecord r of
             Some e \<Rightarrow> (s, Inl (ErrDuty e))
           | None \<Rightarrow> if \<not> seatHasSessionLocked s (duty_Seat r) then (s, Inl (ErrNotFound (duty_Seat r)))
                     else store_duty commits r s)"

definition ListDuties :: "Store \<Rightarrow> string \<Rightarrow> DutyRecord list" where
  "ListDuties s seat =
     sort_by (\<lambda>a b. cellName a < cellName b) (filter (\<lambda>r. duty_Seat r = seat) (map snd (st_duties s)))"

definition SeatReadiness :: "Store \<Rightarrow> string \<Rightarrow> (string \<rightharpoonup> string Cell)" where
  "SeatReadiness s seat = ReadinessCells (ListDuties s seat)"

section \<open>What a persistence step touches\<close>

text \<open>Persistence changes the file, its counters and the last-written map, and no table.\<close>

definition same_tables :: "Store \<Rightarrow> Store \<Rightarrow> bool" where
  "same_tables s s' \<longleftrightarrow> st_sessions s' = st_sessions s \<and> st_teams s' = st_teams s \<and>
     st_scheduleStatus s' = st_scheduleStatus s \<and> st_duties s' = st_duties s \<and> st_dutySeq s' = st_dutySeq s"

lemma persist_same_tables [store_simps]:
  "same_tables s (fst (persistPut commits b k ptr v s))"
  "same_tables s (fst (persistPutIfChanged commits b k ptr v s))"
  "same_tables s (fst (persistDelete commits b k s))"
  by (auto simp: same_tables_def persistPut_def persistPutIfChanged_def persistDelete_def putBytes_def
      boltUpdate_def rememberPersisted_def Let_def split: option.splits)

lemma same_tablesD [store_simps]:
  assumes "same_tables s s'"
  shows "st_sessions s' = st_sessions s" "st_teams s' = st_teams s" "st_scheduleStatus s' = st_scheduleStatus s"
    "st_duties s' = st_duties s" "st_dutySeq s' = st_dutySeq s"
  using assms by (simp_all add: same_tables_def)

lemma persist_tables:
  "persistPut commits b k ptr v s = (s', e) \<Longrightarrow> same_tables s s'"
  "persistPutIfChanged commits b k ptr v s = (s', e) \<Longrightarrow> same_tables s s'"
  "persistDelete commits b k s = (s', e) \<Longrightarrow> same_tables s s'"
  using persist_same_tables by (metis fst_conv)+

lemmas persist_tables_fst [store_simps] = persist_same_tables[THEN same_tablesD(1)]
  persist_same_tables[THEN same_tablesD(2)] persist_same_tables[THEN same_tablesD(3)]
  persist_same_tables[THEN same_tablesD(4)] persist_same_tables[THEN same_tablesD(5)]

lemma delete_duties_tables:
  "st_sessions (fst (delete_duties commits seat ds s)) = st_sessions s \<and>
   st_teams (fst (delete_duties commits seat ds s)) = st_teams s"
proof (induction commits seat ds s rule: delete_duties.induct)
  case (2 commits seat k r rest s)
  then show ?case
    by (auto split: prod.splits option.splits dest!: persist_tables(3) simp: same_tables_def)
qed simp

section \<open>A keyed table\<close>

text \<open>
  What every table of the store promises its callers: a lookup after a create, an update or a
  delete, and what a failed call leaves. An update changes the record even when it reports an
  error, and a delete that reports one may have removed it or not.
\<close>

locale record_table =
  fixes look :: "Store \<Rightarrow> string \<rightharpoonup> 'v"
    and keyof :: "'v \<Rightarrow> string"
    and create :: "'v \<Rightarrow> Store \<Rightarrow> StoreError option result"
    and update :: "string \<Rightarrow> ('v \<Rightarrow> 'v \<times> string option) \<Rightarrow> Store \<Rightarrow> StoreError option result"
    and delete :: "string \<Rightarrow> Store \<Rightarrow> StoreError option result"
  assumes create_exists: "look s (keyof v) = Some w \<Longrightarrow> create v s = (s, Some (ErrAlreadyExists (keyof v)))"
    and create_new: "look s (keyof v) = None \<Longrightarrow> create v s = (s', None) \<Longrightarrow> look s' = (look s)(keyof v \<mapsto> v)"
    and create_fails: "create v s = (s', Some e) \<Longrightarrow> look s' = look s"
    and update_missing: "look s k = None \<Longrightarrow> update k f s = (s, Some (ErrNotFound k))"
    and update_look: "look s k = Some v \<Longrightarrow> look (fst (update k f s)) = (look s)(k \<mapsto> fst (f v))"
    and delete_missing: "look s k = None \<Longrightarrow> delete k s = (s, Some (ErrNotFound k))"
    and delete_ok: "delete k s = (s', None) \<Longrightarrow> look s' = (look s)(k := None)"
    and delete_any: "look (fst (delete k s)) \<in> {look s, (look s)(k := None)}"
begin

lemma create_then_look:
  assumes "create v s = (s', None)"
  shows "look s' (keyof v) = Some v"
proof (cases "look s (keyof v)")
  case None
  from create_new[OF this assms] show ?thesis by simp
next
  case (Some w)
  from create_exists[OF this] assms show ?thesis by simp
qed

lemma create_twice: "create v s = (s', None) \<Longrightarrow> create w s' = (s', Some (ErrAlreadyExists (keyof w)))"
  if "keyof w = keyof v"
  using create_then_look create_exists that by metis

lemma delete_then_look: "delete k s = (s', None) \<Longrightarrow> look s' k = None"
  using delete_ok by simp

lemma create_delete_look:
  assumes "look s (keyof v) = None" "create v s = (s1, None)" "delete (keyof v) s1 = (s2, None)"
  shows "look s2 = look s"
  using create_new[OF assms(1,2)] delete_ok[OF assms(3)] assms(1) by auto

text \<open>No call reaches a key it does not name.\<close>

lemma other_keys:
  assumes "j \<noteq> k"
  shows "look (fst (update k f s)) j = look s j" and "look (fst (delete k s)) j = look s j"
    and "keyof v = k \<Longrightarrow> look (fst (create v s)) j = look s j"
proof -
  show "look (fst (update k f s)) j = look s j"
    using update_missing[of s k f] update_look[of s k] assms by (cases "look s k") auto
  show "look (fst (delete k s)) j = look s j" using delete_any[of k s] assms by auto
  assume k: "keyof v = k"
  show "look (fst (create v s)) j = look s j"
  proof (cases "look s k")
    case None
    with k create_new[of s v] create_fails[of v s] assms show ?thesis
      by (cases "create v s"; cases "snd (create v s)") auto
  next
    case (Some w)
    with k create_exists[of s v w] show ?thesis by simp
  qed
qed

end

interpretation session_table: record_table session_at session_key "CreateSession commits" "UpdateSession commits"
    "DeleteSession commits" for commits
proof
  fix s k
  show "session_at (fst (DeleteSession commits k s)) \<in> {session_at s, (session_at s)(k := None)}"
    by (auto simp: DeleteSession_def deleteSeatDutiesLocked_def delete_duties_tables delete_conv'
        same_tables_def split: prod.splits option.splits dest!: persist_tables)
  show "DeleteSession commits k s = (s', None) \<Longrightarrow> session_at s' = (session_at s)(k := None)" for s'
  proof -
    assume d: "DeleteSession commits k s = (s', None)"
    then obtain s1 where "persistDelete commits bucketSessions k s = (s1, None)"
      and "s' = fst (delete_duties commits k (st_duties s1) (s1\<lparr>st_sessions := AList.delete k (st_sessions s1)\<rparr>))"
      by (auto simp: DeleteSession_def deleteSeatDutiesLocked_def split: if_splits prod.splits option.splits)
    then show ?thesis by (auto simp: delete_duties_tables delete_conv' same_tables_def dest!: persist_tables)
  qed
qed (auto simp: CreateSession_def UpdateSession_def DeleteSession_def update_conv' same_tables_def Let_def persist_tables_fst
      split: prod.splits option.splits if_splits dest!: persist_tables)

interpretation team_table: record_table team_at team_key "CreateTeam commits" "UpdateTeam commits"
    "DeleteTeam commits" for commits
  by unfold_locales (auto simp: CreateTeam_def UpdateTeam_def DeleteTeam_def update_conv' delete_conv'
      same_tables_def Let_def persist_tables_fst split: prod.splits option.splits if_splits dest!: persist_tables)

end
