(* ===== verification/Store_Durability.thy ===== *)
theory Store_Durability
  imports Store
begin

text \<open>
  What survives a restart: the load of the file at start (\<open>rehydrate\<close>, \<open>OpenBolt\<close> and
  \<open>purgeOrphanDuties\<close>), the write set of a tick (\<open>write_set.go\<close>), the states the store's
  operations reach, and the durability properties of those states. Of \<open>OpenBoltWithOptions\<close> the part
  after the file is open and its schema checked is modelled; opening, locking and migrating the
  file are not.
\<close>

section \<open>Loading the file\<close>

definition and_then :: "StoreError option result \<Rightarrow> (Store \<Rightarrow> StoreError option result) \<Rightarrow> StoreError option result" where
  "and_then r f = (case r of (s, Some e) \<Rightarrow> (s, Some e) | (s, None) \<Rightarrow> f s)"

fun load_teams :: "(string \<times> Value) list \<Rightarrow> Store \<Rightarrow> StoreError option result" where
  "load_teams [] s = (s, None)"
| "load_teams ((k, v) # rest) s =
     (case v of
        VTeam t \<Rightarrow> load_teams rest (s\<lparr>st_teams := AList.update (team_key t) t (st_teams s)\<rparr>)
      | _ \<Rightarrow> (s, Some (ErrUnmarshal k)))"

text \<open>The stream reading of a session this process did not launch is dropped; the spend slice stays.\<close>

definition forget_stream :: "Session \<Rightarrow> Session" where
  "forget_stream x =
     (if sess_ContextSource x = ContextSourceAccountant \<or>
         (sess_ContextSource x = ContextSourceNone \<and> 0 < sess_ContextRequests x)
      then x\<lparr>sess_ContextAt := zero_time, sess_ContextTokens := 0, sess_ContextLimit := 0,
             sess_ContextSource := ContextSourceNone, sess_ContextRequests := 0\<rparr>
      else x)"

text \<open>\<open>Ending\<close> is never written to the file.\<close>

fun load_sessions :: "(string \<times> Value) list \<Rightarrow> Store \<Rightarrow> StoreError option result" where
  "load_sessions [] s = (s, None)"
| "load_sessions ((k, v) # rest) s =
     (case v of
        VSession x \<Rightarrow> load_sessions rest
          (let row = (forget_stream x)\<lparr>sess_Ending := False\<rparr>
           in s\<lparr>st_sessions := AList.update (session_key row) row (st_sessions s)\<rparr>)
      | _ \<Rightarrow> (s, Some (ErrUnmarshal k)))"

fun load_schedules :: "(string \<times> Value) list \<Rightarrow> Store \<Rightarrow> StoreError option result" where
  "load_schedules [] s = (s, None)"
| "load_schedules ((k, v) # rest) s =
     (case v of
        VSchedule st \<Rightarrow> load_schedules rest
          (s\<lparr>st_scheduleStatus := AList.update k (st\<lparr>ss_Key := k\<rparr>) (st_scheduleStatus s)\<rparr>)
      | _ \<Rightarrow> (s, Some (ErrUnmarshal k)))"

fun load_duties :: "(string \<times> Value) list \<Rightarrow> Store \<Rightarrow> StoreError option result" where
  "load_duties [] s = (s, None)"
| "load_duties ((k, v) # rest) s =
     (case v of
        VDuty r \<Rightarrow>
          let s1 = (if st_dutySeq s < duty_Seq r then s\<lparr>st_dutySeq := duty_Seq r\<rparr> else s)
          in if session_at s1 (duty_Seat r) = None
             then load_duties rest (s1\<lparr>st_dutyOrphans := st_dutyOrphans s1 @ [k]\<rparr>)
             else load_duties rest (s1\<lparr>st_duties := AList.update k r (st_duties s1)\<rparr>)
      | _ \<Rightarrow> (s, Some (ErrUnmarshal k)))"

definition rehydrateDuties :: "Bolt \<Rightarrow> Store \<Rightarrow> StoreError option result" where
  "rehydrateDuties db s =
     (let s0 = s\<lparr>st_dutyOrphans := []\<rparr>
      in and_then
           (case bolt_get db bucketMeta metaKeyReadinessSeq of
              None \<Rightarrow> (s0, None)
            | Some (VSeq n) \<Rightarrow> (s0\<lparr>st_dutySeq := n\<rparr>, None)
            | Some _ \<Rightarrow> (s0, Some (ErrUnmarshal metaKeyReadinessSeq)))
           (load_duties (bucket_entries db bucketDutyReadiness)))"

definition rehydrate :: "Bolt \<Rightarrow> Store \<Rightarrow> StoreError option result" where
  "rehydrate db s =
     and_then (load_teams (bucket_entries db bucketTeams) s)
       (\<lambda>s. and_then (load_sessions (bucket_entries db bucketSessions) s)
         (\<lambda>s. and_then (load_schedules (bucket_entries db bucketScheduleStatus) s)
           (rehydrateDuties db)))"

definition purgeOrphanDuties :: "commit_oracle \<Rightarrow> Store \<Rightarrow> StoreError option result" where
  "purgeOrphanDuties commits s =
     (let orphans = st_dutyOrphans s; s' = s\<lparr>st_dutyOrphans := []\<rparr>
      in case st_bolt s' of
           None \<Rightarrow> (s', None)
         | Some db \<Rightarrow>
             if orphans = [] then (s', None)
             else boltUpdate commits (\<lambda>d. bumpVersion (foldl (\<lambda>d k. bolt_delete bucketDutyReadiness k d) d orphans)) db s')"

definition OpenBolt :: "commit_oracle \<Rightarrow> Bolt \<Rightarrow> Store \<Rightarrow> StoreError option result" where
  "OpenBolt commits db s =
     (case rehydrate db (s\<lparr>st_bolt := Some db\<rparr>) of
        (s1, Some e) \<Rightarrow> (s1\<lparr>st_bolt := None\<rparr>, Some e)
      | (s1, None) \<Rightarrow>
          (case purgeOrphanDuties commits s1 of
             (s2, Some e) \<Rightarrow> (s2\<lparr>st_bolt := None\<rparr>, Some e)
           | (s2, None) \<Rightarrow> (s2, None)))"

section \<open>The write set of a tick\<close>

datatype writeKey = writeSession string | writeTeam string

record WriteSet =
  ws_dirty :: "writeKey list"
  ws_seen :: "writeKey list"

definition NewWriteSet :: WriteSet where
  "NewWriteSet = \<lparr>ws_dirty = [], ws_seen = []\<rparr>"

definition ws_queue :: "writeKey \<Rightarrow> WriteSet \<Rightarrow> WriteSet" where
  "ws_queue k w = w\<lparr>ws_seen := k # ws_seen w, ws_dirty := ws_dirty w @ [k]\<rparr>"

definition ws_note :: "Store \<Rightarrow> writeKey \<Rightarrow> WriteSet \<Rightarrow> WriteSet" where
  "ws_note s k w = (if st_bolt s = None \<or> k \<in> set (ws_seen w) then w else ws_queue k w)"

definition WriteSet_UpdateSession :: "string \<Rightarrow> (Session \<Rightarrow> Session \<times> string option) \<Rightarrow> WriteSet \<Rightarrow> Store \<Rightarrow>
    (WriteSet \<times> StoreError option) result" where
  "WriteSet_UpdateSession k fn w s =
     (case session_at s k of
        None \<Rightarrow> (s, w, Some (ErrNotFound k))
      | Some x \<Rightarrow>
          let (x', e) = fn x; s' = s\<lparr>st_sessions := AList.update k x' (st_sessions s)\<rparr>
          in case e of
               Some msg \<Rightarrow> (s', w, Some (ErrCallback msg))
             | None \<Rightarrow> (s', ws_note s' (writeSession (session_key x')) w, None))"

definition WriteSet_UpdateTeam :: "string \<Rightarrow> (Team \<Rightarrow> Team \<times> string option) \<Rightarrow> WriteSet \<Rightarrow> Store \<Rightarrow>
    (WriteSet \<times> StoreError option) result" where
  "WriteSet_UpdateTeam k fn w s =
     (case team_at s k of
        None \<Rightarrow> (s, w, Some (ErrNotFound k))
      | Some t \<Rightarrow>
          let (t', e) = fn t; s' = s\<lparr>st_teams := AList.update k t' (st_teams s)\<rparr>
          in case e of
               Some msg \<Rightarrow> (s', w, Some (ErrCallback msg))
             | None \<Rightarrow> (s', ws_note s' (writeTeam (team_key t')) w, None))"

text \<open>The record a queued key stands for at the flush, and whether the file lacks it.\<close>

definition flush_record :: "Store \<Rightarrow> writeKey \<Rightarrow> (Bucket \<times> string \<times> Value) option" where
  "flush_record s wk =
     (case wk of
        writeSession k \<Rightarrow> map_option (\<lambda>x. (bucketSessions, k, VSession x)) (session_at s k)
      | writeTeam k \<Rightarrow> map_option (\<lambda>t. (bucketTeams, k, VTeam t)) (team_at s k))"

fun flush_records :: "Store \<Rightarrow> writeKey list \<Rightarrow> (Bucket \<times> string \<times> Value) list" where
  "flush_records s [] = []"
| "flush_records s (wk # wks) =
     (case flush_record s wk of
        None \<Rightarrow> flush_records s wks
      | Some (b, k, v) \<Rightarrow>
          if st_persisted s (b, k) = Some (compareImage True v) then flush_records s wks
          else (b, k, v) # flush_records s wks)"

definition put_all :: "(Bucket \<times> string \<times> Value) list \<Rightarrow> Bolt \<Rightarrow> Bolt" where
  "put_all recs db = foldl (\<lambda>d (b, k, v). bolt_put b k v d) db recs"

definition remember_all :: "(Bucket \<times> string \<times> Value) list \<Rightarrow> Store \<Rightarrow> Store" where
  "remember_all recs s = foldl (\<lambda>s (b, k, v). rememberPersisted b k (compareImage True v) s) s recs"

definition Flush :: "commit_oracle \<Rightarrow> WriteSet \<Rightarrow> Store \<Rightarrow> (WriteSet \<times> StoreError option) result" where
  "Flush commits w s =
     (let dirty = ws_dirty w; w' = NewWriteSet
      in if dirty = [] then (s, w', None)
         else case st_bolt s of
           None \<Rightarrow> (s, w', None)
         | Some db \<Rightarrow>
             let recs = flush_records s dirty
             in if recs = [] then (s, w', None)
                else case boltUpdate commits (\<lambda>d. bumpVersion (put_all recs d)) db s of
                  (s', Some e) \<Rightarrow> (s', w', Some e)
                | (s', None) \<Rightarrow> (remember_all recs s', w', None))"

section \<open>The last-written map describes the file\<close>

definition alike :: "Value \<Rightarrow> Value \<Rightarrow> bool" where
  "alike v d \<longleftrightarrow> compareImage True v = compareImage True d"

lemma compareImage_idem [simp]: "compareImage True (compareImage p v) = compareImage True v"
  by (auto simp: compareImage_def is_zero_def split: Value.splits)

lemma alike_refl [simp]: "alike v v" "alike (compareImage p v) v"
  by (simp_all add: alike_def)

lemma alike_team [simp]: "alike (VTeam t) d \<longleftrightarrow> d = VTeam t"
  by (cases d) (auto simp: alike_def compareImage_def)

definition persisted_sound :: "Store \<Rightarrow> bool" where
  "persisted_sound s \<longleftrightarrow>
     (\<forall>b k img. st_persisted s (b, k) = Some img \<longrightarrow>
        (\<exists>db d. st_bolt s = Some db \<and> bolt_get db b k = Some d \<and> alike img d))"

lemma bolt_get_simps [simp]:
  "bolt_get (bumpVersion db) b k = bolt_get db b k"
  "bolt_get (bolt_put b k v db) b' k' = (if (b', k') = (b, k) then Some v else bolt_get db b' k')"
  "bolt_get (bolt_delete b k db) b' k' = (if (b', k') = (b, k) then None else bolt_get db b' k')"
  by (auto simp: bolt_get_def bumpVersion_def bolt_put_def bolt_delete_def update_conv' delete_conv')

lemma persisted_sound_cong:
  "st_bolt s' = st_bolt s \<Longrightarrow> st_persisted s' = st_persisted s \<Longrightarrow> persisted_sound s' = persisted_sound s"
  by (simp add: persisted_sound_def)

lemma persisted_sound_tables [simp]:
  "persisted_sound (s\<lparr>st_sessions := a\<rparr>) = persisted_sound s" "persisted_sound (s\<lparr>st_teams := b\<rparr>) = persisted_sound s"
  "persisted_sound (s\<lparr>st_scheduleStatus := c\<rparr>) = persisted_sound s" "persisted_sound (s\<lparr>st_duties := d\<rparr>) = persisted_sound s"
  "persisted_sound (s\<lparr>st_dutySeq := n\<rparr>) = persisted_sound s" "persisted_sound (s\<lparr>st_boltUpdates := m\<rparr>) = persisted_sound s"
  "persisted_sound (s\<lparr>st_dutyOrphans := l\<rparr>) = persisted_sound s"
  by (simp_all add: persisted_sound_def)

lemma putBytes_sound:
  assumes "persisted_sound s" and "st_bolt s = Some db" and "alike img v"
  shows "persisted_sound (fst (putBytes commits b k v img db s))"
  using assms by (auto simp: putBytes_def boltUpdate_def rememberPersisted_def persisted_sound_def Let_def)

lemma persist_sound:
  assumes "persisted_sound s"
  shows "persisted_sound (fst (persistPut commits b k ptr v s))"
    and "persisted_sound (fst (persistPutIfChanged commits b k ptr v s))"
    and "persisted_sound (fst (persistDelete commits b k s))"
proof -
  show "persisted_sound (fst (persistPut commits b k ptr v s))"
    "persisted_sound (fst (persistPutIfChanged commits b k ptr v s))"
    using assms by (auto simp: persistPut_def persistPutIfChanged_def putBytes_sound split: option.splits)
  show "persisted_sound (fst (persistDelete commits b k s))"
    using assms by (auto simp: persistDelete_def boltUpdate_def persisted_sound_def Let_def split: option.splits)
qed

text \<open>A write that reports no error leaves the record in the file, skipped or not.\<close>

lemma persistPut_writes:
  assumes "persistPut commits b k ptr v s = (s', None)" and "st_bolt s = Some db"
  shows "\<exists>db'. st_bolt s' = Some db' \<and> bolt_get db' b k = Some v \<and>
           (\<forall>b' k'. (b', k') \<noteq> (b, k) \<longrightarrow> bolt_get db' b' k' = bolt_get db b' k')"
  using assms by (auto simp: persistPut_def putBytes_def boltUpdate_def rememberPersisted_def Let_def split: if_splits)

lemma persistPutIfChanged_writes:
  assumes "persistPutIfChanged commits b k ptr v s = (s', None)" and "st_bolt s = Some db" and "persisted_sound s"
  shows "\<exists>db' d. st_bolt s' = Some db' \<and> bolt_get db' b k = Some d \<and> alike v d \<and>
           (\<forall>b' k'. (b', k') \<noteq> (b, k) \<longrightarrow> bolt_get db' b' k' = bolt_get db b' k')"
proof (cases "st_persisted s (b, k) = Some (compareImage ptr v)")
  case True
  then obtain d where "bolt_get db b k = Some d" "alike (compareImage ptr v) d"
    using assms(2,3) unfolding persisted_sound_def by fastforce
  then show ?thesis using True assms(1,2) by (auto simp: persistPutIfChanged_def alike_def)
next
  case False
  then show ?thesis using assms
    by (auto simp: persistPutIfChanged_def putBytes_def boltUpdate_def rememberPersisted_def Let_def split: if_splits)
qed

lemma persistDelete_deletes:
  assumes "persistDelete commits b k s = (s', None)" and "st_bolt s = Some db"
  shows "\<exists>db'. st_bolt s' = Some db' \<and> bolt_get db' b k = None \<and>
           (\<forall>b' k'. (b', k') \<noteq> (b, k) \<longrightarrow> bolt_get db' b' k' = bolt_get db b' k')"
  using assms by (auto simp: persistDelete_def boltUpdate_def Let_def split: if_splits)

section \<open>The states the store reaches\<close>

fun value_bucket :: "Value \<Rightarrow> Bucket" where
  "value_bucket (VSession _) = bucketSessions"
| "value_bucket (VTeam _) = bucketTeams"
| "value_bucket (VRoleHealth _) = bucketRoleHealth"
| "value_bucket (VSchedule _) = bucketScheduleStatus"
| "value_bucket (VDuty _) = bucketDutyReadiness"
| "value_bucket (VSeq _) = bucketMeta"

definition bolt_wf :: "Bolt \<Rightarrow> bool" where
  "bolt_wf db \<longleftrightarrow> distinct (map fst (bolt_data db)) \<and>
     list_all (\<lambda>((b, k), v). value_bucket v = b) (bolt_data db)"

definition store_inv :: "Store \<Rightarrow> bool" where
  "store_inv s \<longleftrightarrow> persisted_sound s \<and> (\<forall>db. st_bolt s = Some db \<longrightarrow> bolt_wf db)"

inductive store_step :: "commit_oracle \<Rightarrow> Store \<Rightarrow> Store \<Rightarrow> bool" for commits where
  create_session: "store_step commits s (fst (CreateSession commits x s))"
| update_session: "store_step commits s (fst (UpdateSession commits k f s))"
| delete_session: "store_step commits s (fst (DeleteSession commits k s))"
| create_team: "store_step commits s (fst (CreateTeam commits t s))"
| update_team: "store_step commits s (fst (UpdateTeam commits k g s))"
| delete_team: "store_step commits s (fst (DeleteTeam commits k s))"
| mark_pruning: "store_step commits s (fst (MarkPruning commits k p check s))"
| delete_team_if: "store_step commits s (fst (DeleteTeamIf commits k check s))"
| update_schedule: "store_step commits s (fst (UpdateScheduleStatus commits k h s))"
| delete_schedule: "store_step commits s (fst (DeleteScheduleStatus commits k s))"
| persist_health: "store_step commits s (fst (PersistRoleHealth commits rec s))"
| delete_health: "store_step commits s (fst (DeleteRoleHealth commits k s))"
| record_duty: "store_step commits s (fst (RecordDuty commits now r s))"
| ws_update_session: "store_step commits s (fst (WriteSet_UpdateSession k f w s))"
| ws_update_team: "store_step commits s (fst (WriteSet_UpdateTeam k g w s))"
| flush: "store_step commits s (fst (Flush commits w s))"

inductive store_reach :: "commit_oracle \<Rightarrow> Store \<Rightarrow> bool" for commits where
  opened: "bolt_wf db \<Longrightarrow> OpenBolt commits db NewStore = (s, None) \<Longrightarrow> store_reach commits s"
| stepped: "store_reach commits s \<Longrightarrow> store_step commits s s' \<Longrightarrow> store_reach commits s'"

lemma list_all_AList_update: "list_all P al \<Longrightarrow> P (k, v) \<Longrightarrow> list_all P (AList.update k v al)"
  by (induction al) auto

lemma list_all_AList_delete: "list_all P al \<Longrightarrow> list_all P (AList.delete k al)"
  by (induction al) (auto simp: AList.delete_eq)

lemma bolt_wf_put: "bolt_wf db \<Longrightarrow> value_bucket v = b \<Longrightarrow> bolt_wf (bumpVersion (bolt_put b k v db))"
  by (simp add: bolt_wf_def bolt_put_def bumpVersion_def distinct_update list_all_AList_update)

lemma bolt_wf_delete: "bolt_wf db \<Longrightarrow> bolt_wf (bumpVersion (bolt_delete b k db))"
  by (simp add: bolt_wf_def bolt_delete_def bumpVersion_def distinct_delete list_all_AList_delete)

lemma store_inv_tables [simp]:
  "store_inv (s\<lparr>st_sessions := a\<rparr>) = store_inv s" "store_inv (s\<lparr>st_teams := b\<rparr>) = store_inv s"
  "store_inv (s\<lparr>st_scheduleStatus := c\<rparr>) = store_inv s" "store_inv (s\<lparr>st_duties := d\<rparr>) = store_inv s"
  "store_inv (s\<lparr>st_dutySeq := n\<rparr>) = store_inv s"
  by (simp_all add: store_inv_def)

lemma persist_bolt:
  assumes "\<And>db. st_bolt s = Some db \<Longrightarrow> bolt_wf db"
  shows "value_bucket v = b \<Longrightarrow> st_bolt (fst (persistPut commits b k ptr v s)) = Some db \<Longrightarrow> bolt_wf db"
    and "value_bucket v = b \<Longrightarrow> st_bolt (fst (persistPutIfChanged commits b k ptr v s)) = Some db \<Longrightarrow> bolt_wf db"
    and "st_bolt (fst (persistDelete commits b k s)) = Some db \<Longrightarrow> bolt_wf db"
  using assms bolt_wf_put bolt_wf_delete
  by (auto simp: persistPut_def persistPutIfChanged_def persistDelete_def putBytes_def boltUpdate_def
      rememberPersisted_def Let_def split: option.splits if_splits)

lemma persist_inv_fst:
  assumes "store_inv s"
  shows "value_bucket v = b \<Longrightarrow> store_inv (fst (persistPut commits b k ptr v s))"
    and "value_bucket v = b \<Longrightarrow> store_inv (fst (persistPutIfChanged commits b k ptr v s))"
    and "store_inv (fst (persistDelete commits b k s))"
  using assms persist_bolt[of s] unfolding store_inv_def by (blast intro: persist_sound)+

lemma persist_inv:
  "persistPut commits b k ptr v s = (s', e) \<Longrightarrow> store_inv s \<Longrightarrow> value_bucket v = b \<Longrightarrow> store_inv s'"
  "persistPutIfChanged commits b k ptr v s = (s', e) \<Longrightarrow> store_inv s \<Longrightarrow> value_bucket v = b \<Longrightarrow> store_inv s'"
  "persistDelete commits b k s = (s', e) \<Longrightarrow> store_inv s \<Longrightarrow> store_inv s'"
  using persist_inv_fst by (metis fst_conv)+

lemma delete_duties_inv: "store_inv s \<Longrightarrow> store_inv (fst (delete_duties commits seat ds s))"
proof (induction commits seat ds s rule: delete_duties.induct)
  case (2 commits seat k r rest s)
  then show ?case using persist_inv(3)[of commits bucketDutyReadiness k s]
    by (auto split: prod.splits option.splits)
qed simp

lemmas modified_inv =
  persist_inv(1)[where s = "s\<lparr>st_dutySeq := n\<rparr>" for s n, simplified]
  persist_inv(1)[where s = "s\<lparr>st_teams := x\<rparr>" for s x, simplified]
  delete_duties_inv[where s = "s\<lparr>st_sessions := x\<rparr>" for s x, simplified]

lemma session_ops_inv:
  assumes "store_inv s"
  shows "store_inv (fst (CreateSession commits x s))" "store_inv (fst (UpdateSession commits k f s))"
    "store_inv (fst (DeleteSession commits k s))"
  using assms
  by (auto simp: CreateSession_def UpdateSession_def DeleteSession_def deleteSeatDutiesLocked_def Let_def
      split: prod.splits option.splits intro: persist_inv_fst modified_inv dest: persist_inv)

lemma team_ops_inv:
  assumes "store_inv s"
  shows "store_inv (fst (CreateTeam commits t s))" "store_inv (fst (UpdateTeam commits k g s))"
    "store_inv (fst (DeleteTeam commits k s))" "store_inv (fst (MarkPruning commits k p check s))"
    "store_inv (fst (DeleteTeamIf commits k check s))"
  using assms
  by (auto simp: CreateTeam_def UpdateTeam_def DeleteTeam_def MarkPruning_def DeleteTeamIf_def Let_def
      split: prod.splits option.splits intro: persist_inv_fst dest: persist_inv modified_inv(2))

lemma status_ops_inv:
  assumes "store_inv s"
  shows "store_inv (fst (UpdateScheduleStatus commits k h s))" "store_inv (fst (DeleteScheduleStatus commits k s))"
    "store_inv (fst (PersistRoleHealth commits rec s))" "store_inv (fst (DeleteRoleHealth commits k s))"
  using assms
  by (auto simp: UpdateScheduleStatus_def DeleteScheduleStatus_def PersistRoleHealth_def DeleteRoleHealth_def Let_def
      split: prod.splits option.splits intro: persist_inv_fst dest: persist_inv)

lemma store_duty_inv: "store_inv s \<Longrightarrow> store_inv (fst (store_duty commits r s))"
  using persist_inv(1)[where v = "VSeq n" and b = bucketMeta for n, simplified]
    modified_inv(1)[where v = "VDuty d" and b = bucketDutyReadiness for d, simplified]
  by (auto simp: store_duty_def Let_def split: prod.splits option.splits)

lemma RecordDuty_inv: "store_inv s \<Longrightarrow> store_inv (fst (RecordDuty commits now r s))"
  by (auto simp: RecordDuty_def Let_def store_duty_inv split: option.splits)

text \<open>The flush: the queued records land together.\<close>

lemma flush_records_bucket: "(b, k, v) \<in> set (flush_records s wks) \<Longrightarrow> value_bucket v = b"
  by (induction wks) (auto simp: flush_record_def split: option.splits writeKey.splits if_splits)

lemma put_all_simps:
  "put_all [] db = db" "put_all ((b, k, v) # recs) db = put_all recs (bolt_put b k v db)"
  "remember_all [] s = s" "remember_all ((b, k, v) # recs) s = remember_all recs (rememberPersisted b k (compareImage True v) s)"
  by (simp_all add: put_all_def remember_all_def)

lemma put_all_wf:
  "bolt_wf db \<Longrightarrow> \<forall>(b, k, v)\<in>set recs. value_bucket v = b \<Longrightarrow> bolt_wf (put_all recs db)"
proof (induction recs arbitrary: db)
  case (Cons r recs)
  obtain b k v where "r = (b, k, v)" by (cases r)
  with Cons show ?case
    by (simp add: put_all_simps bolt_wf_def bolt_put_def distinct_update list_all_AList_update)
qed (simp add: put_all_simps)

lemma remember_all_frame:
  "st_bolt (remember_all recs s) = st_bolt s" "st_sessions (remember_all recs s) = st_sessions s"
  "st_teams (remember_all recs s) = st_teams s" "st_boltUpdates (remember_all recs s) = st_boltUpdates s"
  "st_duties (remember_all recs s) = st_duties s" "st_scheduleStatus (remember_all recs s) = st_scheduleStatus s"
  by (induction recs arbitrary: s; force simp: put_all_simps rememberPersisted_def)+

lemma bolt_get_put_all_other:
  "\<forall>v. (b, k, v) \<notin> set recs \<Longrightarrow> bolt_get (put_all recs db) b k = bolt_get db b k"
  by (induction recs arbitrary: db) (auto simp: put_all_simps)

text \<open>After the puts and the notes, each key's last note describes its last put.\<close>

lemma remember_put_all:
  "(case st_persisted (remember_all recs s) (b, k) of
      None \<Rightarrow> (\<forall>v. (b, k, v) \<notin> set recs) \<and> st_persisted s (b, k) = None
    | Some img \<Rightarrow> (\<forall>v. (b, k, v) \<notin> set recs) \<and> st_persisted s (b, k) = Some img \<or>
                  (\<exists>v. (b, k, v) \<in> set recs \<and> bolt_get (put_all recs db) b k = Some v \<and> img = compareImage True v))"
proof (induction recs arbitrary: s db)
  case (Cons r recs)
  obtain b' k' v where r: "r = (b', k', v)" by (cases r)
  show ?case
  proof (cases "\<exists>w. (b, k, w) \<in> set recs")
    case True
    then show ?thesis using Cons.IH[of "rememberPersisted b' k' (compareImage True v) s" "bolt_put b' k' v db"] r
      by (auto simp: put_all_simps split: option.splits)
  next
    case False
    then show ?thesis
      using Cons.IH[of "rememberPersisted b' k' (compareImage True v) s" "bolt_put b' k' v db"] r
        bolt_get_put_all_other[of b k recs "bolt_put b' k' v db"]
      by (auto simp: put_all_simps rememberPersisted_def split: option.splits if_splits)
  qed
qed (simp add: put_all_simps split: option.splits)

lemma flush_commit_sound:
  assumes "persisted_sound s" and "st_bolt s = Some db"
  shows "persisted_sound (remember_all recs (s\<lparr>st_boltUpdates := n, st_bolt := Some (bumpVersion (put_all recs db))\<rparr>))"
    (is "persisted_sound (remember_all recs ?s)")
  unfolding persisted_sound_def
proof (intro allI impI)
  fix b k img
  assume p: "st_persisted (remember_all recs ?s) (b, k) = Some img"
  have "(\<forall>v. (b, k, v) \<notin> set recs) \<and> st_persisted s (b, k) = Some img \<or>
        (\<exists>v. bolt_get (put_all recs db) b k = Some v \<and> img = compareImage True v)"
    using remember_put_all[where recs = recs and s = ?s and b = b and k = k and db = db] p by auto
  then show "\<exists>db' d. st_bolt (remember_all recs ?s) = Some db' \<and> bolt_get db' b k = Some d \<and> alike img d"
    using assms bolt_get_put_all_other[of b k recs db]
    by (auto simp: remember_all_frame persisted_sound_def)
qed

lemma Flush_inv:
  assumes "store_inv s"
  shows "store_inv (fst (Flush commits w s))"
proof (cases "st_bolt s")
  case None
  then show ?thesis using assms by (simp add: Flush_def Let_def)
next
  case (Some db)
  let ?recs = "flush_records s (ws_dirty w)"
  have "bolt_wf (bumpVersion (put_all ?recs db))"
    using put_all_wf[of db ?recs] flush_records_bucket[of _ _ _ s] assms Some
    by (auto simp: store_inv_def bolt_wf_def bumpVersion_def)
  then show ?thesis using assms Some flush_commit_sound[of s db ?recs]
    by (auto simp: Flush_def boltUpdate_def Let_def store_inv_def remember_all_frame)
qed

lemma WriteSet_inv:
  assumes "store_inv s"
  shows "store_inv (fst (WriteSet_UpdateSession k f w s))" "store_inv (fst (WriteSet_UpdateTeam k g w s))"
  using assms by (auto simp: WriteSet_UpdateSession_def WriteSet_UpdateTeam_def Let_def split: option.splits prod.splits)

lemma store_step_inv: "store_step commits s s' \<Longrightarrow> store_inv s \<Longrightarrow> store_inv s'"
  by (induction rule: store_step.induct)
    (simp_all add: session_ops_inv team_ops_inv status_ops_inv RecordDuty_inv WriteSet_inv Flush_inv)

text \<open>The load writes no file and notes nothing as written.\<close>

definition load_frame :: "Store \<Rightarrow> Store \<Rightarrow> bool" where
  "load_frame s s' \<longleftrightarrow> st_bolt s' = st_bolt s \<and> st_persisted s' = st_persisted s"

lemma load_frames:
  "load_frame s (fst (load_teams es s))" "load_frame s (fst (load_sessions es s))"
  "load_frame s (fst (load_schedules es s))" "load_frame s (fst (load_duties es s))"
proof -
  show "load_frame s (fst (load_teams es s))"
    by (induction es s rule: load_teams.induct) (auto simp: load_frame_def split: Value.splits)
  show "load_frame s (fst (load_sessions es s))"
    by (induction es s rule: load_sessions.induct) (auto simp: load_frame_def Let_def split: Value.splits)
  show "load_frame s (fst (load_schedules es s))"
    by (induction es s rule: load_schedules.induct) (auto simp: load_frame_def split: Value.splits)
  show "load_frame s (fst (load_duties es s))"
    by (induction es s rule: load_duties.induct) (auto simp: load_frame_def Let_def split: Value.splits)
qed

lemma and_then_ok: "and_then r f = (s', None) \<longleftrightarrow> (\<exists>s. r = (s, None) \<and> f s = (s', None))"
  by (auto simp: and_then_def split: prod.splits option.splits)

lemma load_frame_ok:
  "load_teams es s = (s', e) \<Longrightarrow> load_frame s s'" "load_sessions es s = (s', e) \<Longrightarrow> load_frame s s'"
  "load_schedules es s = (s', e) \<Longrightarrow> load_frame s s'" "load_duties es s = (s', e) \<Longrightarrow> load_frame s s'"
  using load_frames by (metis fst_conv)+

lemma rehydrate_stages:
  assumes "rehydrate db s = (s', None)"
  obtains s1 s2 s3 where "load_teams (bucket_entries db bucketTeams) s = (s1, None)"
    and "load_sessions (bucket_entries db bucketSessions) s1 = (s2, None)"
    and "load_schedules (bucket_entries db bucketScheduleStatus) s2 = (s3, None)"
    and "rehydrateDuties db s3 = (s', None)"
  using assms by (auto simp: rehydrate_def and_then_ok)

lemma rehydrateDuties_stage:
  assumes "rehydrateDuties db s = (s', None)"
  obtains n where "load_duties (bucket_entries db bucketDutyReadiness) (s\<lparr>st_dutyOrphans := [], st_dutySeq := n\<rparr>) = (s', None)"
proof -
  from assms obtain s1 where s1: "load_duties (bucket_entries db bucketDutyReadiness) s1 = (s', None)"
    and "s1 = s\<lparr>st_dutyOrphans := []\<rparr> \<or> (\<exists>n. s1 = s\<lparr>st_dutyOrphans := [], st_dutySeq := n\<rparr>)"
    by (auto simp: rehydrateDuties_def and_then_ok Let_def split: option.splits Value.splits)
  moreover have "s\<lparr>st_dutyOrphans := []\<rparr> = s\<lparr>st_dutyOrphans := [], st_dutySeq := st_dutySeq s\<rparr>" by simp
  ultimately show ?thesis using that by metis
qed

lemma rehydrate_frame:
  assumes "rehydrate db s = (s', None)"
  shows "load_frame s s'"
proof -
  from assms obtain s1 s2 s3 where st: "load_frame s s1" "load_frame s1 s2" "load_frame s2 s3"
    and d: "rehydrateDuties db s3 = (s', None)"
    by (rule rehydrate_stages) (blast dest: load_frame_ok)
  from d obtain n where "load_frame (s3\<lparr>st_dutyOrphans := [], st_dutySeq := n\<rparr>) s'"
    by (rule rehydrateDuties_stage) (blast dest: load_frame_ok)
  with st show ?thesis by (simp add: load_frame_def)
qed

lemma bolt_wf_foldl_delete: "bolt_wf db \<Longrightarrow> bolt_wf (foldl (\<lambda>d k. bolt_delete b k d) db ks)"
  by (induction ks arbitrary: db)
    (auto simp: bolt_wf_def bolt_delete_def distinct_delete list_all_AList_delete)

text \<open>\<open>OpenBolt\<close> on a fresh store: it is the load, with the orphan rows gone from the file.\<close>

lemma OpenBolt_stages:
  assumes "OpenBolt commits db NewStore = (s, None)"
  obtains s1 db' where "rehydrate db (NewStore\<lparr>st_bolt := Some db\<rparr>) = (s1, None)"
    and "st_sessions s = st_sessions s1" "st_teams s = st_teams s1" "st_duties s = st_duties s1"
    and "st_scheduleStatus s = st_scheduleStatus s1" "st_persisted s = Map.empty" "st_bolt s = Some db'"
    and "db' = db \<or> db' = bumpVersion (foldl (\<lambda>d k. bolt_delete bucketDutyReadiness k d) db (st_dutyOrphans s1))"
proof -
  from assms obtain s1 where s1: "rehydrate db (NewStore\<lparr>st_bolt := Some db\<rparr>) = (s1, None)"
    and p: "purgeOrphanDuties commits s1 = (s, None)"
    by (auto simp: OpenBolt_def split: prod.splits option.splits)
  from rehydrate_frame[OF s1] have f: "st_bolt s1 = Some db" "st_persisted s1 = Map.empty"
    by (auto simp: load_frame_def NewStore_def)
  from p f that[OF s1] show thesis
    by (auto simp: purgeOrphanDuties_def boltUpdate_def Let_def split: if_splits)
qed

lemma store_reach_inv: "store_reach commits s \<Longrightarrow> store_inv s"
proof (induction rule: store_reach.induct)
  case (opened db s)
  from opened(2) obtain db' where "st_persisted s = Map.empty" "st_bolt s = Some db'"
    and "db' = db \<or> (\<exists>ks. db' = bumpVersion (foldl (\<lambda>d k. bolt_delete bucketDutyReadiness k d) db ks))"
    by (rule OpenBolt_stages) blast
  with opened(1) bolt_wf_foldl_delete[of db] show ?case
    by (auto simp: store_inv_def persisted_sound_def bolt_wf_def bumpVersion_def)
qed (rule store_step_inv)

section \<open>What a restart gives back\<close>

lemma map_of_bucket_entries:
  assumes "distinct (map fst (bolt_data db))"
  shows "map_of (bucket_entries db b) k = bolt_get db b k"
    and "distinct (map fst (bucket_entries db b))"
proof -
  let ?raw = "\<lambda>al. [(k, v). ((b', k), v) \<leftarrow> al, b' = b]"
  have raw: "map_of (?raw al) k = map_of al (b, k)" for al :: "((Bucket \<times> string) \<times> Value) list"
    by (induction al) auto
  have keys: "k' \<in> fst ` set (?raw al) \<longleftrightarrow> (b, k') \<in> fst ` set al" for k' and al :: "((Bucket \<times> string) \<times> Value) list"
    by force
  have dist: "distinct (map fst (?raw al))" if "distinct (map fst al)" for al :: "((Bucket \<times> string) \<times> Value) list"
    using that
  proof (induction al)
    case (Cons x xs)
    then show ?case using keys[of _ xs] by (cases x) force
  qed simp
  have m: "mset (map fst (bucket_entries db b)) = mset (map fst (?raw (bolt_data db)))"
    by (simp only: bucket_entries_def mset_map mset_sort_by)
  then show d: "distinct (map fst (bucket_entries db b))"
    using dist[OF assms] by (metis mset_eq_imp_distinct_iff)
  have "map_of (bucket_entries db b) = map_of (?raw (bolt_data db))"
    using d dist[OF assms] by (subst map_of_inject_set) (simp_all add: bucket_entries_def)
  then show "map_of (bucket_entries db b) k = bolt_get db b k" by (simp add: raw bolt_get_def)
qed

lemma load_teams_look:
  assumes "load_teams es s = (s', None)" and "distinct (map fst es)"
    and "\<forall>(k, v)\<in>set es. \<forall>t. v = VTeam t \<longrightarrow> team_key t = k"
  shows "map_option VTeam (team_at s' k) = (case map_of es k of None \<Rightarrow> map_option VTeam (team_at s k) | Some v \<Rightarrow> Some v)"
  using assms
proof (induction es s arbitrary: s' rule: load_teams.induct)
  case (2 j v rest s)
  then obtain t where v: "v = VTeam t" by (cases v) auto
  with 2 have "team_key t = j" by auto
  moreover have "j \<notin> fst ` set rest" using 2 by simp
  then have "map_of rest j = None" by (simp add: map_of_eq_None_iff)
  ultimately show ?case using 2 v by (auto simp: update_conv' split: option.splits)
qed simp

lemma other_loads_teams:
  "st_teams (fst (load_sessions es s)) = st_teams s" "st_teams (fst (load_schedules es s)) = st_teams s"
  "st_teams (fst (load_duties es s)) = st_teams s"
proof -
  show "st_teams (fst (load_sessions es s)) = st_teams s"
    by (induction es s rule: load_sessions.induct) (auto simp: Let_def split: Value.splits)
  show "st_teams (fst (load_schedules es s)) = st_teams s"
    by (induction es s rule: load_schedules.induct) (auto split: Value.splits)
  show "st_teams (fst (load_duties es s)) = st_teams s"
    by (induction es s rule: load_duties.induct) (auto simp: Let_def split: Value.splits)
qed

lemma rehydrate_teams:
  assumes "rehydrate db s = (s', None)"
  obtains s1 where "load_teams (bucket_entries db bucketTeams) s = (s1, None)" "st_teams s' = st_teams s1"
proof -
  from assms obtain s1 s2 s3 where 1: "load_teams (bucket_entries db bucketTeams) s = (s1, None)"
    and 2: "load_sessions (bucket_entries db bucketSessions) s1 = (s2, None)"
      "load_schedules (bucket_entries db bucketScheduleStatus) s2 = (s3, None)"
    and 3: "rehydrateDuties db s3 = (s', None)"
    by (rule rehydrate_stages)
  from 2 have 4: "st_teams s3 = st_teams s1"
    using other_loads_teams(1)[of "bucket_entries db bucketSessions" s1]
      other_loads_teams(2)[of "bucket_entries db bucketScheduleStatus" s2] by simp
  from 3 obtain n where
    "load_duties (bucket_entries db bucketDutyReadiness) (s3\<lparr>st_dutyOrphans := [], st_dutySeq := n\<rparr>) = (s', None)"
    by (rule rehydrateDuties_stage)
  then have "st_teams s' = st_teams (s3\<lparr>st_dutyOrphans := [], st_dutySeq := n\<rparr>)"
    using other_loads_teams(3) by (metis fst_conv)
  then have "st_teams s' = st_teams s3" by simp
  with 1 4 that show thesis by simp
qed

text \<open>The file holds the teams the store holds.\<close>

definition teams_durable :: "Store \<Rightarrow> bool" where
  "teams_durable s \<longleftrightarrow> (\<exists>db. st_bolt s = Some db \<and> bolt_wf db \<and>
     (\<forall>k. bolt_get db bucketTeams k = map_option VTeam (team_at s k)) \<and>
     (\<forall>k t. team_at s k = Some t \<longrightarrow> team_key t = k))"

lemma reload_teams:
  assumes "teams_durable s" and "st_bolt s = Some db" and "OpenBolt commits db NewStore = (s', None)"
  shows "team_at s' = team_at s"
proof
  fix k
  from assms have wf: "distinct (map fst (bolt_data db))"
    and onfile: "\<And>k. bolt_get db bucketTeams k = map_option VTeam (team_at s k)"
    and keys: "\<And>k t. team_at s k = Some t \<Longrightarrow> team_key t = k"
    by (auto simp: teams_durable_def bolt_wf_def)
  note entries = map_of_bucket_entries[OF wf, of bucketTeams]
  from assms(3) obtain s1 where "rehydrate db (NewStore\<lparr>st_bolt := Some db\<rparr>) = (s1, None)" "st_teams s' = st_teams s1"
    by (rule OpenBolt_stages) blast
  from this(1) obtain s2 where s2: "load_teams (bucket_entries db bucketTeams) (NewStore\<lparr>st_bolt := Some db\<rparr>) = (s2, None)"
    and t2: "st_teams s' = st_teams s2"
    by (rule rehydrate_teams) (use \<open>st_teams s' = st_teams s1\<close> in auto)
  have ok: "\<forall>(k, v)\<in>set (bucket_entries db bucketTeams). \<forall>t. v = VTeam t \<longrightarrow> team_key t = k"
  proof clarify
    fix k t
    assume "(k, VTeam t) \<in> set (bucket_entries db bucketTeams)"
    then have "map_of (bucket_entries db bucketTeams) k = Some (VTeam t)" using entries(2) by simp
    then show "team_key t = k" using entries(1) onfile keys by auto
  qed
  have "map_option VTeam (team_at s' k) = map_option VTeam (team_at s k)"
    using load_teams_look[OF s2 entries(2) ok, of k] entries(1)[of k] onfile[of k] t2
    by (auto simp: NewStore_def split: option.splits)
  then show "team_at s' k = team_at s k" by (cases "team_at s' k"; cases "team_at s k") auto
qed

section \<open>Sequences of team operations\<close>

datatype TeamOp = OpCreate Team | OpUpdate string "Team \<Rightarrow> Team \<times> string option" | OpDelete string

fun run_team_op :: "commit_oracle \<Rightarrow> TeamOp \<Rightarrow> Store \<Rightarrow> StoreError option result" where
  "run_team_op commits (OpCreate t) s = CreateTeam commits t s"
| "run_team_op commits (OpUpdate k g) s = UpdateTeam commits k g s"
| "run_team_op commits (OpDelete k) s = DeleteTeam commits k s"

fun run_team_ops :: "commit_oracle \<Rightarrow> TeamOp list \<Rightarrow> Store \<Rightarrow> StoreError option result" where
  "run_team_ops commits [] s = (s, None)"
| "run_team_ops commits (c # cs) s = and_then (run_team_op commits c s) (run_team_ops commits cs)"

fun keeps_key :: "TeamOp \<Rightarrow> bool" where
  "keeps_key (OpUpdate k g) = (\<forall>t. team_key (fst (g t)) = team_key t)"
| "keeps_key _ = True"

lemma run_team_op_inv: "store_inv s \<Longrightarrow> store_inv (fst (run_team_op commits c s))"
  by (cases c) (simp_all add: team_ops_inv)

lemma run_team_ops_inv: "store_inv s \<Longrightarrow> run_team_ops commits cs s = (s', None) \<Longrightarrow> store_inv s'"
proof (induction cs arbitrary: s)
  case (Cons c cs)
  then obtain s1 where "run_team_op commits c s = (s1, None)" "run_team_ops commits cs s1 = (s', None)"
    by (auto simp: and_then_ok)
  with Cons run_team_op_inv[of s commits c] show ?case by simp
qed simp

lemma durable_create:
  assumes d: "teams_durable s" and op: "CreateTeam commits t s = (s', None)" and inv: "store_inv s'"
  shows "teams_durable s'"
proof -
  from d obtain db where db: "st_bolt s = Some db"
    "\<forall>k. bolt_get db bucketTeams k = map_option VTeam (team_at s k)" "\<forall>k t. team_at s k = Some t \<longrightarrow> team_key t = k"
    by (auto simp: teams_durable_def)
  from op obtain s1 where new: "team_at s (team_key t) = None"
    and p: "persistPut commits bucketTeams (team_key t) False (VTeam t) s = (s1, None)"
    and s': "s' = s1\<lparr>st_teams := AList.update (team_key t) t (st_teams s1)\<rparr>"
    by (auto simp: CreateTeam_def split: if_splits prod.splits option.splits)
  from persistPut_writes[OF p db(1)] inv persist_tables(1)[OF p] db s' show ?thesis
    by (auto simp: teams_durable_def same_tables_def update_conv' store_inv_def)
qed

lemma durable_update:
  assumes d: "teams_durable s" and op: "UpdateTeam commits k g s = (s', None)" and inv: "store_inv s" "store_inv s'"
    and key: "\<And>t. team_key (fst (g t)) = team_key t"
  shows "teams_durable s'"
proof -
  from d obtain db where db: "st_bolt s = Some db"
    "\<forall>k. bolt_get db bucketTeams k = map_option VTeam (team_at s k)" "\<forall>k t. team_at s k = Some t \<longrightarrow> team_key t = k"
    by (auto simp: teams_durable_def)
  from op obtain t t' where t: "team_at s k = Some t" and g: "g t = (t', None)"
    and p: "persistPutIfChanged commits bucketTeams (team_key t') True (VTeam t')
              (s\<lparr>st_teams := AList.update k t' (st_teams s)\<rparr>) = (s', None)"
    by (auto simp: UpdateTeam_def Let_def split: option.splits prod.splits)
  have k': "team_key t' = k" using db(3) t g key[of t] by auto
  have "persisted_sound (s\<lparr>st_teams := AList.update k t' (st_teams s)\<rparr>)" using inv by (simp add: store_inv_def)
  from persistPutIfChanged_writes[OF p _ this, of db] inv persist_tables(2)[OF p] db k' show ?thesis
    by (auto simp: teams_durable_def same_tables_def update_conv' store_inv_def)
qed

lemma durable_delete:
  assumes d: "teams_durable s" and op: "DeleteTeam commits k s = (s', None)" and inv: "store_inv s'"
  shows "teams_durable s'"
proof -
  from d obtain db where db: "st_bolt s = Some db"
    "\<forall>k. bolt_get db bucketTeams k = map_option VTeam (team_at s k)" "\<forall>k t. team_at s k = Some t \<longrightarrow> team_key t = k"
    by (auto simp: teams_durable_def)
  from op obtain s1 where p: "persistDelete commits bucketTeams k s = (s1, None)"
    and s': "s' = s1\<lparr>st_teams := AList.delete k (st_teams s1)\<rparr>"
    by (auto simp: DeleteTeam_def split: if_splits prod.splits option.splits)
  from persistDelete_deletes[OF p db(1)] inv persist_tables(3)[OF p] db s' show ?thesis
    by (auto simp: teams_durable_def same_tables_def delete_conv' store_inv_def split: if_splits)
qed

lemma durable_op:
  assumes "teams_durable s" "store_inv s" "keeps_key c" "run_team_op commits c s = (s', None)"
  shows "teams_durable s'" and "store_inv s'"
proof -
  show inv: "store_inv s'" using run_team_op_inv[OF assms(2), of commits c] assms(4) by simp
  show "teams_durable s'"
  proof (cases c)
    case (OpCreate t)
    with assms inv show ?thesis by (auto intro: durable_create)
  next
    case (OpUpdate k g)
    with assms inv durable_update[of s commits k g s'] show ?thesis by simp
  next
    case (OpDelete k)
    with assms inv show ?thesis by (auto intro: durable_delete)
  qed
qed

lemma durable_ops:
  assumes "teams_durable s" "store_inv s" "list_all keeps_key cs" "run_team_ops commits cs s = (s', None)"
  shows "teams_durable s'"
  using assms
proof (induction cs arbitrary: s)
  case (Cons c cs)
  then obtain s1 where s1: "run_team_op commits c s = (s1, None)" "run_team_ops commits cs s1 = (s', None)"
    by (auto simp: and_then_ok)
  with Cons durable_op[of s c commits s1] show ?case by simp
qed simp

text \<open>
  C1. Durability of the team table: from a store whose file mirrors its teams, run any sequence of
  creates, updates and deletes that all report success, then restart from the file. The restarted
  store answers every team lookup as the old one did. The transactions an update skips because the
  file already holds the bytes change nothing of this.
\<close>

theorem teams_survive_restart:
  assumes "teams_durable s" and "store_inv s" and "list_all keeps_key cs"
    and "run_team_ops commits cs s = (s1, None)" and "st_bolt s1 = Some db"
    and "OpenBolt commits' db NewStore = (s2, None)"
  shows "GetTeam s2 k = GetTeam s1 k"
  using reload_teams[OF durable_ops[OF assms(1-4)] assms(5,6)] by (simp add: GetTeam_def)

definition empty_file :: Bolt where "empty_file = \<lparr>bolt_data = [], bolt_version = 0\<rparr>"

definition example_ops :: "TeamOp list" where
  "example_ops = [OpCreate example_team, OpUpdate ''ws/squad'' (\<lambda>t. (t\<lparr>team_Generation := 2\<rparr>, None))]"

definition example_store :: Store where
  "example_store = fst (run_team_ops (\<lambda>_. True) example_ops (NewStore\<lparr>st_bolt := Some empty_file\<rparr>))"

lemmas store_defs = NewStore_def empty_file_def CreateTeam_def UpdateTeam_def persistPut_def persistPutIfChanged_def
  putBytes_def boltUpdate_def rememberPersisted_def bolt_put_def bumpVersion_def compareImage_def team_key_def

lemma example_ops_run:
  "run_team_ops (\<lambda>_. True) example_ops (NewStore\<lparr>st_bolt := Some empty_file\<rparr>) = (example_store, None)"
  "st_bolt example_store = Some \<lparr>bolt_data = [((bucketTeams, ''ws/squad''), VTeam (example_team\<lparr>team_Generation := 2\<rparr>))],
     bolt_version = 2\<rparr>"
  "st_teams example_store = [(''ws/squad'', example_team\<lparr>team_Generation := 2\<rparr>)]"
  by (simp_all add: example_store_def example_ops_def store_defs and_then_def Let_def example_defs)

theorem teams_survive_restart_witness:
  "\<exists>s2. OpenBolt (\<lambda>_. True) (the (st_bolt example_store)) NewStore = (s2, None) \<and>
        GetTeam s2 ''ws/squad'' = Inr (example_team\<lparr>team_Generation := 2\<rparr>)"
proof -
  let ?s = "NewStore\<lparr>st_bolt := Some empty_file\<rparr>"
  have "teams_durable ?s" "store_inv ?s"
    by (simp_all add: teams_durable_def store_inv_def persisted_sound_def bolt_wf_def bolt_get_def NewStore_def empty_file_def)
  note start = this
  have keys: "list_all keeps_key example_ops" by (simp add: example_ops_def team_key_def)
  have "OpenBolt (\<lambda>_. True) (the (st_bolt example_store)) NewStore =
     (NewStore\<lparr>st_bolt := st_bolt example_store, st_teams := [(''ws/squad'', example_team\<lparr>team_Generation := 2\<rparr>)]\<rparr>, None)"
    by (simp add: example_ops_run(2) OpenBolt_def rehydrate_def rehydrateDuties_def and_then_def bucket_entries_def
        sort_by_def purgeOrphanDuties_def NewStore_def bolt_get_def Let_def team_key_def example_defs)
  moreover from this have "GetTeam (NewStore\<lparr>st_bolt := st_bolt example_store,
      st_teams := [(''ws/squad'', example_team\<lparr>team_Generation := 2\<rparr>)]\<rparr>) ''ws/squad'' = GetTeam example_store ''ws/squad''"
    by (intro teams_survive_restart[OF start keys example_ops_run(1)]) (simp_all add: example_ops_run(2))
  moreover have "GetTeam example_store ''ws/squad'' = Inr (example_team\<lparr>team_Generation := 2\<rparr>)"
    by (simp add: GetTeam_def example_ops_run(3))
  ultimately show ?thesis by metis
qed

end
