(* ===== verification/Store_Properties.thy ===== *)
theory Store_Properties
  imports Store_Durability
begin

text \<open>
  The store's promises beyond the restart round trip: what a create, a failed write and a delete
  leave behind, what a flush writes, and that readiness records belong to sessions.
\<close>

text \<open>
  The session table: after a create that reports success the session is found under its key, a
  second create under that key is refused and changes nothing, every other key answers as before,
  and once a delete reports success the key is not found. A create that reports an error changes no
  lookup.
\<close>

theorem session_create_delete:
  assumes "CreateSession commits x s = (s1, None)" and "DeleteSession commits (session_key x) s1 = (s2, None)"
  shows "GetSession s1 (session_key x) = Inr x \<and>
    CreateSession commits' x s1 = (s1, Some (ErrAlreadyExists (session_key x))) \<and>
    (\<forall>k. k \<noteq> session_key x \<longrightarrow> GetSession s1 k = GetSession s k \<and> GetSession s2 k = GetSession s k) \<and>
    GetSession s2 (session_key x) = Inl (ErrNotFound (session_key x))"
proof -
  note c = session_table.create_then_look[OF assms(1)]
  have other: "session_at s1 k = session_at s k" "session_at s2 k = session_at s1 k" if "k \<noteq> session_key x" for k
    using session_table.other_keys(3)[OF that refl, of commits s] session_table.other_keys(2)[OF that, of commits s1] assms
    by simp_all
  show ?thesis
    using c session_table.create_exists[OF c, of commits'] session_table.delete_then_look[OF assms(2)] other
    by (simp add: GetSession_def)
qed

theorem session_create_delete_witness:
  "GetSession (fst (CreateSession (\<lambda>_. True) (example_session ''dev-1'' ''dev'' 1 5) NewStore)) ''ws/dev-1'' =
     Inr (example_session ''dev-1'' ''dev'' 1 5)"
proof -
  let ?x = "example_session ''dev-1'' ''dev'' 1 5"
  have k: "session_key ?x = ''ws/dev-1''" by (simp add: session_key_def example_defs)
  let ?s1 = "NewStore\<lparr>st_sessions := [(''ws/dev-1'', ?x)]\<rparr>"
  have 1: "CreateSession (\<lambda>_. True) ?x NewStore = (?s1, None)"
    by (simp add: CreateSession_def persistPut_def NewStore_def k)
  have 2: "DeleteSession (\<lambda>_. True) (session_key ?x) ?s1 = (NewStore, None)"
    by (simp add: DeleteSession_def persistDelete_def deleteSeatDutiesLocked_def NewStore_def k)
  from session_create_delete[OF 1 2, of "\<lambda>_. True"] show ?thesis by (simp add: 1 k)
qed

text \<open>
  What a write that does not commit leaves: an update has already changed memory and reports
  the error, while a delete, a prune mark and a schedule update leave every lookup of their table as
  it was. In no case does the file change.
\<close>

theorem failed_write_windows:
  assumes "\<not> commits (st_boltUpdates s)" and "st_bolt s = Some db" and "team_at s k = Some t"
    and "snd (g t) = None" and "st_persisted s (bucketTeams, team_key (fst (g t))) = None"
    and "check t (team_sessions_sorted s t) = []"
  shows "snd (UpdateTeam commits k g s) = Some ErrBolt \<and> team_at (fst (UpdateTeam commits k g s)) k = Some (fst (g t)) \<and>
    snd (DeleteTeam commits k s) = Some ErrBolt \<and> team_at (fst (DeleteTeam commits k s)) = team_at s \<and>
    snd (MarkPruning commits k p check s) = Inl ErrBolt \<and> team_at (fst (MarkPruning commits k p check s)) = team_at s \<and>
    schedule_at (fst (UpdateScheduleStatus commits j h s)) = schedule_at s \<and>
    st_bolt (fst (UpdateTeam commits k g s)) = Some db \<and> st_bolt (fst (DeleteTeam commits k s)) = Some db \<and>
    st_bolt (fst (MarkPruning commits k p check s)) = Some db \<and> st_bolt (fst (UpdateScheduleStatus commits j h s)) = Some db"
proof -
  obtain t' where g: "g t = (t', None)" using assms(4) by (cases "g t") auto
  have put: "persistPut commits b i ptr v s' = (s'\<lparr>st_boltUpdates := st_boltUpdates s + 1\<rparr>, Some ErrBolt)"
    "persistPutIfChanged commits bucketTeams (team_key t') ptr v s' =
       (s'\<lparr>st_boltUpdates := st_boltUpdates s + 1\<rparr>, Some ErrBolt)"
    "persistDelete commits b i s' = (s'\<lparr>st_boltUpdates := st_boltUpdates s + 1\<rparr>, Some ErrBolt)"
    if "st_bolt s' = st_bolt s" "st_boltUpdates s' = st_boltUpdates s" "st_persisted s' = st_persisted s" for s' b i ptr v
    using assms(1,2,5) that g
    by (simp_all add: persistPut_def persistPutIfChanged_def persistDelete_def putBytes_def boltUpdate_def Let_def)
  have again: "(team_at s)(k \<mapsto> t) = team_at s" using assms(3) by (simp add: fun_upd_idem)
  show ?thesis using assms(2,3,6) g again
    by (auto simp: UpdateTeam_def DeleteTeam_def MarkPruning_def UpdateScheduleStatus_def put update_conv' Let_def
        split: prod.splits)
qed

theorem failed_write_windows_witness:
  "snd (UpdateTeam (\<lambda>_. False) ''ws/squad'' (\<lambda>t. (t\<lparr>team_Name := ''crew''\<rparr>, None)) example_store) = Some ErrBolt \<and>
   team_at (fst (DeleteTeam (\<lambda>_. False) ''ws/squad'' example_store)) = team_at example_store"
proof -
  have p: "st_persisted example_store = [(bucketTeams, ''ws/squad'') \<mapsto> VTeam (example_team\<lparr>team_Generation := 2\<rparr>)]"
    by (simp add: example_store_def example_ops_def store_defs and_then_def Let_def example_defs)
  show ?thesis
    using failed_write_windows[where s = example_store and commits = "\<lambda>_. False" and k = "''ws/squad''"
        and g = "\<lambda>t. (t\<lparr>team_Name := ''crew''\<rparr>, None)" and check = "\<lambda>_ _. []"
        and t = "example_team\<lparr>team_Generation := 2\<rparr>"] p
    by (simp add: example_ops_run team_key_def example_defs)
qed

section \<open>The flush\<close>

lemma flush_record_sound:
  "(b, k, v) \<in> set (flush_records s wks) \<Longrightarrow>
     (\<exists>x. b = bucketSessions \<and> v = VSession x \<and> session_at s k = Some x) \<or>
     (\<exists>t. b = bucketTeams \<and> v = VTeam t \<and> team_at s k = Some t)"
  by (induction wks) (auto simp: flush_record_def split: option.splits writeKey.splits if_splits)

lemma flush_records_differ:
  "(b, k, v) \<in> set (flush_records s wks) \<Longrightarrow> st_persisted s (b, k) \<noteq> Some (compareImage True v)"
  by (induction wks) (auto split: option.splits if_splits)

lemma flush_records_cover:
  "wk \<in> set wks \<Longrightarrow> flush_record s wk = Some (b, k, v) \<Longrightarrow>
     (b, k, v) \<in> set (flush_records s wks) \<or> st_persisted s (b, k) = Some (compareImage True v)"
  by (induction wks) (auto split: option.splits)

lemma put_all_hit:
  "(b, k, v) \<in> set recs \<Longrightarrow> \<exists>w. (b, k, w) \<in> set recs \<and> bolt_get (put_all recs db) b k = Some w"
proof (induction recs arbitrary: db v)
  case (Cons r recs)
  obtain b' k' v' where r: "r = (b', k', v')" by (cases r)
  show ?case
  proof (cases "\<exists>w. (b, k, w) \<in> set recs")
    case True
    then obtain w where "(b, k, w) \<in> set recs" ..
    from Cons.IH[OF this, of "bolt_put b' k' v' db"] r show ?thesis by (auto simp: put_all_simps)
  next
    case False
    with Cons.prems r have "r = (b, k, v)" by auto
    with False bolt_get_put_all_other[of b k recs "bolt_put b k v db"] show ?thesis by (auto simp: put_all_simps)
  qed
qed simp

text \<open>What a flush that reports no error leaves in the file for a queued key.\<close>

lemma Flush_writes:
  assumes f: "Flush commits w s = (s', w', None)" and s: "persisted_sound s" "st_bolt s = Some db"
    and wk: "wk \<in> set (ws_dirty w)" "flush_record s wk = Some (b, k, v)"
  shows "\<exists>db' d. st_bolt s' = Some db' \<and> bolt_get db' b k = Some d \<and> alike v d"
proof -
  let ?recs = "flush_records s (ws_dirty w)"
  have ne: "ws_dirty w \<noteq> []" using wk by auto
  from flush_records_cover[OF wk] show ?thesis
  proof
    assume hit: "(b, k, v) \<in> set ?recs"
    from put_all_hit[OF hit, of db] obtain u where u: "(b, k, u) \<in> set ?recs" "bolt_get (put_all ?recs db) b k = Some u"
      by blast
    from flush_record_sound[OF hit] flush_record_sound[OF u(1)] have "u = v" by auto
    moreover have "?recs \<noteq> []" using hit by auto
    then have "st_bolt s' = Some (bumpVersion (put_all ?recs db))"
      using f s ne by (auto simp: Flush_def boltUpdate_def Let_def remember_all_frame split: if_splits prod.splits option.splits)
    ultimately show ?thesis using u by simp
  next
    assume skip: "st_persisted s (b, k) = Some (compareImage True v)"
    show ?thesis
    proof (cases "\<exists>u. (b, k, u) \<in> set ?recs")
      case True
      then obtain u where "(b, k, u) \<in> set ?recs" ..
      moreover from flush_record_sound[OF this] wk(2) have "u = v"
        by (auto simp: flush_record_def split: writeKey.splits)
      ultimately have False using skip flush_records_differ by metis
      then show ?thesis ..
    next
      case False
      from skip s obtain d where d: "bolt_get db b k = Some d" "alike (compareImage True v) d"
        unfolding persisted_sound_def by fastforce
      have "st_bolt s' = Some db \<or> st_bolt s' = Some (bumpVersion (put_all ?recs db))"
        using f s by (auto simp: Flush_def boltUpdate_def Let_def remember_all_frame split: if_splits prod.splits option.splits)
      then show ?thesis using d False bolt_get_put_all_other[of b k ?recs db] by (auto simp: alike_def)
    qed
  qed
qed

text \<open>
  A flush that reports no error has written the tick: every queued team the store still holds is
  in the file as it is in memory, every queued session up to its health-check time, memory is
  unchanged, the queue is empty, and at most one transaction was started.
\<close>

theorem Flush_reaches_file:
  assumes "store_inv s" and "st_bolt s = Some db" and "Flush commits w s = (s', w', None)"
  shows "(\<forall>k t. writeTeam k \<in> set (ws_dirty w) \<and> team_at s k = Some t \<longrightarrow>
            (\<exists>db'. st_bolt s' = Some db' \<and> bolt_get db' bucketTeams k = Some (VTeam t))) \<and>
         (\<forall>k x. writeSession k \<in> set (ws_dirty w) \<and> session_at s k = Some x \<longrightarrow>
            (\<exists>db' d. st_bolt s' = Some db' \<and> bolt_get db' bucketSessions k = Some d \<and> alike (VSession x) d)) \<and>
         team_at s' = team_at s \<and> session_at s' = session_at s \<and> w' = NewWriteSet \<and>
         st_boltUpdates s' \<le> st_boltUpdates s + 1"
proof -
  have ps: "persisted_sound s" using assms(1) by (simp add: store_inv_def)
  note wr = Flush_writes[OF assms(3) ps assms(2)]
  have frame: "team_at s' = team_at s \<and> session_at s' = session_at s \<and> w' = NewWriteSet \<and>
      st_boltUpdates s' \<le> st_boltUpdates s + 1"
    using assms(2,3)
    by (auto simp: Flush_def boltUpdate_def Let_def remember_all_frame split: if_splits prod.splits option.splits)
  show ?thesis
  proof (intro conjI allI impI)
    fix k t
    assume "writeTeam k \<in> set (ws_dirty w) \<and> team_at s k = Some t"
    then show "\<exists>db'. st_bolt s' = Some db' \<and> bolt_get db' bucketTeams k = Some (VTeam t)"
      using wr[of "writeTeam k" bucketTeams k "VTeam t"] by (auto simp: flush_record_def)
  next
    fix k x
    assume "writeSession k \<in> set (ws_dirty w) \<and> session_at s k = Some x"
    then show "\<exists>db' d. st_bolt s' = Some db' \<and> bolt_get db' bucketSessions k = Some d \<and> alike (VSession x) d"
      using wr[of "writeSession k" bucketSessions k "VSession x"] by (auto simp: flush_record_def)
  qed (use frame in simp_all)
qed

text \<open>A tick that changed the example team's generation and queued it.\<close>

definition example_dirty :: Store where
  "example_dirty = example_store\<lparr>st_teams := [(''ws/squad'', example_team\<lparr>team_Generation := 3\<rparr>)]\<rparr>"

lemma example_store_inv: "store_inv example_store"
proof -
  have "store_inv (NewStore\<lparr>st_bolt := Some empty_file\<rparr>)"
    by (simp add: store_inv_def persisted_sound_def bolt_wf_def NewStore_def empty_file_def)
  from run_team_ops_inv[OF this example_ops_run(1)] show ?thesis .
qed

theorem Flush_reaches_file_witness:
  "\<exists>db'. st_bolt (fst (Flush (\<lambda>_. True) \<lparr>ws_dirty = [writeTeam ''ws/squad''], ws_seen = []\<rparr> example_dirty)) = Some db' \<and>
     bolt_get db' bucketTeams ''ws/squad'' = Some (VTeam (example_team\<lparr>team_Generation := 3\<rparr>))"
proof -
  let ?w = "\<lparr>ws_dirty = [writeTeam ''ws/squad''], ws_seen = []\<rparr>"
  let ?r = "Flush (\<lambda>_. True) ?w example_dirty"
  obtain db where db: "st_bolt example_dirty = Some db" by (simp add: example_dirty_def example_ops_run)
  have "?r = (fst ?r, fst (snd ?r), None)"
    by (simp add: Flush_def example_dirty_def example_ops_run boltUpdate_def Let_def)
  moreover have "store_inv example_dirty" using example_store_inv by (simp add: example_dirty_def)
  ultimately show ?thesis
    using Flush_reaches_file[OF _ db, of "\<lambda>_. True" ?w "fst ?r" "fst (snd ?r)"] by (simp add: example_dirty_def)
qed

section \<open>Readiness records belong to sessions\<close>

definition duties_owned :: "Store \<Rightarrow> bool" where
  "duties_owned s \<longleftrightarrow> (\<forall>k r. duty_at s k = Some r \<longrightarrow> session_at s (duty_Seat r) \<noteq> None)"

lemma duties_owned_simps [simp]:
  "duties_owned (s\<lparr>st_dutySeq := n\<rparr>) = duties_owned s" "duties_owned (s\<lparr>st_dutyOrphans := l\<rparr>) = duties_owned s"
  by (simp_all add: duties_owned_def)

lemma duties_owned_add:
  "duties_owned s \<Longrightarrow> session_at s (duty_Seat r) \<noteq> None \<Longrightarrow> duties_owned (s\<lparr>st_duties := AList.update k r (st_duties s)\<rparr>)"
  by (simp add: duties_owned_def update_conv')

lemma load_duties_owned: "duties_owned s \<Longrightarrow> duties_owned (fst (load_duties es s))"
proof (induction es arbitrary: s)
  case (Cons e es)
  obtain k v where e: "e = (k, v)" by (cases e)
  show ?case
  proof (cases v)
    case (VDuty r)
    let ?s = "if st_dutySeq s < duty_Seq r then s\<lparr>st_dutySeq := duty_Seq r\<rparr> else s"
    have o: "duties_owned ?s" using Cons.prems by simp
    show ?thesis
    proof (cases "session_at ?s (duty_Seat r) = None")
      case True
      with Cons.IH[of "?s\<lparr>st_dutyOrphans := st_dutyOrphans ?s @ [k]\<rparr>"] o e VDuty show ?thesis
        by (simp only: load_duties.simps Let_def Value.case if_True duties_owned_simps simp_thms)
    next
      case False
      from Cons.IH[OF duties_owned_add[OF o False, of k]] False e VDuty show ?thesis
        by (simp only: load_duties.simps Let_def Value.case if_False)
    qed
  qed (use Cons.prems e in simp_all)
qed simp

lemma other_loads_duties:
  "st_duties (fst (load_teams es s)) = st_duties s" "st_duties (fst (load_sessions es s)) = st_duties s"
  "st_duties (fst (load_schedules es s)) = st_duties s"
proof -
  show "st_duties (fst (load_teams es s)) = st_duties s"
    by (induction es s rule: load_teams.induct) (auto split: Value.splits)
  show "st_duties (fst (load_sessions es s)) = st_duties s"
    by (induction es s rule: load_sessions.induct) (auto simp: Let_def split: Value.splits)
  show "st_duties (fst (load_schedules es s)) = st_duties s"
    by (induction es s rule: load_schedules.induct) (auto split: Value.splits)
qed

lemma rehydrate_owned:
  assumes "rehydrate db s = (s', None)" and "st_duties s = []"
  shows "duties_owned s'"
proof -
  from assms(1) obtain s1 s2 s3 where l: "load_teams (bucket_entries db bucketTeams) s = (s1, None)"
      "load_sessions (bucket_entries db bucketSessions) s1 = (s2, None)"
      "load_schedules (bucket_entries db bucketScheduleStatus) s2 = (s3, None)" and d: "rehydrateDuties db s3 = (s', None)"
    by (rule rehydrate_stages)
  have "st_duties s3 = []"
    using l assms(2) other_loads_duties(1)[of "bucket_entries db bucketTeams" s]
      other_loads_duties(2)[of "bucket_entries db bucketSessions" s1]
      other_loads_duties(3)[of "bucket_entries db bucketScheduleStatus" s2] by simp
  from d obtain n where
    "load_duties (bucket_entries db bucketDutyReadiness) (s3\<lparr>st_dutyOrphans := [], st_dutySeq := n\<rparr>) = (s', None)"
    by (rule rehydrateDuties_stage)
  moreover have "duties_owned (s3\<lparr>st_dutyOrphans := [], st_dutySeq := n\<rparr>)"
    using \<open>st_duties s3 = []\<close> by (simp add: duties_owned_def)
  ultimately show ?thesis using load_duties_owned by (metis fst_conv)
qed

lemma delete_duties_gone:
  assumes "delete_duties commits seat ds s = (s', None)"
    and "\<And>k r. duty_at s k = Some r \<Longrightarrow> duty_Seat r = seat \<Longrightarrow> \<exists>q. (k, q) \<in> set ds \<and> duty_Seat q = seat"
    and "duty_at s' k = Some r"
  shows "duty_Seat r \<noteq> seat"
  using assms
proof (induction ds arbitrary: s)
  case Nil
  then show ?case by fastforce
next
  case (Cons d ds)
  obtain j q where d: "d = (j, q)" by (cases d)
  show ?case
  proof (cases "duty_Seat q = seat")
    case False
    then have "delete_duties commits seat ds s = (s', None)" using Cons.prems(1) d by simp
    then show ?thesis
    proof (rule Cons.IH)
      fix k r
      assume "duty_at s k = Some r" "duty_Seat r = seat"
      from Cons.prems(2)[OF this] False d show "\<exists>q. (k, q) \<in> set ds \<and> duty_Seat q = seat" by auto
    qed (rule Cons.prems(3))
  next
    case True
    then obtain s1 where p: "persistDelete commits bucketDutyReadiness j s = (s1, None)"
      and del: "delete_duties commits seat ds (s1\<lparr>st_duties := AList.delete j (st_duties s1)\<rparr>) = (s', None)"
      using Cons.prems(1) d by (auto split: prod.splits option.splits)
    have s1: "st_duties s1 = st_duties s" using persist_tables(3)[OF p] by (simp add: same_tables_def)
    from del show ?thesis
    proof (rule Cons.IH)
      fix k r
      assume "duty_at (s1\<lparr>st_duties := AList.delete j (st_duties s1)\<rparr>) k = Some r" "duty_Seat r = seat"
      then have "duty_at s k = Some r" "k \<noteq> j" by (auto simp: s1 delete_conv' split: if_splits)
      from Cons.prems(2)[OF this(1) \<open>duty_Seat r = seat\<close>] this(2) d
      show "\<exists>q. (k, q) \<in> set ds \<and> duty_Seat q = seat" by auto
    qed (rule Cons.prems(3))
  qed
qed

text \<open>
  No readiness record outlives its session: a delete of a session that reports success leaves no
  record of that seat, and, whatever an interrupted delete left behind, a store opened from the file
  holds no record whose session is missing.
\<close>

theorem readiness_belongs_to_sessions:
  "(DeleteSession commits seat s = (s', None) \<longrightarrow> (\<forall>k r. duty_at s' k = Some r \<longrightarrow> duty_Seat r \<noteq> seat)) \<and>
   (OpenBolt commits db NewStore = (s', None) \<longrightarrow> duties_owned s')"
proof (intro conjI impI allI)
  fix k r
  assume del: "DeleteSession commits seat s = (s', None)" and r: "duty_at s' k = Some r"
  then obtain s1 where p: "persistDelete commits bucketSessions seat s = (s1, None)"
    and d: "delete_duties commits seat (st_duties s1) (s1\<lparr>st_sessions := AList.delete seat (st_sessions s1)\<rparr>) = (s', None)"
    by (auto simp: DeleteSession_def deleteSeatDutiesLocked_def split: if_splits prod.splits option.splits)
  show "duty_Seat r \<noteq> seat" by (rule delete_duties_gone[OF d _ r]) (auto dest: map_of_SomeD)
next
  assume "OpenBolt commits db NewStore = (s', None)"
  then obtain s1 where s1: "rehydrate db (NewStore\<lparr>st_bolt := Some db\<rparr>) = (s1, None)"
    and t: "st_sessions s' = st_sessions s1" "st_duties s' = st_duties s1"
    by (rule OpenBolt_stages) blast
  have "duties_owned s1" by (rule rehydrate_owned[OF s1]) (simp add: NewStore_def)
  then show "duties_owned s'" using t by (simp add: duties_owned_def)
qed

text \<open>A file an interrupted delete left with one orphan record.\<close>

definition orphan_file :: Bolt where
  "orphan_file = \<lparr>bolt_data = [((bucketDutyReadiness, ''ws/dev-1|duty.git.push''), VDuty example_duty)], bolt_version = 1\<rparr>"

theorem readiness_belongs_to_sessions_witness:
  "\<exists>s'. OpenBolt (\<lambda>_. True) orphan_file NewStore = (s', None) \<and> duties_owned s' \<and> st_duties s' = [] \<and>
        bolt_data (the (st_bolt s')) = []"
proof -
  let ?r = "OpenBolt (\<lambda>_. True) orphan_file NewStore"
  have "?r = (fst ?r, None)" "st_duties (fst ?r) = []" "bolt_data (the (st_bolt (fst ?r))) = []"
    by (simp_all add: OpenBolt_def rehydrate_def rehydrateDuties_def and_then_def bucket_entries_def sort_by_def
        purgeOrphanDuties_def boltUpdate_def bumpVersion_def bolt_delete_def NewStore_def bolt_get_def Let_def
        orphan_file_def example_duty_def)
  with readiness_belongs_to_sessions[of "\<lambda>_. True" "[]" NewStore "fst ?r" orphan_file] show ?thesis by auto
qed

end
