(* ===== verification/Backoff.thy ===== *)
theory Backoff
  imports Marvel_Prelude "HOL-Library.Word"
begin

text \<open>
  \<open>internal/backoff/backoff.go\<close>: the restart schedule the crash loops share. A \<open>Duration\<close> is a
  signed 64-bit count of nanoseconds, so \<open>Wait\<close> is modelled on \<open>64 word\<close>: the left shift drops
  the bits past the width, and the two comparisons are signed.
\<close>

record Schedule =
  Initial :: "64 word"
  Max :: "64 word"

text \<open>\<open>Schedule.Wait(n)\<close>.\<close>

definition Wait :: "Schedule \<Rightarrow> int \<Rightarrow> 64 word" where
  "Wait s n =
     (if n \<le> 1 then Initial s
      else let d = push_bit (nat (n - 1)) (Initial s)
           in if sint d \<le> 0 \<or> sint (Max s) < sint d then Max s else d)"

text \<open>\<open>backoff.Restart\<close>: 30 seconds doubling to 5 minutes.\<close>

definition Restart :: Schedule where
  "Restart = \<lparr>Initial = 30000000000, Max = 300000000000\<rparr>"

text \<open>The wait as a duration, in nanoseconds.\<close>

definition restart_wait :: "int \<Rightarrow> duration" where
  "restart_wait n = sint (Wait Restart n)"

text \<open>The ladder the documentation names, with no machine arithmetic: the reference.\<close>

definition ladder :: "int \<Rightarrow> duration" where
  "ladder n = min (5 * minute) (30 * second * 2 ^ nat (n - 1))"

section \<open>The contract of a restart schedule\<close>

text \<open>
  What a crash loop relies on: every wait lies between a positive floor and a cap, and a later
  restart never waits less. The role controller, the workload supervisor and the retry of a
  scheduled firing are its clients.
\<close>

locale restart_schedule =
  fixes wait :: "int \<Rightarrow> duration"
    and floor :: duration
    and cap :: duration
  assumes floor_pos: "0 < floor"
    and wait_floor: "floor \<le> wait n"
    and wait_cap: "wait n \<le> cap"
    and wait_mono: "m \<le> n \<Longrightarrow> wait m \<le> wait n"
begin

lemma deadline_future: "now < now + wait n"
  using floor_pos wait_floor[of n] by linarith

lemma deadline_bounded: "now + wait n \<le> now + cap"
  using wait_cap by simp

lemma deadline_later: "m \<le> n \<Longrightarrow> now \<le> now' \<Longrightarrow> now + wait m \<le> now' + wait n"
  using wait_mono by (simp add: add_mono)

lemma floor_le_cap: "floor \<le> cap"
  using wait_floor wait_cap order_trans by blast

end

section \<open>The 64-bit ladder is the documented one\<close>

text \<open>From the fourth doubling on, the shifted value is zero, negative or past the cap, at every
  shift up to the word width; past the width the shift is zero.\<close>

lemma shifted_past_cap_word:
  "list_all (\<lambda>k. let d = push_bit k (30000000000 :: 64 word)
                  in sint d \<le> 0 \<or> 300000000000 < sint d) [4..<64]"
  by (simp add: upt_rec_numeral push_bit_eq_mult)

lemma shifted_past_cap:
  assumes "4 \<le> k"
  shows "sint (push_bit k (30000000000 :: 64 word)) \<le> 0 \<or>
         300000000000 < sint (push_bit k (30000000000 :: 64 word))"
proof (cases "k < 64")
  case True
  then have k: "k \<in> set [4..<64]" using assms by (simp only: set_upt atLeastLessThan_iff)
  show ?thesis using shifted_past_cap_word[unfolded list_all_iff Let_def, rule_format, OF k] .
next
  case False
  then have "push_bit k (30000000000 :: 64 word) = 0" by (simp add: push_bit_word_beyond)
  then show ?thesis by simp
qed

lemma restart_wait_small:
  "n \<le> 1 \<Longrightarrow> restart_wait n = 30 * second"
  "restart_wait 2 = 60 * second"
  "restart_wait 3 = 120 * second"
  "restart_wait 4 = 240 * second"
  by (simp_all add: restart_wait_def Wait_def Restart_def second_def push_bit_eq_mult)

lemma restart_wait_capped: "5 \<le> n \<Longrightarrow> restart_wait n = 5 * minute"
  using shifted_past_cap[of "nat (n - 1)"]
  by (auto simp: restart_wait_def Wait_def Restart_def Let_def time_simps nat_le_iff)

lemma ladder_capped:
  assumes "5 \<le> n"
  shows "ladder n = 5 * minute"
proof -
  have "(2::int) ^ 4 \<le> 2 ^ nat (n - 1)"
    using assms by (intro power_increasing) auto
  then show ?thesis by (simp add: ladder_def time_simps)
qed

lemma restart_ladder: "restart_wait n = ladder n"
proof -
  consider "n \<le> 1" | "n = 2" | "n = 3" | "n = 4" | "5 \<le> n" by linarith
  then show ?thesis
    by cases (simp_all add: restart_wait_small restart_wait_capped ladder_capped,
        simp_all add: ladder_def time_simps)
qed

text \<open>
  \<open>backoff.Restart.Wait\<close> is the documented ladder 30s, 60s, 2m, 4m, then 5m for every restart
  number: the 64-bit left shift never lets a wrapped value through, however large the restart
  count grows.
\<close>

theorem restart_wait_is_ladder: "restart_wait n = ladder n"
  by (rule restart_ladder)

lemma ladder_mono: "m \<le> n \<Longrightarrow> ladder m \<le> ladder n"
  unfolding ladder_def by (intro min.mono mult_left_mono power_increasing) (auto simp: time_simps)

lemma restart_wait_bounds: "30 * second \<le> restart_wait n" "restart_wait n \<le> 5 * minute"
proof -
  have "30 * second * 1 \<le> 30 * second * 2 ^ nat (n - 1)"
    by (rule mult_left_mono) (auto simp: time_simps)
  then show "30 * second \<le> restart_wait n" "restart_wait n \<le> 5 * minute"
    by (auto simp: restart_ladder ladder_def time_simps)
qed

interpretation restart: restart_schedule restart_wait "30 * second" "5 * minute"
proof
  show "0 < 30 * second" by (simp add: time_simps)
  show "m \<le> n \<Longrightarrow> restart_wait m \<le> restart_wait n" for m n
    by (simp add: restart_ladder ladder_mono)
qed (simp_all add: restart_wait_bounds)

text \<open>
  The cap holds for every schedule, not only \<open>Restart\<close>: whatever the shift wraps to, \<open>Wait\<close>
  returns a positive duration that is at most \<open>Max\<close>.
\<close>

theorem Wait_within_cap:
  assumes "0 < sint (Initial s)" and "sint (Initial s) \<le> sint (Max s)"
  shows "0 < sint (Wait s n) \<and> sint (Wait s n) \<le> sint (Max s)"
  using assms by (auto simp: Wait_def Let_def)

theorem Wait_within_cap_witness:
  "0 < sint (Initial Restart) \<and> sint (Initial Restart) \<le> sint (Max Restart) \<and>
   0 < sint (Wait Restart 70) \<and> sint (Wait Restart 70) \<le> sint (Max Restart)"
proof -
  have h: "0 < sint (Initial Restart)" "sint (Initial Restart) \<le> sint (Max Restart)"
    by (simp_all add: Restart_def)
  show ?thesis using h Wait_within_cap[OF h, of 70] by simp
qed

end
