(* ===== verification/Calendar.thy ===== *)
theory Calendar
  imports Marvel_Prelude
begin

text \<open>
  What the modelled code uses of Go's \<open>time\<close> package to read a calendar: \<open>Year\<close>, \<open>Month\<close>, \<open>Day\<close>,
  \<open>Weekday\<close>, \<open>Hour\<close>, \<open>Minute\<close> of an instant in a zone, the normalising \<open>Date\<close> and \<open>AddDate\<close>, and
  the two layouts the code formats times with. A calendar date is its day number, day 0 being
  1 January of year 1, so \<open>time.Date(y, m, d + k, \<dots>)\<close> and \<open>AddDate(0, 0, k)\<close> are additions.

  A \<open>*time.Location\<close> is the function from an instant (nanoseconds since the zero \<open>Time\<close>) to the
  zone's offset in seconds east of UTC: the only thing the code reads of it, through \<open>Zone()\<close>.
\<close>

section \<open>Dates\<close>

definition is_leap :: "int \<Rightarrow> bool" where
  "is_leap y \<longleftrightarrow> y mod 4 = 0 \<and> (y mod 100 \<noteq> 0 \<or> y mod 400 = 0)"

definition days_in_month :: "int \<Rightarrow> int \<Rightarrow> int" where
  "days_in_month y m =
     (if m = 2 then (if is_leap y then 29 else 28) else if m \<in> {4, 6, 9, 11} then 30 else 31)"

text \<open>The year of a day, and the day's index in it, by 400-, 100-, 4- and 1-year cycles.\<close>

definition year_parts :: "int \<Rightarrow> int \<times> int \<times> int \<times> int \<times> int" where
  "year_parts dn =
     (let q400 = dn div 146097; r400 = dn mod 146097;
          q100 = min 3 (r400 div 36524); r100 = r400 - 36524 * q100;
          q4 = r100 div 1461; r4 = r100 mod 1461;
          q1 = min 3 (r4 div 365)
      in (q400, q100, q4, q1, r4 - 365 * q1))"

definition year_of_day :: "int \<Rightarrow> int" where
  "year_of_day dn = (case year_parts dn of (q400, q100, q4, q1, _) \<Rightarrow> 400 * q400 + 100 * q100 + 4 * q4 + q1 + 1)"

definition yday_of_day :: "int \<Rightarrow> int" where
  "yday_of_day dn = (case year_parts dn of (_, _, _, _, yd) \<Rightarrow> yd)"

fun month_search :: "int \<Rightarrow> int \<Rightarrow> int \<Rightarrow> nat \<Rightarrow> int \<times> int" where
  "month_search y m yd 0 = (m, yd + 1)"
| "month_search y m yd (Suc fuel) =
     (if yd < days_in_month y m then (m, yd + 1) else month_search y (m + 1) (yd - days_in_month y m) fuel)"

text \<open>\<open>t.Date()\<close>: year, month and day. Eleven steps reach December.\<close>

definition civil_of_day :: "int \<Rightarrow> int \<times> int \<times> int" where
  "civil_of_day dn = (let y = year_of_day dn; (m, d) = month_search y 1 (yday_of_day dn) 11 in (y, m, d))"

definition month_of_day :: "int \<Rightarrow> int" where
  "month_of_day dn = fst (snd (civil_of_day dn))"

definition dom_of_day :: "int \<Rightarrow> int" where
  "dom_of_day dn = snd (snd (civil_of_day dn))"

text \<open>1 January of year 1 is a Monday; Sunday is 0.\<close>

definition weekday_of_day :: "int \<Rightarrow> int" where
  "weekday_of_day dn = (dn + 1) mod 7"

text \<open>The day number counted from the calendar rules: the reference the search is checked against.\<close>

definition days_before_year :: "int \<Rightarrow> int" where
  "days_before_year y = 365 * (y - 1) + (y - 1) div 4 - (y - 1) div 100 + (y - 1) div 400"

fun days_before_month :: "int \<Rightarrow> nat \<Rightarrow> int" where
  "days_before_month y 0 = 0"
| "days_before_month y (Suc m) = (if m = 0 then 0 else days_before_month y m + days_in_month y (int m))"

definition day_of_civil :: "int \<times> int \<times> int \<Rightarrow> int" where
  "day_of_civil c = (case c of (y, m, d) \<Rightarrow> days_before_year y + days_before_month y (nat m) + d - 1)"

definition valid_civil :: "int \<times> int \<times> int \<Rightarrow> bool" where
  "valid_civil c = (case c of (y, m, d) \<Rightarrow> 1 \<le> m \<and> m \<le> 12 \<and> 1 \<le> d \<and> d \<le> days_in_month y m)"

section \<open>Instants\<close>

type_synonym Location = "time \<Rightarrow> int"

abbreviation (input) utc :: Location where
  "utc \<equiv> \<lambda>_. 0"

text \<open>\<open>time.FixedZone\<close>.\<close>

definition FixedZone :: "int \<Rightarrow> Location" where
  "FixedZone offset = (\<lambda>_. offset)"

definition day_ns :: int where
  [time_simps]: "day_ns = 24 * hour"

text \<open>The reading of the zone's wall clock at an instant, as an instant of UTC.\<close>

definition wall_clock :: "Location \<Rightarrow> time \<Rightarrow> time" where
  "wall_clock loc t = t + loc t * second"

definition day_number :: "time \<Rightarrow> int" where
  "day_number w = w div day_ns"

definition hour_of :: "time \<Rightarrow> int" where
  "hour_of w = (w mod day_ns) div hour"

definition minute_of :: "time \<Rightarrow> int" where
  "minute_of w = (w mod hour) div minute"

definition second_of :: "time \<Rightarrow> int" where
  "second_of w = (w mod minute) div second"

text \<open>\<open>time.Date(y, m, d, h, mi, 0, 0, time.UTC)\<close> for a day number.\<close>

definition utc_wall :: "int \<Rightarrow> int \<Rightarrow> int \<Rightarrow> time" where
  "utc_wall dn h mi = dn * day_ns + h * hour + mi * minute"

section \<open>Layouts\<close>

definition pad :: "nat \<Rightarrow> int \<Rightarrow> string" where
  "pad w n = (let ds = nat_digits (nat n) in replicate (w - length ds) (CHR ''0'') @ ds)"

text \<open>The UTC renderings \<open>2006-01-02T15:04:05Z\<close> (RFC 3339) and \<open>20060102T150405Z\<close>, for years from 1.\<close>

definition rfc3339 :: "time \<Rightarrow> string" where
  "rfc3339 t = (case civil_of_day (day_number t) of (y, m, d) \<Rightarrow>
     pad 4 y @ ''-'' @ pad 2 m @ ''-'' @ pad 2 d @ ''T'' @
     pad 2 (hour_of t) @ '':'' @ pad 2 (minute_of t) @ '':'' @ pad 2 (second_of t) @ ''Z'')"

definition compact_stamp :: "time \<Rightarrow> string" where
  "compact_stamp t = (case civil_of_day (day_number t) of (y, m, d) \<Rightarrow>
     pad 4 y @ pad 2 m @ pad 2 d @ ''T'' @
     pad 2 (hour_of t) @ pad 2 (minute_of t) @ pad 2 (second_of t) @ ''Z'')"

section \<open>The search is the calendar\<close>

lemma year_parts_bounds:
  assumes "year_parts dn = (q400, q100, q4, q1, yd)"
  shows "dn = 146097 * q400 + 36524 * q100 + 1461 * q4 + 365 * q1 + yd"
    and "0 \<le> q100" "q100 \<le> 3" "0 \<le> q4" "q4 \<le> 24" "0 \<le> q1" "q1 \<le> 3" "0 \<le> yd"
    and "yd \<le> 364 \<or> (yd = 365 \<and> q1 = 3 \<and> (q4 = 24 \<longrightarrow> q100 = 3))"
proof -
  define r400 where "r400 = dn mod 146097"
  define p100 where "p100 = min 3 (r400 div 36524)"
  define r100 where "r100 = r400 - 36524 * p100"
  define r4 where "r4 = r100 mod 1461"
  define p1 where "p1 = min 3 (r4 div 365)"
  have "year_parts dn = (dn div 146097, p100, r100 div 1461, p1, r4 - 365 * p1)"
    unfolding year_parts_def Let_def p1_def r4_def r100_def p100_def r400_def ..
  with assms have eq: "(q400, q100, q4, q1, yd) = (dn div 146097, p100, r100 div 1461, p1, r4 - 365 * p1)"
    by (rule trans[OF sym])
  then have parts: "q400 = dn div 146097" "q100 = p100" "q4 = r100 div 1461" "q1 = p1"
    "yd = r4 - 365 * p1" unfolding prod.inject by blast+
  have q: "q400 = dn div 146097" "q100 = min 3 (r400 div 36524)" "q4 = r100 div 1461"
    "q1 = min 3 (r4 div 365)" "yd = r4 - 365 * q1"
    using parts p100_def p1_def by (simp_all only:)
  have r100_def: "r100 = r400 - 36524 * q100" by (simp only: r100_def parts(2))
  have r400: "0 \<le> r400" "r400 < 146097" by (simp_all add: r400_def)
  have r100: "0 \<le> r100" "r100 < 36524 \<or> (q100 = 3 \<and> r100 \<le> 36524)" "0 \<le> q100" "q100 \<le> 3"
  proof -
    define k where "k = r400 div 36524"
    define m where "m = r400 mod 36524"
    have k: "r400 = 36524 * k + m" "0 \<le> m" "m < 36524"
      by (simp_all add: k_def m_def)
    have kb: "0 \<le> k" "k \<le> 4" "q100 = min 3 k" using k r400 by (linarith, linarith, simp add: q(2) k_def)
    then have "(0 \<le> k \<and> k \<le> 3 \<and> q100 = k) \<or> (k = 4 \<and> q100 = 3)" by linarith
    then consider "k \<le> 3" "q100 = k" "0 \<le> k" | "k = 4" "q100 = 3" by blast
    then show "0 \<le> r100" "r100 < 36524 \<or> (q100 = 3 \<and> r100 \<le> 36524)" "0 \<le> q100" "q100 \<le> 3"
      unfolding r100_def using k r400 by (cases; linarith)+
  qed
  have r4: "0 \<le> r4" "r4 < 1461" by (simp_all add: r4_def)
  have r100_eq: "r100 = 1461 * q4 + r4" by (simp add: q(3) r4_def)
  have q4: "0 \<le> q4" "q4 \<le> 24" using r100(1,2) r100_eq r4 by linarith+
  have q1: "0 \<le> q1" "q1 \<le> 3" "0 \<le> yd" "yd \<le> 364 \<or> (yd = 365 \<and> q1 = 3 \<and> r4 = 1460)"
  proof -
    define k where "k = r4 div 365"
    define m where "m = r4 mod 365"
    have k: "r4 = 365 * k + m" "0 \<le> m" "m < 365"
      by (simp_all add: k_def m_def)
    have kb: "0 \<le> k" "k \<le> 4" "q1 = min 3 k" using k r4 by (linarith, linarith, simp add: q(4) k_def)
    then have "(0 \<le> k \<and> k \<le> 3 \<and> q1 = k) \<or> (k = 4 \<and> q1 = 3)" by linarith
    then consider "k \<le> 3" "q1 = k" "0 \<le> k" | "k = 4" "q1 = 3" by blast
    then show "0 \<le> q1" "q1 \<le> 3" "0 \<le> yd" "yd \<le> 364 \<or> (yd = 365 \<and> q1 = 3 \<and> r4 = 1460)"
      unfolding q(5) using k r4 by (cases; linarith)+
  qed
  have dn: "dn = 146097 * q400 + r400" by (simp add: q(1) r400_def)
  show "dn = 146097 * q400 + 36524 * q100 + 1461 * q4 + 365 * q1 + yd"
    using dn r100_eq q(5) by (simp add: r100_def)
  show "0 \<le> q100" "q100 \<le> 3" "0 \<le> q4" "q4 \<le> 24" "0 \<le> q1" "q1 \<le> 3" "0 \<le> yd"
    using r100 q4 q1 by auto
  show "yd \<le> 364 \<or> (yd = 365 \<and> q1 = 3 \<and> (q4 = 24 \<longrightarrow> q100 = 3))"
    using q1(4) r100(2) r100_eq by auto
qed

lemma days_before_year_parts:
  assumes "0 \<le> q100" "q100 \<le> 3" "0 \<le> q4" "q4 \<le> 24" "0 \<le> q1" "q1 \<le> (3::int)"
  shows "days_before_year (400 * q400 + 100 * q100 + 4 * q4 + q1 + 1) =
           146097 * q400 + 36524 * q100 + 1461 * q4 + 365 * q1"
proof -
  let ?y = "400 * q400 + 100 * q100 + 4 * q4 + q1"
  have "?y div 4 = 100 * q400 + 25 * q100 + q4"
    using assms by (intro int_div_pos_eq[where r = q1]) auto
  moreover have "?y div 100 = 4 * q400 + q100"
    using assms by (intro int_div_pos_eq[where r = "4 * q4 + q1"]) auto
  moreover have "?y div 400 = q400"
    using assms by (intro int_div_pos_eq[where r = "100 * q100 + 4 * q4 + q1"]) auto
  ultimately show ?thesis by (simp add: days_before_year_def)
qed

lemma is_leap_parts:
  assumes "0 \<le> q100" "q100 \<le> 3" "0 \<le> q4" "q4 \<le> (24::int)" "q4 = 24 \<longrightarrow> q100 = 3"
  shows "is_leap (400 * q400 + 100 * q100 + 4 * q4 + 3 + 1)"
proof -
  let ?y = "400 * q400 + 100 * q100 + 4 * q4 + 3 + 1"
  have "?y mod 4 = 0"
    by (intro int_mod_pos_eq[where q = "100 * q400 + 25 * q100 + q4 + 1"]) auto
  moreover have "?y mod 400 = 0" if "q4 = 24"
    using assms that by (intro int_mod_pos_eq[where q = "q400 + 1"]) auto
  moreover have "?y mod 100 = 4 * q4 + 4" if "q4 \<noteq> 24"
    using assms that by (intro int_mod_pos_eq[where q = "4 * q400 + q100"]) auto
  ultimately show ?thesis using assms(3) by (cases "q4 = 24") (simp_all add: is_leap_def)
qed

lemma year_of_day_split: "dn = days_before_year (year_of_day dn) + yday_of_day dn"
proof -
  obtain q400 q100 q4 q1 yd where p: "year_parts dn = (q400, q100, q4, q1, yd)"
    by (metis surj_pair)
  note b = year_parts_bounds[OF p]
  have "year_of_day dn = 400 * q400 + 100 * q100 + 4 * q4 + q1 + 1" "yday_of_day dn = yd"
    by (simp_all add: year_of_day_def yday_of_day_def p)
  with b(1) days_before_year_parts[OF b(2-7)] show ?thesis by simp
qed

lemma yday_bounds:
  "0 \<le> yday_of_day dn" "yday_of_day dn < 365 + (if is_leap (year_of_day dn) then 1 else 0)"
proof -
  obtain q400 q100 q4 q1 yd where p: "year_parts dn = (q400, q100, q4, q1, yd)"
    by (metis surj_pair)
  note b = year_parts_bounds[OF p]
  show "0 \<le> yday_of_day dn" using b(8) by (simp add: yday_of_day_def p)
  have y: "year_of_day dn = 400 * q400 + 100 * q100 + 4 * q4 + q1 + 1"
    by (simp add: year_of_day_def p)
  have "is_leap (year_of_day dn)" if "yd = 365"
    unfolding y using b(2-9) that is_leap_parts[of q100 q4 q400] by auto
  then show "yday_of_day dn < 365 + (if is_leap (year_of_day dn) then 1 else 0)"
    using b(9) by (auto simp: yday_of_day_def p)
qed

lemma month_search_spec:
  assumes "month_search y m yd fuel = (m', d)" and "1 \<le> m" and "0 \<le> yd"
    and "yd + days_before_month y (nat m) < days_before_month y (nat m + fuel + 1)"
  shows "1 \<le> m' \<and> m' \<le> m + int fuel \<and> 1 \<le> d \<and> d \<le> days_in_month y m' \<and>
         days_before_month y (nat m') + d - 1 = days_before_month y (nat m) + yd"
  using assms
proof (induction fuel arbitrary: m yd)
  case 0
  then obtain k where k: "nat m = Suc k" by (metis Suc_pred' nat_0_iff not_less0 not_le zero_less_nat_eq zero_less_one order_less_le_trans)
  with 0 have "int (Suc k) = m" by simp
  with 0 k show ?case by (auto simp: add.commute)
next
  case (Suc fuel)
  show ?case
  proof (cases "yd < days_in_month y m")
    case True
    with Suc.prems show ?thesis by auto
  next
    case False
    have step: "days_before_month y (nat (m + 1)) = days_before_month y (nat m) + days_in_month y m"
      using Suc.prems(2) by (auto simp: nat_add_distrib)
    have "month_search y (m + 1) (yd - days_in_month y m) fuel = (m', d)"
      using False Suc.prems(1) by simp
    from Suc.IH[OF this] Suc.prems False step show ?thesis
      by (auto simp: nat_add_distrib)
  qed
qed

lemma days_before_month_1: "days_before_month y (Suc 0) = 0"
  by simp

lemma days_before_month_13: "days_before_month y 13 = 365 + (if is_leap y then 1 else 0)"
  by (simp add: eval_nat_numeral days_in_month_def)

lemma civil_of_day_spec:
  "valid_civil (civil_of_day dn)" "day_of_civil (civil_of_day dn) = dn"
proof -
  let ?y = "year_of_day dn"
  obtain m d where md: "month_search ?y 1 (yday_of_day dn) 11 = (m, d)" by (metis surj_pair)
  have "yday_of_day dn + days_before_month ?y (nat 1) < days_before_month ?y (nat 1 + 11 + 1)"
    using yday_bounds[of dn] days_before_month_13[of ?y] days_before_month_1[of ?y]
    by (simp del: days_before_month.simps)
  from month_search_spec[OF md _ _ this] yday_bounds(1)[of dn]
  have s: "1 \<le> m" "m \<le> 12" "1 \<le> d" "d \<le> days_in_month ?y m"
    "days_before_month ?y (nat m) + d - 1 = yday_of_day dn" by auto
  show "valid_civil (civil_of_day dn)"
    using s by (simp add: civil_of_day_def md valid_civil_def Let_def)
  show "day_of_civil (civil_of_day dn) = dn"
    using s(5) year_of_day_split[of dn] by (simp add: civil_of_day_def md day_of_civil_def Let_def)
qed

lemma civil_of_day_inj: "civil_of_day a = civil_of_day b \<longleftrightarrow> a = b"
  by (metis civil_of_day_spec(2))

lemma civil_of_day_year:
  obtains m d where "civil_of_day dn = (year_of_day dn, m, d)"
  by (cases "month_search (year_of_day dn) 1 (yday_of_day dn) 11") (simp add: civil_of_day_def)

lemma month_dom_bounds:
  "1 \<le> month_of_day dn" "month_of_day dn \<le> 12" "1 \<le> dom_of_day dn"
  "dom_of_day dn \<le> days_in_month (year_of_day dn) (month_of_day dn)"
  using civil_of_day_spec(1)[of dn]
  by (auto simp: month_of_day_def dom_of_day_def valid_civil_def civil_of_day_def Let_def
      split: prod.splits)

lemma dom_le_31: "dom_of_day dn \<le> 31"
  using month_dom_bounds(4)[of dn] by (auto simp: days_in_month_def split: if_splits)

lemma weekday_bounds: "0 \<le> weekday_of_day dn" "weekday_of_day dn < 7"
  by (simp_all add: weekday_of_day_def)

section \<open>Clock arithmetic\<close>

lemma clock_pos [simp]: "0 < second" "0 < minute" "0 < hour" "0 < day_ns"
  "second \<noteq> 0" "minute \<noteq> 0" "hour \<noteq> 0" "day_ns \<noteq> 0"
  by (simp_all add: time_simps)

lemma time_of_day_bounds:
  "0 \<le> hour_of w" "hour_of w < 24" "0 \<le> minute_of w" "minute_of w < 60" "0 \<le> second_of w" "second_of w < 60"
proof -
  have "w mod day_ns < day_ns" "0 \<le> w mod day_ns" "w mod hour < hour" "0 \<le> w mod hour"
    "w mod minute < minute" "0 \<le> w mod minute" by simp_all
  then show "0 \<le> hour_of w" "hour_of w < 24" "0 \<le> minute_of w" "minute_of w < 60" "0 \<le> second_of w" "second_of w < 60"
    unfolding hour_of_def minute_of_def second_of_def time_simps by auto
qed

lemma clock_split:
  "w = day_number w * day_ns + hour_of w * hour + minute_of w * minute + second_of w * second + w mod second"
proof -
  have "(w mod day_ns) mod hour = w mod hour" "(w mod hour) mod minute = w mod minute"
    "(w mod minute) mod second = w mod second"
    by (simp_all add: mod_mod_cancel time_simps)
  then have "w mod day_ns = hour_of w * hour + w mod hour" "w mod hour = minute_of w * minute + w mod minute"
    "w mod minute = second_of w * second + w mod second"
    unfolding hour_of_def minute_of_def second_of_def by (metis div_mult_mod_eq)+
  then show ?thesis unfolding day_number_def
    by (metis add.assoc div_mult_mod_eq)
qed

lemma utc_wall_parts:
  assumes "0 \<le> h" "h < 24" "0 \<le> mi" "mi < 60"
  shows "day_number (utc_wall dn h mi) = dn" "hour_of (utc_wall dn h mi) = h" "minute_of (utc_wall dn h mi) = mi"
proof -
  have "0 \<le> h * hour + mi * minute" "h * hour + mi * minute < day_ns"
    using assms by (auto simp: time_simps)
  then have d: "utc_wall dn h mi div day_ns = dn" "utc_wall dn h mi mod day_ns = h * hour + mi * minute"
    by (auto simp: utc_wall_def intro!: int_div_pos_eq[where r = "h * hour + mi * minute"]
        int_mod_pos_eq[where q = dn])
  show "day_number (utc_wall dn h mi) = dn" by (simp add: day_number_def d)
  have "0 \<le> mi * minute" "mi * minute < hour" using assms by (auto simp: time_simps)
  then show "hour_of (utc_wall dn h mi) = h"
    unfolding hour_of_def d(2) by (intro int_div_pos_eq[where r = "mi * minute"]) auto
  have "utc_wall dn h mi mod hour = mi * minute"
    using \<open>0 \<le> mi * minute\<close> \<open>mi * minute < hour\<close>
    by (intro int_mod_pos_eq[where q = "dn * 24 + h"]) (auto simp: utc_wall_def day_ns_def algebra_simps)
  then show "minute_of (utc_wall dn h mi) = mi" by (simp add: minute_of_def)
qed

section \<open>Stamps are injective\<close>

lemma digits_val_pad: "0 \<le> n \<Longrightarrow> digits_val (pad w n) = nat n"
proof -
  have zeros: "digits_val (replicate k (CHR ''0'') @ s) = digits_val s" for k s
    by (induction k) (auto simp: digits_val_def digit_val_def)
  show "digits_val (pad w n) = nat n" by (simp add: pad_def Let_def zeros digits_val_nat_digits)
qed

lemma pad_inj: "0 \<le> a \<Longrightarrow> 0 \<le> b \<Longrightarrow> pad w a = pad w b \<Longrightarrow> a = b"
  by (metis digits_val_pad eq_nat_nat_iff)

lemma length_nat_digits: "n < 10 ^ k \<Longrightarrow> 0 < k \<Longrightarrow> length (nat_digits n) \<le> k"
proof (induction n arbitrary: k rule: nat_digits.induct)
  case (1 n)
  show ?case
  proof (cases "n < 10")
    case True
    with 1 show ?thesis by (subst nat_digits.simps) simp
  next
    case False
    with 1 obtain j where k: "k = Suc j" "0 < j" by (cases k; cases "k - 1") auto
    with 1 False have "n div 10 < 10 ^ j" by (simp add: less_mult_imp_div_less mult.commute)
    with 1 False k show ?thesis by (subst nat_digits.simps) simp
  qed
qed

lemma length_pad: "0 \<le> n \<Longrightarrow> n < 10 ^ w \<Longrightarrow> 0 < w \<Longrightarrow> length (pad w n) = w"
  using length_nat_digits[of "nat n" w] by (auto simp: pad_def Let_def nat_less_iff)

lemma pad2_length: "0 \<le> n \<Longrightarrow> n < 100 \<Longrightarrow> length (pad 2 n) = 2"
  by (rule length_pad) auto

lemma compact_stamp_inj:
  assumes "compact_stamp t = compact_stamp u"
    and "1 \<le> year_of_day (day_number t)" "year_of_day (day_number t) \<le> 9999"
    and "1 \<le> year_of_day (day_number u)" "year_of_day (day_number u) \<le> 9999"
  shows "t div second = u div second"
proof -
  obtain m d where c: "civil_of_day (day_number t) = (year_of_day (day_number t), m, d)"
    by (rule civil_of_day_year)
  obtain m' d' where c': "civil_of_day (day_number u) = (year_of_day (day_number u), m', d')"
    by (rule civil_of_day_year)
  have v: "1 \<le> m" "m \<le> 12" "1 \<le> d" "d \<le> 31" "1 \<le> m'" "m' \<le> 12" "1 \<le> d'" "d' \<le> 31"
    using month_dom_bounds[of "day_number t"] month_dom_bounds[of "day_number u"]
      dom_le_31[of "day_number t"] dom_le_31[of "day_number u"]
    by (auto simp: month_of_day_def dom_of_day_def c c')
  note tb = time_of_day_bounds[of t] and ub = time_of_day_bounds[of u]
  have len: "length (pad 4 (year_of_day (day_number t))) = length (pad 4 (year_of_day (day_number u)))"
    "length (pad 2 m) = length (pad 2 m')" "length (pad 2 d) = length (pad 2 d')"
    "length (pad 2 (hour_of t)) = length (pad 2 (hour_of u))"
    "length (pad 2 (minute_of t)) = length (pad 2 (minute_of u))"
    using assms v tb ub by (simp_all add: length_pad pad2_length)
  from assms(1)[unfolded compact_stamp_def c c' prod.case]
  have "pad 4 (year_of_day (day_number t)) = pad 4 (year_of_day (day_number u))" "pad 2 m = pad 2 m'"
    "pad 2 d = pad 2 d'" "pad 2 (hour_of t) = pad 2 (hour_of u)"
    "pad 2 (minute_of t) = pad 2 (minute_of u)" "pad 2 (second_of t) = pad 2 (second_of u)"
    using len by (simp_all only: append_eq_append_conv append_Cons append_Nil list.inject simp_thms append_same_eq)
  then have eq: "year_of_day (day_number t) = year_of_day (day_number u)" "m = m'" "d = d'"
    "hour_of t = hour_of u" "minute_of t = minute_of u" "second_of t = second_of u"
    using assms v tb ub by (auto dest: pad_inj[rotated 2])
  then have dn: "day_number t = day_number u" using c c' by (metis civil_of_day_inj)
  have "t - t mod second = u - u mod second"
    using clock_split[of t] clock_split[of u] eq dn by simp
  then show ?thesis by (simp add: minus_mod_eq_mult_div)
qed

end
