(* ===== verification/Event_Ring.thy ===== *)
theory Event_Ring
  imports Marvel_Prelude
begin

text \<open>
  The event stream of \<open>internal/events/events.go\<close>: the bounded ring the daemon's components emit into
  (\<open>NewRing\<close>, \<open>Emit\<close>, \<open>Snapshot\<close>), its filter, and the watches that subscribe to it (\<open>Watch\<close>, \<open>offer\<close>,
  \<open>recordDrop\<close>, \<open>Gap\<close>, \<open>Close\<close>).

  \<open>Event\<close> holds the coordinates a producer sets; the ring adds the sequence number, the timestamp and
  the severity. The message, actor and generation of an event are carried and compared by nobody
  here and are left out. A watch's channel is the list of its queued events with its depth. Every
  operation runs under the ring's lock, so operations are steps; a receive on the channel is a step
  of its own (\<open>receive\<close>).
\<close>

section \<open>Events\<close>

datatype EventKind =
    KindCrashLoopBackoff | KindRoleSaturated | KindSessionFailed | KindSessionRestarted
  | KindHealthCheckFailed | KindAdmissionRefused | KindAdmissionCleared | KindBusUnavailable
  | KindExposureRefused | KindShiftStarted | KindShiftCompleted | KindShiftTimedOut
  | KindShiftRoleReady | KindShiftDrainedEmpty | KindSessionCreated | KindSessionFirstPrompt | KindSessionDeleted | KindSessionKillFailed
  | KindSessionSucceeded | KindSessionCrashed | KindRunSucceeded | KindRunFailed | KindRunCancelled
  | KindRunDeadline | KindScheduleFrozen | KindScheduleFired | KindScheduleReplaced | KindScheduleSkipped
  | KindScheduleMissed | KindScheduleSuspended | KindScheduleDSTShift | KindScheduleDSTUnacknowledged
  | KindReconcileLeft | KindReconcileKilled | KindReconcileAdopted | KindShiftAutoTriggered
  | KindSessionRetired | KindRoleRemoved | KindTeamPruned | KindShiftHandoffRequested
  | KindTeamHibernated | KindTeamWaking | KindTeamWoken
  | KindSessionPlacementRefused | KindSessionContainerRefused | KindSessionSandboxRefused

record Event =
  ev_Kind :: EventKind
  ev_Workspace :: string
  ev_Team :: string
  ev_Role :: string
  ev_Session :: string

datatype Severity = SeverityUnset | SeverityInfo | SeverityWarning | SeverityError

record RingEvent = Event +
  ev_Seq :: nat
  ev_Timestamp :: time
  ev_Severity :: Severity

section \<open>The filter\<close>

record Filter =
  f_Workspace :: string
  f_Team :: string
  f_Role :: string
  f_Session :: string
  f_Kind :: "EventKind option"
  f_MinSeverity :: Severity
  f_SinceSeq :: nat

definition ring_matches :: "RingEvent \<Rightarrow> Filter \<Rightarrow> bool" where
  "ring_matches ev f =
     (if f_Workspace f \<noteq> [] \<and> f_Workspace f \<noteq> ev_Workspace ev then False
      else if f_Team f \<noteq> [] \<and> f_Team f \<noteq> ev_Team ev then False
      else if f_Role f \<noteq> [] \<and> f_Role f \<noteq> ev_Role ev then False
      else if f_Session f \<noteq> [] \<and> f_Session f \<noteq> ev_Session ev then False
      else if f_Kind f \<noteq> None \<and> f_Kind f \<noteq> Some (ev_Kind ev) then False
      else if f_MinSeverity f = SeverityWarning \<and> ev_Severity ev \<noteq> SeverityWarning \<and> ev_Severity ev \<noteq> SeverityError then False
      else if f_MinSeverity f = SeverityError \<and> ev_Severity ev \<noteq> SeverityError then False
      else if 0 < f_SinceSeq f \<and> ev_Seq ev \<le> f_SinceSeq f then False
      else True)"

definition no_filter :: Filter where
  "no_filter = \<lparr>f_Workspace = [], f_Team = [], f_Role = [], f_Session = [], f_Kind = None,
     f_MinSeverity = SeverityUnset, f_SinceSeq = 0\<rparr>"

section \<open>Watches\<close>

record Watch =
  w_id :: nat
  w_filter :: Filter
  w_depth :: nat
  w_ch :: "RingEvent list"
  w_dropped :: nat
  w_firstDropped :: nat

definition recordDrop :: "nat \<Rightarrow> Watch \<Rightarrow> Watch" where
  "recordDrop seq w = w\<lparr>w_dropped := w_dropped w + 1, w_firstDropped := (if w_firstDropped w = 0 then seq else w_firstDropped w)\<rparr>"

text \<open>The three non-blocking selects: send; if full, receive the oldest; send again.\<close>

definition offer :: "RingEvent \<Rightarrow> Watch \<Rightarrow> Watch" where
  "offer ev w =
     (if length (w_ch w) < w_depth w then w\<lparr>w_ch := w_ch w @ [ev]\<rparr>
      else let w1 = (case w_ch w of [] \<Rightarrow> w | old # rest \<Rightarrow> recordDrop (ev_Seq old) (w\<lparr>w_ch := rest\<rparr>))
           in if length (w_ch w1) < w_depth w1 then w1\<lparr>w_ch := w_ch w1 @ [ev]\<rparr> else recordDrop (ev_Seq ev) w1)"

definition Gap :: "Watch \<Rightarrow> Watch \<times> nat \<times> nat" where
  "Gap w = (w\<lparr>w_dropped := 0, w_firstDropped := 0\<rparr>, w_dropped w, if 0 < w_firstDropped w then w_firstDropped w - 1 else 0)"

definition receive :: "Watch \<Rightarrow> Watch \<times> RingEvent option" where
  "receive w = (case w_ch w of [] \<Rightarrow> (w, None) | ev # rest \<Rightarrow> (w\<lparr>w_ch := rest\<rparr>, Some ev))"

section \<open>The ring\<close>

record Ring =
  r_capacity :: nat
  r_buf :: "RingEvent list"
  r_head :: nat
  r_full :: bool
  r_nextSeq :: nat
  r_watches :: "Watch list"

definition DefaultCapacity :: int where "DefaultCapacity = 2000"

definition NewRing :: "int \<Rightarrow> Ring" where
  "NewRing capacity =
     \<lparr>r_capacity = nat (if capacity \<le> 0 then DefaultCapacity else capacity), r_buf = [], r_head = 0, r_full = False,
      r_nextSeq = 1, r_watches = []\<rparr>"

definition stamp :: "time \<Rightarrow> RingEvent \<Rightarrow> Ring \<Rightarrow> RingEvent" where
  "stamp now ev r =
     ev\<lparr>ev_Timestamp := (if is_zero (ev_Timestamp ev) then now else ev_Timestamp ev),
        ev_Severity := (if ev_Severity ev = SeverityUnset then SeverityInfo else ev_Severity ev),
        ev_Seq := r_nextSeq r\<rparr>"

definition ring_store :: "RingEvent \<Rightarrow> Ring \<Rightarrow> Ring" where
  "ring_store ev r =
     (if \<not> r_full r
      then let buf = r_buf r @ [ev] in r\<lparr>r_buf := buf, r_full := (length buf = r_capacity r \<or> r_full r)\<rparr>
      else r\<lparr>r_buf := (r_buf r)[r_head r := ev], r_head := (r_head r + 1) mod r_capacity r\<rparr>)"

definition ring_Emit :: "time \<Rightarrow> RingEvent \<Rightarrow> Ring \<Rightarrow> Ring" where
  "ring_Emit now ev0 r =
     (let ev = stamp now ev0 r; r1 = ring_store ev (r\<lparr>r_nextSeq := r_nextSeq r + 1\<rparr>)
      in r1\<lparr>r_watches := map (\<lambda>w. if ring_matches ev (w_filter w) then offer ev w else w) (r_watches r1)\<rparr>)"

definition orderedLocked :: "Ring \<Rightarrow> RingEvent list" where
  "orderedLocked r = (if \<not> r_full r then r_buf r else drop (r_head r) (r_buf r) @ take (r_head r) (r_buf r))"

definition ring_Snapshot :: "Filter \<Rightarrow> int \<Rightarrow> Ring \<Rightarrow> RingEvent list" where
  "ring_Snapshot f n r =
     (let out = filter (\<lambda>ev. ring_matches ev f) (orderedLocked r)
      in if 0 < n \<and> n < int (length out) then drop (length out - nat n) out else out)"

definition ring_Len :: "Ring \<Rightarrow> nat" where "ring_Len r = length (r_buf r)"

definition Watchers :: "Ring \<Rightarrow> nat" where "Watchers r = length (r_watches r)"

definition ring_Watch :: "nat \<Rightarrow> Filter \<Rightarrow> int \<Rightarrow> Ring \<Rightarrow> Ring" where
  "ring_Watch i f queue r =
     r\<lparr>r_watches := r_watches r @ [\<lparr>w_id = i, w_filter = f, w_depth = (if queue \<le> 0 then r_capacity r else nat queue),
        w_ch = [], w_dropped = 0, w_firstDropped = 0\<rparr>]\<rparr>"

definition watch_Close :: "nat \<Rightarrow> Ring \<Rightarrow> Ring" where
  "watch_Close i r = r\<lparr>r_watches := filter (\<lambda>w. w_id w \<noteq> i) (r_watches r)\<rparr>"

section \<open>The ring is the tail of the log\<close>

text \<open>What the ring promises: it holds the newest events of everything emitted, up to its capacity,
  in the order and under the numbers they were emitted.\<close>

definition last_n :: "nat \<Rightarrow> 'a list \<Rightarrow> 'a list" where
  "last_n n xs = drop (length xs - n) xs"

definition ring_abs :: "Ring \<Rightarrow> RingEvent list \<Rightarrow> bool" where
  "ring_abs r log \<longleftrightarrow> 0 < r_capacity r \<and> length (r_buf r) \<le> r_capacity r \<and>
     r_full r = (length (r_buf r) = r_capacity r) \<and> r_head r < r_capacity r \<and> (\<not> r_full r \<longrightarrow> r_head r = 0) \<and>
     orderedLocked r = last_n (r_capacity r) log \<and> r_nextSeq r = length log + 1 \<and>
     map ev_Seq log = [1..<length log + 1]"

lemma last_n_snoc: "0 < n \<Longrightarrow> last_n n (xs @ [x]) = (if length xs < n then xs @ [x] else tl (last_n n xs) @ [x])"
  by (auto simp: last_n_def drop_Suc Suc_diff_le tl_drop)

lemma last_n_all: "length xs \<le> n \<Longrightarrow> last_n n xs = xs"
  by (simp add: last_n_def)

lemma NewRing_abs: "ring_abs (NewRing n) []"
  by (simp add: ring_abs_def NewRing_def orderedLocked_def last_n_def DefaultCapacity_def)

lemma ring_store_full:
  assumes "r_full r" "length (r_buf r) = r_capacity r" "r_head r < r_capacity r"
  shows "orderedLocked (ring_store ev r) = tl (orderedLocked r) @ [ev]"
proof -
  let ?b = "r_buf r" and ?h = "r_head r"
  show ?thesis
  proof (cases "?h + 1 < length ?b")
    case True
    then have "drop (?h + 1) (?b[?h := ev]) @ take (?h + 1) (?b[?h := ev]) = drop (?h + 1) ?b @ take ?h ?b @ [ev]"
      by (simp add: take_Suc_conv_app_nth)
    moreover have "drop ?h ?b = ?b ! ?h # drop (?h + 1) ?b" using True by (simp add: Cons_nth_drop_Suc)
    ultimately show ?thesis using assms True by (simp add: ring_store_def orderedLocked_def)
  next
    case False
    then have h: "?h = length ?b - 1" "length ?b = r_capacity r" "Suc ?h = r_capacity r" using assms by auto
    have "?b[?h := ev] = take ?h ?b @ [ev]" using h assms(3) by (simp add: upd_conv_take_nth_drop)
    moreover have "drop ?h ?b = [?b ! ?h]" using h assms(3) by (simp flip: Cons_nth_drop_Suc)
    ultimately show ?thesis using assms h by (simp add: ring_store_def orderedLocked_def)
  qed
qed

lemma orderedLocked_nextSeq [simp]: "orderedLocked (r\<lparr>r_nextSeq := n\<rparr>) = orderedLocked r"
  by (simp add: orderedLocked_def)

text \<open>Storing refines appending to the log.\<close>

lemma ring_store_abs:
  assumes "ring_abs r log" and "ev_Seq ev = r_nextSeq r"
  shows "ring_abs (ring_store ev (r\<lparr>r_nextSeq := r_nextSeq r + 1\<rparr>)) (log @ [ev])"
proof (cases "r_full r")
  case False
  let ?r = "r\<lparr>r_nextSeq := r_nextSeq r + 1\<rparr>"
  have ll: "length log < r_capacity r"
  proof (rule ccontr)
    assume "\<not> length log < r_capacity r"
    then have "length (last_n (r_capacity r) log) = r_capacity r" by (simp add: last_n_def)
    with assms(1) False show False by (auto simp: ring_abs_def orderedLocked_def)
  qed
  with assms(1) False have "r_buf r = log" by (simp add: ring_abs_def orderedLocked_def last_n_all)
  with assms False ll show ?thesis
    by (auto simp: ring_abs_def ring_store_def orderedLocked_def last_n_all Let_def)
next
  case True
  let ?r = "r\<lparr>r_nextSeq := r_nextSeq r + 1\<rparr>"
  have o: "orderedLocked (ring_store ev ?r) = tl (orderedLocked r) @ [ev]"
    using ring_store_full[of ?r ev] True assms(1) by (simp add: ring_abs_def)
  have "length (r_buf r) = r_capacity r" "r_head r < r_capacity r" using True assms(1) by (auto simp: ring_abs_def)
  with True have "length (orderedLocked r) = r_capacity r" by (simp add: orderedLocked_def)
  then have "\<not> length log < r_capacity r" using assms(1) by (auto simp: ring_abs_def last_n_def)
  with o True assms show ?thesis
    by (auto simp: ring_abs_def last_n_snoc ring_store_def)
qed

lemma ring_abs_watches [simp]: "ring_abs (r\<lparr>r_watches := ws\<rparr>) log = ring_abs r log"
  by (simp add: ring_abs_def orderedLocked_def)

lemma ring_store_facts [simp]: "r_watches (ring_store ev r) = r_watches r" "r_capacity (ring_store ev r) = r_capacity r"
  by (simp_all add: ring_store_def Let_def)

lemma ring_Emit_abs: "ring_abs r log \<Longrightarrow> ring_abs (ring_Emit now ev r) (log @ [stamp now ev r])"
  using ring_store_abs[of r log "stamp now ev r"] by (simp add: ring_Emit_def Let_def stamp_def)


lemma ring_Emit_capacity [simp]: "r_capacity (ring_Emit now ev r) = r_capacity r"
  by (simp add: ring_Emit_def Let_def)

fun emit_all :: "(time \<times> RingEvent) list \<Rightarrow> Ring \<Rightarrow> Ring \<times> RingEvent list" where
  "emit_all [] r = (r, [])"
| "emit_all ((now, ev) # evs) r =
     (case emit_all evs (ring_Emit now ev r) of (r', log) \<Rightarrow> (r', stamp now ev r # log))"

lemma emit_all_abs: "ring_abs r log \<Longrightarrow> emit_all evs r = (r', log') \<Longrightarrow> ring_abs r' (log @ log') \<and> r_capacity r' = r_capacity r"
proof (induction evs r arbitrary: log r' log' rule: emit_all.induct)
  case (2 now ev evs r)
  obtain r1 l1 where e: "emit_all evs (ring_Emit now ev r) = (r1, l1)" by (metis surj_pair)
  from 2(1)[OF ring_Emit_abs[OF 2(2)] e] 2(3) e show ?case by auto
qed simp

lemma length_last_n: "length (last_n n xs) = min n (length xs)"
  by (simp add: last_n_def)

text \<open>
  C35. The ring refines the log: after any sequence of emissions a snapshot returns, oldest first, the
  newest matching events among the last \<open>capacity\<close> emitted, and the events carry the numbers 1, 2, \<dots>
  in emission order; the ring never holds more than its capacity.
\<close>

theorem ring_is_log_tail:
  fixes cap evs f n
  defines "r \<equiv> fst (emit_all evs (NewRing cap))" and "log \<equiv> snd (emit_all evs (NewRing cap))"
  shows "ring_Snapshot f n r =
      (let out = filter (\<lambda>ev. ring_matches ev f) (last_n (r_capacity r) log) in if 0 < n then last_n (nat n) out else out) \<and>
    map ev_Seq log = [1..<length log + 1] \<and> int (r_capacity r) = (if cap \<le> 0 then 2000 else cap) \<and>
    ring_Len r \<le> r_capacity r"
proof -
  have a: "ring_abs r log" "r_capacity r = r_capacity (NewRing cap)"
    using emit_all_abs[OF NewRing_abs[of cap], of evs r log] by (simp_all add: r_def log_def)
  have "ring_Snapshot f n r = (let out = filter (\<lambda>ev. ring_matches ev f) (last_n (r_capacity r) log) in if 0 < n then last_n (nat n) out else out)"
    using a(1) by (auto simp: ring_Snapshot_def ring_abs_def Let_def last_n_def)
  moreover have "int (r_capacity r) = (if cap \<le> 0 then 2000 else cap)"
    unfolding a(2) by (simp add: NewRing_def DefaultCapacity_def)
  ultimately show ?thesis using a(1) by (simp add: ring_abs_def ring_Len_def)
qed

section \<open>A watch loses nothing silently\<close>

datatype WatchOp = WOffer RingEvent | WReceive | WGap

text \<open>What happened to the events offered to a watch: taken by the subscriber, dropped since the last
  \<open>Gap\<close>, dropped and already reported.\<close>

record watch_log =
  wl_offered :: "RingEvent list"
  wl_got :: "RingEvent list"
  wl_lost :: "RingEvent list"
  wl_told :: "RingEvent list"

fun watch_op :: "WatchOp \<Rightarrow> Watch \<times> watch_log \<Rightarrow> Watch \<times> watch_log" where
  "watch_op (WOffer ev) (w, g) =
     (offer ev w, g\<lparr>wl_offered := wl_offered g @ [ev],
        wl_lost := (if length (w_ch w) < w_depth w then wl_lost g else wl_lost g @ [hd (w_ch w)])\<rparr>)"
| "watch_op WReceive (w, g) =
     (case receive w of (w', None) \<Rightarrow> (w', g) | (w', Some ev) \<Rightarrow> (w', g\<lparr>wl_got := wl_got g @ [ev]\<rparr>))"
| "watch_op WGap (w, g) = (fst (Gap w), g\<lparr>wl_told := wl_told g @ wl_lost g, wl_lost := []\<rparr>)"

definition watch_inv :: "Watch \<times> watch_log \<Rightarrow> bool" where
  "watch_inv st \<longleftrightarrow> (case st of (w, g) \<Rightarrow>
     0 < w_depth w \<and> length (w_ch w) \<le> w_depth w \<and>
     mset (wl_offered g) = mset (wl_got g) + mset (w_ch w) + mset (wl_lost g) + mset (wl_told g) \<and>
     sorted_wrt (<) (map ev_Seq (wl_got g @ w_ch w)) \<and> sorted_wrt (<) (map ev_Seq (wl_lost g @ w_ch w)) \<and>
     (\<forall>e\<in>set (wl_offered g). 0 < ev_Seq e) \<and>
     w_dropped w = length (wl_lost g) \<and> w_firstDropped w = (case wl_lost g of [] \<Rightarrow> 0 | e # _ \<Rightarrow> ev_Seq e))"

lemma offer_full:
  assumes "length (w_ch w) = w_depth w" "w_ch w = e # es"
  shows "offer ev w = recordDrop (ev_Seq e) (w\<lparr>w_ch := es @ [ev]\<rparr>)"
  using assms by (auto simp: offer_def recordDrop_def Let_def)

lemma watch_inv_offer:
  assumes "watch_inv (w, g)" and "\<forall>e\<in>set (wl_offered g). ev_Seq e < ev_Seq ev" and "0 < ev_Seq ev"
  shows "watch_inv (watch_op (WOffer ev) (w, g))"
proof -
  have sub: "set (wl_got g) \<subseteq> set (wl_offered g)" "set (w_ch w) \<subseteq> set (wl_offered g)" "set (wl_lost g) \<subseteq> set (wl_offered g)"
    using assms(1) by (auto simp: watch_inv_def) (metis UnCI set_mset_mset set_mset_union)+
  show ?thesis
  proof (cases "length (w_ch w) < w_depth w")
    case True
    with assms sub show ?thesis
      by (auto simp: watch_inv_def offer_def sorted_wrt_append split: list.splits)
  next
    case False
    with assms(1) obtain e es where ch: "w_ch w = e # es" "length (w_ch w) = w_depth w"
      by (cases "w_ch w") (auto simp: watch_inv_def)
    with assms sub False show ?thesis
      by (auto simp: watch_inv_def offer_full recordDrop_def sorted_wrt_append split: list.splits)
  qed
qed

lemma watch_inv_receive: "watch_inv st \<Longrightarrow> watch_inv (watch_op WReceive st)"
  by (cases st) (auto simp: watch_inv_def receive_def sorted_wrt_append split: list.splits)

lemma watch_inv_gap: "watch_inv st \<Longrightarrow> watch_inv (watch_op WGap st)"
  by (cases st) (auto simp: watch_inv_def Gap_def sorted_wrt_append)

definition new_watch :: "Filter \<Rightarrow> nat \<Rightarrow> Watch" where
  "new_watch f depth = \<lparr>w_id = 0, w_filter = f, w_depth = depth, w_ch = [], w_dropped = 0, w_firstDropped = 0\<rparr>"

definition new_watch_log :: watch_log where
  "new_watch_log = \<lparr>wl_offered = [], wl_got = [], wl_lost = [], wl_told = []\<rparr>"

fun offered_seqs :: "WatchOp list \<Rightarrow> nat list" where
  "offered_seqs [] = []"
| "offered_seqs (WOffer ev # ops) = ev_Seq ev # offered_seqs ops"
| "offered_seqs (_ # ops) = offered_seqs ops"

lemma watch_op_offered:
  "wl_offered (snd (watch_op x (w, g))) = wl_offered g @ (case x of WOffer ev \<Rightarrow> [ev] | _ \<Rightarrow> [])"
  by (cases x) (auto split: prod.splits option.splits)

lemma watch_inv_run:
  assumes "watch_inv st" and "sorted_wrt (<) (map ev_Seq (wl_offered (snd st)) @ offered_seqs ops)"
    and "\<forall>n\<in>set (offered_seqs ops). 0 < n"
  shows "watch_inv (fold watch_op ops st)"
  using assms
proof (induction ops arbitrary: st)
  case (Cons x ops)
  obtain w g where st: "st = (w, g)" by fastforce
  have "watch_inv (watch_op x st)"
    using Cons.prems st watch_inv_offer[of w g] watch_inv_receive watch_inv_gap
    by (cases x) (auto simp: sorted_wrt_append)
  moreover have "sorted_wrt (<) (map ev_Seq (wl_offered (snd (watch_op x st))) @ offered_seqs ops)"
    using Cons.prems(2) unfolding st watch_op_offered by (cases x) auto
  ultimately show ?case using Cons.IH Cons.prems(3) by (cases x) auto
qed simp

lemma if_reject: "(if P then False else Q) = (\<not> P \<and> Q)"
  by simp

lemma ring_matches_since:
  "ring_matches e f \<Longrightarrow> s < ev_Seq e \<Longrightarrow> ring_matches e (f\<lparr>f_SinceSeq := s\<rparr>)"
  by (simp only: ring_matches_def if_reject) (elim conjE, intro conjI; simp)

lemma Snapshot_since:
  assumes "ring_abs r log" and "e \<in> set (last_n (r_capacity r) log)" and "ring_matches e f" and "from_seq < ev_Seq e"
  shows "e \<in> set (ring_Snapshot (f\<lparr>f_SinceSeq := from_seq\<rparr>) 0 r)"
proof -
  have "ring_matches e (f\<lparr>f_SinceSeq := from_seq\<rparr>)" using assms(3,4) by (rule ring_matches_since)
  then show ?thesis using assms(1,2) by (simp add: ring_Snapshot_def ring_abs_def)
qed

text \<open>
  A watch loses nothing silently: whatever the interleaving of emissions, receives and gap
  reports, every event offered to a watch was received, is queued, or was dropped and counted; the
  subscriber sees events in increasing sequence order; the queue stays within its depth; and the
  number a gap report returns lies before every event dropped since the last report, so a snapshot
  from it returns each of them the ring still holds.
\<close>

theorem watch_loses_nothing_silently:
  fixes ops f depth
  assumes "0 < depth" and "sorted_wrt (<) (offered_seqs ops)" and "\<forall>n\<in>set (offered_seqs ops). 0 < n"
  defines "w \<equiv> fst (fold watch_op ops (new_watch f depth, new_watch_log))"
    and "g \<equiv> snd (fold watch_op ops (new_watch f depth, new_watch_log))"
  shows "mset (wl_offered g) = mset (wl_got g) + mset (w_ch w) + mset (wl_lost g) + mset (wl_told g) \<and>
    sorted_wrt (<) (map ev_Seq (wl_got g)) \<and> length (w_ch w) \<le> w_depth w \<and> fst (snd (Gap w)) = length (wl_lost g) \<and>
    (\<forall>e\<in>set (wl_lost g). snd (snd (Gap w)) < ev_Seq e \<and>
       (\<forall>r log. ring_abs r log \<and> e \<in> set (last_n (r_capacity r) log) \<and> ring_matches e f \<longrightarrow>
          e \<in> set (ring_Snapshot (f\<lparr>f_SinceSeq := snd (snd (Gap w))\<rparr>) 0 r)))"
proof -
  have "watch_inv (new_watch f depth, new_watch_log)"
    using assms(1) by (simp add: watch_inv_def new_watch_def new_watch_log_def)
  from watch_inv_run[OF this, of ops] assms(2,3) have inv: "watch_inv (w, g)"
    by (simp add: w_def g_def new_watch_log_def)
  have "snd (snd (Gap w)) < ev_Seq e" if "e \<in> set (wl_lost g)" for e
  proof -
    obtain d ds where l: "wl_lost g = d # ds" using \<open>e \<in> set (wl_lost g)\<close> by (cases "wl_lost g") auto
    have "d \<in> set (wl_offered g)" using inv l
      by (auto simp: watch_inv_def) (metis add_mset_add_single set_mset_mset union_iff union_single_eq_member)
    then have "0 < ev_Seq d" using inv by (auto simp: watch_inv_def)
    moreover have "sorted_wrt (<) (map ev_Seq (d # ds))" using inv l by (simp add: watch_inv_def sorted_wrt_append)
    then have "ev_Seq d \<le> ev_Seq e" using l that by (auto simp: less_imp_le)
    moreover have "w_firstDropped w = ev_Seq d" using inv l by (simp add: watch_inv_def)
    ultimately show ?thesis by (simp add: Gap_def)
  qed
  with inv Snapshot_since show ?thesis by (auto simp: watch_inv_def sorted_wrt_append Gap_def)
qed

definition example_event :: "nat \<Rightarrow> RingEvent" where
  "example_event n = \<lparr>ev_Kind = KindSessionCreated, ev_Workspace = ''ws'', ev_Team = ''squad'', ev_Role = ''dev'',
     ev_Session = [], ev_Seq = n, ev_Timestamp = 1, ev_Severity = SeverityInfo\<rparr>"

theorem watch_loses_nothing_silently_witness:
  "let st = fold watch_op [WOffer (example_event 1), WOffer (example_event 2), WOffer (example_event 3), WReceive]
              (new_watch no_filter 2, new_watch_log)
   in wl_lost (snd st) = [example_event 1] \<and> wl_got (snd st) = [example_event 2] \<and> snd (snd (Gap (fst st))) < 1"
proof -
  let ?ops = "[WOffer (example_event 1), WOffer (example_event 2), WOffer (example_event 3), WReceive]"
  let ?st = "fold watch_op ?ops (new_watch no_filter 2, new_watch_log)"
  have "wl_lost (snd ?st) = [example_event 1]" "wl_got (snd ?st) = [example_event 2]"
    by (simp_all add: new_watch_def new_watch_log_def offer_def recordDrop_def receive_def example_event_def)
  moreover have "snd (snd (Gap (fst ?st))) < ev_Seq (example_event 1)"
    using watch_loses_nothing_silently[of 2 ?ops no_filter] calculation(1) by (simp add: example_event_def)
  ultimately show ?thesis by (simp add: example_event_def)
qed

end
