(* ===== verification/Role_Health.thy ===== *)
theory Role_Health
  imports Store Backoff Calendar Event_Ring
begin

text \<open>
  The crash-loop state of \<open>internal/team/controller.go\<close>: the controller's record, the restart
  counter and backoff window of a role with its durable mirror, the freeze at \<open>max_restarts\<close> or under
  \<open>restart_policy = never\<close>, the accounting of a reap pass, the success-based decay and the clearing
  verbs. \<open>now\<close> is the reading of the controller's clock; \<open>commits\<close> the file (see \<open>Store\<close>).

  Events carry their kind and coordinates; the message texts and the log lines are left out.
  Go ranges over \<open>charged\<close> and \<open>roleHealth\<close> in no fixed order: association lists here, whose order
  stands for the one taken.
\<close>

section \<open>The controller\<close>

record RoleHealth =
  rh_RestartCount :: int
  rh_LastRestartAt :: time
  rh_BackoffUntil :: time
  rh_HealthySince :: time

record Controller =
  c_store :: Store
  c_roleHealth :: "(string \<times> RoleHealth) list"
  c_admissionHolds :: "string \<rightharpoonup> string"
  c_busHolds :: "string set"
  c_exposureHolds :: "string set"
  c_events :: "Event list"

definition NewController :: "Store \<Rightarrow> Controller" where
  "NewController store = \<lparr>c_store = store, c_roleHealth = [], c_admissionHolds = Map.empty, c_busHolds = {},
     c_exposureHolds = {}, c_events = []\<rparr>"

definition emit :: "EventKind \<Rightarrow> string \<Rightarrow> string \<Rightarrow> string \<Rightarrow> string \<Rightarrow> Controller \<Rightarrow> Controller" where
  "emit k ws team role sess c =
     c\<lparr>c_events := c_events c @ [\<lparr>ev_Kind = k, ev_Workspace = ws, ev_Team = team, ev_Role = role, ev_Session = sess\<rparr>]\<rparr>"

abbreviation health_at :: "Controller \<Rightarrow> string \<rightharpoonup> RoleHealth" where
  "health_at c \<equiv> map_of (c_roleHealth c)"

definition no_health :: RoleHealth where
  "no_health = \<lparr>rh_RestartCount = 0, rh_LastRestartAt = zero_time, rh_BackoffUntil = zero_time, rh_HealthySince = zero_time\<rparr>"

definition restartCountDecayWindow :: duration where "restartCountDecayWindow = 10 * minute"

text \<open>\<open>time.Date(9999, 1, 1, 0, 0, 0, 0, time.UTC)\<close>.\<close>

definition saturationFreezeUntil :: time where
  "saturationFreezeUntil = utc_wall (day_of_civil (9999, 1, 1)) 0 0"

text \<open>\<open>getRoleHealth\<close> creates a missing entry.\<close>

definition getRoleHealth :: "string \<Rightarrow> Controller \<Rightarrow> Controller \<times> RoleHealth" where
  "getRoleHealth key c =
     (case health_at c key of
        Some rh \<Rightarrow> (c, rh)
      | None \<Rightarrow> (c\<lparr>c_roleHealth := AList.update key no_health (c_roleHealth c)\<rparr>, no_health))"

definition set_health :: "string \<Rightarrow> RoleHealth \<Rightarrow> Controller \<Rightarrow> Controller" where
  "set_health key rh c = c\<lparr>c_roleHealth := AList.update key rh (c_roleHealth c)\<rparr>"

definition health_record :: "string \<Rightarrow> RoleHealth \<Rightarrow> RoleHealthRecord" where
  "health_record key rh = \<lparr>rhr_Key = key, rhr_RestartCount = rh_RestartCount rh,
     rhr_LastRestartAt = rh_LastRestartAt rh, rhr_BackoffUntil = rh_BackoffUntil rh\<rparr>"

text \<open>A failed write is logged and dropped.\<close>

definition persistRoleHealth :: "commit_oracle \<Rightarrow> string \<Rightarrow> RoleHealth \<Rightarrow> Controller \<Rightarrow> Controller" where
  "persistRoleHealth commits key rh c =
     c\<lparr>c_store := fst (PersistRoleHealth commits (health_record key rh) (c_store c))\<rparr>"

definition forgetRoleHealth :: "commit_oracle \<Rightarrow> string \<Rightarrow> Controller \<Rightarrow> Controller" where
  "forgetRoleHealth commits key c = c\<lparr>c_store := fst (DeleteRoleHealth commits key (c_store c))\<rparr>"

definition RehydrateRoleHealth :: "Controller \<Rightarrow> Controller \<times> StoreError option" where
  "RehydrateRoleHealth c =
     (case ListRoleHealth (c_store c) of
        Inl e \<Rightarrow> (c, Some e)
      | Inr recs \<Rightarrow>
          (foldl (\<lambda>c rec. set_health (rhr_Key rec)
             \<lparr>rh_RestartCount = rhr_RestartCount rec, rh_LastRestartAt = rhr_LastRestartAt rec,
              rh_BackoffUntil = rhr_BackoffUntil rec, rh_HealthySince = zero_time\<rparr> c) c recs, None))"

section \<open>Charging a crash\<close>

definition noteCrashAndBackoff :: "commit_oracle \<Rightarrow> time \<Rightarrow> string \<Rightarrow> string \<Rightarrow> string \<Rightarrow> int \<Rightarrow> Controller \<Rightarrow> Controller \<times> bool" where
  "noteCrashAndBackoff commits now ws team role maxRestarts c =
     (let key = role_key ws team role;
          (c1, rh0) = getRoleHealth key c;
          rh = rh0\<lparr>rh_HealthySince := zero_time\<rparr>
      in if 0 < maxRestarts \<and> maxRestarts \<le> rh_RestartCount rh
         then let rh' = rh\<lparr>rh_BackoffUntil := saturationFreezeUntil\<rparr>
              in (persistRoleHealth commits key rh' (set_health key rh' c1), False)
         else let rh' = rh\<lparr>rh_RestartCount := rh_RestartCount rh + 1, rh_LastRestartAt := now,
                           rh_BackoffUntil := now + restart_wait (rh_RestartCount rh + 1 + 1)\<rparr>
              in (persistRoleHealth commits key rh' (set_health key rh' c1), True))"

definition freezeRole :: "commit_oracle \<Rightarrow> string \<Rightarrow> string \<Rightarrow> string \<Rightarrow> Controller \<Rightarrow> Controller" where
  "freezeRole commits ws team role c =
     (let key = role_key ws team role;
          (c1, rh) = getRoleHealth key c;
          rh' = rh\<lparr>rh_BackoffUntil := saturationFreezeUntil\<rparr>
      in persistRoleHealth commits key rh' (set_health key rh' c1))"

section \<open>The reap accounting of one tick\<close>

record ReapedSession =
  reap_Key :: string
  reap_Workspace :: string
  reap_Team :: string
  reap_Role :: string

record reapCharge =
  acc_workspace :: string
  acc_team :: string
  acc_role :: string
  acc_charges :: int
  acc_suppressed :: int
  acc_saturated :: bool
  acc_restartCount :: int
  acc_backoffUntil :: time
  acc_maxRestarts :: int

definition isRetiring :: "Team \<Rightarrow> string \<Rightarrow> bool" where
  "isRetiring t key \<longleftrightarrow> map_of (team_Retiring t) key \<noteq> None"

definition withoutRetiring :: "Team \<Rightarrow> Session list \<Rightarrow> Session list" where
  "withoutRetiring t sessions = filter (\<lambda>s. \<not> isRetiring t (session_key s)) sessions"

definition find_role :: "Team \<Rightarrow> string \<Rightarrow> Role option" where
  "find_role t name = find (\<lambda>r. role_Name r = name) (team_Roles t)"

abbreviation mark_failed :: "Session \<Rightarrow> Session \<times> string option" where
  "mark_failed x \<equiv> (x\<lparr>sess_State := SessionFailed\<rparr>, None)"

definition update_session :: "commit_oracle \<Rightarrow> string \<Rightarrow> (Session \<Rightarrow> Session \<times> string option) \<Rightarrow> Controller \<Rightarrow> Controller" where
  "update_session commits k f c = c\<lparr>c_store := fst (UpdateSession commits k f (c_store c))\<rparr>"

definition noteReapedCrash :: "commit_oracle \<Rightarrow> time \<Rightarrow> ReapedSession \<Rightarrow> Controller \<times> (string \<times> reapCharge) list \<Rightarrow>
    Controller \<times> (string \<times> reapCharge) list" where
  "noteReapedCrash commits now r st =
     (case st of (c, charged) \<Rightarrow>
        case GetTeam (c_store c) (reap_Workspace r @ ''/'' @ reap_Team r) of
          Inl _ \<Rightarrow> (c, charged)
        | Inr t \<Rightarrow>
            if isRetiring t (reap_Key r) then (c, charged)
            else case find_role t (reap_Role r) of
              None \<Rightarrow> (c, charged)
            | Some role \<Rightarrow>
                if role_Schedule role \<noteq> None then (c, charged)
                else
                  let key = role_key (reap_Workspace r) (reap_Team r) (reap_Role r)
                  in if role_RestartPolicy role = RestartNever
                     then (emit KindSessionFailed (reap_Workspace r) (reap_Team r) (reap_Role r) (reap_Key r)
                             (update_session commits (reap_Key r) mark_failed
                               (freezeRole commits (reap_Workspace r) (reap_Team r) (reap_Role r) c)), charged)
                     else case map_of charged key of
                       Some acc \<Rightarrow> (c, AList.update key (acc\<lparr>acc_suppressed := acc_suppressed acc + 1\<rparr>) charged)
                     | None \<Rightarrow>
                         let acc = \<lparr>acc_workspace = reap_Workspace r, acc_team = reap_Team r, acc_role = reap_Role r,
                                    acc_charges = 0, acc_suppressed = 0, acc_saturated = False, acc_restartCount = 0,
                                    acc_backoffUntil = zero_time, acc_maxRestarts = role_MaxRestarts role\<rparr>;
                             (c', ok) = noteCrashAndBackoff commits now (reap_Workspace r) (reap_Team r) (reap_Role r)
                                          (role_MaxRestarts role) c;
                             rh = (case health_at c' key of Some rh \<Rightarrow> rh | None \<Rightarrow> no_health);
                             acc' = (if ok then acc\<lparr>acc_charges := 1, acc_restartCount := rh_RestartCount rh,
                                                    acc_backoffUntil := rh_BackoffUntil rh\<rparr>
                                     else acc\<lparr>acc_saturated := True, acc_suppressed := 1,
                                              acc_restartCount := rh_RestartCount rh\<rparr>)
                         in (c', AList.update key acc' charged))"

definition emitReapAccounting :: "(string \<times> reapCharge) list \<Rightarrow> Controller \<Rightarrow> Controller" where
  "emitReapAccounting charged c =
     foldl (\<lambda>c (k, acc). emit (if acc_saturated acc then KindRoleSaturated else KindCrashLoopBackoff)
              (acc_workspace acc) (acc_team acc) (acc_role acc) [] c) c charged"

text \<open>\<open>reapDeadLocked\<close> after the session manager's \<open>ReapDead\<close> returned \<open>reaped\<close>.\<close>

definition reapDeadLocked :: "commit_oracle \<Rightarrow> time \<Rightarrow> ReapedSession list \<Rightarrow> Controller \<Rightarrow> Controller" where
  "reapDeadLocked commits now reaped c =
     (case foldl (\<lambda>st r. noteReapedCrash commits now r st) (c, []) reaped of
        (c', charged) \<Rightarrow> emitReapAccounting charged c')"

section \<open>Decay and clearing\<close>

record roleObs =
  obs_healthy :: bool
  obs_unhealthy :: bool

definition decay_role :: "commit_oracle \<Rightarrow> time \<Rightarrow> string \<Rightarrow> roleObs \<Rightarrow> Controller \<Rightarrow> Controller" where
  "decay_role commits now key ob c =
     (case health_at c key of
        None \<Rightarrow> c
      | Some rh \<Rightarrow>
          if rh_RestartCount rh = 0 then c
          else if rh_BackoffUntil rh = saturationFreezeUntil then c
          else if obs_unhealthy ob \<or> \<not> obs_healthy ob then set_health key (rh\<lparr>rh_HealthySince := zero_time\<rparr>) c
          else if is_zero (rh_HealthySince rh) then set_health key (rh\<lparr>rh_HealthySince := now\<rparr>) c
          else if restartCountDecayWindow \<le> time_sub now (rh_HealthySince rh)
          then let rh' = rh\<lparr>rh_RestartCount := 0, rh_BackoffUntil := zero_time, rh_HealthySince := zero_time\<rparr>
               in persistRoleHealth commits key rh' (set_health key rh' c)
          else c)"

definition decayHealthyRoles :: "commit_oracle \<Rightarrow> time \<Rightarrow> (string \<times> roleObs) list \<Rightarrow> Controller \<Rightarrow> Controller" where
  "decayHealthyRoles commits now obs c = foldl (\<lambda>c (key, ob). decay_role commits now key ob c) c obs"

definition dropAdmissionHolds :: "string \<Rightarrow> Controller \<Rightarrow> Controller" where
  "dropAdmissionHolds pfx c =
     c\<lparr>c_admissionHolds := (\<lambda>k. if has_prefix k pfx then None else c_admissionHolds c k)\<rparr>"

definition clear_health_prefix :: "commit_oracle \<Rightarrow> string \<Rightarrow> Controller \<Rightarrow> Controller" where
  "clear_health_prefix commits pfx c =
     foldl (\<lambda>c k. if has_prefix k pfx
                  then forgetRoleHealth commits k (c\<lparr>c_roleHealth := AList.delete k (c_roleHealth c)\<rparr>) else c)
       c (map fst (c_roleHealth c))"

definition clearRoleHealthForTeamLocked :: "commit_oracle \<Rightarrow> string \<Rightarrow> string \<Rightarrow> Controller \<Rightarrow> Controller" where
  "clearRoleHealthForTeamLocked commits ws team c =
     (let pfx = ws @ ''/'' @ team @ ''/'' in dropAdmissionHolds pfx (clear_health_prefix commits pfx c))"

definition ClearRoleHealthForWorkspace :: "commit_oracle \<Rightarrow> string \<Rightarrow> Controller \<Rightarrow> Controller" where
  "ClearRoleHealthForWorkspace commits ws c =
     (let pfx = ws @ ''/'' in dropAdmissionHolds pfx (clear_health_prefix commits pfx c))"

definition ClearRoleHealthForRole :: "commit_oracle \<Rightarrow> string \<Rightarrow> string \<Rightarrow> string \<Rightarrow> Controller \<Rightarrow> Controller \<times> bool" where
  "ClearRoleHealthForRole commits ws team role c =
     (let key = role_key ws team role;
          (st, ok) = GetScheduleStatus (c_store c) key;
          (c1, thawed) =
            (if ok \<and> ss_Frozen st
             then case UpdateScheduleStatus commits key (\<lambda>st. (st\<lparr>ss_Frozen := False\<rparr>, True)) (c_store c) of
                    (s, _, e) \<Rightarrow> (c\<lparr>c_store := s\<rparr>, e = None)
             else (c, False))
      in case health_at c1 key of
           None \<Rightarrow> (c1, thawed)
         | Some _ \<Rightarrow> (forgetRoleHealth commits key (c1\<lparr>c_roleHealth := AList.delete key (c_roleHealth c1)\<rparr>), True))"

section \<open>What one charge does\<close>

lemma getRoleHealth_facts:
  assumes "getRoleHealth key c = (c1, rh)"
  shows "rh = (case health_at c key of Some rh \<Rightarrow> rh | None \<Rightarrow> no_health)" and "c_store c1 = c_store c"
    and "k \<noteq> key \<Longrightarrow> health_at c1 k = health_at c k" and "c_events c1 = c_events c"
  using assms by (auto simp: getRoleHealth_def update_conv' split: option.splits)

lemma health_at_simps [simp]:
  "health_at (set_health key rh c) = (health_at c)(key \<mapsto> rh)"
  "health_at (persistRoleHealth commits key rh c) = health_at c"
  "health_at (forgetRoleHealth commits key c) = health_at c"
  "health_at (update_session commits k f c) = health_at c"
  "health_at (emit kd ws team role sess c) = health_at c"
  by (simp_all add: set_health_def persistRoleHealth_def forgetRoleHealth_def update_session_def emit_def update_conv')

definition current_health :: "Controller \<Rightarrow> string \<Rightarrow> RoleHealth" where
  "current_health c key = (case health_at c key of Some rh \<Rightarrow> rh | None \<Rightarrow> no_health)"

abbreviation restart_count :: "Controller \<Rightarrow> string \<Rightarrow> int" where
  "restart_count c key \<equiv> rh_RestartCount (current_health c key)"

abbreviation backoff_until :: "Controller \<Rightarrow> string \<Rightarrow> time" where
  "backoff_until c key \<equiv> rh_BackoffUntil (current_health c key)"

definition saturated :: "int \<Rightarrow> RoleHealth \<Rightarrow> bool" where
  "saturated maxRestarts rh \<longleftrightarrow> 0 < maxRestarts \<and> maxRestarts \<le> rh_RestartCount rh"

definition charged_health :: "time \<Rightarrow> int \<Rightarrow> RoleHealth \<Rightarrow> RoleHealth" where
  "charged_health now maxRestarts rh =
     (if saturated maxRestarts rh then rh\<lparr>rh_HealthySince := zero_time, rh_BackoffUntil := saturationFreezeUntil\<rparr>
      else rh\<lparr>rh_HealthySince := zero_time, rh_RestartCount := rh_RestartCount rh + 1, rh_LastRestartAt := now,
              rh_BackoffUntil := now + restart_wait (rh_RestartCount rh + 2)\<rparr>)"

lemma noteCrash_health:
  "health_at (fst (noteCrashAndBackoff commits now ws team role m c)) =
     (health_at c)(role_key ws team role \<mapsto> charged_health now m (current_health c (role_key ws team role)))"
  "snd (noteCrashAndBackoff commits now ws team role m c) \<longleftrightarrow> \<not> saturated m (current_health c (role_key ws team role))"
proof -
  let ?k = "role_key ws team role"
  obtain c1 rh where g: "getRoleHealth ?k c = (c1, rh)" by (cases "getRoleHealth ?k c")
  note f = getRoleHealth_facts[OF g]
  have rh: "rh = current_health c ?k" using f(1) by (simp add: current_health_def)
  have other: "(health_at c1)(?k \<mapsto> x) = (health_at c)(?k \<mapsto> x)" for x using f(3) by auto
  show "health_at (fst (noteCrashAndBackoff commits now ws team role m c)) =
     (health_at c)(?k \<mapsto> charged_health now m (current_health c ?k))"
    "snd (noteCrashAndBackoff commits now ws team role m c) \<longleftrightarrow> \<not> saturated m (current_health c ?k)"
    by (simp_all add: noteCrashAndBackoff_def g Let_def rh other charged_health_def saturated_def add.commute)
qed

lemma freezeRole_health:
  "health_at (freezeRole commits ws team role c) =
     (health_at c)(role_key ws team role \<mapsto> (current_health c (role_key ws team role))\<lparr>rh_BackoffUntil := saturationFreezeUntil\<rparr>)"
proof -
  let ?k = "role_key ws team role"
  obtain c1 rh where g: "getRoleHealth ?k c = (c1, rh)" by (cases "getRoleHealth ?k c")
  have "(health_at c1)(?k \<mapsto> x) = (health_at c)(?k \<mapsto> x)" for x using getRoleHealth_facts(3)[OF g] by auto
  then show ?thesis using getRoleHealth_facts(1)[OF g] by (simp add: freezeRole_def g Let_def current_health_def)
qed

text \<open>
  What one crash charge does to a role: below \<open>max_restarts\<close> it counts one restart, stamps it,
  ends the healthy streak and opens a backoff window that lies in the future and is at most five
  minutes long, following the restart ladder; at the cap it leaves the counter alone and freezes the
  role until the year-9999 sentinel. The health of every other role is untouched.
\<close>

theorem crash_charge:
  fixes c commits now ws team role m
  defines "k \<equiv> role_key ws team role"
  defines "c' \<equiv> fst (noteCrashAndBackoff commits now ws team role m c)"
  shows "(if 0 < m \<and> m \<le> restart_count c k
          then \<not> snd (noteCrashAndBackoff commits now ws team role m c) \<and>
               restart_count c' k = restart_count c k \<and> backoff_until c' k = saturationFreezeUntil
          else snd (noteCrashAndBackoff commits now ws team role m c) \<and>
               restart_count c' k = restart_count c k + 1 \<and>
               backoff_until c' k = now + ladder (restart_count c k + 2) \<and>
               now < backoff_until c' k \<and> backoff_until c' k \<le> now + 5 * minute) \<and>
         rh_HealthySince (current_health c' k) = zero_time \<and>
         health_at c' = (health_at c)(k \<mapsto> current_health c' k)"
proof -
  have m: "health_at c' = (health_at c)(k \<mapsto> charged_health now m (current_health c k))"
    by (simp add: c'_def k_def noteCrash_health(1))
  then have h: "current_health c' k = charged_health now m (current_health c k)" by (simp add: current_health_def)
  have ok: "snd (noteCrashAndBackoff commits now ws team role m c) \<longleftrightarrow> \<not> saturated m (current_health c k)"
    by (simp add: k_def noteCrash_health(2))
  show ?thesis
    using restart.deadline_future[of now] restart.deadline_bounded[of now] m
    by (auto simp: h ok charged_health_def saturated_def restart_ladder)
qed

end
