(* ===== verification/Crash_Loop.thy ===== *)
theory Crash_Loop
  imports Role_Health Store_Durability
begin

text \<open>
  The crash-loop properties that span several steps: the restart budget over a run of crashes, the
  accounting of one reap pass, the freeze that only an operator lifts, and the durable mirror that
  carries the backoff over a daemon restart.
\<close>

section \<open>The restart budget\<close>

definition charge_all :: "commit_oracle \<Rightarrow> string \<Rightarrow> string \<Rightarrow> string \<Rightarrow> int \<Rightarrow> time list \<Rightarrow> Controller \<Rightarrow> Controller \<times> nat" where
  "charge_all commits ws team role m ts c =
     foldl (\<lambda>(c, n) t. case noteCrashAndBackoff commits t ws team role m c of
              (c', ok) \<Rightarrow> (c', if ok then n + 1 else n)) (c, 0) ts"

lemma current_health_charge:
  "current_health (fst (noteCrashAndBackoff commits t ws team role m c)) j =
     (if j = role_key ws team role then charged_health t m (current_health c j) else current_health c j)"
  unfolding current_health_def noteCrash_health(1) by (simp add: current_health_def)

lemma charge_all_snoc:
  "charge_all commits ws team role m (ts @ [t]) c =
     (case charge_all commits ws team role m ts c of (c1, n) \<Rightarrow>
        (fst (noteCrashAndBackoff commits t ws team role m c1),
         if snd (noteCrashAndBackoff commits t ws team role m c1) then n + 1 else n))"
  by (simp add: charge_all_def split: prod.splits)

lemma charge_all_budget:
  assumes "0 < m" and "restart_count c (role_key ws team role) \<le> m"
  shows "snd (charge_all commits ws team role m ts c) = min (length ts) (nat (m - restart_count c (role_key ws team role)))
    \<and> restart_count (fst (charge_all commits ws team role m ts c)) (role_key ws team role)
        = restart_count c (role_key ws team role) + int (snd (charge_all commits ws team role m ts c))
    \<and> (nat (m - restart_count c (role_key ws team role)) < length ts \<longrightarrow>
         backoff_until (fst (charge_all commits ws team role m ts c)) (role_key ws team role) = saturationFreezeUntil)"
proof (induction ts rule: rev_induct)
  case Nil
  then show ?case by (simp add: charge_all_def)
next
  case (snoc t ts)
  obtain c1 n where r: "charge_all commits ws team role m ts c = (c1, n)" by fastforce
  with snoc assms show ?case
    by (auto simp: charge_all_snoc current_health_charge charged_health_def saturated_def noteCrash_health(2) min_def)
qed

text \<open>
  C27. The restart budget: however many crashes a role with \<open>max_restarts = m\<close> suffers, and whenever
  they come, it is granted exactly the restarts it has left and not one more, and the crash after the
  last of them freezes it.
\<close>

theorem max_restarts_is_a_budget:
  assumes "0 < m" and "restart_count c (role_key ws team role) = 0"
  shows "snd (charge_all commits ws team role m ts c) = min (length ts) (nat m) \<and>
    restart_count (fst (charge_all commits ws team role m ts c)) (role_key ws team role) = int (min (length ts) (nat m)) \<and>
    (nat m < length ts \<longrightarrow>
       backoff_until (fst (charge_all commits ws team role m ts c)) (role_key ws team role) = saturationFreezeUntil)"
  using charge_all_budget[of m c ws team role commits ts] assms by simp

theorem max_restarts_is_a_budget_witness:
  "snd (charge_all (\<lambda>_. True) ''ws'' ''squad'' ''dev'' 3 [10, 20, 30, 40, 50] (NewController NewStore)) = 3 \<and>
   backoff_until (fst (charge_all (\<lambda>_. True) ''ws'' ''squad'' ''dev'' 3 [10, 20, 30, 40, 50] (NewController NewStore)))
     (role_key ''ws'' ''squad'' ''dev'') = saturationFreezeUntil"
  using max_restarts_is_a_budget[of 3 "NewController NewStore" "''ws''" "''squad''" "''dev''" "\<lambda>_. True" "[10, 20, 30, 40, 50]"]
  by (simp add: NewController_def current_health_def no_health_def)

section \<open>One charge per role and tick\<close>

definition reap_key :: "ReapedSession \<Rightarrow> string" where
  "reap_key r = role_key (reap_Workspace r) (reap_Team r) (reap_Role r)"

text \<open>A reaped session whose loss is charged: its team and role still exist, it was not retiring, and
  its role has neither a schedule nor \<open>restart_policy = never\<close>.\<close>

definition chargeable :: "Store \<Rightarrow> ReapedSession \<Rightarrow> bool" where
  "chargeable s r =
     (case team_at s (reap_Workspace r @ ''/'' @ reap_Team r) of
        None \<Rightarrow> False
      | Some t \<Rightarrow> \<not> isRetiring t (reap_Key r) \<and>
          (case find_role t (reap_Role r) of
             None \<Rightarrow> False
           | Some role \<Rightarrow> role_Schedule role = None \<and> role_RestartPolicy role \<noteq> RestartNever))"

lemma teams_unchanged [simp]:
  "st_teams (c_store (emit kd ws team role sess c)) = st_teams (c_store c)"
  "st_teams (c_store (persistRoleHealth commits k rh c)) = st_teams (c_store c)"
  "st_teams (c_store (set_health k rh c)) = st_teams (c_store c)"
  "st_teams (c_store (update_session commits k f c)) = st_teams (c_store c)"
  by (simp_all add: emit_def persistRoleHealth_def set_health_def update_session_def PersistRoleHealth_def
      UpdateSession_def Let_def persist_tables_fst split: option.splits prod.splits)

lemma freezeRole_teams [simp]: "st_teams (c_store (freezeRole commits ws team role c)) = st_teams (c_store c)"
  using getRoleHealth_facts(2) by (simp add: freezeRole_def Let_def split: prod.splits)

lemma noteCrash_teams [simp]:
  "st_teams (c_store (fst (noteCrashAndBackoff commits t ws team role m c))) = st_teams (c_store c)"
  using getRoleHealth_facts(2) by (simp add: noteCrashAndBackoff_def Let_def split: prod.splits)

text \<open>The three things one reaped session can do to the accounting.\<close>

lemma noteReapedCrash_cases:
  assumes "noteReapedCrash commits now r (c, charged) = (c', charged')"
  shows "st_teams (c_store c') = st_teams (c_store c) \<and>
   (if \<not> chargeable (c_store c) r
    then charged' = charged \<and> (\<forall>k. restart_count c' k = restart_count c k)
    else case map_of charged (reap_key r) of
        Some acc \<Rightarrow> c' = c \<and> charged' = AList.update (reap_key r) (acc\<lparr>acc_suppressed := acc_suppressed acc + 1\<rparr>) charged
      | None \<Rightarrow> (\<exists>acc. charged' = AList.update (reap_key r) acc charged \<and> acc_charges acc + acc_suppressed acc = 1) \<and>
          (\<forall>k. restart_count c k \<le> restart_count c' k \<and>
               restart_count c' k \<le> restart_count c k + (if k = reap_key r then 1 else 0)))"
proof -
  have never: "restart_count (update_session commits j f (freezeRole commits ws team role c)) k = restart_count c k"
    "restart_count (emit kd ws team role sess d) k = restart_count d k" for j f ws team role k kd sess d
    by (auto simp: current_health_def freezeRole_health)
  have charge: "restart_count c k \<le> restart_count (fst (noteCrashAndBackoff commits now ws team role m c)) k"
    "restart_count (fst (noteCrashAndBackoff commits now ws team role m c)) k \<le>
       restart_count c k + (if k = role_key ws team role then 1 else 0)" for ws team role m k
    by (auto simp: current_health_charge charged_health_def)
  show ?thesis
  proof (cases "chargeable (c_store c) r")
    case False
    with assms show ?thesis
      by (auto simp: noteReapedCrash_def chargeable_def GetTeam_def never Let_def split: option.splits sum.splits if_splits)
  next
    case True
    then obtain t role where t: "team_at (c_store c) (reap_Workspace r @ ''/'' @ reap_Team r) = Some t"
      "\<not> isRetiring t (reap_Key r)" "find_role t (reap_Role r) = Some role" "role_Schedule role = None"
      "role_RestartPolicy role \<noteq> RestartNever"
      by (auto simp: chargeable_def split: option.splits)
    show ?thesis
    proof (cases "map_of charged (reap_key r)")
      case (Some acc)
      with True t assms show ?thesis by (auto simp: noteReapedCrash_def GetTeam_def Let_def reap_key_def)
    next
      case None
      obtain c1 ok where n: "noteCrashAndBackoff commits now (reap_Workspace r) (reap_Team r) (reap_Role r)
          (role_MaxRestarts role) c = (c1, ok)" by fastforce
      from None True t assms n charge[where ws = "reap_Workspace r" and team = "reap_Team r" and role = "reap_Role r" and m = "role_MaxRestarts role"]
        noteCrash_teams[of commits now "reap_Workspace r" "reap_Team r" "reap_Role r" "role_MaxRestarts role" c]
      show ?thesis by (auto simp: noteReapedCrash_def GetTeam_def Let_def reap_key_def)
    qed
  qed
qed

lemma reap_fold_counts:
  assumes "foldl (\<lambda>st r. noteReapedCrash commits now r st) (c, []) rs = (c', charged)"
  shows "st_teams (c_store c') = st_teams (c_store c) \<and>
    (\<forall>k. k \<in> fst ` set charged \<longleftrightarrow> (\<exists>r\<in>set rs. chargeable (c_store c) r \<and> reap_key r = k)) \<and>
    (\<forall>k acc. map_of charged k = Some acc \<longrightarrow>
       acc_charges acc + acc_suppressed acc = count_if (\<lambda>r. chargeable (c_store c) r \<and> reap_key r = k) rs) \<and>
    (\<forall>k. restart_count c k \<le> restart_count c' k \<and>
         restart_count c' k \<le> restart_count c k + (if k \<in> fst ` set charged then 1 else 0))"
  using assms
proof (induction rs arbitrary: c' charged rule: rev_induct)
  case Nil
  then show ?case by simp
next
  case (snoc r rs)
  obtain c1 ch1 where f: "foldl (\<lambda>st r. noteReapedCrash commits now r st) (c, []) rs = (c1, ch1)" by fastforce
  from snoc.IH[OF f] have teams: "st_teams (c_store c1) = st_teams (c_store c)"
    and dom: "\<And>k. k \<in> fst ` set ch1 \<longleftrightarrow> (\<exists>r\<in>set rs. chargeable (c_store c) r \<and> reap_key r = k)"
    and acc: "\<And>k acc. map_of ch1 k = Some acc \<Longrightarrow>
       acc_charges acc + acc_suppressed acc = count_if (\<lambda>r. chargeable (c_store c) r \<and> reap_key r = k) rs"
    and cnt: "\<And>k. restart_count c k \<le> restart_count c1 k \<and>
         restart_count c1 k \<le> restart_count c k + (if k \<in> fst ` set ch1 then 1 else 0)"
    by blast+
  have same: "chargeable (c_store c1) r = chargeable (c_store c) r" using teams by (simp add: chargeable_def)
  have n: "noteReapedCrash commits now r (c1, ch1) = (c', charged)" using snoc.prems f by simp
  note step = noteReapedCrash_cases[OF n, unfolded same]
  show ?case
  proof (cases "chargeable (c_store c) r")
    case False
    with step have "st_teams (c_store c') = st_teams (c_store c)" "charged = ch1"
      "\<And>k. restart_count c' k = restart_count c1 k" using teams by simp_all
    with False dom acc cnt show ?thesis by auto
  next
    case True
    show ?thesis
    proof (cases "map_of ch1 (reap_key r)")
      case (Some a)
      then have "reap_key r \<in> fst ` set ch1" by (force dest: map_of_SomeD)
      moreover have "c' = c1" "charged = AList.update (reap_key r) (a\<lparr>acc_suppressed := acc_suppressed a + 1\<rparr>) ch1"
        using step True Some by simp_all
      ultimately show ?thesis using True Some dom acc cnt teams
        by (auto simp: update_conv' dom_update image_Un insert_absorb)
    next
      case None
      then have new: "reap_key r \<notin> fst ` set ch1" by (simp add: map_of_eq_None_iff)
      from step True None obtain a where a: "charged = AList.update (reap_key r) a ch1" "acc_charges a + acc_suppressed a = 1"
        and up: "\<And>k. restart_count c1 k \<le> restart_count c' k \<and>
             restart_count c' k \<le> restart_count c1 k + (if k = reap_key r then 1 else 0)"
        and t': "st_teams (c_store c') = st_teams (c_store c1)" by auto
      have zero: "filter (\<lambda>x. chargeable (c_store c) x \<and> reap_key x = reap_key r) rs = []"
        using new dom by (auto simp: filter_empty_conv)
      have keys: "fst ` set charged = insert (reap_key r) (fst ` set ch1)" using a by (simp add: dom_update)
      show ?thesis
      proof (intro conjI allI impI)
        fix k x
        assume "map_of charged k = Some x"
        then show "acc_charges x + acc_suppressed x = count_if (\<lambda>r. chargeable (c_store c) r \<and> reap_key r = k) (rs @ [r])"
          using a acc zero True by (auto simp: update_conv' split: if_splits)
      next
        fix k
        show "restart_count c k \<le> restart_count c' k" using up[of k] cnt[of k] by linarith
        show "restart_count c' k \<le> restart_count c k + (if k \<in> fst ` set charged then 1 else 0)"
          using up[of k] cnt[of k] new keys by (auto split: if_splits)
      qed (use t' teams keys dom True in auto)
    qed
  qed
qed

lemma emitReapAccounting_health: "health_at (emitReapAccounting charged c) = health_at c"
  unfolding emitReapAccounting_def by (induction charged arbitrary: c) auto

text \<open>
  The charge is per role and tick, not per lost replica: whatever list of sessions one reap pass
  finds dead, the restart counter of every role rises by at most one, and by none for a role that
  lost no chargeable session.
\<close>

theorem reap_tick_charges_once:
  "restart_count c k \<le> restart_count (reapDeadLocked commits now rs c) k \<and>
   restart_count (reapDeadLocked commits now rs c) k \<le>
     restart_count c k + (if (\<exists>r\<in>set rs. chargeable (c_store c) r \<and> reap_key r = k) then 1 else 0)"
proof -
  obtain c' ch where f: "foldl (\<lambda>st r. noteReapedCrash commits now r st) (c, []) rs = (c', ch)" by fastforce
  have "current_health (reapDeadLocked commits now rs c) k = current_health c' k"
    by (simp add: reapDeadLocked_def f current_health_def emitReapAccounting_health)
  moreover from reap_fold_counts[OF f]
  have "restart_count c k \<le> restart_count c' k"
    "restart_count c' k \<le> restart_count c k + (if k \<in> fst ` set ch then 1 else 0)"
    "k \<in> fst ` set ch \<longleftrightarrow> (\<exists>r\<in>set rs. chargeable (c_store c) r \<and> reap_key r = k)" by blast+
  ultimately show ?thesis by simp
qed

text \<open>
  The accounting of a reap pass adds up: for every role the pass charged or tried to charge, the
  charges and the suppressed reaps together are the chargeable sessions the role lost, and one
  accounting event is emitted per such role.
\<close>

theorem reap_accounting_total:
  assumes "foldl (\<lambda>st r. noteReapedCrash commits now r st) (c, []) rs = (c', charged)"
    and "map_of charged k = Some acc"
  shows "acc_charges acc + acc_suppressed acc = count_if (\<lambda>r. chargeable (c_store c) r \<and> reap_key r = k) rs \<and>
    length (c_events (reapDeadLocked commits now rs c)) = length (c_events c') + length charged"
proof -
  have "length (c_events (emitReapAccounting ch d)) = length (c_events d) + length ch" for ch d
    unfolding emitReapAccounting_def by (induction ch arbitrary: d) (auto simp: emit_def)
  with reap_fold_counts[OF assms(1)] assms show ?thesis by (simp add: reapDeadLocked_def)
qed

definition example_reaped :: "ReapedSession list" where
  "example_reaped = map (\<lambda>n. \<lparr>reap_Key = ''ws/'' @ n, reap_Workspace = ''ws'', reap_Team = ''squad'', reap_Role = ''dev''\<rparr>)
     [''dev-1'', ''dev-2'']"

definition example_controller :: Controller where
  "example_controller = NewController (NewStore\<lparr>st_teams := [(''ws/squad'', example_team)]\<rparr>)"

lemma example_chargeable: "list_all (\<lambda>r. chargeable (c_store example_controller) r \<and> reap_key r = ''ws/squad/dev'') example_reaped"
  by (simp add: example_reaped_def chargeable_def example_controller_def NewController_def NewStore_def find_role_def
      isRetiring_def reap_key_def role_key_def example_defs restart_policies)

theorem reap_accounting_total_witness:
  "\<exists>c' charged acc. foldl (\<lambda>st r. noteReapedCrash (\<lambda>_. True) 5 r st) (example_controller, []) example_reaped = (c', charged) \<and>
     map_of charged ''ws/squad/dev'' = Some acc \<and> acc_charges acc + acc_suppressed acc = 2"
proof -
  obtain c' charged where f: "foldl (\<lambda>st r. noteReapedCrash (\<lambda>_. True) 5 r st) (example_controller, []) example_reaped = (c', charged)"
    by fastforce
  have "\<exists>r\<in>set example_reaped. chargeable (c_store example_controller) r \<and> reap_key r = ''ws/squad/dev''"
    using example_chargeable by (auto simp: list_all_iff example_reaped_def)
  with reap_fold_counts[OF f] have "''ws/squad/dev'' \<in> fst ` set charged" by blast
  then obtain acc where a: "map_of charged ''ws/squad/dev'' = Some acc"
    by (metis map_of_eq_None_iff not_Some_eq)
  have "filter (\<lambda>r. chargeable (c_store example_controller) r \<and> reap_key r = ''ws/squad/dev'') example_reaped = example_reaped"
    using example_chargeable by (simp add: filter_id_conv list_all_iff)
  with reap_accounting_total[OF f a] have "acc_charges acc + acc_suppressed acc = 2" by (simp add: example_reaped_def)
  with f a show ?thesis by blast
qed

section \<open>A saturated role stays frozen\<close>

datatype HealthOp = OpCharge time | OpFreeze | OpDecay time "(string \<times> roleObs) list"

fun run_health_op :: "commit_oracle \<Rightarrow> string \<Rightarrow> string \<Rightarrow> string \<Rightarrow> int \<Rightarrow> HealthOp \<Rightarrow> Controller \<Rightarrow> Controller" where
  "run_health_op commits ws team role m (OpCharge t) c = fst (noteCrashAndBackoff commits t ws team role m c)"
| "run_health_op commits ws team role m OpFreeze c = freezeRole commits ws team role c"
| "run_health_op commits ws team role m (OpDecay t obs) c = decayHealthyRoles commits t obs c"

lemma decay_role_health:
  "health_at (decay_role commits now key ob c) k =
     (if k \<noteq> key then health_at c k
      else map_option (\<lambda>rh.
        if rh_RestartCount rh = 0 \<or> rh_BackoffUntil rh = saturationFreezeUntil then rh
        else if obs_unhealthy ob \<or> \<not> obs_healthy ob then rh\<lparr>rh_HealthySince := zero_time\<rparr>
        else if rh_HealthySince rh = zero_time then rh\<lparr>rh_HealthySince := now\<rparr>
        else if restartCountDecayWindow \<le> time_sub now (rh_HealthySince rh)
        then rh\<lparr>rh_RestartCount := 0, rh_BackoffUntil := zero_time, rh_HealthySince := zero_time\<rparr>
        else rh) (health_at c k))"
  by (auto simp: decay_role_def Let_def is_zero_def split: option.splits)

lemma decay_keeps_frozen:
  assumes "health_at c k = Some rh" and "rh_BackoffUntil rh = saturationFreezeUntil"
  shows "health_at (decayHealthyRoles commits now obs c) k = Some rh"
  using assms(1) unfolding decayHealthyRoles_def
proof (induction obs arbitrary: c)
  case (Cons x obs)
  obtain key ob where o: "x = (key, ob)" by (cases x)
  have "health_at (decay_role commits now key ob c) k = Some rh"
    using Cons.prems assms(2) by (cases "k = key") (simp_all add: decay_role_def, simp flip: decay_role_def add: decay_role_health)
  from Cons.IH[OF this] o show ?case by simp
qed simp

text \<open>
  Saturation is terminal until an operator acts: once a role has used its \<open>max_restarts\<close> and been
  frozen, no interleaving of further crashes, freezes and healthy ticks (the success-based decay
  included) thaws it or touches its counter.
\<close>

theorem saturation_is_terminal:
  assumes "health_at c (role_key ws team role) = Some rh" and "rh_BackoffUntil rh = saturationFreezeUntil"
    and "0 < m" and "m \<le> rh_RestartCount rh"
  shows "\<exists>rh'. health_at (foldl (\<lambda>c p. run_health_op commits ws team role m p c) c ps) (role_key ws team role) = Some rh' \<and>
    rh_BackoffUntil rh' = saturationFreezeUntil \<and> rh_RestartCount rh' = rh_RestartCount rh"
  using assms
proof (induction ps arbitrary: c rh)
  case (Cons p ps)
  have "\<exists>rh1. health_at (run_health_op commits ws team role m p c) (role_key ws team role) = Some rh1 \<and>
      rh_BackoffUntil rh1 = saturationFreezeUntil \<and> rh_RestartCount rh1 = rh_RestartCount rh"
  proof (cases p)
    case (OpCharge t)
    with Cons.prems show ?thesis
      by (simp add: noteCrash_health(1) charged_health_def saturated_def current_health_def)
  next
    case OpFreeze
    with Cons.prems show ?thesis by (simp add: freezeRole_health current_health_def)
  next
    case (OpDecay t obs)
    with Cons.prems decay_keeps_frozen[of c] show ?thesis by simp
  qed
  then obtain rh1 where rh1: "health_at (run_health_op commits ws team role m p c) (role_key ws team role) = Some rh1"
      "rh_BackoffUntil rh1 = saturationFreezeUntil" "rh_RestartCount rh1 = rh_RestartCount rh" by blast
  from Cons.IH[OF rh1(1,2)] Cons.prems rh1(3) show ?case by simp
qed simp

theorem saturation_is_terminal_witness:
  "\<exists>rh'. health_at (foldl (\<lambda>c p. run_health_op (\<lambda>_. True) ''ws'' ''squad'' ''dev'' 3 p c)
       (set_health (role_key ''ws'' ''squad'' ''dev'')
          (no_health\<lparr>rh_RestartCount := 3, rh_BackoffUntil := saturationFreezeUntil\<rparr>) (NewController NewStore))
       [OpCharge 5, OpDecay 9 [(role_key ''ws'' ''squad'' ''dev'', \<lparr>obs_healthy = True, obs_unhealthy = False\<rparr>)]])
     (role_key ''ws'' ''squad'' ''dev'') = Some rh' \<and> rh_BackoffUntil rh' = saturationFreezeUntil \<and> rh_RestartCount rh' = 3"
  using saturation_is_terminal[where m = 3 and commits = "\<lambda>_. True" and ws = "''ws''" and team = "''squad''" and role = "''dev''"
      and c = "set_health (role_key ''ws'' ''squad'' ''dev'')
          (no_health\<lparr>rh_RestartCount := 3, rh_BackoffUntil := saturationFreezeUntil\<rparr>) (NewController NewStore)"
      and rh = "no_health\<lparr>rh_RestartCount := 3, rh_BackoffUntil := saturationFreezeUntil\<rparr>"
      and ps = "[OpCharge 5, OpDecay 9 [(role_key ''ws'' ''squad'' ''dev'', \<lparr>obs_healthy = True, obs_unhealthy = False\<rparr>)]]"]
  by simp

section \<open>The durable mirror\<close>

definition health_mirrored :: "Controller \<Rightarrow> bool" where
  "health_mirrored c \<longleftrightarrow> (\<exists>db. st_bolt (c_store c) = Some db \<and> bolt_wf db \<and>
     (\<forall>k. bolt_get db bucketRoleHealth k = map_option (\<lambda>rh. VRoleHealth (health_record k rh)) (health_at c k)))"

lemma persist_mirrors:
  assumes "health_mirrored c" and "\<And>n. commits n"
  shows "health_mirrored (persistRoleHealth commits k rh (set_health k rh c))"
proof -
  from assms(1) obtain db where db: "st_bolt (c_store c) = Some db" "bolt_wf db"
    "\<forall>j. bolt_get db bucketRoleHealth j = map_option (\<lambda>rh. VRoleHealth (health_record j rh)) (health_at c j)"
    by (auto simp: health_mirrored_def)
  let ?db = "bumpVersion (bolt_put bucketRoleHealth k (VRoleHealth (health_record k rh)) db)"
  have "st_bolt (c_store (persistRoleHealth commits k rh (set_health k rh c))) = Some ?db"
    using db assms(2) by (simp add: persistRoleHealth_def set_health_def PersistRoleHealth_def persistPut_def putBytes_def
        boltUpdate_def rememberPersisted_def health_record_def Let_def)
  moreover have "bolt_wf ?db" using db(2) by (simp add: bolt_wf_put)
  ultimately show ?thesis using db(3) by (auto simp: health_mirrored_def)
qed

text \<open>A streak-only change writes nothing: the record does not hold the streak.\<close>

lemma streak_mirrors:
  assumes "health_mirrored c" and "health_at c k = Some rh"
  shows "health_mirrored (set_health k (rh\<lparr>rh_HealthySince := t\<rparr>) c)"
  using assms by (auto simp: health_mirrored_def health_record_def set_health_def update_conv')

lemma set_health_twice:
  "getRoleHealth k c = (c1, rh) \<Longrightarrow> persistRoleHealth commits k x (set_health k x c1) = persistRoleHealth commits k x (set_health k x c)"
  by (auto simp: getRoleHealth_def set_health_def update_Some_unfold split: option.splits)

lemma health_ops_mirror:
  assumes "health_mirrored c" and "\<And>n. commits n"
  shows "health_mirrored (fst (noteCrashAndBackoff commits t ws team role m c))"
    and "health_mirrored (freezeRole commits ws team role c)" and "health_mirrored (decay_role commits t k ob c)"
proof -
  let ?k = "role_key ws team role"
  obtain c1 rh where g: "getRoleHealth ?k c = (c1, rh)" by (cases "getRoleHealth ?k c")
  show "health_mirrored (fst (noteCrashAndBackoff commits t ws team role m c))"
    "health_mirrored (freezeRole commits ws team role c)"
    using persist_mirrors[OF assms] by (simp_all add: noteCrashAndBackoff_def freezeRole_def g Let_def set_health_twice[OF g])
  show "health_mirrored (decay_role commits t k ob c)"
    using assms(1) persist_mirrors[OF assms] streak_mirrors[OF assms(1)]
    by (auto simp: decay_role_def Let_def split: option.splits)
qed

lemma run_health_ops_mirror:
  assumes "health_mirrored c" and "\<And>n. commits n"
  shows "health_mirrored (foldl (\<lambda>c p. run_health_op commits ws team role m p c) c ps)"
  using assms(1)
proof (induction ps arbitrary: c)
  case (Cons p ps)
  have "health_mirrored (decayHealthyRoles commits t obs c)" if "health_mirrored c" for t obs c
    using that unfolding decayHealthyRoles_def
    by (induction obs arbitrary: c) (auto simp: health_ops_mirror assms(2))
  then have "health_mirrored (run_health_op commits ws team role m p c)"
    using Cons.prems by (cases p) (simp_all add: health_ops_mirror assms(2))
  from Cons.IH[OF this] show ?case by simp
qed simp

definition rehydrated :: "RoleHealthRecord \<Rightarrow> RoleHealth" where
  "rehydrated rec = \<lparr>rh_RestartCount = rhr_RestartCount rec, rh_LastRestartAt = rhr_LastRestartAt rec,
     rh_BackoffUntil = rhr_BackoffUntil rec, rh_HealthySince = zero_time\<rparr>"

lemma list_role_health_ok:
  assumes "\<forall>(k, v)\<in>set es. \<exists>rec. v = VRoleHealth rec \<and> rhr_Key rec = k"
  shows "\<exists>recs. list_role_health es = Inr recs \<and> map (\<lambda>r. (rhr_Key r, VRoleHealth r)) recs = es"
  using assms
proof (induction es)
  case (Cons e es)
  obtain k v where e: "e = (k, v)" by (cases e)
  with Cons.prems obtain rec where rec: "v = VRoleHealth rec" "rhr_Key rec = k" by auto
  from Cons obtain recs where recs: "list_role_health es = Inr recs" "map (\<lambda>r. (rhr_Key r, VRoleHealth r)) recs = es" by auto
  have "(if rhr_Key rec = [] then rec\<lparr>rhr_Key := k\<rparr> else rec) = rec" using rec(2) by (cases rec) auto
  with e rec recs show ?case by auto
qed simp

lemma fold_set_health:
  assumes "distinct (map rhr_Key recs)"
  shows "health_at (foldl (\<lambda>c rec. set_health (rhr_Key rec) (rehydrated rec) c) c recs) k =
    (case map_of (map (\<lambda>r. (rhr_Key r, rehydrated r)) recs) k of Some rh \<Rightarrow> Some rh | None \<Rightarrow> health_at c k)"
  using assms
proof (induction recs arbitrary: c)
  case (Cons r recs)
  then have "map_of (map (\<lambda>r. (rhr_Key r, rehydrated r)) recs) (rhr_Key r) = None"
    by (auto simp: map_of_eq_None_iff image_image)
  with Cons show ?case by (auto split: option.splits)
qed simp

lemma OpenBolt_health_bucket:
  assumes "OpenBolt commits db NewStore = (s', None)" and "bolt_wf db"
  shows "\<exists>db'. st_bolt s' = Some db' \<and> bolt_wf db' \<and>
    (\<forall>k. bolt_get db' bucketRoleHealth k = bolt_get db bucketRoleHealth k)"
proof -
  have gone: "bolt_get (foldl (\<lambda>d k. bolt_delete bucketDutyReadiness k d) d ks) bucketRoleHealth k = bolt_get d bucketRoleHealth k"
    for ks d k by (induction ks arbitrary: d) auto
  from assms(1) obtain db' ks where "st_bolt s' = Some db'"
    and "db' = db \<or> db' = bumpVersion (foldl (\<lambda>d k. bolt_delete bucketDutyReadiness k d) db ks)"
    by (rule OpenBolt_stages) blast
  with assms(2) bolt_wf_foldl_delete[of db bucketDutyReadiness ks] gone show ?thesis
    by (auto simp: bolt_wf_def bumpVersion_def bolt_get_def)
qed

text \<open>
  A crash loop survives the daemon: run any sequence of charges, freezes and decay passes with a
  working file, restart from the file, and the controller's load gives back every role's restart
  count, last restart and backoff deadline; only the healthy streak starts over.
\<close>

theorem crash_loop_survives_restart:
  assumes "health_mirrored c" and "\<forall>n. commits n"
    and "c1 = foldl (\<lambda>c p. run_health_op commits ws team role m p c) c ps"
    and "OpenBolt commits' (the (st_bolt (c_store c1))) NewStore = (s', None)"
  shows "\<exists>c2. RehydrateRoleHealth (NewController s') = (c2, None) \<and>
    (\<forall>k. health_at c2 k = map_option (\<lambda>rh. rh\<lparr>rh_HealthySince := zero_time\<rparr>) (health_at c1 k))"
proof -
  from run_health_ops_mirror[of c commits ws team role m ps] assms(1-3) have "health_mirrored c1" by simp
  then obtain db where db: "st_bolt (c_store c1) = Some db" "bolt_wf db"
    "\<And>k. bolt_get db bucketRoleHealth k = map_option (\<lambda>rh. VRoleHealth (health_record k rh)) (health_at c1 k)"
    by (auto simp: health_mirrored_def)
  from OpenBolt_health_bucket[of commits' db s'] assms(4) db obtain db' where db': "st_bolt s' = Some db'" "bolt_wf db'"
    "\<And>k. bolt_get db' bucketRoleHealth k = map_option (\<lambda>rh. VRoleHealth (health_record k rh)) (health_at c1 k)" by auto
  let ?es = "bucket_entries db' bucketRoleHealth"
  have dist: "distinct (map fst (bolt_data db'))" using db'(2) by (simp add: bolt_wf_def)
  note entries = map_of_bucket_entries[OF dist, of bucketRoleHealth]
  have "\<forall>(k, v)\<in>set ?es. \<exists>rec. v = VRoleHealth rec \<and> rhr_Key rec = k"
  proof clarify
    fix k v
    assume "(k, v) \<in> set ?es"
    then have "bolt_get db' bucketRoleHealth k = Some v" using entries by (metis map_of_is_SomeI)
    then show "\<exists>rec. v = VRoleHealth rec \<and> rhr_Key rec = k" using db'(3)[of k] by (auto simp: health_record_def)
  qed
  from list_role_health_ok[OF this] obtain recs where recs: "list_role_health ?es = Inr recs"
    "map (\<lambda>r. (rhr_Key r, VRoleHealth r)) recs = ?es" by blast
  have keys: "map rhr_Key recs = map fst ?es" by (simp flip: recs(2) add: comp_def)
  let ?c2 = "foldl (\<lambda>c rec. set_health (rhr_Key rec) (rehydrated rec) c) (NewController s') recs"
  have "health_at ?c2 k = map_option (\<lambda>rh. rh\<lparr>rh_HealthySince := zero_time\<rparr>) (health_at c1 k)" for k
  proof -
    have "map_option VRoleHealth (map_of (map (\<lambda>r. (rhr_Key r, r)) recs) k) = map_of ?es k"
      unfolding recs(2)[symmetric] by (induction recs) auto
    then have "map_option VRoleHealth (map_of (map (\<lambda>r. (rhr_Key r, r)) recs) k) =
        map_option (\<lambda>rh. VRoleHealth (health_record k rh)) (health_at c1 k)" using entries(1)[of k] db'(3)[of k] by simp
    then have "map_of (map (\<lambda>r. (rhr_Key r, r)) recs) k = map_option (health_record k) (health_at c1 k)"
      by (cases "health_at c1 k"; cases "map_of (map (\<lambda>r. (rhr_Key r, r)) recs) k") auto
    moreover have "map_of (map (\<lambda>r. (rhr_Key r, rehydrated r)) recs) k =
        map_option rehydrated (map_of (map (\<lambda>r. (rhr_Key r, r)) recs) k)" by (induction recs) auto
    ultimately show ?thesis using fold_set_health[of recs "NewController s'" k] keys entries(2)
      by (auto simp: NewController_def rehydrated_def health_record_def split: option.splits)
  qed
  moreover have "RehydrateRoleHealth (NewController s') = (?c2, None)"
    using recs db'(1) by (simp add: RehydrateRoleHealth_def ListRoleHealth_def NewController_def rehydrated_def)
  ultimately show ?thesis by blast
qed

theorem crash_loop_survives_restart_witness:
  "\<exists>s' c2. OpenBolt (\<lambda>_. True) (the (st_bolt (c_store (fst (noteCrashAndBackoff (\<lambda>_. True) 5 ''ws'' ''squad'' ''dev'' 3
        (NewController (NewStore\<lparr>st_bolt := Some empty_file\<rparr>))))))) NewStore = (s', None) \<and>
     RehydrateRoleHealth (NewController s') = (c2, None) \<and>
     map_option rh_RestartCount (health_at c2 (role_key ''ws'' ''squad'' ''dev'')) = Some 1"
proof -
  let ?c = "NewController (NewStore\<lparr>st_bolt := Some empty_file\<rparr>)"
  let ?c1 = "fst (noteCrashAndBackoff (\<lambda>_. True) 5 ''ws'' ''squad'' ''dev'' 3 ?c)"
  have m: "health_mirrored ?c"
    by (simp add: health_mirrored_def NewController_def empty_file_def bolt_wf_def bolt_get_def)
  let ?rec = "\<lparr>rhr_Key = role_key ''ws'' ''squad'' ''dev'', rhr_RestartCount = 1, rhr_LastRestartAt = 5, rhr_BackoffUntil = 5 + restart_wait 2\<rparr>"
  have file1: "st_bolt (c_store ?c1) = Some \<lparr>bolt_data = [((bucketRoleHealth, role_key ''ws'' ''squad'' ''dev''), VRoleHealth ?rec)], bolt_version = 1\<rparr>"
    by (simp add: noteCrashAndBackoff_def getRoleHealth_def set_health_def persistRoleHealth_def PersistRoleHealth_def
        NewController_def NewStore_def persistPut_def putBytes_def boltUpdate_def rememberPersisted_def bumpVersion_def
        bolt_put_def empty_file_def health_record_def no_health_def Let_def)
  have open1: "OpenBolt (\<lambda>_. True) (the (st_bolt (c_store ?c1))) NewStore = (NewStore\<lparr>st_bolt := st_bolt (c_store ?c1)\<rparr>, None)"
    unfolding file1
    by (simp add: OpenBolt_def rehydrate_def rehydrateDuties_def and_then_def bucket_entries_def sort_by_def
        purgeOrphanDuties_def NewStore_def bolt_get_def Let_def)
  have one: "map_option rh_RestartCount (health_at ?c1 (role_key ''ws'' ''squad'' ''dev'')) = Some 1"
    by (simp add: noteCrash_health(1) charged_health_def saturated_def current_health_def NewController_def no_health_def)
  from crash_loop_survives_restart[OF m, of "\<lambda>_. True" ?c1 "''ws''" "''squad''" "''dev''" 3 "[OpCharge 5]", OF _ _ open1]
  show ?thesis using open1 one by (auto simp: option.map_comp comp_def)
qed

end
