(* ===== verification/Cron.thy ===== *)
theory Cron
  imports Resources Calendar "HOL-Library.Word"
begin

text \<open>
  The cron expressions of a schedule: the check at parse (\<open>parseCron\<close>, \<open>checkCronItem\<close>, \<open>cronNumber\<close> of
  \<open>internal/api/schedule.go\<close>) and the compilation to bit sets (\<open>compileCron\<close>, \<open>expandCronItem\<close>,
  \<open>matchesDay\<close> of \<open>internal/api/schedule_clock.go\<close>), with the error texts as constructors.

  \<open>CronPanic\<close> is a run-time panic: Go stops the program at a shift by a negative count, which the
  loop of \<open>expandCronItem\<close> reaches when its counter passes the 64-bit range. The counter's wrap is
  written out; the bit sets are 64-bit words.
\<close>

unbundle bit_operations_syntax

section \<open>The check at parse\<close>

datatype CronError = CronFieldCount | CronStep string | CronAmbiguousStep string | CronNotNumber string
  | CronOutside int int int | CronBackwards string | CronPanic

type_synonym cron_bounds = "int \<times> int"

definition cronFields :: "cron_bounds list" where
  "cronFields = [(0, 59), (0, 23), (1, 31), (1, 12), (0, 7)]"

definition cronNumber :: "string \<Rightarrow> int \<Rightarrow> int \<Rightarrow> CronError + int" where
  "cronNumber s lo hi =
     (case atoi s of
        None \<Rightarrow> Inl (CronNotNumber s)
      | Some n \<Rightarrow> if n < lo \<or> hi < n then Inl (CronOutside n lo hi) else Inr n)"

definition check_step :: "string \<Rightarrow> string \<Rightarrow> string \<Rightarrow> CronError option" where
  "check_step item base step =
     (case atoi step of
        None \<Rightarrow> Some (CronStep step)
      | Some n \<Rightarrow> if n < 1 then Some (CronStep step)
                  else if base \<noteq> ''*'' \<and> CHR ''-'' \<notin> set base then Some (CronAmbiguousStep item) else None)"

definition check_base :: "string \<Rightarrow> int \<Rightarrow> int \<Rightarrow> CronError option" where
  "check_base base lo hi =
     (if base = ''*'' then None
      else case cut CHR ''-'' base of (lower, to, isRange) \<Rightarrow>
        (case cronNumber lower lo hi of
           Inl e \<Rightarrow> Some e
         | Inr a \<Rightarrow>
             if \<not> isRange then None
             else case cronNumber to lo hi of
               Inl e \<Rightarrow> Some e
             | Inr b \<Rightarrow> if b < a then Some (CronBackwards base) else None))"

text \<open>\<open>None\<close> accepts the item.\<close>

definition checkCronItem :: "string \<Rightarrow> int \<Rightarrow> int \<Rightarrow> CronError option" where
  "checkCronItem item lo hi =
     (case cut CHR ''/'' item of (base, step, hasStep) \<Rightarrow>
        (case (if hasStep then check_step item base step else None) of
           Some e \<Rightarrow> Some e
         | None \<Rightarrow> check_base base lo hi))"

fun first_error :: "('a \<Rightarrow> CronError option) \<Rightarrow> 'a list \<Rightarrow> CronError option" where
  "first_error f [] = None"
| "first_error f (x # xs) = (case f x of Some e \<Rightarrow> Some e | None \<Rightarrow> first_error f xs)"

definition checkCronField :: "string \<times> cron_bounds \<Rightarrow> CronError option" where
  "checkCronField fb = (case fb of (f, lo, hi) \<Rightarrow>
     first_error (\<lambda>item. checkCronItem item lo hi) (split_on CHR '','' f))"

definition parseCron :: "string \<Rightarrow> CronError + string list" where
  "parseCron expr =
     (let fs = str_fields expr
      in if length fs \<noteq> length cronFields then Inl CronFieldCount
         else case first_error checkCronField (zip fs cronFields) of
           Some e \<Rightarrow> Inl e
         | None \<Rightarrow> Inr fs)"

section \<open>Compilation\<close>

record cronSpec =
  cs_minute :: "64 word"
  cs_hour :: "64 word"
  cs_dom :: "64 word"
  cs_month :: "64 word"
  cs_dow :: "64 word"
  cs_domStar :: bool
  cs_dowStar :: bool
  cs_wildcard :: bool

text \<open>
  \<open>for v := from; v <= to; v += step\<close> with \<open>1 << v\<close> in its body: \<open>None\<close> is the panic at a negative
  count. \<open>checkCronItem\<close> leaves only steps from 1 on and \<open>Atoi\<close> only 64-bit values; the last two
  conjuncts of the guard say so.
\<close>

function expand_loop :: "int \<Rightarrow> int \<Rightarrow> int \<Rightarrow> 64 word \<Rightarrow> 64 word option" where
  "expand_loop v hi step acc =
     (if v \<le> hi \<and> 1 \<le> step \<and> step < 2 ^ 63 \<and> hi < 2 ^ 63
      then if v < 0 then None else expand_loop (wrap64 (v + step)) hi step (acc OR push_bit (nat v) 1)
      else Some acc)"
  by pat_completeness auto

termination
proof (relation "measure (\<lambda>(v, hi, step, acc). if v < 0 then 0 else Suc (nat (hi + 1 - v)))")
  fix v hi step :: int and acc :: "64 word"
  assume a: "v \<le> hi \<and> 1 \<le> step \<and> step < 2 ^ 63 \<and> hi < 2 ^ 63" "\<not> v < 0"
  have "wrap64 (v + step) < 0 \<or> wrap64 (v + step) = v + step"
    using a wrap64_small[of "v + step"] wrap64_high[of "v + step"] by (cases "v + step < 2 ^ 63") auto
  with a show "((wrap64 (v + step), hi, step, acc OR push_bit (nat v) 1), (v, hi, step, acc))
      \<in> measure (\<lambda>(v, hi, step, acc). if v < 0 then 0 else Suc (nat (hi + 1 - v)))" by auto
qed simp

declare expand_loop.simps [simp del]

definition atoi_or_zero :: "string \<Rightarrow> int" where
  "atoi_or_zero s = (case atoi s of Some n \<Rightarrow> n | None \<Rightarrow> 0)"

definition item_range :: "string \<Rightarrow> int \<Rightarrow> int \<Rightarrow> int \<times> int \<times> int" where
  "item_range item lo hi =
     (case cut CHR ''/'' item of (base, stepStr, _) \<Rightarrow>
        let step = (if stepStr \<noteq> [] then atoi_or_zero stepStr else 1)
        in if base = ''*'' then (lo, hi, step)
           else case cut CHR ''-'' base of (a, b, isRange) \<Rightarrow>
             (atoi_or_zero a, if isRange then atoi_or_zero b else atoi_or_zero a, step))"

definition expandCronItem :: "string \<Rightarrow> int \<Rightarrow> int \<Rightarrow> 64 word option" where
  "expandCronItem item lo hi = (case item_range item lo hi of (lower, to, step) \<Rightarrow> expand_loop lower to step 0)"

fun compile_items :: "string list \<Rightarrow> int \<Rightarrow> int \<Rightarrow> 64 word \<Rightarrow> 64 word option" where
  "compile_items [] lo hi acc = Some acc"
| "compile_items (item # rest) lo hi acc =
     (case expandCronItem item lo hi of None \<Rightarrow> None | Some w \<Rightarrow> compile_items rest lo hi (acc OR w))"

fun compile_fields :: "(string \<times> cron_bounds) list \<Rightarrow> 64 word list option" where
  "compile_fields [] = Some []"
| "compile_fields ((f, lo, hi) # rest) =
     (case compile_items (split_on CHR '','' f) lo hi 0 of
        None \<Rightarrow> None
      | Some w \<Rightarrow> (case compile_fields rest of None \<Rightarrow> None | Some ws \<Rightarrow> Some (w # ws)))"

definition compileCron :: "string \<Rightarrow> CronError + cronSpec" where
  "compileCron expr =
     (case parseCron expr of
        Inl e \<Rightarrow> Inl e
      | Inr fs \<Rightarrow>
          (case compile_fields (zip fs cronFields) of
             None \<Rightarrow> Inl CronPanic
           | Some bits \<Rightarrow>
               let dow = bits ! 4; dow' = (if dow AND push_bit 7 1 \<noteq> 0 then dow OR 1 else dow)
               in Inr \<lparr>cs_minute = bits ! 0, cs_hour = bits ! 1, cs_dom = bits ! 2, cs_month = bits ! 3, cs_dow = dow',
                       cs_domStar = has_prefix (fs ! 2) ''*'', cs_dowStar = has_prefix (fs ! 4) ''*'',
                       cs_wildcard = (has_prefix (fs ! 0) ''*'' \<or> has_prefix (fs ! 1) ''*'')\<rparr>))"

definition has_bit :: "64 word \<Rightarrow> int \<Rightarrow> bool" where
  "has_bit w n \<longleftrightarrow> w AND push_bit (nat n) 1 \<noteq> 0"

definition matchesDay :: "cronSpec \<Rightarrow> int \<Rightarrow> bool" where
  "matchesDay c d =
     (if \<not> has_bit (cs_month c) (month_of_day d) then False
      else let domOK = has_bit (cs_dom c) (dom_of_day d); dowOK = has_bit (cs_dow c) (weekday_of_day d)
           in if cs_domStar c \<or> cs_dowStar c then domOK \<and> dowOK else domOK \<or> dowOK)"

section \<open>The bits of a compiled item\<close>

lemma has_bit_iff: "has_bit w n \<longleftrightarrow> bit w (nat n)"
  by (simp add: has_bit_def bit_iff_and_push_bit_not_eq_0)


lemma expand_loop_spec:
  assumes "0 \<le> v" "hi < 64" "1 \<le> step" "step + hi < 2 ^ 63"
  shows "\<exists>w. expand_loop v hi step acc = Some w \<and>
    (\<forall>n. bit w n \<longleftrightarrow> bit acc n \<or> (v \<le> int n \<and> int n \<le> hi \<and> step dvd int n - v))"
  using assms
proof (induction v hi step acc rule: expand_loop.induct)
  case (1 v hi step acc)
  show ?case
  proof (cases "v \<le> hi")
    case False
    with 1 show ?thesis by (subst expand_loop.simps) auto
  next
    case True
    have nx: "wrap64 (v + step) = v + step" using 1 True by (intro wrap64_small) auto
    have g: "v \<le> hi \<and> 1 \<le> step \<and> step < 2 ^ 63 \<and> hi < 2 ^ 63" "\<not> v < 0" using 1 True by auto
    from 1(1)[OF g] obtain w where w: "expand_loop (v + step) hi step (acc OR push_bit (nat v) 1) = Some w"
      "\<And>n. bit w n \<longleftrightarrow> bit (acc OR push_bit (nat v) 1) n \<or> (v + step \<le> int n \<and> int n \<le> hi \<and> step dvd int n - (v + step))"
      using 1(2-5) unfolding nx by auto
    have b: "bit (acc OR push_bit (nat v) 1) n \<longleftrightarrow> bit acc n \<or> n = nat v" for n
      using 1(2-5) True by (auto simp: bit_simps)
    have p: "n = nat v \<or> (v + step \<le> int n \<and> int n \<le> hi \<and> step dvd int n - (v + step)) \<longleftrightarrow>
        v \<le> int n \<and> int n \<le> hi \<and> step dvd int n - v" for n
    proof -
      have d: "step dvd int n - (v + step) \<longleftrightarrow> step dvd int n - v" by (metis diff_diff_add dvd_diff_commute dvd_diff_right_iff dvd_refl)
      have "v + step \<le> int n" if "step dvd int n - v" "v \<le> int n" "n \<noteq> nat v"
        using that zdvd_imp_le[of step "int n - v"] 1(2) by (cases "v < int n") auto
      then show ?thesis using d True 1(2,4) by auto
    qed
    show ?thesis
      using w(1) w(2) b p g 1(2) nx by (subst expand_loop.simps) auto
  qed
qed

section \<open>The grammar\<close>

text \<open>An item of the documented grammar, its text, and the values it stands for.\<close>

datatype CronItem = CStar | CStarStep int | CNum int | CRange int int | CRangeStep int int int

fun render_item :: "CronItem \<Rightarrow> string" where
  "render_item CStar = ''*''"
| "render_item (CStarStep s) = ''*/'' @ itoa s"
| "render_item (CNum a) = itoa a"
| "render_item (CRange a b) = itoa a @ ''-'' @ itoa b"
| "render_item (CRangeStep a b s) = itoa a @ ''-'' @ itoa b @ ''/'' @ itoa s"

fun item_ok :: "int \<Rightarrow> int \<Rightarrow> CronItem \<Rightarrow> bool" where
  "item_ok lo hi CStar = True"
| "item_ok lo hi (CStarStep s) = (1 \<le> s \<and> s \<le> 2 ^ 62)"
| "item_ok lo hi (CNum a) = (lo \<le> a \<and> a \<le> hi)"
| "item_ok lo hi (CRange a b) = (lo \<le> a \<and> a \<le> b \<and> b \<le> hi)"
| "item_ok lo hi (CRangeStep a b s) = (lo \<le> a \<and> a \<le> b \<and> b \<le> hi \<and> 1 \<le> s \<and> s \<le> 2 ^ 62)"

fun item_set :: "int \<Rightarrow> int \<Rightarrow> CronItem \<Rightarrow> int set" where
  "item_set lo hi CStar = {lo..hi}"
| "item_set lo hi (CStarStep s) = {v. lo \<le> v \<and> v \<le> hi \<and> s dvd v - lo}"
| "item_set lo hi (CNum a) = {a}"
| "item_set lo hi (CRange a b) = {a..b}"
| "item_set lo hi (CRangeStep a b s) = {v. a \<le> v \<and> v \<le> b \<and> s dvd v - a}"

definition field_set :: "cron_bounds \<Rightarrow> CronItem list \<Rightarrow> int set" where
  "field_set bnd items = (\<Union>x\<in>set items. item_set (fst bnd) (snd bnd) x)"

definition render_field :: "CronItem list \<Rightarrow> string" where
  "render_field items = join '','' (map render_item items)"

definition render_cron :: "CronItem list list \<Rightarrow> string" where
  "render_cron cs = join '' '' (map render_field cs)"

definition field_ok :: "CronItem list \<Rightarrow> cron_bounds \<Rightarrow> bool" where
  "field_ok items bnd \<longleftrightarrow> items \<noteq> [] \<and> list_all (item_ok (fst bnd) (snd bnd)) items"

lemma itoa_digits: "0 \<le> n \<Longrightarrow> list_all is_digit (itoa n)"
  by (simp add: itoa_def nat_digits_all_digits)

lemma itoa_chars: "0 \<le> n \<Longrightarrow> \<not> is_digit c \<Longrightarrow> c \<notin> set (itoa n)"
  using itoa_digits by (auto simp: list_all_iff)

lemma itoa_ne [simp]: "itoa n \<noteq> []"
  by (simp add: itoa_def)

lemma not_digits [simp]: "\<not> is_digit (CHR ''/'')" "\<not> is_digit (CHR ''*'')" "\<not> is_digit (CHR '','')"
  by (simp_all add: is_digit_def)

lemma cut_itoa [simp]:
  "0 \<le> a \<Longrightarrow> cut CHR ''/'' (itoa a) = (itoa a, [], False)"
  "0 \<le> a \<Longrightarrow> cut CHR ''-'' (itoa a) = (itoa a, [], False)"
  "0 \<le> a \<Longrightarrow> cut CHR ''-'' (itoa a @ CHR ''-'' # t) = (itoa a, t, True)"
  by (simp_all add: itoa_chars cut_absent cut_found)

lemma cut_slash_range [simp]:
  assumes "0 \<le> a" "0 \<le> b"
  shows "cut CHR ''/'' (itoa a @ CHR ''-'' # itoa b) = (itoa a @ CHR ''-'' # itoa b, [], False)"
    and "cut CHR ''/'' (itoa a @ CHR ''-'' # itoa b @ CHR ''/'' # t) = (itoa a @ CHR ''-'' # itoa b, t, True)"
proof -
  have "CHR ''/'' \<notin> set (itoa a @ CHR ''-'' # itoa b)" using assms by (simp add: itoa_chars)
  from cut_absent[OF this] cut_found[OF this, of t] show
    "cut CHR ''/'' (itoa a @ CHR ''-'' # itoa b) = (itoa a @ CHR ''-'' # itoa b, [], False)"
    "cut CHR ''/'' (itoa a @ CHR ''-'' # itoa b @ CHR ''/'' # t) = (itoa a @ CHR ''-'' # itoa b, t, True)"
    by simp_all
qed

lemma itoa_not_star [simp]: "0 \<le> a \<Longrightarrow> itoa a \<noteq> ''*''" "0 \<le> a \<Longrightarrow> itoa a @ t \<noteq> ''*''"
  using itoa_chars[of a "CHR ''*''"] by (auto simp: append_eq_Cons_conv)

lemma item_text:
  assumes "item_ok lo hi x" and "0 \<le> lo" and "hi < 64"
  shows "checkCronItem (render_item x) lo hi = None"
    and "\<exists>a b s. item_range (render_item x) lo hi = (a, b, s) \<and> 0 \<le> a \<and> b < 64 \<and> 1 \<le> s \<and> s \<le> 2 ^ 62 \<and>
           item_set lo hi x = {v. a \<le> v \<and> v \<le> b \<and> s dvd v - a}"
  using assms
  by (cases x; force simp: checkCronItem_def check_base_def check_step_def cronNumber_def atoi_itoa item_range_def
      atoi_or_zero_def Let_def)+


lemma split_on_join:
  assumes "xs \<noteq> []" and "\<forall>x\<in>set xs. c \<notin> set x"
  shows "split_on c (join [c] xs) = xs"
  using assms
proof (induction "[c]" xs rule: join.induct)
  case (3 x y ys)
  have "split_on c (x @ c # t) = x # split_on c t" if "c \<notin> set x" for t
    using that by (induction x) auto
  with 3 show ?case by simp
qed (simp_all add: split_on_absent)

lemma fields_acc_word: "\<forall>c\<in>set x. \<not> is_space c \<Longrightarrow> fields_acc acc (x @ t) = fields_acc (acc @ x) t"
  by (induction x arbitrary: acc) auto

lemma str_fields_join:
  assumes "\<forall>x\<in>set xs. x \<noteq> [] \<and> (\<forall>c\<in>set x. \<not> is_space c)"
  shows "str_fields (join '' '' xs) = xs"
  using assms unfolding str_fields_def
proof (induction "'' ''" xs rule: join.induct)
  case (2 x)
  then show ?case using fields_acc_word[of x "[]" "[]"] by auto
next
  case (3 x y ys)
  then show ?case using fields_acc_word[of x "[]" "'' '' @ join '' '' (y # ys)"] by (auto simp: is_space_def)
qed simp

lemma render_item_chars:
  assumes "item_ok lo hi x" and "0 \<le> lo"
  shows "render_item x \<noteq> []" and "CHR '','' \<notin> set (render_item x)" and "\<forall>c\<in>set (render_item x). \<not> is_space c"
proof -
  have d: "\<not> is_space c" if "c \<in> set (itoa n)" "0 \<le> n" for c n
    using itoa_digits[OF that(2)] that(1) by (auto simp: list_all_iff is_digit_def is_space_def)
  have s: "\<not> is_space (CHR ''*'')" "\<not> is_space (CHR ''-'')" "\<not> is_space (CHR ''/'')" by (simp_all add: is_space_def)
  show "render_item x \<noteq> []" "CHR '','' \<notin> set (render_item x)" "\<forall>c\<in>set (render_item x). \<not> is_space c"
    using assms d s by (cases x; auto simp: itoa_chars)+
qed

lemma join_chars: "c \<in> set (join sep xs) \<Longrightarrow> c \<in> set sep \<or> (\<exists>x\<in>set xs. c \<in> set x)"
  by (induction sep xs rule: join.induct) auto

lemma join_ne: "xs \<noteq> [] \<Longrightarrow> \<forall>x\<in>set xs. x \<noteq> [] \<Longrightarrow> join sep xs \<noteq> []"
  by (induction sep xs rule: join.induct) auto

lemma render_field_facts:
  assumes "field_ok items bnd" and "0 \<le> fst bnd"
  shows "split_on CHR '','' (render_field items) = map render_item items"
    and "render_field items \<noteq> []" and "\<forall>c\<in>set (render_field items). \<not> is_space c"
proof -
  note r = render_item_chars[of "fst bnd" "snd bnd", OF _ assms(2)]
  have ok: "x \<in> set items \<Longrightarrow> item_ok (fst bnd) (snd bnd) x" for x
    using assms(1) by (auto simp: field_ok_def list_all_iff)
  have ne: "map render_item items \<noteq> []" using assms(1) by (simp add: field_ok_def)
  show "split_on CHR '','' (render_field items) = map render_item items"
    unfolding render_field_def using ne ok r(2) by (intro split_on_join) auto
  show "render_field items \<noteq> []"
    unfolding render_field_def using ne ok r(1) by (intro join_ne) auto
  show "\<forall>c\<in>set (render_field items). \<not> is_space c"
  proof
    fix c assume "c \<in> set (render_field items)"
    then consider "c = CHR '',''" | x where "x \<in> set items" "c \<in> set (render_item x)"
      unfolding render_field_def using join_chars by fastforce
    then show "\<not> is_space c" by cases (use ok r(3) in \<open>auto simp: is_space_def\<close>)
  qed
qed

lemma compile_items_spec:
  assumes "list_all (item_ok lo hi) items" and "0 \<le> lo" and "hi < 64"
  shows "\<exists>w. compile_items (map render_item items) lo hi acc = Some w \<and>
    (\<forall>n. bit w n \<longleftrightarrow> bit acc n \<or> int n \<in> field_set (lo, hi) items)"
  using assms(1)
proof (induction items arbitrary: acc)
  case (Cons x items)
  from item_text(2)[of lo hi x] Cons.prems assms obtain a b s where r: "item_range (render_item x) lo hi = (a, b, s)"
    "0 \<le> a" "b < 64" "1 \<le> s" "s \<le> 2 ^ 62" "item_set lo hi x = {v. a \<le> v \<and> v \<le> b \<and> s dvd v - a}" by auto
  from expand_loop_spec[of a b s 0] r obtain w where w: "expandCronItem (render_item x) lo hi = Some w"
    "\<And>n. bit w n \<longleftrightarrow> int n \<in> item_set lo hi x" by (auto simp: expandCronItem_def)
  from Cons.IH[of "acc OR w"] Cons.prems obtain w' where
    "compile_items (map render_item items) lo hi (acc OR w) = Some w'"
    "\<And>n. bit w' n \<longleftrightarrow> bit (acc OR w) n \<or> int n \<in> field_set (lo, hi) items" by auto
  with w show ?case by (auto simp: field_set_def bit_simps)
qed (simp add: field_set_def)

definition bounds_ok :: "cron_bounds \<Rightarrow> bool" where
  "bounds_ok bnd \<longleftrightarrow> 0 \<le> fst bnd \<and> snd bnd < 64"

lemma compile_fields_spec:
  assumes "list_all2 field_ok cs bnds" and "list_all bounds_ok bnds"
  shows "\<exists>ws. compile_fields (zip (map render_field cs) bnds) = Some ws \<and>
    list_all2 (\<lambda>w (items, bnd). \<forall>n. bit w n \<longleftrightarrow> int n \<in> field_set bnd items) ws (zip cs bnds)"
  using assms
proof (induction cs bnds rule: list_all2_induct)
  case (Cons items cs bnd bnds)
  obtain lo hi where bnd: "bnd = (lo, hi)" by fastforce
  from Cons compile_items_spec[of lo hi items 0] render_field_facts(1)[of items bnd] bnd
  obtain w where "compile_items (split_on CHR '','' (render_field items)) lo hi 0 = Some w"
    "\<And>n. bit w n \<longleftrightarrow> int n \<in> field_set bnd items"
    by (auto simp: field_ok_def bounds_ok_def)
  with Cons bnd show ?case by auto
qed simp

lemma first_error_None: "first_error f xs = None \<longleftrightarrow> (\<forall>x\<in>set xs. f x = None)"
  by (induction xs) (auto split: option.splits)

lemma parse_render:
  assumes "list_all2 field_ok cs cronFields"
  shows "parseCron (render_cron cs) = Inr (map render_field cs)"
proof -
  have b: "list_all bounds_ok cronFields" by (simp add: cronFields_def bounds_ok_def)
  have ok: "field_ok items bnd \<and> bounds_ok bnd" if "(items, bnd) \<in> set (zip cs cronFields)" for items bnd
    using assms b that by (auto simp: list_all2_iff list_all_iff dest: set_zip_rightD)
  have fs: "str_fields (render_cron cs) = map render_field cs"
    unfolding render_cron_def
  proof (rule str_fields_join, rule ballI)
    fix f assume "f \<in> set (map render_field cs)"
    then obtain items where i: "items \<in> set cs" "f = render_field items" by auto
    then obtain bnd where "(items, bnd) \<in> set (zip cs cronFields)"
      using assms by (metis in_set_impl_in_set_zip1 list_all2_lengthD)
    then show "f \<noteq> [] \<and> (\<forall>c\<in>set f. \<not> is_space c)"
      using ok render_field_facts(2,3)[of items bnd] i by (auto simp: bounds_ok_def)
  qed
  have "first_error checkCronField (zip (map render_field cs) cronFields) = None"
    unfolding first_error_None
  proof safe
    fix f lo hi assume "(f, lo, hi) \<in> set (zip (map render_field cs) cronFields)"
    then obtain items where i: "(items, lo, hi) \<in> set (zip cs cronFields)" "f = render_field items"
      by (auto simp: zip_map1)
    then show "checkCronField (f, lo, hi) = None"
      using ok[OF i(1)] render_field_facts(1)[of items "(lo, hi)"] item_text(1)[of lo hi]
      by (auto simp: checkCronField_def first_error_None field_ok_def bounds_ok_def list_all_iff)
  qed
  with fs assms show ?thesis by (simp add: parseCron_def list_all2_lengthD[symmetric])
qed

section \<open>What a compiled expression means\<close>

lemma star_field: "field_ok items bnd \<Longrightarrow> 0 \<le> fst bnd \<Longrightarrow>
    has_prefix (render_field items) ''*'' \<longleftrightarrow> (hd items = CStar \<or> (\<exists>s. hd items = CStarStep s))"
proof -
  assume ok: "field_ok items bnd" "0 \<le> fst bnd"
  then obtain x xs where i: "items = x # xs" "item_ok (fst bnd) (snd bnd) x" by (cases items) (auto simp: field_ok_def)
  obtain t where t: "render_field items = render_item x @ t"
    unfolding render_field_def i(1) by (cases xs) auto
  have h: "hd (itoa n) \<noteq> CHR ''*''" if "0 \<le> n" for n
    using itoa_chars[OF that, of "CHR ''*''"] by (metis hd_in_set itoa_ne not_digits(2))
  have "has_prefix (render_field items) ''*'' \<longleftrightarrow> hd (render_item x) = CHR ''*''"
    using render_item_chars(1)[OF i(2) ok(2)] t by (cases "render_item x") (auto simp: has_prefix_def)
  also have "\<dots> \<longleftrightarrow> x = CStar \<or> (\<exists>s. x = CStarStep s)"
    using h i(2) ok(2) by (cases x) auto
  finally show ?thesis by (simp add: i(1))
qed

lemma compile_render:
  assumes "list_all2 field_ok [mins, hours, doms, months, dows] cronFields"
  shows "\<exists>spec. compileCron (render_cron [mins, hours, doms, months, dows]) = Inr spec \<and>
    (\<forall>n. (bit (cs_minute spec) n \<longleftrightarrow> int n \<in> field_set (0, 59) mins) \<and>
         (bit (cs_hour spec) n \<longleftrightarrow> int n \<in> field_set (0, 23) hours) \<and>
         (bit (cs_dom spec) n \<longleftrightarrow> int n \<in> field_set (1, 31) doms) \<and>
         (bit (cs_month spec) n \<longleftrightarrow> int n \<in> field_set (1, 12) months) \<and>
         (bit (cs_dow spec) n \<longleftrightarrow> int n \<in> field_set (0, 7) dows \<or> n = 0 \<and> 7 \<in> field_set (0, 7) dows)) \<and>
    (cs_domStar spec \<longleftrightarrow> hd doms = CStar \<or> (\<exists>s. hd doms = CStarStep s)) \<and>
    (cs_dowStar spec \<longleftrightarrow> hd dows = CStar \<or> (\<exists>s. hd dows = CStarStep s))"
proof -
  have b: "list_all bounds_ok cronFields" by (simp add: cronFields_def bounds_ok_def)
  from compile_fields_spec[OF assms b] obtain ws where
    ws: "compile_fields (zip (map render_field [mins, hours, doms, months, dows]) cronFields) = Some ws"
    "list_all2 (\<lambda>w (items, bnd). \<forall>n. bit w n \<longleftrightarrow> int n \<in> field_set bnd items) ws (zip [mins, hours, doms, months, dows] cronFields)"
    by blast
  obtain w0 w1 w2 w3 w4 where w: "ws = [w0, w1, w2, w3, w4]"
    using list_all2_lengthD[OF ws(2)] by (auto simp: cronFields_def length_Suc_conv)
  have ok: "field_ok doms (1, 31)" "field_ok dows (0, 7)" using assms by (simp_all add: cronFields_def)
  have seven: "w4 AND push_bit 7 1 \<noteq> 0 \<longleftrightarrow> bit w4 7" by (simp add: bit_iff_and_push_bit_not_eq_0)
  let ?dow = "if bit w4 7 then w4 OR 1 else w4"
  have c: "\<exists>wild. compileCron (render_cron [mins, hours, doms, months, dows]) = Inr
      \<lparr>cs_minute = w0, cs_hour = w1, cs_dom = w2, cs_month = w3, cs_dow = ?dow,
       cs_domStar = has_prefix (render_field doms) ''*'', cs_dowStar = has_prefix (render_field dows) ''*'', cs_wildcard = wild\<rparr>"
    unfolding compileCron_def parse_render[OF assms] sum.case ws(1) option.case w Let_def using seven by simp
  have "bit ?dow n \<longleftrightarrow> int n \<in> field_set (0, 7) dows \<or> n = 0 \<and> 7 \<in> field_set (0, 7) dows" for n
  proof -
    have "bit w4 m \<longleftrightarrow> int m \<in> field_set (0, 7) dows" for m using ws(2) by (simp add: w cronFields_def)
    from this[of 7] this[of n] show ?thesis by (auto simp: bit_simps)
  qed
  with c ws(2) star_field[OF ok(1)] star_field[OF ok(2)] show ?thesis by (fastforce simp: w cronFields_def)
qed

text \<open>
  C34. A cron expression means what the grammar says: the compiler accepts the text of every
  expression of the grammar whose numbers are inside their fields, and a bit of the compiled minute,
  hour, day-of-month and month sets is on exactly for the values the field's items stand for; on
  day-of-week 7 is also 0. The two day fields count as unrestricted exactly when they start with a
  star.
\<close>

theorem compileCron_denotes:
  assumes "list_all2 field_ok [mins, hours, doms, months, dows] cronFields"
  shows "\<exists>spec. compileCron (render_cron [mins, hours, doms, months, dows]) = Inr spec \<and>
    (\<forall>n. (bit (cs_minute spec) n \<longleftrightarrow> int n \<in> field_set (0, 59) mins) \<and>
         (bit (cs_hour spec) n \<longleftrightarrow> int n \<in> field_set (0, 23) hours) \<and>
         (bit (cs_dom spec) n \<longleftrightarrow> int n \<in> field_set (1, 31) doms) \<and>
         (bit (cs_month spec) n \<longleftrightarrow> int n \<in> field_set (1, 12) months) \<and>
         (bit (cs_dow spec) n \<longleftrightarrow> int n \<in> field_set (0, 7) dows \<or> n = 0 \<and> 7 \<in> field_set (0, 7) dows)) \<and>
    (cs_domStar spec \<longleftrightarrow> hd doms = CStar \<or> (\<exists>s. hd doms = CStarStep s)) \<and>
    (cs_dowStar spec \<longleftrightarrow> hd dows = CStar \<or> (\<exists>s. hd dows = CStarStep s))"
  by (rule compile_render[OF assms])

theorem compileCron_denotes_witness:
  "\<exists>spec. compileCron ''*/15 9-17 * * 1-5'' = Inr spec \<and> bit (cs_hour spec) 12 \<and> cs_domStar spec"
proof -
  let ?c = "[[CStarStep 15], [CRange 9 17], [CStar], [CStar], [CRange 1 5]]"
  have d: "itoa 15 = ''15''" "itoa 9 = ''9''" "itoa 17 = ''17''" "itoa 1 = ''1''" "itoa 5 = ''5''"
    by (code_simp+)
  have "render_cron ?c = ''*/15 9-17 * * 1-5''" by (simp add: render_cron_def render_field_def d)
  then show ?thesis
    using compileCron_denotes[of "[CStarStep 15]" "[CRange 9 17]" "[CStar]" "[CStar]" "[CRange 1 5]"]
    by (auto simp: field_ok_def cronFields_def field_set_def)
qed

section \<open>The step that panics\<close>

text \<open>
  C37. The compiler can panic on an expression the parser accepts: a day-of-month step of 2^63-1
  passes \<open>parseCron\<close>, and the loop of \<open>expandCronItem\<close> then wraps its counter to a negative shift
  count. No step up to 2^62 can do that.
\<close>

theorem compileCron_panics:
  "parseCron ''0 0 */9223372036854775807 * *'' = Inr [''0'', ''0'', ''*/9223372036854775807'', ''*'', ''*''] \<and>
   compileCron ''0 0 */9223372036854775807 * *'' = Inl CronPanic"
proof
  have a: "atoi ''9223372036854775807'' = Some 9223372036854775807" "atoi ''0'' = Some 0"
    by (simp_all add: atoi_def is_digit_def digits_val_def digit_val_def)
  have sp: "str_fields ''0 0 */9223372036854775807 * *'' = [''0'', ''0'', ''*/9223372036854775807'', ''*'', ''*'']"
    by (simp add: str_fields_def is_space_def)
  show p: "parseCron ''0 0 */9223372036854775807 * *'' = Inr [''0'', ''0'', ''*/9223372036854775807'', ''*'', ''*'']"
    by (simp add: parseCron_def sp cronFields_def checkCronField_def checkCronItem_def check_step_def check_base_def
        cronNumber_def a)
  have "expand_loop 1 31 9223372036854775807 0 = None"
    by (subst expand_loop.simps, simp add: wrap64_def, subst expand_loop.simps, simp)
  then have "expandCronItem ''*/9223372036854775807'' 1 31 = None"
    by (simp add: expandCronItem_def item_range_def atoi_or_zero_def a)
  moreover have "\<exists>w. compile_items [''0''] lo hi 0 = Some w" for lo hi :: int
    using expand_loop_spec[of 0 0 1 0] by (auto simp: expandCronItem_def item_range_def atoi_or_zero_def a)
  ultimately show "compileCron ''0 0 */9223372036854775807 * *'' = Inl CronPanic"
    by (auto simp: compileCron_def p cronFields_def split: option.splits)
qed

end
