(* ===== verification/Next_Firing.thy ===== *)
theory Next_Firing
  imports Cron
begin

text \<open>
  The schedule clock of \<open>internal/api/schedule_clock.go\<close>: the firing instants of a calendar day in a
  zone, the next firing after an instant (\<open>NextFiring\<close>) and the recovery walk over a sleep
  (\<open>CatchUp\<close>), with the zone lookup of \<open>schedule.go\<close>.

  The zone database is the operating system's and a parameter: \<open>tzdb name\<close> is what
  \<open>time.LoadLocation\<close> returns, \<open>None\<close> an error. \<open>time.Date\<close> in a zone reads the offset as Go does: at
  the wall time taken as UTC, then at the instant that offset gives.
\<close>

type_synonym zone_db = "string \<Rightarrow> Location option"

datatype ScheduleError = ErrZone string | ErrCron CronError | ErrNoFiring

definition parseFixedOffset :: "string \<Rightarrow> int option" where
  "parseFixedOffset s =
     (if length s \<noteq> 6 \<or> s ! 3 \<noteq> CHR '':'' then None
      else case (atoi (take 2 (drop 1 s)), atoi (take 2 (drop 4 s))) of
        (Some h, Some m) \<Rightarrow>
          if 14 < h \<or> 59 < m then None
          else Some (if s ! 0 = CHR ''-'' then - (h * 3600 + m * 60) else h * 3600 + m * 60)
      | _ \<Rightarrow> None)"

definition loadScheduleZone :: "zone_db \<Rightarrow> string \<Rightarrow> ScheduleError + Location" where
  "loadScheduleZone tzdb tz =
     (if tz = ''Local'' then Inl (ErrZone tz)
      else if has_prefix tz ''+'' \<or> has_prefix tz ''-''
      then case parseFixedOffset tz of None \<Rightarrow> Inl (ErrZone tz) | Some secs \<Rightarrow> Inr (FixedZone secs)
      else case tzdb tz of None \<Rightarrow> Inl (ErrZone tz) | Some loc \<Rightarrow> Inr loc)"

section \<open>The firings of a day\<close>

definition localDate :: "Location \<Rightarrow> time \<Rightarrow> int" where
  "localDate loc t = day_number (wall_clock loc t)"

definition zoneOffsetsNear :: "time \<Rightarrow> Location \<Rightarrow> int list" where
  "zoneOffsetsNear w loc =
     foldl (\<lambda>offs p. let off = loc (w + p) in if off \<in> set offs then offs else offs @ [off]) []
       [- 26 * hour, - 14 * hour, 0, 14 * hour, 26 * hour]"

definition wallInstants :: "int \<Rightarrow> int \<Rightarrow> int \<Rightarrow> Location \<Rightarrow> time list" where
  "wallInstants dn h mi loc =
     (let w = utc_wall dn h mi
      in sort (filter (\<lambda>u. let l = wall_clock loc u in day_number l = dn \<and> hour_of l = h \<and> minute_of l = mi)
           (map (\<lambda>off. w - off * second) (zoneOffsetsNear w loc))))"

text \<open>The binary search for the moment the offset changes.\<close>

function gap_search :: "Location \<Rightarrow> int \<Rightarrow> time \<Rightarrow> time \<Rightarrow> time" where
  "gap_search loc lowOff lo hi =
     (if second < hi - lo
      then let mid = lo + (hi - lo) div 2
           in if loc mid = lowOff then gap_search loc lowOff mid hi else gap_search loc lowOff lo mid
      else hi)"
  by pat_completeness auto

termination
  by (relation "measure (\<lambda>(loc, lowOff, lo, hi). nat (hi - lo))") (auto simp: second_def)

declare gap_search.simps [simp del]

definition gapEnd :: "int \<Rightarrow> int \<Rightarrow> int \<Rightarrow> Location \<Rightarrow> time" where
  "gapEnd dn h mi loc =
     (let w = utc_wall dn h mi; offs = zoneOffsetsNear w loc;
          lowOff = foldl min (hd offs) offs; highOff = foldl max (hd offs) offs;
          r = gap_search loc lowOff (w - highOff * second) (w - lowOff * second)
      in (r div second) * second)"

definition slot_instants :: "cronSpec \<Rightarrow> int \<Rightarrow> Location \<Rightarrow> int \<Rightarrow> int \<Rightarrow> time list" where
  "slot_instants c dn loc h m =
     (case wallInstants dn h m loc of
        [] \<Rightarrow> [gapEnd dn h m loc]
      | u # us \<Rightarrow> if cs_wildcard c then u # us else [u])"

definition firingsOn :: "cronSpec \<Rightarrow> int \<Rightarrow> Location \<Rightarrow> time list" where
  "firingsOn c dn loc =
     (if \<not> matchesDay c dn then []
      else remdups_adj (sort (concat (map (\<lambda>h. concat (map (slot_instants c dn loc h)
             (filter (has_bit (cs_minute c)) [0..59]))) (filter (has_bit (cs_hour c)) [0..23])))))"

section \<open>The next firing\<close>

definition maxScheduleScanDays :: nat where "maxScheduleScanDays = 9 * 366"

definition pick_after :: "time \<Rightarrow> time \<Rightarrow> time list \<Rightarrow> time" where
  "pick_after after best ts = foldl (\<lambda>best t. if after < t \<and> (is_zero best \<or> t < best) then t else best) best ts"

definition pick_earlier :: "time \<Rightarrow> time \<Rightarrow> time list \<Rightarrow> time" where
  "pick_earlier after best ts = foldl (\<lambda>best t. if after < t \<and> t < best then t else best) best ts"

fun next_loop :: "cronSpec \<Rightarrow> Location \<Rightarrow> time \<Rightarrow> int \<Rightarrow> nat \<Rightarrow> nat \<Rightarrow> time \<Rightarrow> time option" where
  "next_loop c loc after day i 0 best = None"
| "next_loop c loc after day i (Suc n) best =
     (let best' = pick_after after best (firingsOn c (day + int i) loc)
      in if \<not> is_zero best' \<and> 0 < i
         then Some (pick_earlier after best' (firingsOn c (day + int (i + 1)) loc))
         else next_loop c loc after day (i + 1) n best')"

definition NextFiring :: "zone_db \<Rightarrow> SchedulePolicy \<Rightarrow> time \<Rightarrow> ScheduleError + time" where
  "NextFiring tzdb p after =
     (case loadScheduleZone tzdb (sp_Timezone p) of
        Inl e \<Rightarrow> Inl e
      | Inr loc \<Rightarrow>
          (case compileCron (sp_Cron p) of
             Inl e \<Rightarrow> Inl (ErrCron e)
           | Inr c \<Rightarrow>
               (case next_loop c loc after (localDate loc after - 1) 0 maxScheduleScanDays zero_time of
                  None \<Rightarrow> Inl ErrNoFiring
                | Some t \<Rightarrow> Inr t)))"

section \<open>The recovery walk\<close>

definition OnesCount64 :: "64 word \<Rightarrow> int" where
  "OnesCount64 w = int (length (filter (bit w) [0..<64]))"

text \<open>\<open>time.Date(\<dots>, loc)\<close> for a wall time.\<close>

definition date_in :: "Location \<Rightarrow> time \<Rightarrow> time" where
  "date_in loc w = w - loc (w - loc w * second) * second"

definition offsetChangesOn :: "int \<Rightarrow> Location \<Rightarrow> bool" where
  "offsetChangesOn dn loc =
     (let start = loc (date_in loc (utc_wall dn 0 0)); noon = loc (date_in loc (utc_wall dn 12 0));
          fin = loc (date_in loc (utc_wall (dn + 1) 0 0))
      in start \<noteq> noon \<or> noon \<noteq> fin)"

text \<open>One day of the walk: the count so far and the last day that had a firing (0 for none).\<close>

definition catch_day :: "cronSpec \<Rightarrow> Location \<Rightarrow> time \<Rightarrow> time \<Rightarrow> int \<Rightarrow> int \<Rightarrow> int \<Rightarrow> int \<times> int \<Rightarrow> int \<times> int" where
  "catch_day c loc after now first lst d st =
     (case st of (missed, lastDay) \<Rightarrow>
        if \<not> matchesDay c d then (missed, lastDay)
        else if d \<noteq> first \<and> d \<noteq> lst \<and> \<not> offsetChangesOn d loc
        then (missed + OnesCount64 (cs_hour c) * OnesCount64 (cs_minute c), d)
        else foldl (\<lambda>(missed, lastDay) t. if after < t \<and> t \<le> now then (missed + 1, d) else (missed, lastDay))
               (missed, lastDay) (firingsOn c d loc))"

definition CatchUp :: "zone_db \<Rightarrow> SchedulePolicy \<Rightarrow> time \<Rightarrow> time \<Rightarrow> ScheduleError + time \<times> int" where
  "CatchUp tzdb p after now =
     (if now \<le> after then Inr (after, 0)
      else case loadScheduleZone tzdb (sp_Timezone p) of
        Inl e \<Rightarrow> Inl e
      | Inr loc \<Rightarrow>
          (case compileCron (sp_Cron p) of
             Inl e \<Rightarrow> Inl (ErrCron e)
           | Inr c \<Rightarrow>
               let first = localDate loc after; lst = localDate loc now;
                   (missed, lastDay) = foldl (\<lambda>st d. catch_day c loc after now first lst d st) (0, 0) [first..lst];
                   newest = (if is_zero lastDay then after
                             else foldl (\<lambda>newest t. if after < t \<and> t \<le> now \<and> newest < t then t else newest) after
                                    (firingsOn c lastDay loc))
               in Inr (newest, missed)))"

text \<open>\<open>FiringID\<close>.\<close>

definition FiringID :: "time \<Rightarrow> string" where
  "FiringID due = compact_stamp due"

section \<open>Bounds that hold in every zone\<close>

lemma pick_after_spec:
  assumes "0 \<le> after" and "best = 0 \<or> after < best"
  shows "pick_after after best ts = 0 \<or> after < pick_after after best ts"
  using assms(2)
  by (induction ts arbitrary: best) (use assms(1) in \<open>auto simp: pick_after_def is_zero_def\<close>)

lemma pick_earlier_bounds:
  assumes "after < best"
  shows "after < pick_earlier after best ts" "pick_earlier after best ts \<le> best"
  using assms by (induction ts arbitrary: best) (fastforce simp: pick_earlier_def)+

lemma next_loop_after:
  assumes "next_loop c loc after day i n best = Some t" and "0 \<le> after" and "best = 0 \<or> after < best"
  shows "after < t"
  using assms
proof (induction n arbitrary: i best)
  case (Suc n)
  let ?b = "pick_after after best (firingsOn c (day + int i) loc)"
  have b: "?b = 0 \<or> after < ?b" using pick_after_spec[OF Suc.prems(2,3)] .
  show ?case
  proof (cases "\<not> is_zero ?b \<and> 0 < i")
    case True
    with Suc.prems(1) b pick_earlier_bounds(1) show ?thesis by (auto simp: Let_def is_zero_def)
  next
    case False
    with Suc.prems(1) Suc.IH[OF _ Suc.prems(2) b] show ?thesis by (simp add: Let_def)
  qed
qed simp

lemma NextFiring_after: "NextFiring tzdb p after = Inr t \<Longrightarrow> 0 \<le> after \<Longrightarrow> after < t"
  using next_loop_after by (auto simp: NextFiring_def split: sum.splits option.splits)

lemma newest_fold_bounds:
  assumes "after \<le> nw" and "nw \<le> now"
  shows "after \<le> foldl (\<lambda>newest t. if after < t \<and> t \<le> now \<and> newest < t then t else newest) nw ts \<and>
         foldl (\<lambda>newest t. if after < t \<and> t \<le> now \<and> newest < t then t else newest) nw ts \<le> (now::int)"
  using assms by (induction ts arbitrary: nw) auto

lemma CatchUp_bounds:
  assumes "CatchUp tzdb p after now = Inr (newest, missed)"
  shows "after \<le> newest" and "after \<le> now \<Longrightarrow> newest \<le> now"
proof -
  consider "now \<le> after" "newest = after"
    | "after < now" "\<exists>ts. newest = after \<or> newest = foldl (\<lambda>newest t. if after < t \<and> t \<le> now \<and> newest < t then t else newest) after ts"
    using assms by (auto simp: CatchUp_def Let_def split: if_splits sum.splits prod.splits)
  then show "after \<le> newest" "after \<le> now \<Longrightarrow> newest \<le> now"
    using newest_fold_bounds[of after after now] by (cases; auto)+
qed


section \<open>Fixed offsets\<close>

text \<open>When a schedule fires, said of the zone's wall clock: it reads a whole minute that the day, hour
  and minute fields admit.\<close>

definition fires_at :: "cronSpec \<Rightarrow> Location \<Rightarrow> time \<Rightarrow> bool" where
  "fires_at c loc t \<longleftrightarrow>
     (let w = wall_clock loc t
      in w mod minute = 0 \<and> matchesDay c (day_number w) \<and> has_bit (cs_hour c) (hour_of w) \<and>
         has_bit (cs_minute c) (minute_of w))"

lemma wall_clock_fixed: "wall_clock (FixedZone off) t = t + off * second"
  by (simp add: wall_clock_def FixedZone_def)

lemma localDate_mono: "localDate (FixedZone off) a < localDate (FixedZone off) b \<Longrightarrow> a < b"
proof (rule ccontr)
  assume "localDate (FixedZone off) a < localDate (FixedZone off) b" "\<not> a < b"
  then show False
    using zdiv_mono1[of "b + off * second" "a + off * second" day_ns]
    by (simp add: localDate_def wall_clock_fixed day_number_def)
qed

lemma zoneOffsetsNear_fixed [simp]: "zoneOffsetsNear w (FixedZone off) = [off]"
  by (simp add: zoneOffsetsNear_def FixedZone_def)

lemma slot_instants_fixed:
  assumes "0 \<le> h" "h < 24" "0 \<le> m" "m < 60"
  shows "slot_instants c dn (FixedZone off) h m = [utc_wall dn h m - off * second]"
  using utc_wall_parts[OF assms, of dn] by (simp add: slot_instants_def wallInstants_def wall_clock_fixed Let_def)

lemma sorted_wrt_concat:
  assumes "sorted_wrt (\<lambda>x y. \<forall>a\<in>set (f x). \<forall>b\<in>set (f y). a < b) xs" and "\<And>x. x \<in> set xs \<Longrightarrow> sorted_wrt (<) (f x)"
  shows "sorted_wrt (<) (concat (map f xs))"
  using assms by (induction xs) (auto simp: sorted_wrt_append)

lemma strict_upto: "sorted_wrt (<) (filter P [i..j])" for i j :: int
  by (simp add: strict_sorted_iff sorted_wrt_filter)

definition day_slots :: "cronSpec \<Rightarrow> (int \<times> int) list" where
  "day_slots c = concat (map (\<lambda>h. map (Pair h) (filter (has_bit (cs_minute c)) [0..59])) (filter (has_bit (cs_hour c)) [0..23]))"

lemma firingsOn_fixed:
  "firingsOn c dn (FixedZone off) =
     (if matchesDay c dn then map (\<lambda>(h, m). utc_wall dn h m - off * second) (day_slots c) else [])"
  "sorted_wrt (<) (firingsOn c dn (FixedZone off))"
proof -
  let ?hs = "filter (has_bit (cs_hour c)) [0..23]" and ?ms = "filter (has_bit (cs_minute c)) [0..59]"
  let ?row = "\<lambda>h. map (\<lambda>m. utc_wall dn h m - off * second) ?ms"
  have row: "concat (map (slot_instants c dn (FixedZone off) h) ?ms) = ?row h" if "h \<in> set ?hs" for h
  proof -
    have "map (slot_instants c dn (FixedZone off) h) ?ms = map (\<lambda>m. [utc_wall dn h m - off * second]) ?ms"
      by (rule map_cong) (use that slot_instants_fixed in auto)
    then show ?thesis by (simp only: concat_map_singleton)
  qed
  then have cat: "concat (map (\<lambda>h. concat (map (slot_instants c dn (FixedZone off) h) ?ms)) ?hs) = concat (map ?row ?hs)"
    by (metis (no_types, lifting) map_cong)
  have "sorted_wrt (<) (concat (map ?row ?hs))"
  proof (rule sorted_wrt_concat)
    have lt: "utc_wall dn h m < utc_wall dn h' m'" if "h < h'" "0 \<le> m'" "m \<le> 59" for h h' m m' :: int
      using that by (simp add: utc_wall_def time_simps)
    show "sorted_wrt (\<lambda>x y. \<forall>a\<in>set (?row x). \<forall>b\<in>set (?row y). a < b) ?hs"
      by (rule sorted_wrt_mono_rel[OF _ strict_upto]) (auto intro: lt)
    show "sorted_wrt (<) (?row h)" if "h \<in> set ?hs" for h
      unfolding sorted_wrt_map
      by (rule sorted_wrt_mono_rel[OF _ strict_upto]) (auto simp: utc_wall_def)
  qed
  then have st: "sort (concat (map ?row ?hs)) = concat (map ?row ?hs)" "remdups_adj (concat (map ?row ?hs)) = concat (map ?row ?hs)"
    by (auto simp: strict_sorted_iff sorted_sort_id remdups_adj_distinct)
  have sl: "map (\<lambda>(h, m). utc_wall dn h m - off * second) (day_slots c) = concat (map ?row ?hs)"
    by (simp add: day_slots_def map_concat comp_def)
  show eq: "firingsOn c dn (FixedZone off) =
     (if matchesDay c dn then map (\<lambda>(h, m). utc_wall dn h m - off * second) (day_slots c) else [])"
    by (simp only: firingsOn_def cat st sl if_not_P split: if_split) simp
  show "sorted_wrt (<) (firingsOn c dn (FixedZone off))"
    using \<open>sorted_wrt (<) (concat (map ?row ?hs))\<close> by (simp add: eq sl)
qed

lemma set_firingsOn_fixed:
  "set (firingsOn c dn (FixedZone off)) = {t. fires_at c (FixedZone off) t \<and> localDate (FixedZone off) t = dn}"
proof (intro set_eqI iffI)
  fix t assume "t \<in> set (firingsOn c dn (FixedZone off))"
  then obtain h m where m: "matchesDay c dn" "t = utc_wall dn h m - off * second" "0 \<le> h" "h < 24" "0 \<le> m" "m < 60"
    "has_bit (cs_hour c) h" "has_bit (cs_minute c) m"
    by (auto simp: firingsOn_fixed(1) day_slots_def split: if_splits)
  have "utc_wall dn h m mod minute = 0"
    by (simp add: utc_wall_def day_ns_def hour_def mod_add_eq[symmetric] algebra_simps)
  with m utc_wall_parts[OF m(3-6), of dn]
  show "t \<in> {t. fires_at c (FixedZone off) t \<and> localDate (FixedZone off) t = dn}"
    by (simp add: fires_at_def localDate_def wall_clock_fixed Let_def)
next
  fix t assume "t \<in> {t. fires_at c (FixedZone off) t \<and> localDate (FixedZone off) t = dn}"
  then have f: "fires_at c (FixedZone off) t" "localDate (FixedZone off) t = dn" by auto
  let ?w = "t + off * second"
  have z: "?w mod minute = 0" using f(1) by (simp add: fires_at_def wall_clock_fixed Let_def)
  then have "second dvd ?w" by (metis dvd_trans dvd_triv_right minute_def mod_0_imp_dvd)
  then have "?w mod second = 0" by (rule dvd_imp_mod_0)
  moreover have "second_of ?w = 0" by (simp only: second_of_def z div_0)
  ultimately have "second_of ?w = 0" "?w mod second = 0" by blast+
  with clock_split[of ?w] have "?w = utc_wall dn (hour_of ?w) (minute_of ?w)"
    using f(2) by (simp add: utc_wall_def localDate_def wall_clock_fixed)
  then have "t = utc_wall dn (hour_of ?w) (minute_of ?w) - off * second" by simp
  moreover have "(hour_of ?w, minute_of ?w) \<in> set (day_slots c)"
    using f(1) time_of_day_bounds[of ?w] by (auto simp: day_slots_def fires_at_def wall_clock_fixed Let_def)
  moreover have "matchesDay c dn" using f by (auto simp: fires_at_def localDate_def Let_def)
  ultimately show "t \<in> set (firingsOn c dn (FixedZone off))" by (force simp: firingsOn_fixed(1))
qed

end
