(* ===== verification/Firing.thy ===== *)
theory Firing
  imports Next_Firing Schedule_Status Event_Ring
begin

text \<open>
  The firing of a scheduled role. From \<open>internal/api/schedule_clock.go\<close>: the retry ladder
  (\<open>scheduleRetryBackoff\<close>), the settlement of a finished run (\<open>SettleRun\<close>) and the daylight-saving facts
  (\<open>ScheduleZoneFacts\<close>). From \<open>internal/team/schedule_clock.go\<close>: one step of the schedule clock against
  the stored status (\<open>advanceFiring\<close>, \<open>setNextDue\<close>).

  \<open>jit\<close> is the random draw of \<open>drawJitter\<close> (\<open>rand.N\<close>, or the controller's hook), \<open>live\<close> the keys of the
  role's live sessions, \<open>withheld\<close> the posture's verdict. A clock step is an option: \<open>None\<close> is the panic
  of a cron whose expansion shifts by a negative amount (\<open>Cron\<close>). The wording of the events, and the
  fleet-suspend window that only changes that wording, are left out.
\<close>

section \<open>Settling a run\<close>

definition scheduleRetryBackoffInitial :: duration where "scheduleRetryBackoffInitial = 30 * second"
definition scheduleRetryBackoffMax :: duration where "scheduleRetryBackoffMax = 5 * minute"

fun retry_double :: "nat \<Rightarrow> duration \<Rightarrow> duration" where
  "retry_double 0 d = d"
| "retry_double (Suc n) d = (if d < scheduleRetryBackoffMax then retry_double n (d * 2) else d)"

definition scheduleRetryBackoff :: "int \<Rightarrow> duration" where
  "scheduleRetryBackoff attempt = min (retry_double (nat (attempt - 1)) scheduleRetryBackoffInitial) scheduleRetryBackoffMax"

definition ScheduleOnFailureFreeze :: string where "ScheduleOnFailureFreeze = ''freeze''"
definition ScheduleConcurrencyAllow :: string where "ScheduleConcurrencyAllow = ''allow''"
definition ScheduleConcurrencyReplace :: string where "ScheduleConcurrencyReplace = ''replace''"

definition SettleRun :: "RunRecord \<Rightarrow> SchedulePolicy \<Rightarrow> time \<Rightarrow> ScheduleStatus \<Rightarrow> ScheduleStatus \<times> bool" where
  "SettleRun r p now st =
     (if ss_Firing st = [] \<or> run_Firing r \<noteq> ss_Firing st then (st, False)
      else case run_Outcome r of
        RunCancelled \<Rightarrow> (st\<lparr>ss_Settled := True, ss_RetryAfter := zero_time\<rparr>, False)
      | RunSucceeded \<Rightarrow> (st, False)
      | RunFailed \<Rightarrow>
          (let st1 = st\<lparr>ss_Attempts := ss_Attempts st + 1\<rparr>;
               inDeadline = (sp_StartingDeadline p = 0 \<or> now \<le> ss_FiringDueAt st1 + sp_StartingDeadline p)
           in if ss_Attempts st1 \<le> sp_Retries p \<and> inDeadline \<and> run_ExitStatus r \<noteq> ExitConfig
              then (st1\<lparr>ss_RetryAfter := now + scheduleRetryBackoff (ss_Attempts st1)\<rparr>, False)
              else let st2 = st1\<lparr>ss_Settled := True, ss_RetryAfter := zero_time\<rparr>
                   in if sp_OnFailure p = ScheduleOnFailureFreeze \<and> \<not> ss_Frozen st2
                      then (st2\<lparr>ss_Frozen := True\<rparr>, True) else (st2, False)))"

section \<open>Daylight-saving facts\<close>

text \<open>The lowest and highest offset over the coming year, probed every six hours.\<close>

definition zoneOffsets :: "Location \<Rightarrow> time \<Rightarrow> int \<times> int \<times> bool" where
  "zoneOffsets loc now =
     (let (lower, higher) = foldl (\<lambda>(lo, hi) h. let off = loc (now + int h * hour) in (min lo off, max hi off))
            (loc now, loc now) (map (\<lambda>i. 6 * i) [1..<1465])
      in (lower, higher, lower \<noteq> higher))"

definition formatOffset :: "int \<Rightarrow> string" where
  "formatOffset secs = (if secs < 0 then ''-'' else ''+'') @ pad 2 (\<bar>secs\<bar> div 3600) @ '':'' @ pad 2 (\<bar>secs\<bar> mod 3600 div 60)"

definition ScheduleZoneFacts :: "zone_db \<Rightarrow> string \<Rightarrow> time \<Rightarrow> time \<Rightarrow> string \<times> bool" where
  "ScheduleZoneFacts tzdb tz from_t next_t =
     (case loadScheduleZone tzdb tz of
        Inl _ \<Rightarrow> ([], False)
      | Inr loc \<Rightarrow>
          (if loc from_t \<noteq> loc next_t
           then ''timezone '' @ tz @ '': UTC offset changes from '' @ formatOffset (loc from_t) @ '' to '' @ formatOffset (loc next_t)
           else [],
           snd (snd (zoneOffsets loc from_t))))"

section \<open>One step of the clock\<close>

definition scheduleGrace :: duration where "scheduleGrace = minute"

record clockStep =
  cl_events :: "Event list"
  cl_kill :: "string list"

definition no_step :: clockStep where "no_step = \<lparr>cl_events = [], cl_kill = []\<rparr>"

definition clock_event :: "Team \<Rightarrow> Role \<Rightarrow> EventKind \<Rightarrow> clockStep \<Rightarrow> clockStep" where
  "clock_event t role k step =
     step\<lparr>cl_events := cl_events step @ [\<lparr>ev_Kind = k, ev_Workspace = team_Workspace t, ev_Team = team_Name t,
            ev_Role = role_Name role, ev_Session = []\<rparr>]\<rparr>"

definition drawJitter :: "(duration \<Rightarrow> duration) \<Rightarrow> duration \<Rightarrow> duration" where
  "drawJitter jit limit = (if limit \<le> 0 then 0 else jit limit)"

definition setNextDue :: "zone_db \<Rightarrow> (duration \<Rightarrow> duration) \<Rightarrow> Team \<Rightarrow> Role \<Rightarrow> SchedulePolicy \<Rightarrow> time \<Rightarrow> time \<Rightarrow>
    ScheduleStatus \<times> clockStep \<Rightarrow> ScheduleStatus \<times> clockStep" where
  "setNextDue tzdb jit t role p from_t next_t =
     (\<lambda>(st, step).
        let st' = st\<lparr>ss_NextDueAt := next_t, ss_NextFireAt := next_t + drawJitter jit (sp_Jitter p)\<rparr>;
            (shift, observes) = ScheduleZoneFacts tzdb (sp_Timezone p) from_t next_t;
            step1 = (if shift \<noteq> [] then clock_event t role KindScheduleDSTShift step else step);
            step2 = (if observes \<and> \<not> sp_DSTAck p then clock_event t role KindScheduleDSTUnacknowledged step1 else step1)
        in (st', step2))"

text \<open>What a due firing does once the next due time is set: missed, skipped or started.\<close>

definition start_firing :: "time \<Rightarrow> int \<Rightarrow> duration \<Rightarrow> ScheduleStatus \<Rightarrow> ScheduleStatus" where
  "start_firing newest missed late st =
     st\<lparr>ss_Firing := FiringID newest, ss_FiringDueAt := newest, ss_FiringCatchUp := (0 < missed \<or> scheduleGrace < late),
        ss_FiringMissed := missed, ss_Attempts := 0, ss_RetryAfter := zero_time, ss_Settled := False\<rparr>"

definition due_firing :: "Team \<Rightarrow> Role \<Rightarrow> SchedulePolicy \<Rightarrow> string list \<Rightarrow> bool \<Rightarrow> time \<Rightarrow> int \<Rightarrow> duration \<Rightarrow>
    ScheduleStatus \<Rightarrow> clockStep \<Rightarrow> ScheduleStatus \<times> clockStep" where
  "due_firing t role p live withheld newest missed late st step =
     (let deadline = (if sp_StartingDeadline p = 0 then scheduleGrace else sp_StartingDeadline p)
      in if deadline < late then (st, clock_event t role KindScheduleMissed step)
         else if ss_Frozen st \<or> withheld then (st, clock_event t role KindScheduleSkipped step)
         else if live \<noteq> [] \<and> sp_Concurrency p = ScheduleConcurrencyReplace
         then (start_firing newest missed late st, clock_event t role KindScheduleReplaced (step\<lparr>cl_kill := live\<rparr>))
         else if live \<noteq> [] \<and> sp_Concurrency p \<noteq> ScheduleConcurrencyAllow
         then (st, clock_event t role KindScheduleSkipped step)
         else (start_firing newest missed late st, clock_event t role KindScheduleFired step))"

definition advanceFiring :: "zone_db \<Rightarrow> (duration \<Rightarrow> duration) \<Rightarrow> Team \<Rightarrow> Role \<Rightarrow> SchedulePolicy \<Rightarrow> time \<Rightarrow> string list \<Rightarrow> bool \<Rightarrow>
    ScheduleStatus \<Rightarrow> (ScheduleStatus \<times> bool \<times> clockStep) option" where
  "advanceFiring tzdb jit t role p now live withheld st =
     (if sp_Suspend p
      then if ss_Suspended st then Some (st, False, no_step)
           else Some (st\<lparr>ss_Suspended := True\<rparr>, True, clock_event t role KindScheduleSuspended no_step)
      else
        let changed = ss_Suspended st;
            (st1, step1) = (if changed then (st\<lparr>ss_Suspended := False, ss_SpecKey := []\<rparr>, clock_event t role KindScheduleSuspended no_step)
                            else (st, no_step));
            spec = sp_Cron p @ ''|'' @ sp_Timezone p
        in if ss_SpecKey st1 \<noteq> spec \<or> is_zero (ss_NextDueAt st1)
           then case NextFiring tzdb p now of
                  Inl e \<Rightarrow> if e = ErrCron CronPanic then None else Some (st1, changed, step1)
                | Inr next_t \<Rightarrow>
                    (case setNextDue tzdb jit t role p now next_t (st1\<lparr>ss_SpecKey := spec\<rparr>, step1) of
                       (st2, step2) \<Rightarrow> Some (st2, True, step2))
           else if now < ss_NextFireAt st1 then Some (st1, changed, step1)
           else case CatchUp tzdb p (ss_NextDueAt st1) now of
                  Inl e \<Rightarrow> if e = ErrCron CronPanic then None else Some (st1, changed, step1)
                | Inr (newest, missed) \<Rightarrow>
                    let fireAt = (if missed = 0 then ss_NextFireAt st1 else newest); late = time_sub now fireAt
                    in case NextFiring tzdb p newest of
                         Inl e \<Rightarrow> if e = ErrCron CronPanic then None else Some (st1, changed, step1)
                       | Inr next_t \<Rightarrow>
                           (case setNextDue tzdb jit t role p newest next_t (st1, step1) of
                              (st2, step2) \<Rightarrow>
                                (case due_firing t role p live withheld newest missed late st2 step2 of
                                   (st3, step3) \<Rightarrow> Some (st3, True, step3))))"

end
