(* ===== verification/Admission.thy ===== *)
theory Admission
  imports Resources Calendar
begin

text \<open>
  \<open>internal/admission/admission.go\<close> and the dimension registry of \<open>internal/api/budget.go\<close>: the
  pure verdict every enforcement point shares. \<open>check\<close> follows the Go function statement by
  statement: two guards, the clause list in registry order, the loop over exceeded clauses
  with its early return, the loop over unmeasured ones, and the default deciding dimension.
  Times are rendered in UTC.
\<close>

section \<open>Data\<close>

datatype Shape = ShapeCount | ShapeCumulative | ShapeLevel

datatype Kind = Growth | Repair

datatype Decision = Admit | Refuse | Indeterminate

datatype ClauseState = Within | Exceeded | Unmeasured

definition DimMaxSessions :: string where "DimMaxSessions = ''max_sessions''"
definition DimMaxTokens :: string where "DimMaxTokens = ''max_tokens''"
definition DimMaxCostUSD :: string where "DimMaxCostUSD = ''max_cost_usd''"
definition DimMaxTeamRSSBytes :: string where "DimMaxTeamRSSBytes = ''max_team_rss_bytes''"
definition DimMaxSessionCtxPct :: string where "DimMaxSessionCtxPct = ''max_session_ctx_percent''"

lemmas dimensions = DimMaxSessions_def DimMaxTokens_def DimMaxCostUSD_def DimMaxTeamRSSBytes_def
  DimMaxSessionCtxPct_def

definition TriggerReconcile :: string where "TriggerReconcile = ''reconcile''"
definition TriggerShift :: string where "TriggerShift = ''shift''"

record Snapshot =
  LiveSessions :: int
  DeclaredSessions :: int
  TokensObserved :: int
  TokensMetered :: bool
  TokensPartial :: bool
  TokensSeen :: int
  TokensSuspect :: bool
  Since :: time

record Request =
  req_Role :: string
  Want :: int
  req_Kind :: Kind
  Overlap :: bool
  AllowPartial :: bool

record ClauseResult =
  cr_Dimension :: string
  cr_Shape :: Shape
  cr_State :: ClauseState
  cr_Used :: int
  cr_Limit :: int
  cr_Adds :: int
  cr_Unit :: string
  cr_Note :: string

record Verdict =
  v_Decision :: Decision
  Granted :: int
  v_Want :: int
  v_Role :: string
  Deciding :: string
  Clauses :: "ClauseResult list"
  Window :: time

record Spec =
  spec_Dimension :: string
  spec_Shape :: Shape
  spec_Unit :: string
  spec_Integral :: bool
  spec_Implemented :: bool
  spec_MatrixRow :: int
  spec_Owner :: string

definition budgetSpecs :: "Spec list" where
  "budgetSpecs =
     [\<lparr>spec_Dimension = DimMaxSessions, spec_Shape = ShapeCount, spec_Unit = ''sessions'',
       spec_Integral = True, spec_Implemented = True, spec_MatrixRow = 12, spec_Owner = ''aae-orc-qiay''\<rparr>,
      \<lparr>spec_Dimension = DimMaxTokens, spec_Shape = ShapeCumulative, spec_Unit = ''tokens'',
       spec_Integral = True, spec_Implemented = True, spec_MatrixRow = 2, spec_Owner = ''aae-orc-qiay''\<rparr>,
      \<lparr>spec_Dimension = DimMaxCostUSD, spec_Shape = ShapeCumulative, spec_Unit = ''usd'',
       spec_Integral = False, spec_Implemented = False, spec_MatrixRow = 2, spec_Owner = ''aae-orc-qiay follow-on''\<rparr>,
      \<lparr>spec_Dimension = DimMaxTeamRSSBytes, spec_Shape = ShapeCount, spec_Unit = ''bytes'',
       spec_Integral = True, spec_Implemented = False, spec_MatrixRow = 12, spec_Owner = ''aae-orc-hpeu''\<rparr>,
      \<lparr>spec_Dimension = DimMaxSessionCtxPct, spec_Shape = ShapeLevel, spec_Unit = ''percent'',
       spec_Integral = False, spec_Implemented = False, spec_MatrixRow = 1, spec_Owner = ''aae-orc-hpeu''\<rparr>]"

definition LookupDimension :: "string \<Rightarrow> Spec option" where
  "LookupDimension d = find (\<lambda>s. spec_Dimension s = d) budgetSpecs"

definition DimensionList :: string where
  "DimensionList = join '', '' (sort (map spec_Dimension budgetSpecs))"

text \<open>\<open>Budget.Limit\<close>: \<open>None\<close> for an unset clause or a dimension that is not enforced.\<close>

definition budget_Limit :: "Budget \<Rightarrow> string \<Rightarrow> int option" where
  "budget_Limit b d =
     (if d = DimMaxSessions then (if 0 < MaxSessions b then Some (MaxSessions b) else None)
      else if d = DimMaxTokens then (if 0 < MaxTokens b then Some (MaxTokens b) else None)
      else None)"

section \<open>The clauses\<close>

definition headroom :: "int \<Rightarrow> int \<Rightarrow> int" where
  "headroom limit used = (let h = limit - used in if 0 < h then h else 0)"

definition countClause :: "int \<Rightarrow> Snapshot \<Rightarrow> Request \<Rightarrow> ClauseResult" where
  "countClause limit s r =
     (let res = \<lparr>cr_Dimension = DimMaxSessions, cr_Shape = ShapeCount, cr_State = Within,
                 cr_Used = LiveSessions s, cr_Limit = limit, cr_Adds = Want r,
                 cr_Unit = ''sessions'', cr_Note = []\<rparr>
      in if Overlap r then res\<lparr>cr_Note := ''shift overlap does not count against a session ceiling''\<rparr>
         else if req_Kind r = Repair then
           (if limit < DeclaredSessions s
            then res\<lparr>cr_State := Exceeded, cr_Adds := 0,
                     cr_Note := ''team declares '' @ itoa (DeclaredSessions s) @ '' sessions against this ceiling''\<rparr>
            else res)
         else if limit < wrap64 (LiveSessions s + Want r) then res\<lparr>cr_State := Exceeded\<rparr>
         else res)"

definition tokenClause :: "int \<Rightarrow> Snapshot \<Rightarrow> ClauseResult" where
  "tokenClause limit s =
     (let res = \<lparr>cr_Dimension = DimMaxTokens, cr_Shape = ShapeCumulative, cr_State = Within,
                 cr_Used = TokensObserved s, cr_Limit = limit, cr_Adds = 0,
                 cr_Unit = ''tokens'', cr_Note = []\<rparr>
      in if \<not> TokensMetered s
         then res\<lparr>cr_State := Unmeasured, cr_Used := 0, cr_Note := ''no usage meter is wired to this daemon''\<rparr>
         else if TokensSeen s = 0 \<and> is_zero (Since s)
         then res\<lparr>cr_State := Unmeasured, cr_Used := 0, cr_Note := ''no token usage observed yet''\<rparr>
         else let notes =
                (if TokensPartial s then [''partial: some sessions unobserved, so this is a floor''] else []) @
                (if TokensSuspect s then [''suspect: the meter reported a cumulation violation, so this may be inflated''] else []);
                res' = res\<lparr>cr_Note := join ''; '' notes\<rparr>
              in if limit \<le> TokensObserved s then res'\<lparr>cr_State := Exceeded\<rparr> else res')"

section \<open>The verdict\<close>

text \<open>The loop over exceeded clauses; the flag says the function returned inside it.\<close>

fun refuse_loop :: "Request \<Rightarrow> Verdict \<Rightarrow> ClauseResult list \<Rightarrow> Verdict \<times> bool" where
  "refuse_loop r v [] = (v, False)"
| "refuse_loop r v (c # cs) =
     (if cr_State c \<noteq> Exceeded then refuse_loop r v cs
      else let granted = (if AllowPartial r \<and> cr_Shape c = ShapeCount
                          then headroom (cr_Limit c) (cr_Used c) else 0)
           in if Want r \<le> granted then refuse_loop r (v\<lparr>Deciding := cr_Dimension c\<rparr>) cs
              else (v\<lparr>v_Decision := Refuse, Deciding := cr_Dimension c, Granted := granted\<rparr>, True))"

fun unmeasured_loop :: "Budget \<Rightarrow> Request \<Rightarrow> Verdict \<Rightarrow> ClauseResult list \<Rightarrow> Verdict \<times> bool" where
  "unmeasured_loop b r v [] = (v, False)"
| "unmeasured_loop b r v (c # cs) =
     (if cr_State c \<noteq> Unmeasured then unmeasured_loop b r v cs
      else let v' = v\<lparr>Deciding := cr_Dimension c\<rparr>
           in if Unmeasured_mode b = UnmeasuredRefuse
              then (v'\<lparr>v_Decision := Refuse, Granted := 0\<rparr>, True)
              else (v'\<lparr>v_Decision := Indeterminate, Granted := Want r\<rparr>, True))"

definition check :: "Budget \<Rightarrow> Snapshot \<Rightarrow> Request \<Rightarrow> bool \<Rightarrow> Verdict" where
  "check b s r evalCumulative =
     (let v = \<lparr>v_Decision = Admit, Granted = Want r, v_Want = Want r, v_Role = req_Role r,
               Deciding = [], Clauses = [], Window = Since s\<rparr>
      in if \<not> Declared b then v
         else if Want r \<le> 0 then v
         else
           let cls = (if 0 < MaxSessions b then [countClause (MaxSessions b) s r] else []) @
                     (if 0 < MaxTokens b \<and> evalCumulative \<and> req_Kind r \<noteq> Repair
                      then [tokenClause (MaxTokens b) s] else []);
               v1 = v\<lparr>Clauses := cls\<rparr>
           in case refuse_loop r v1 cls of
                (v2, True) \<Rightarrow> v2
              | (v2, False) \<Rightarrow>
                  (case unmeasured_loop b r v2 cls of
                     (v3, True) \<Rightarrow> v3
                   | (v3, False) \<Rightarrow>
                       if Deciding v3 = [] \<and> cls \<noteq> [] then v3\<lparr>Deciding := cr_Dimension (hd cls)\<rparr> else v3))"

definition Check :: "Budget \<Rightarrow> Snapshot \<Rightarrow> Request \<Rightarrow> Verdict" where
  "Check b s r = check b s r True"

definition CheckSessions :: "Budget \<Rightarrow> int \<Rightarrow> int \<Rightarrow> Request \<Rightarrow> Verdict" where
  "CheckSessions b live declared r =
     check b \<lparr>LiveSessions = live, DeclaredSessions = declared, TokensObserved = 0, TokensMetered = False,
              TokensPartial = False, TokensSeen = 0, TokensSuspect = False, Since = zero_time\<rparr> r False"

definition Refused :: "Verdict \<Rightarrow> bool" where
  "Refused v \<longleftrightarrow> v_Decision v = Refuse"

section \<open>Rendering\<close>

fun decision_str :: "Decision \<Rightarrow> string" where
  "decision_str Admit = ''admit''"
| "decision_str Refuse = ''refuse''"
| "decision_str Indeterminate = ''indeterminate''"

fun clause_state_str :: "ClauseState \<Rightarrow> string" where
  "clause_state_str Within = ''within''"
| "clause_state_str Exceeded = ''exceeded''"
| "clause_state_str Unmeasured = ''unmeasured''"

definition verdict_Key :: "Verdict \<Rightarrow> string" where
  "verdict_Key v =
     (let state = (case find (\<lambda>c. cr_Dimension c = Deciding v) (Clauses v) of
                     None \<Rightarrow> [] | Some c \<Rightarrow> clause_state_str (cr_State c))
      in decision_str (v_Decision v) @ ''|'' @ Deciding v @ ''|'' @ state)"

definition decidingDetail :: "Verdict \<Rightarrow> string" where
  "decidingDetail v =
     (case find (\<lambda>c. cr_Dimension c = Deciding v) (Clauses v) of
        None \<Rightarrow> []
      | Some c \<Rightarrow>
          if cr_State c = Unmeasured
          then cr_Dimension c @ '' declared but '' @ cr_Note c @
               (if v_Decision v = Refuse then '' (on_unmeasured='' @ UnmeasuredRefuse @ '')'' else [])
          else
            (if cr_Shape c = ShapeCount \<and> 0 < cr_Adds c
             then itoa (cr_Used c) @ '' live + '' @ itoa (cr_Adds c) @ '' requested '' @ cr_Unit c @
                  '' exceeds '' @ cr_Dimension c @ ''='' @ itoa (cr_Limit c)
             else if cr_Shape c = ShapeCount
             then itoa (cr_Used c) @ '' live '' @ cr_Unit c @ '' against '' @ cr_Dimension c @ ''='' @ itoa (cr_Limit c)
             else ''team spent '' @ itoa (cr_Used c) @ '' '' @ cr_Unit c @ '' against '' @ cr_Dimension c @ ''='' @
                  itoa (cr_Limit c) @
                  (if is_zero (Window v) then [] else '' (since='' @ rfc3339 (Window v) @ '')'')) @
            (if cr_Note c \<noteq> [] then '' ('' @ cr_Note c @ '')'' else []))"

definition Reason :: "Verdict \<Rightarrow> string \<Rightarrow> string" where
  "Reason v t =
     (case v_Decision v of
        Refuse \<Rightarrow>
          ''refused '' @ itoa (v_Want v - Granted v) @ '' of '' @ itoa (v_Want v) @ '' spawn(s)'' @
          (if v_Role v \<noteq> [] then '' for role '' @ v_Role v else []) @
          '': '' @ decidingDetail v @
          (if 0 < Granted v then ''; granted '' @ itoa (Granted v) else [])
      | Indeterminate \<Rightarrow> decidingDetail v @ ''; admitted (on_unmeasured='' @ UnmeasuredAdmit @ '')''
      | Admit \<Rightarrow>
          ''within budget'' @
          (if v_Role v \<noteq> [] then '' for role '' @ v_Role v else []) @
          (if decidingDetail v \<noteq> [] then '': '' @ decidingDetail v else [])) @
     '' (trigger='' @ t @ '')''"

section \<open>Rows of \<open>marvel get budgets\<close>\<close>

record BudgetRow =
  row_Workspace :: string
  row_Team :: string
  row_Dimension :: string
  row_Limit :: int
  row_Observed :: int
  row_Headroom :: int
  row_State :: string
  row_Window :: time
  row_Note :: string

definition RowOK :: string where "RowOK = ''ok''"
definition RowAtCeiling :: string where "RowAtCeiling = ''at-ceiling''"
definition RowRefusing :: string where "RowRefusing = ''refusing''"
definition RowUnmetered :: string where "RowUnmetered = ''unmetered''"

lemmas row_states = RowOK_def RowAtCeiling_def RowRefusing_def RowUnmetered_def

fun phase_str :: "ShiftPhase \<Rightarrow> string" where
  "phase_str ShiftNone = []"
| "phase_str ShiftLaunching = ''launching''"
| "phase_str ShiftDraining = ''draining''"

definition sessions_row :: "Team \<Rightarrow> Snapshot \<Rightarrow> BudgetRow \<Rightarrow> BudgetRow" where
  "sessions_row t s row =
     (let h = headroom (row_Limit row) (LiveSessions s);
          held = as_Held (team_Admission t);
          notes = (if held then [as_Reason (team_Admission t)] else []) @
                  (if sh_Phase (team_Shift t) \<noteq> ShiftNone
                   then [''shift '' @ phase_str (sh_Phase (team_Shift t)) @
                         '': the new generation overlaps the old, which a session ceiling exempts, so live may read above the limit until draining finishes'']
                   else [])
      in row\<lparr>row_Observed := LiveSessions s, row_Headroom := h,
             row_State := (if held then RowRefusing else if h = 0 then RowAtCeiling else row_State row),
             row_Note := join ''; '' notes\<rparr>)"

definition tokens_row :: "Snapshot \<Rightarrow> BudgetRow \<Rightarrow> BudgetRow" where
  "tokens_row s row =
     (let c = tokenClause (row_Limit row) s
      in row\<lparr>row_Observed := cr_Used c, row_Headroom := headroom (row_Limit row) (cr_Used c),
             row_Note := cr_Note c, row_Window := Since s,
             row_State := (case cr_State c of Exceeded \<Rightarrow> RowRefusing | Unmeasured \<Rightarrow> RowUnmetered
                           | Within \<Rightarrow> row_State row)\<rparr>)"

fun rows_loop :: "Team \<Rightarrow> Snapshot \<Rightarrow> Spec list \<Rightarrow> BudgetRow list" where
  "rows_loop t s [] = []"
| "rows_loop t s (spec # specs) =
     (case budget_Limit (team_Budget t) (spec_Dimension spec) of
        None \<Rightarrow> rows_loop t s specs
      | Some limit \<Rightarrow>
          let row = \<lparr>row_Workspace = team_Workspace t, row_Team = team_Name t,
                     row_Dimension = spec_Dimension spec, row_Limit = limit, row_Observed = 0,
                     row_Headroom = 0, row_State = RowOK, row_Window = zero_time, row_Note = []\<rparr>;
              row' = (if spec_Dimension spec = DimMaxSessions then sessions_row t s row
                      else if spec_Dimension spec = DimMaxTokens then tokens_row s row else row)
          in row' # rows_loop t s specs)"

definition Rows :: "Team \<Rightarrow> Snapshot \<Rightarrow> BudgetRow list" where
  "Rows t s = (if \<not> Declared (team_Budget t) then [] else rows_loop t s budgetSpecs)"

section \<open>What the gate promises\<close>

text \<open>The contract, in terms of the budget and the measured state alone.\<close>

definition sessions_over :: "Budget \<Rightarrow> Snapshot \<Rightarrow> Request \<Rightarrow> bool" where
  "sessions_over b s r \<longleftrightarrow> 0 < MaxSessions b \<and> \<not> Overlap r \<and>
     (if req_Kind r = Repair then MaxSessions b < DeclaredSessions s
      else MaxSessions b < wrap64 (LiveSessions s + Want r))"

definition spend_gated :: "Budget \<Rightarrow> Request \<Rightarrow> bool \<Rightarrow> bool" where
  "spend_gated b r ev \<longleftrightarrow> 0 < MaxTokens b \<and> ev \<and> req_Kind r \<noteq> Repair"

definition spend_known :: "Snapshot \<Rightarrow> bool" where
  "spend_known s \<longleftrightarrow> TokensMetered s \<and> \<not> (TokensSeen s = 0 \<and> is_zero (Since s))"

definition granted_spec :: "Budget \<Rightarrow> Snapshot \<Rightarrow> Request \<Rightarrow> bool \<Rightarrow> int" where
  "granted_spec b s r ev =
     (if \<not> Declared b \<or> Want r \<le> 0 then Want r
      else if sessions_over b s r \<and> \<not> (AllowPartial r \<and> Want r \<le> MaxSessions b - LiveSessions s)
      then (if AllowPartial r then max 0 (MaxSessions b - LiveSessions s) else 0)
      else if spend_gated b r ev \<and> spend_known s \<and> MaxTokens b \<le> TokensObserved s then 0
      else if spend_gated b r ev \<and> \<not> spend_known s \<and> Unmeasured_mode b = UnmeasuredRefuse then 0
      else Want r)"

lemma headroom_max: "headroom limit used = max 0 (limit - used)"
  by (simp add: headroom_def Let_def)

lemma countClause_facts:
  "cr_State (countClause l s r) \<noteq> Unmeasured"
  "cr_Shape (countClause l s r) = ShapeCount"
  "cr_Limit (countClause l s r) = l" "cr_Used (countClause l s r) = LiveSessions s"
  "cr_Dimension (countClause l s r) = DimMaxSessions"
  by (simp_all add: countClause_def Let_def)

lemma countClause_exceeded:
  "cr_State (countClause (MaxSessions b) s r) = Exceeded \<longleftrightarrow>
     \<not> Overlap r \<and> (if req_Kind r = Repair then MaxSessions b < DeclaredSessions s
                     else MaxSessions b < wrap64 (LiveSessions s + Want r))"
  by (simp add: countClause_def Let_def)

lemma tokenClause_facts:
  "cr_Shape (tokenClause l s) = ShapeCumulative" "cr_Dimension (tokenClause l s) = DimMaxTokens"
  "cr_State (tokenClause l s) = Exceeded \<longleftrightarrow> spend_known s \<and> l \<le> TokensObserved s"
  "cr_State (tokenClause l s) = Unmeasured \<longleftrightarrow> \<not> spend_known s"
  by (auto simp: tokenClause_def Let_def spend_known_def)

lemmas clause_facts = countClause_facts countClause_exceeded tokenClause_facts

text \<open>\<open>check\<close> grants what the contract says, and refuses exactly when that is less than asked.\<close>

lemma check_granted: "Granted (check b s r ev) = granted_spec b s r ev"
  by (auto simp: check_def granted_spec_def Let_def clause_facts headroom_max sessions_over_def
      spend_gated_def Declared_def split: prod.splits bool.splits)

lemma check_refused: "Refused (check b s r ev) \<longleftrightarrow> granted_spec b s r ev < Want r"
  by (auto simp: check_def granted_spec_def Let_def clause_facts headroom_max sessions_over_def
      spend_gated_def Declared_def Refused_def split: prod.splits bool.splits)

lemma granted_spec_bounds:
  "0 < Want r \<Longrightarrow> 0 \<le> granted_spec b s r ev" "granted_spec b s r ev \<le> max 0 (Want r)"
  "granted_spec b s r ev \<le> Want r \<or> Want r \<le> 0"
  by (auto simp: granted_spec_def)

text \<open>An undeclared budget has neither clause, so the contract needs no guard for it.\<close>

lemma granted_spec_no_guard:
  "granted_spec b s r ev =
     (if Want r \<le> 0 then Want r
      else if sessions_over b s r \<and> \<not> (AllowPartial r \<and> Want r \<le> MaxSessions b - LiveSessions s)
      then (if AllowPartial r then max 0 (MaxSessions b - LiveSessions s) else 0)
      else if spend_gated b r ev \<and>
              (if spend_known s then MaxTokens b \<le> TokensObserved s else Unmeasured_mode b = UnmeasuredRefuse)
      then 0 else Want r)"
  by (auto simp: granted_spec_def Declared_def sessions_over_def spend_gated_def)

text \<open>
  The gate as the spawning paths see it: of a positive request it grants between nothing and all,
  and it calls the verdict a refusal exactly when something was held back.
\<close>

locale spawn_gate =
  fixes verdict :: "int \<Rightarrow> Verdict"
  assumes granted_nonneg: "0 < want \<Longrightarrow> 0 \<le> Granted (verdict want)"
    and granted_le: "0 < want \<Longrightarrow> Granted (verdict want) \<le> want"
    and refused_iff: "0 < want \<Longrightarrow> Refused (verdict want) \<longleftrightarrow> Granted (verdict want) < want"
begin

lemma never_overshoots:
  "actual < desired \<Longrightarrow> actual + Granted (verdict (desired - actual)) \<le> desired" for actual desired :: int
  using granted_le[of "desired - actual"] by simp

lemma admitted_fills:
  "actual < desired \<Longrightarrow> \<not> Refused (verdict (desired - actual)) \<Longrightarrow>
     actual + Granted (verdict (desired - actual)) = desired" for actual desired :: int
  using granted_le[of "desired - actual"] refused_iff[of "desired - actual"] by simp

lemma refused_short:
  "actual < desired \<Longrightarrow> Refused (verdict (desired - actual)) \<Longrightarrow>
     actual + Granted (verdict (desired - actual)) < desired" for actual desired :: int
  using refused_iff[of "desired - actual"] by simp

end

text \<open>The request the reconciler makes (\<open>admissionVerdict\<close>) and the gate it makes it to.\<close>

definition repair_request :: "string \<Rightarrow> int \<Rightarrow> Request" where
  "repair_request role want =
     \<lparr>req_Role = role, Want = want, req_Kind = Repair, Overlap = False, AllowPartial = True\<rparr>"

interpretation repair_gate: spawn_gate "\<lambda>want. CheckSessions b live declared (repair_request role want)"
  for b live declared role
proof
  fix want :: int
  assume w: "0 < want"
  note g = granted_spec_bounds[where r = "repair_request role want"]
  show "0 \<le> Granted (CheckSessions b live declared (repair_request role want))"
    "Granted (CheckSessions b live declared (repair_request role want)) \<le> want"
    "Refused (CheckSessions b live declared (repair_request role want)) \<longleftrightarrow>
       Granted (CheckSessions b live declared (repair_request role want)) < want"
    using w g by (auto simp: CheckSessions_def check_granted check_refused repair_request_def)
qed

text \<open>
  The verdict's functional contract, on every path: \<open>check\<close> grants the number the contract
  \<open>granted_spec\<close> names (all of an ungated or non-positive request; the headroom or nothing past
  a session ceiling; nothing past a spend ceiling or, under \<open>on_unmeasured = refuse\<close>, without a
  meter), and the decision is a refusal exactly when fewer sessions than asked were granted.
\<close>

theorem check_meets_contract:
  "Granted (check b s r ev) = granted_spec b s r ev \<and>
   (Refused (check b s r ev) \<longleftrightarrow> Granted (check b s r ev) < Want r)"
  by (simp add: check_granted check_refused)

text \<open>
  Ceiling safety: whatever a growth request that is not a shift overlap is granted, the live
  sessions and the grant together stay within a declared \<open>max_sessions\<close>, as long as the sum of the
  live and the wanted sessions is a Go \<open>int\<close>.
\<close>

theorem growth_within_ceiling:
  assumes "req_Kind r = Growth" and "\<not> Overlap r" and "0 < MaxSessions b"
    and "0 < Granted (check b s r ev)" and "LiveSessions s + Want r < 2 ^ 63" "0 \<le> LiveSessions s"
  shows "LiveSessions s + Granted (check b s r ev) \<le> MaxSessions b"
  using assms wrap64_small[of "LiveSessions s + Want r"]
  by (auto simp: check_granted granted_spec_def sessions_over_def Declared_def split: if_splits)

definition example_snapshot :: Snapshot where
  "example_snapshot = \<lparr>LiveSessions = 4, DeclaredSessions = 9, TokensObserved = 120, TokensMetered = True,
     TokensPartial = True, TokensSeen = 2, TokensSuspect = False, Since = 5\<rparr>"

theorem growth_within_ceiling_witness:
  "LiveSessions example_snapshot +
     Granted (check \<lparr>MaxSessions = 6, MaxTokens = 0, OnUnmeasured = []\<rparr> example_snapshot
       \<lparr>req_Role = ''dev'', Want = 5, req_Kind = Growth, Overlap = False, AllowPartial = True\<rparr> True) \<le> 6 \<and>
   Granted (check \<lparr>MaxSessions = 6, MaxTokens = 0, OnUnmeasured = []\<rparr> example_snapshot
       \<lparr>req_Role = ''dev'', Want = 5, req_Kind = Growth, Overlap = False, AllowPartial = True\<rparr> True) = 2"
proof -
  let ?r = "\<lparr>req_Role = ''dev'', Want = 5, req_Kind = Growth, Overlap = False, AllowPartial = True\<rparr>"
  let ?b = "\<lparr>MaxSessions = 6, MaxTokens = 0, OnUnmeasured = []\<rparr>"
  have two: "Granted (check ?b example_snapshot ?r True) = 2"
    by (simp add: check_granted granted_spec_def Declared_def sessions_over_def example_snapshot_def wrap64_def)
  then show ?thesis using growth_within_ceiling[of ?r ?b example_snapshot True] by (simp add: example_snapshot_def)
qed

text \<open>
  Repair never reads the spend meter (rule R2): the verdict of a repair request is the same
  whatever the token fields of the snapshot hold, so an exhausted token budget cannot make a team
  unrepairable.
\<close>

theorem repair_ignores_spend:
  assumes "req_Kind r = Repair"
  shows "check b (s\<lparr>TokensObserved := x, TokensMetered := m, TokensPartial := p, TokensSeen := n,
           TokensSuspect := q\<rparr>) r ev = check b s r ev"
  using assms by (simp add: check_def countClause_def Let_def)

theorem repair_ignores_spend_witness:
  "check \<lparr>MaxSessions = 6, MaxTokens = 100, OnUnmeasured = UnmeasuredRefuse\<rparr>
     (example_snapshot\<lparr>TokensObserved := 999, TokensMetered := False, TokensPartial := False, TokensSeen := 0,
        TokensSuspect := True\<rparr>) (repair_request ''dev'' 3) True =
   check \<lparr>MaxSessions = 6, MaxTokens = 100, OnUnmeasured = UnmeasuredRefuse\<rparr> example_snapshot
     (repair_request ''dev'' 3) True"
  by (rule repair_ignores_spend) (simp add: repair_request_def)

text \<open>A ceiling is looser when it is off or higher; a ceiling that is not positive is off.\<close>

definition clause_looser :: "int \<Rightarrow> int \<Rightarrow> bool" where
  "clause_looser x y \<longleftrightarrow> y \<le> 0 \<or> (0 < x \<and> x \<le> y)"

text \<open>
  C28. Raising a ceiling, or removing one, never refuses more: with the unmeasured mode unchanged,
  a request is granted at least as many sessions under the looser budget. The request is one the
  callers make: partial grants are asked for on the repair path only. (A partial growth request
  would be granted the session headroom before the spend ceiling is looked at.)
\<close>

theorem looser_budget_grants_more:
  assumes "clause_looser (MaxSessions b) (MaxSessions b')"
    and "clause_looser (MaxTokens b) (MaxTokens b')" and "OnUnmeasured b' = OnUnmeasured b"
    and "AllowPartial r \<Longrightarrow> req_Kind r = Repair"
  shows "Granted (check b s r ev) \<le> Granted (check b' s r ev)"
proof -
  have over: "sessions_over b s r \<and> MaxSessions b \<le> MaxSessions b'" if "sessions_over b' s r"
    using assms(1) that by (auto simp: clause_looser_def sessions_over_def split: if_splits)
  have gated: "spend_gated b r ev \<and> MaxTokens b \<le> MaxTokens b'" if "spend_gated b' r ev"
    using assms(2) that by (auto simp: clause_looser_def spend_gated_def)
  have repair: "\<not> spend_gated b r ev" "\<not> spend_gated b' r ev" if "AllowPartial r"
    using assms(4) that by (auto simp: spend_gated_def)
  have mode: "Unmeasured_mode b' = Unmeasured_mode b" using assms(3) by (simp add: Unmeasured_mode_def)
  show ?thesis
  proof (cases "AllowPartial r")
    case True
    with over repair show ?thesis
      unfolding check_granted granted_spec_no_guard by (cases "sessions_over b' s r") auto
  next
    case False
    with over gated mode show ?thesis unfolding check_granted granted_spec_no_guard by auto
  qed
qed

theorem looser_budget_grants_more_witness:
  "Granted (check \<lparr>MaxSessions = 6, MaxTokens = 100, OnUnmeasured = []\<rparr> example_snapshot
      (repair_request ''dev'' 3) True) \<le>
   Granted (check \<lparr>MaxSessions = 12, MaxTokens = 0, OnUnmeasured = []\<rparr> example_snapshot
      (repair_request ''dev'' 3) True)"
  by (rule looser_budget_grants_more) (simp_all add: clause_looser_def repair_request_def)

text \<open>
  A row of \<open>marvel get budgets\<close> for the session ceiling says it is refusing exactly while the
  team's standing admission condition holds; a team that merely sits at its ceiling reads
  at-ceiling, and the headroom shown is never negative.
\<close>

theorem sessions_row_state:
  assumes "row \<in> set (Rows t s)" and "row_Dimension row = DimMaxSessions"
  shows "row_State row = (if as_Held (team_Admission t) then RowRefusing
                      else if MaxSessions (team_Budget t) \<le> LiveSessions s then RowAtCeiling else RowOK) \<and>
     row_Headroom row = max 0 (MaxSessions (team_Budget t) - LiveSessions s) \<and>
     row_Observed row = LiveSessions s"
proof -
  have "row_Dimension (tokens_row s x) \<noteq> DimMaxSessions" if "row_Dimension x = DimMaxTokens" for x
    using that by (simp add: tokens_row_def Let_def dimensions)
  then show ?thesis
    using assms
    by (auto simp: Rows_def budgetSpecs_def budget_Limit_def dimensions sessions_row_def
        headroom_max Let_def split: if_splits)
qed

theorem sessions_row_state_witness:
  "row_State (hd (Rows (example_team\<lparr>team_Budget := \<lparr>MaxSessions = 4, MaxTokens = 0, OnUnmeasured = []\<rparr>\<rparr>) example_snapshot))
     = RowAtCeiling"
proof -
  let ?t = "example_team\<lparr>team_Budget := \<lparr>MaxSessions = 4, MaxTokens = 0, OnUnmeasured = []\<rparr>\<rparr>"
  let ?row = "hd (Rows ?t example_snapshot)"
  have "?row \<in> set (Rows ?t example_snapshot)" "row_Dimension ?row = DimMaxSessions"
    by (simp_all add: Rows_def budgetSpecs_def budget_Limit_def dimensions Declared_def sessions_row_def Let_def
        example_defs)
  from sessions_row_state[OF this] show ?thesis by (simp add: example_defs example_snapshot_def)
qed

end
