(* ===== verification/Exposure.thy ===== *)
theory Exposure
  imports Resources
begin

text \<open>
  The exposure gate of \<open>internal/api/exposure.go\<close>: a role that writes a function must not start in a
  slot that has read it. \<open>CheckFunction\<close> and \<open>ExposureVerdict\<close> are modelled whole; the reader the gate
  asks is an interface in the code and an argument here (\<open>Inl\<close> is a failed read). Recording, voiding
  and sealing the records is not modelled. Names are ASCII: a byte outside ASCII is refused by
  \<open>CheckFunction\<close> (Go's \<open>ToLower\<close> folds a few non-ASCII letters to ASCII ones first).
\<close>

section \<open>Function names\<close>

definition lower_char :: "char \<Rightarrow> char" where
  "lower_char c = (let n = (of_char c :: nat) in if 65 \<le> n \<and> n \<le> 90 then char_of (n + 32) else c)"

definition trim_space :: "string \<Rightarrow> string" where
  "trim_space s = rev (dropWhile is_space (rev (dropWhile is_space s)))"

definition NormalizeFunction :: "string \<Rightarrow> string" where
  "NormalizeFunction name = map lower_char (trim_space name)"

definition name_start :: "char \<Rightarrow> bool" where
  "name_start c \<longleftrightarrow> (97 \<le> (of_char c :: nat) \<and> (of_char c :: nat) \<le> 122) \<or> is_digit c"

definition name_char :: "char \<Rightarrow> bool" where
  "name_char c \<longleftrightarrow> name_start c \<or> c = CHR ''.'' \<or> c = CHR ''-'' \<or> c = CHR ''_''"

text \<open>\<open>CheckFunction\<close>: \<open>None\<close> is the error. The loop checks each byte, the first against the stricter
  class.\<close>

definition CheckFunction :: "string \<Rightarrow> string option" where
  "CheckFunction name =
     (case NormalizeFunction name of
        [] \<Rightarrow> None
      | c # cs \<Rightarrow> if name_start c \<and> list_all name_char cs then Some (c # cs) else None)"

section \<open>The gate\<close>

record ExposureRecord =
  exp_Workspace :: string
  exp_Team :: string
  exp_Role :: string
  exp_Function :: string
  exp_StartedAt :: time
  exp_EndedAt :: time
  exp_Seq :: int
  exp_VoidedAt :: time

type_synonym ExposureReader = "string \<Rightarrow> string \<Rightarrow> string \<Rightarrow> string + ExposureRecord list"

fun norm_writes :: "string list \<Rightarrow> string list option" where
  "norm_writes [] = Some []"
| "norm_writes (f # fs) =
     (case CheckFunction f of None \<Rightarrow> None | Some n \<Rightarrow> map_option (\<lambda>ns. n # ns) (norm_writes fs))"

text \<open>The loop over the slot's records: the functions seen, or \<open>None\<close> on a name it cannot match.\<close>

fun seen_functions :: "string list \<Rightarrow> ExposureRecord list \<Rightarrow> string list \<Rightarrow> string list option" where
  "seen_functions writes [] seen = Some seen"
| "seen_functions writes (r # rs) seen =
     (if \<not> is_zero (exp_VoidedAt r) then seen_functions writes rs seen
      else case CheckFunction (exp_Function r) of
        None \<Rightarrow> None
      | Some f \<Rightarrow> seen_functions writes rs (if f \<in> set writes \<and> f \<notin> set seen then f # seen else seen))"

text \<open>\<open>ExposureVerdict\<close>; the texts are shortened to their fixed parts, the names they list included.\<close>

definition ExposureVerdict :: "ExposureReader \<Rightarrow> string \<Rightarrow> string \<Rightarrow> Role option \<Rightarrow> bool \<times> string" where
  "ExposureVerdict src ws team role =
     (case role of
        None \<Rightarrow> (False, [])
      | Some r \<Rightarrow>
          if role_Writes r = [] then (False, [])
          else case norm_writes (role_Writes r) of
            None \<Rightarrow> (True, ''role '' @ role_Name r @ '' declares a function name the gate cannot match'')
          | Some writes \<Rightarrow>
              (case src ws team (role_Name r) of
                 Inl err \<Rightarrow> (True, ''role '' @ role_Name r @ '' writes '' @ join '', '' writes @
                              '' and its exposure record could not be read: '' @ err)
               | Inr recs \<Rightarrow>
                   (case seen_functions writes recs [] of
                      None \<Rightarrow> (True, ''role '' @ role_Name r @ '' writes '' @ join '', '' writes @
                                '' and its slot has a record with a name the gate cannot match'')
                    | Some seen \<Rightarrow>
                        if seen = [] then (False, [])
                        else (True, ''role '' @ role_Name r @ '' writes '' @ join '', '' (sort seen) @
                                '' and its slot has read it''))))"

section \<open>The gate fails closed\<close>

lemma norm_writes_spec:
  "norm_writes fs = (if (\<forall>f\<in>set fs. CheckFunction f \<noteq> None) then Some (map (the \<circ> CheckFunction) fs) else None)"
  by (induction fs) (auto split: option.splits)

definition harmless :: "string list \<Rightarrow> ExposureRecord \<Rightarrow> bool" where
  "harmless writes x \<longleftrightarrow> exp_VoidedAt x \<noteq> 0 \<or>
     (case CheckFunction (exp_Function x) of None \<Rightarrow> False | Some f \<Rightarrow> f \<notin> set writes)"

lemma seen_functions_empty:
  "seen_functions writes rs seen = Some [] \<longleftrightarrow> seen = [] \<and> list_all (harmless writes) rs"
proof (induction rs arbitrary: seen)
  case (Cons r rs)
  show ?case
  proof (cases "exp_VoidedAt r = 0")
    case False
    then show ?thesis using Cons.IH by (simp add: is_zero_def harmless_def)
  next
    case True
    show ?thesis
    proof (cases "CheckFunction (exp_Function r)")
      case None
      with True show ?thesis by (simp add: is_zero_def harmless_def)
    next
      case (Some f)
      let ?seen = "if f \<in> set writes \<and> f \<notin> set seen then f # seen else seen"
      have "seen_functions writes (r # rs) seen = seen_functions writes rs ?seen"
        using True Some by (simp add: is_zero_def)
      also have "\<dots> = Some [] \<longleftrightarrow> ?seen = [] \<and> list_all (harmless writes) rs" by (rule Cons.IH)
      also have "\<dots> \<longleftrightarrow> seen = [] \<and> f \<notin> set writes \<and> list_all (harmless writes) rs" by auto
      also have "f \<notin> set writes \<longleftrightarrow> harmless writes r" using True Some by (simp add: harmless_def)
      finally show ?thesis by (simp only: list.pred_inject)
    qed
  qed
qed auto

text \<open>
  The exposure gate fails closed. A role that declares writes is admitted only if every name it
  declares can be matched, the slot's records could be read, every record that is not voided carries
  a name the gate can match, and none of them names a function the role writes; a role with no
  writes is never held. An ended reading counts like an open one.
\<close>

theorem exposure_gate_fails_closed:
  "\<not> fst (ExposureVerdict src ws team (Some r)) \<longleftrightarrow>
     role_Writes r = [] \<or>
     (list_all (\<lambda>f. CheckFunction f \<noteq> None) (role_Writes r) \<and>
      (\<exists>recs. src ws team (role_Name r) = Inr recs \<and>
         list_all (harmless (map (the \<circ> CheckFunction) (role_Writes r))) recs))"
proof (cases "role_Writes r = []")
  case True
  then show ?thesis by (simp add: ExposureVerdict_def)
next
  case False
  show ?thesis
  proof (cases "\<forall>f\<in>set (role_Writes r). CheckFunction f \<noteq> None")
    case bad: False
    then show ?thesis using False by (auto simp: ExposureVerdict_def norm_writes_spec list_all_iff)
  next
    case ok: True
    let ?w = "map (the \<circ> CheckFunction) (role_Writes r)"
    show ?thesis
    proof (cases "src ws team (role_Name r)")
      case (Inl e)
      then show ?thesis using False ok by (simp add: ExposureVerdict_def norm_writes_spec)
    next
      case (Inr recs)
      have "\<not> fst (ExposureVerdict src ws team (Some r)) \<longleftrightarrow> seen_functions ?w recs [] = Some []"
        using False ok Inr by (auto simp: ExposureVerdict_def norm_writes_spec split: option.splits)
      also have "\<dots> \<longleftrightarrow> list_all (harmless ?w) recs" by (simp only: seen_functions_empty simp_thms)
      finally show ?thesis using False ok Inr by (simp add: list_all_iff)
    qed
  qed
qed

end
