(* ===== verification/Planner.thy ===== *)
theory Planner
  imports Role_Health Admission Exposure
begin

text \<open>
  The convergence decision of \<open>internal/team/controller.go\<close>: \<open>planRole\<close> and what it asks (the schedule
  hold, the hibernate mark of \<open>hibernate.go\<close>, the exposure gate, the bus gate, the backoff window, the
  admission verdict of \<open>admission.go\<close>), the posture gate of \<open>reconcileRole\<close>, and the session order and
  index helpers the shift path shares.

  \<open>planRole\<close> is a function of the controller, the clock, the exposure reader and the bus gate's answer
  (\<open>None\<close> where no bus is managed); it returns a plan and changes nothing, as in the code.
\<close>

section \<open>Ordering and filtering sessions\<close>

definition newer :: "Session \<Rightarrow> Session \<Rightarrow> bool" where
  "newer a b =
     (if sess_CreatedAt a \<noteq> sess_CreatedAt b then sess_CreatedAt b < sess_CreatedAt a
      else if sess_Generation a \<noteq> sess_Generation b then sess_Generation b < sess_Generation a
      else sess_Name b < sess_Name a)"

definition sortNewestFirst :: "Session list \<Rightarrow> Session list" where
  "sortNewestFirst ss = sort_by newer ss"

definition aliveSessions :: "Session list \<Rightarrow> Session list" where
  "aliveSessions ss = filter alive ss"

definition sessionsOutsideGeneration :: "Session list \<Rightarrow> int \<Rightarrow> Session list" where
  "sessionsOutsideGeneration ss gen = filter (\<lambda>s. sess_Generation s \<noteq> gen) ss"

definition index_prefix :: "Team \<Rightarrow> Role \<Rightarrow> int \<Rightarrow> string" where
  "index_prefix t role gen = team_Name t @ ''-'' @ role_Name role @ ''-g'' @ itoa gen @ ''-''"

text \<open>\<open>fmt.Sscanf(name, prefix + "%d", &idx)\<close> for a prefix with no verb or space in it: the literal
  prefix, leading spaces dropped, an optional sign, then the longest run of digits; what follows is
  not read.\<close>

definition scan_int :: "string \<Rightarrow> int option" where
  "scan_int s =
     (let s1 = dropWhile is_space s;
          (neg, s2) = (case s1 of c # cs \<Rightarrow> if c = CHR ''-'' then (True, cs) else if c = CHR ''+'' then (False, cs) else (False, s1)
                       | [] \<Rightarrow> (False, []));
          ds = takeWhile is_digit s2;
          v = (if neg then - int (digits_val ds) else int (digits_val ds))
      in if ds = [] \<or> v < - (2 ^ 63) \<or> 2 ^ 63 \<le> v then None else Some v)"

definition scan_index :: "string \<Rightarrow> string \<Rightarrow> int option" where
  "scan_index pfx name = (if has_prefix name pfx then scan_int (drop (length pfx) name) else None)"

definition nextIndex :: "Store \<Rightarrow> Team \<Rightarrow> Role \<Rightarrow> int \<Rightarrow> int" where
  "nextIndex s t role gen =
     foldl (\<lambda>mx x. case scan_index (index_prefix t role gen) (sess_Name x) of
              Some idx \<Rightarrow> if mx < idx then idx else mx | None \<Rightarrow> mx) (- 1)
       (ListSessionsByTeamRoleGeneration s (team_Workspace t) (team_Name t) (role_Name role) gen) + 1"

section \<open>The plan\<close>

datatype RoleAction = RoleSteady | RoleSpawn | RoleScaleDown | RoleHold

datatype HoldReason = HoldNone | HoldBackoff | HoldAdmission | HoldBus | HoldExposure | HoldSchedule | HoldHibernated

datatype admissionOp = admissionNoop | admissionClear | admissionLatch

datatype busIntent = busNoop | busClear | busHold

datatype exposureIntent = exposureNoop | exposureClear | exposureHold

record admissionIntent =
  ai_op :: admissionOp
  ai_key :: string
  ai_reason :: string

record RolePlan =
  plan_Workspace :: string
  plan_Team :: string
  plan_Role :: string
  plan_Generation :: int
  plan_Desired :: int
  plan_Actual :: int
  plan_Action :: RoleAction
  plan_Spawn :: int
  plan_Delete :: "Session list"
  plan_Hold :: HoldReason
  plan_HoldDetail :: string
  plan_Firing :: string
  plan_admission :: admissionIntent
  plan_bus :: busIntent
  plan_exposure :: exposureIntent

definition admission_noop :: admissionIntent where
  "admission_noop = \<lparr>ai_op = admissionNoop, ai_key = [], ai_reason = []\<rparr>"

definition admission_clear :: admissionIntent where
  "admission_clear = \<lparr>ai_op = admissionClear, ai_key = [], ai_reason = []\<rparr>"

section \<open>The gates\<close>

text \<open>\<open>holdForFiring\<close>: the detail of the hold, or \<open>None\<close> when the firing allows a spawn.\<close>

definition holdForFiring :: "time \<Rightarrow> ScheduleStatus \<Rightarrow> string option" where
  "holdForFiring now st =
     (if ss_Frozen st then Some ''frozen by on_failure; marvel reset-health clears it''
      else if ss_Firing st = [] \<and> is_zero (ss_NextDueAt st) then Some ''scheduled; next due not computed yet''
      else if ss_Firing st = [] then Some (''scheduled; next due '' @ rfc3339 (ss_NextDueAt st))
      else if ss_Settled st then Some (''firing '' @ ss_Firing st @ '' settled; next due '' @ rfc3339 (ss_NextDueAt st))
      else if now < ss_RetryAfter st then Some (''firing '' @ ss_Firing st @ '' retry after '' @ rfc3339 (ss_RetryAfter st))
      else None)"

definition coveredRoles :: "Team \<Rightarrow> Role list \<times> Role list" where
  "coveredRoles t =
     (let cov = filter (\<lambda>r. Covers (team_Hibernate t) (role_Name r)) (team_Roles t)
      in (filter (\<lambda>r. \<not> IsSupervisorRole r) cov, filter IsSupervisorRole cov))"

definition wakeHealthFallback :: duration where "wakeHealthFallback = 5 * minute"

fun wake_loop :: "Store \<Rightarrow> Team \<Rightarrow> time \<Rightarrow> time \<Rightarrow> Role list \<Rightarrow> bool" where
  "wake_loop s t since now [] = False"
| "wake_loop s t since now (role # rest) =
     (if list_ex (\<lambda>x. alive x \<and> since < sess_LastHeartbeat x)
           (ListSessionsByTeamRole s (team_Workspace t) (team_Name t) (role_Name role)) then True
      else let timeout0 = (case role_HealthCheck role of None \<Rightarrow> 0 | Some hc \<Rightarrow> hc_Timeout hc);
               timeout = (if timeout0 \<le> 0 then wakeHealthFallback else timeout0)
           in if timeout \<le> time_sub now since then True else wake_loop s t since now rest)"

definition wakeAllowsWorkers :: "Store \<Rightarrow> Team \<Rightarrow> time \<Rightarrow> bool" where
  "wakeAllowsWorkers s t now =
     (case snd (coveredRoles t) of
        [] \<Rightarrow> True
      | sups \<Rightarrow> wake_loop s t (case team_Hibernate t of None \<Rightarrow> zero_time | Some m \<Rightarrow> hm_Since m) now sups)"

definition hibernateBlocks :: "Store \<Rightarrow> time \<Rightarrow> Team \<Rightarrow> Role \<Rightarrow> bool \<times> string" where
  "hibernateBlocks s now t role =
     (case team_Hibernate t of
        None \<Rightarrow> (False, [])
      | Some m \<Rightarrow>
          if \<not> Covers (Some m) (role_Name role) then (False, [])
          else if hm_State m \<noteq> HibernateWaking then (True, ''hibernated; run marvel wake'')
          else if IsSupervisorRole role \<or> wakeAllowsWorkers s t now then (False, [])
          else (True, ''waking: waiting for a supervisor to heartbeat''))"

definition declaredSessions :: "Team \<Rightarrow> int" where
  "declaredSessions t = sum_list (map role_Replicas (team_Roles t))"

definition admissionVerdict :: "Store \<Rightarrow> Team \<Rightarrow> Role \<Rightarrow> int \<Rightarrow> Verdict" where
  "admissionVerdict s t role want =
     CheckSessions (team_Budget t) (CountAlive (ListSessionsByTeam s (team_Workspace t) (team_Name t)))
       (declaredSessions t) (repair_request (role_Name role) want)"

section \<open>The decision\<close>

definition role_sessions :: "Controller \<Rightarrow> Team \<Rightarrow> Role \<Rightarrow> Session list" where
  "role_sessions c t role =
     withoutRetiring t (ListSessionsByTeamRole (c_store c) (team_Workspace t) (team_Name t) (role_Name role))"

abbreviation rkey :: "Team \<Rightarrow> Role \<Rightarrow> string" where
  "rkey t role \<equiv> role_key (team_Workspace t) (team_Name t) (role_Name role)"

definition role_schedule :: "Controller \<Rightarrow> Team \<Rightarrow> Role \<Rightarrow> ScheduleStatus" where
  "role_schedule c t role =
     (if role_Schedule role = None then new_status [] else fst (GetScheduleStatus (c_store c) (rkey t role)))"

definition actual_slots :: "Controller \<Rightarrow> Team \<Rightarrow> Role \<Rightarrow> int" where
  "actual_slots c t role =
     (if role_Schedule role = None then CountReplicaSlots (role_sessions c t role)
      else CountFiringSlots (role_sessions c t role) (ss_Firing (role_schedule c t role)))"

text \<open>The admission gate, the last of the spawn branch.\<close>

definition plan_admit :: "Controller \<Rightarrow> Team \<Rightarrow> Role \<Rightarrow> RolePlan \<Rightarrow> RolePlan" where
  "plan_admit c t role p =
     (let want = plan_Desired p - plan_Actual p
      in if Declared (team_Budget t) \<and> sh_Phase (team_Shift t) = ShiftNone
         then let v = admissionVerdict (c_store c) t role want
              in if Refused v
                 then let reason = Reason v TriggerReconcile;
                          p' = p\<lparr>plan_admission := \<lparr>ai_op = admissionLatch, ai_key = verdict_Key v, ai_reason = reason\<rparr>,
                                 plan_Hold := HoldAdmission, plan_HoldDetail := reason\<rparr>
                      in if Granted v \<le> 0 then p'\<lparr>plan_Action := RoleHold\<rparr>
                         else p'\<lparr>plan_Spawn := Granted v, plan_Action := RoleSpawn\<rparr>
                 else p\<lparr>plan_admission := admission_clear, plan_Spawn := Granted v, plan_Action := RoleSpawn\<rparr>
         else p\<lparr>plan_Spawn := want, plan_Action := RoleSpawn\<rparr>)"

text \<open>The backoff gate and what follows it.\<close>

definition plan_backoff :: "time \<Rightarrow> Controller \<Rightarrow> Team \<Rightarrow> Role \<Rightarrow> RolePlan \<Rightarrow> RolePlan" where
  "plan_backoff now c t role p =
     (case health_at c (rkey t role) of
        Some rh \<Rightarrow>
          if now < rh_BackoffUntil rh
          then p\<lparr>plan_Action := RoleHold, plan_Hold := HoldBackoff,
                 plan_HoldDetail := (if rh_BackoffUntil rh = saturationFreezeUntil
                    then ''frozen at max_restarts (restart #'' @ itoa (rh_RestartCount rh) @ '')''
                    else ''crash-loop backoff until '' @ rfc3339 (rh_BackoffUntil rh))\<rparr>
          else plan_admit c t role p
      | None \<Rightarrow> plan_admit c t role p)"

text \<open>The whole spawn branch: the hibernate mark, the exposure gate, the bus gate, then backoff and
  admission.\<close>

definition plan_spawn :: "time \<Rightarrow> ExposureReader \<Rightarrow> (bool \<times> string) option \<Rightarrow> Controller \<Rightarrow> Team \<Rightarrow> Role \<Rightarrow> RolePlan \<Rightarrow> RolePlan" where
  "plan_spawn now src bus c t role p =
     (case hibernateBlocks (c_store c) now t role of
        (True, why) \<Rightarrow> p\<lparr>plan_Action := RoleHold, plan_Hold := HoldHibernated, plan_HoldDetail := why\<rparr>
      | (False, _) \<Rightarrow>
          (case ExposureVerdict src (team_Workspace t) (team_Name t) (Some role) of
             (True, reason) \<Rightarrow> p\<lparr>plan_Action := RoleHold, plan_Hold := HoldExposure, plan_HoldDetail := reason,
                                plan_exposure := exposureHold\<rparr>
           | (False, _) \<Rightarrow>
               let p1 = p\<lparr>plan_exposure := exposureClear\<rparr>
               in (case bus of
                     Some (False, reason) \<Rightarrow> p1\<lparr>plan_Action := RoleHold, plan_Hold := HoldBus, plan_HoldDetail := reason,
                                              plan_bus := busHold\<rparr>
                   | Some (True, _) \<Rightarrow> plan_backoff now c t role (p1\<lparr>plan_bus := busClear\<rparr>)
                   | None \<Rightarrow> plan_backoff now c t role p1)))"

text \<open>The scale-down branch: walk the list sorted newest first from its end.\<close>

definition plan_shed :: "Session list \<Rightarrow> RolePlan \<Rightarrow> RolePlan" where
  "plan_shed current p =
     (let excess = plan_Actual p - plan_Desired p
      in p\<lparr>plan_Delete := take (nat excess) (rev (sortNewestFirst current)), plan_Action := RoleScaleDown\<rparr>)"

definition planRole :: "time \<Rightarrow> ExposureReader \<Rightarrow> (bool \<times> string) option \<Rightarrow> Controller \<Rightarrow> Team \<Rightarrow> Role \<Rightarrow> int \<Rightarrow> RolePlan" where
  "planRole now src bus c t role gen =
     (let current = role_sessions c t role;
          desired = DesiredReplicas t role;
          sched = role_schedule c t role;
          actual = actual_slots c t role;
          plan = \<lparr>plan_Workspace = team_Workspace t, plan_Team = team_Name t, plan_Role = role_Name role,
                  plan_Generation = gen, plan_Desired = desired, plan_Actual = actual, plan_Action = RoleSteady,
                  plan_Spawn = 0, plan_Delete = [], plan_Hold = HoldNone, plan_HoldDetail = [],
                  plan_Firing = ss_Firing sched, plan_admission = admission_noop, plan_bus = busNoop,
                  plan_exposure = exposureNoop\<rparr>
      in if desired < 0 then plan
         else
           let p1 = (if desired \<le> actual \<or> \<not> Declared (team_Budget t) \<or> sh_Phase (team_Shift t) \<noteq> ShiftNone
                     then plan\<lparr>plan_admission := admission_clear\<rparr> else plan);
               p2 = (if desired \<le> actual then p1\<lparr>plan_exposure := exposureClear\<rparr> else p1)
           in if actual < desired then
                (case (if role_Schedule role = None then None else holdForFiring now sched) of
                   Some detail \<Rightarrow> p2\<lparr>plan_Action := RoleHold, plan_Hold := HoldSchedule, plan_HoldDetail := detail\<rparr>
                 | None \<Rightarrow> plan_spawn now src bus c t role p2)
              else if desired < actual then plan_shed current p2
              else p2)"

section \<open>The posture gate\<close>

definition postureWithholds :: "Controller \<Rightarrow> Team \<Rightarrow> bool" where
  "postureWithholds c t =
     (if Posture t \<noteq> PostureHold then False
      else CountAlive (ListSessionsByTeam (c_store c) (team_Workspace t) (team_Name t)) = 0)"

text \<open>What \<open>reconcileRole\<close> hands to \<open>applyRolePlan\<close>: nothing for a withheld cold spawn.\<close>

definition reconcile_plan :: "time \<Rightarrow> ExposureReader \<Rightarrow> (bool \<times> string) option \<Rightarrow> Controller \<Rightarrow> Team \<Rightarrow> Role \<Rightarrow> RolePlan option" where
  "reconcile_plan now src bus c t role =
     (let plan = planRole now src bus c t role (team_Generation t)
      in if plan_Action plan = RoleSpawn \<and> postureWithholds c t then None else Some plan)"

definition shiftRepairGeneration :: "Team \<Rightarrow> string \<Rightarrow> int" where
  "shiftRepairGeneration t role =
     (let shifted = min (sh_RoleIndex (team_Shift t)) (length (sh_Roles (team_Shift t)))
      in if role \<in> set (take shifted (sh_Roles (team_Shift t))) then team_Generation t
         else sh_OldGeneration (team_Shift t))"

end
