(* ===== verification/Planner_Properties.thy ===== *)
theory Planner_Properties
  imports Planner
begin

text \<open>
  What the convergence decision promises: it never overshoots, it says so whenever it spawns less
  than the deficit, none of its gates can be bypassed, its choice of sessions to shed does not depend
  on the order the store listed them in, and a team held at the start line is never cold-started.
\<close>

section \<open>The shape of a plan\<close>

lemmas plan_defs = planRole_def plan_spawn_def plan_backoff_def plan_admit_def plan_shed_def

definition plan_base :: "RolePlan \<Rightarrow> bool" where
  "plan_base p \<longleftrightarrow> plan_Spawn p = 0 \<and> plan_Delete p = [] \<and> plan_Hold p = HoldNone \<and> plan_Action p = RoleSteady"

text \<open>A plan for a deficit: it spawns at most the deficit, deletes nothing, and the hold is named
  exactly when it spawns less.\<close>

definition deficit_plan :: "RolePlan \<Rightarrow> bool" where
  "deficit_plan p \<longleftrightarrow> 0 \<le> plan_Spawn p \<and> plan_Actual p + plan_Spawn p \<le> plan_Desired p \<and> plan_Delete p = [] \<and>
     (plan_Hold p = HoldNone \<longleftrightarrow> plan_Spawn p = plan_Desired p - plan_Actual p) \<and>
     plan_Action p = (if 0 < plan_Spawn p then RoleSpawn else RoleHold)"

lemma held_is_deficit:
  assumes "plan_base p" and "plan_Actual p < plan_Desired p" and "h \<noteq> HoldNone"
  shows "deficit_plan (p\<lparr>plan_Action := RoleHold, plan_Hold := h, plan_HoldDetail := d\<rparr>)"
  using assms by (simp add: plan_base_def deficit_plan_def)

lemma plan_fields_indep [simp]:
  "deficit_plan (p\<lparr>plan_exposure := e\<rparr>) = deficit_plan p" "deficit_plan (p\<lparr>plan_bus := b\<rparr>) = deficit_plan p"
  "plan_base (p\<lparr>plan_exposure := e\<rparr>) = plan_base p" "plan_base (p\<lparr>plan_bus := b\<rparr>) = plan_base p"
  "plan_base (p\<lparr>plan_admission := a\<rparr>) = plan_base p"
  by (simp_all add: deficit_plan_def plan_base_def)

lemma plan_admit_deficit:
  assumes "plan_base p" and "plan_Actual p < plan_Desired p"
  shows "deficit_plan (plan_admit c t role p)"
proof -
  let ?v = "\<lambda>want. admissionVerdict (c_store c) t role want"
  have w: "0 < plan_Desired p - plan_Actual p" using assms by simp
  note gate = repair_gate.granted_nonneg repair_gate.granted_le repair_gate.refused_iff
  have "0 \<le> Granted (?v (plan_Desired p - plan_Actual p))"
    "Granted (?v (plan_Desired p - plan_Actual p)) \<le> plan_Desired p - plan_Actual p"
    "Refused (?v (plan_Desired p - plan_Actual p)) \<longleftrightarrow>
       Granted (?v (plan_Desired p - plan_Actual p)) < plan_Desired p - plan_Actual p"
    unfolding admissionVerdict_def using gate[OF w] by blast+
  then show ?thesis using assms by (auto simp: plan_admit_def Let_def plan_base_def deficit_plan_def)
qed

lemma plan_spawn_deficit:
  assumes "plan_base p" and "plan_Actual p < plan_Desired p"
  shows "deficit_plan (plan_spawn now src bus c t role p)"
  using assms held_is_deficit plan_admit_deficit
  by (auto simp: plan_spawn_def plan_backoff_def Let_def split: prod.splits option.splits bool.splits)

lemma plan_admit_counts [simp]:
  "plan_Desired (plan_admit c t role p) = plan_Desired p" "plan_Actual (plan_admit c t role p) = plan_Actual p"
  by (simp_all add: plan_admit_def Let_def)

lemma plan_backoff_counts [simp]:
  "plan_Desired (plan_backoff now c t role p) = plan_Desired p" "plan_Actual (plan_backoff now c t role p) = plan_Actual p"
  by (simp_all add: plan_backoff_def split: option.splits)

lemma plan_spawn_counts [simp]:
  "plan_Desired (plan_spawn now src bus c t role p) = plan_Desired p"
  "plan_Actual (plan_spawn now src bus c t role p) = plan_Actual p"
  by (simp_all add: plan_spawn_def Let_def split: prod.splits option.splits bool.splits)

lemma planRole_counts [simp]:
  "plan_Desired (planRole now src bus c t role gen) = DesiredReplicas t role"
  "plan_Actual (planRole now src bus c t role gen) = actual_slots c t role"
  by (simp_all add: planRole_def plan_shed_def Let_def split: option.splits)

lemma planRole_deficit:
  assumes "0 \<le> DesiredReplicas t role" and "actual_slots c t role < DesiredReplicas t role"
  shows "deficit_plan (planRole now src bus c t role gen)"
proof (cases "role_Schedule role = None \<or> holdForFiring now (role_schedule c t role) = None")
  case True
  with assms show ?thesis
    by (auto simp: planRole_def Let_def plan_base_def intro!: plan_spawn_deficit split: option.splits)
next
  case False
  with assms show ?thesis by (auto simp: planRole_def Let_def deficit_plan_def)
qed

lemma planRole_satisfied:
  assumes "DesiredReplicas t role \<le> actual_slots c t role \<or> DesiredReplicas t role < 0"
  shows "plan_Spawn (planRole now src bus c t role gen) = 0" "plan_Hold (planRole now src bus c t role gen) = HoldNone"
  using assms by (auto simp: planRole_def plan_shed_def Let_def)

lemma planRole_delete:
  "plan_Delete (planRole now src bus c t role gen) =
     (if 0 \<le> DesiredReplicas t role \<and> DesiredReplicas t role < actual_slots c t role
      then take (nat (actual_slots c t role - DesiredReplicas t role)) (rev (sortNewestFirst (role_sessions c t role)))
      else [])"
proof (cases "0 \<le> DesiredReplicas t role \<and> actual_slots c t role < DesiredReplicas t role")
  case True
  with planRole_deficit[of t role c now src bus gen] show ?thesis by (simp add: deficit_plan_def)
next
  case False
  then show ?thesis by (auto simp: planRole_def plan_shed_def Let_def)
qed

text \<open>
  The plan never overshoots: it spawns only into a deficit and never past the declared count,
  deletes only from an excess and never more sessions than the excess, and never does both. A
  negative declared count plans nothing.
\<close>

theorem plan_never_overshoots:
  fixes now src bus c t role gen
  defines "p \<equiv> planRole now src bus c t role gen"
  shows "0 \<le> plan_Spawn p \<and> plan_Spawn p \<le> max 0 (plan_Desired p - plan_Actual p) \<and>
    int (length (plan_Delete p)) \<le> max 0 (plan_Actual p - plan_Desired p) \<and>
    (plan_Spawn p = 0 \<or> plan_Delete p = [])"
proof (cases "0 \<le> DesiredReplicas t role \<and> actual_slots c t role < DesiredReplicas t role")
  case True
  with planRole_deficit[of t role c now src bus gen] show ?thesis by (auto simp: p_def deficit_plan_def)
next
  case False
  with planRole_satisfied[of t role c now src bus gen] show ?thesis by (auto simp: p_def planRole_delete)
qed

text \<open>
  A hold is reported exactly when it bites: on a role below its declared count the plan names a
  hold reason if and only if it spawns fewer sessions than the deficit, and its verb is a spawn when
  it spawns anything and a hold when it spawns nothing.
\<close>

theorem plan_hold_named:
  assumes "0 \<le> DesiredReplicas t role" and "actual_slots c t role < DesiredReplicas t role"
  shows "(plan_Hold (planRole now src bus c t role gen) = HoldNone \<longleftrightarrow>
            plan_Spawn (planRole now src bus c t role gen) = DesiredReplicas t role - actual_slots c t role) \<and>
         plan_Action (planRole now src bus c t role gen) =
           (if 0 < plan_Spawn (planRole now src bus c t role gen) then RoleSpawn else RoleHold)"
  using planRole_deficit[OF assms] by (simp add: deficit_plan_def)

definition quiet_reader :: ExposureReader where "quiet_reader = (\<lambda>_ _ _. Inr [])"

definition example_ctl :: Controller where
  "example_ctl = NewController (NewStore\<lparr>st_teams := [(''ws/squad'', example_team)],
     st_sessions := map (\<lambda>x. (session_key x, x)) [example_session ''squad-dev-g1-0'' ''dev'' 1 5]\<rparr>)"

lemma example_ctl_counts:
  "DesiredReplicas example_team (example_role ''dev'' 2) = 2" "actual_slots example_ctl example_team (example_role ''dev'' 2) = 1"
  by (simp_all add: DesiredReplicas_def actual_slots_def role_sessions_def withoutRetiring_def isRetiring_def
      ListSessionsByTeamRole_def ListSessions_def example_ctl_def NewController_def slot_counts slot_simps example_defs)

theorem plan_hold_named_witness:
  "plan_Hold (planRole 9 quiet_reader (Some (False, ''down'')) example_ctl example_team (example_role ''dev'' 2) 1) = HoldBus \<and>
   plan_Spawn (planRole 9 quiet_reader (Some (False, ''down'')) example_ctl example_team (example_role ''dev'' 2) 1) \<noteq> 1"
proof -
  let ?p = "planRole 9 quiet_reader (Some (False, ''down'')) example_ctl example_team (example_role ''dev'' 2) 1"
  have "plan_Hold ?p = HoldBus"
    using example_ctl_counts
    by (simp add: plan_defs Let_def hibernateBlocks_def ExposureVerdict_def example_defs)
  then show ?thesis
    using plan_hold_named[of example_team "example_role ''dev'' 2" example_ctl 9 quiet_reader "Some (False, ''down'')" 1]
      example_ctl_counts by simp
qed

section \<open>The gates\<close>

definition bus_open :: "(bool \<times> string) option \<Rightarrow> bool" where
  "bus_open bus = (case bus of Some (ready, _) \<Rightarrow> ready | None \<Rightarrow> True)"

definition backoff_open :: "time \<Rightarrow> Controller \<Rightarrow> string \<Rightarrow> bool" where
  "backoff_open now c k = (case health_at c k of Some rh \<Rightarrow> rh_BackoffUntil rh \<le> now | None \<Rightarrow> True)"

definition firing_open :: "time \<Rightarrow> Controller \<Rightarrow> Team \<Rightarrow> Role \<Rightarrow> bool" where
  "firing_open now c t role = (case role_Schedule role of None \<Rightarrow> True | Some _ \<Rightarrow>
     let st = role_schedule c t role
     in \<not> ss_Frozen st \<and> ss_Firing st \<noteq> [] \<and> \<not> ss_Settled st \<and> ss_RetryAfter st \<le> now)"

definition gates_open :: "time \<Rightarrow> ExposureReader \<Rightarrow> (bool \<times> string) option \<Rightarrow> Controller \<Rightarrow> Team \<Rightarrow> Role \<Rightarrow> bool" where
  "gates_open now src bus c t role \<longleftrightarrow>
     firing_open now c t role \<and> \<not> fst (hibernateBlocks (c_store c) now t role) \<and>
     \<not> fst (ExposureVerdict src (team_Workspace t) (team_Name t) (Some role)) \<and> bus_open bus \<and>
     backoff_open now c (rkey t role)"

text \<open>What the admission gate grants to a deficit.\<close>

definition admitted :: "Controller \<Rightarrow> Team \<Rightarrow> Role \<Rightarrow> int" where
  "admitted c t role =
     (let want = DesiredReplicas t role - actual_slots c t role
      in if Declared (team_Budget t) \<and> sh_Phase (team_Shift t) = ShiftNone
         then Granted (admissionVerdict (c_store c) t role want) else want)"

lemma firing_open_iff:
  "role_Schedule role = Some y \<Longrightarrow> firing_open now c t role \<longleftrightarrow> holdForFiring now (role_schedule c t role) = None"
  by (auto simp: firing_open_def holdForFiring_def Let_def)

lemma plan_admit_spawn:
  assumes "plan_Spawn p = 0" and "plan_Actual p < plan_Desired p"
    and "plan_Desired p = DesiredReplicas t role" and "plan_Actual p = actual_slots c t role"
  shows "plan_Spawn (plan_admit c t role p) = max 0 (admitted c t role)"
  using plan_admit_deficit[of "p\<lparr>plan_Delete := [], plan_Hold := HoldNone, plan_Action := RoleSteady\<rparr>" c t role] assms
  by (auto simp: plan_admit_def admitted_def Let_def plan_base_def deficit_plan_def split: if_splits)

lemma plan_spawn_spawn:
  assumes "plan_Spawn p = 0" and "plan_Actual p < plan_Desired p"
    and "plan_Desired p = DesiredReplicas t role" and "plan_Actual p = actual_slots c t role"
    and "firing_open now c t role"
  shows "plan_Spawn (plan_spawn now src bus c t role p) =
    (if gates_open now src bus c t role then max 0 (admitted c t role) else 0)"
  using assms
  by (auto simp: plan_spawn_def plan_backoff_def gates_open_def bus_open_def backoff_open_def Let_def plan_admit_spawn
      split: prod.splits option.splits bool.splits)

text \<open>
  C2. No gate of the reconciler can be bypassed, and nothing else withholds a spawn: on a role below
  its declared count the plan spawns exactly what admission grants when the schedule's firing, the
  hibernate mark, the exposure record, the managed bus and the crash-loop backoff window are all
  open, and nothing at all when any one of them is closed.
\<close>

theorem plan_spawn_gated:
  assumes "0 \<le> DesiredReplicas t role" and "actual_slots c t role < DesiredReplicas t role"
  shows "plan_Spawn (planRole now src bus c t role gen) =
    (if gates_open now src bus c t role then max 0 (admitted c t role) else 0)"
proof (cases "firing_open now c t role")
  case True
  then have "(if role_Schedule role = None then None else holdForFiring now (role_schedule c t role)) = None"
    using firing_open_iff by auto
  with True assms show ?thesis by (simp add: planRole_def Let_def plan_spawn_spawn)
next
  case False
  then obtain y d where "role_Schedule role = Some y" "holdForFiring now (role_schedule c t role) = Some d"
    using firing_open_iff[of role _ now c t] by (cases "role_Schedule role") (auto simp: firing_open_def)
  with False assms show ?thesis by (simp add: planRole_def Let_def gates_open_def)
qed

theorem plan_spawn_gated_witness:
  "plan_Spawn (planRole 9 quiet_reader None example_ctl example_team (example_role ''dev'' 2) 1) = 1 \<and>
   plan_Spawn (planRole 9 quiet_reader (Some (False, ''down'')) example_ctl example_team (example_role ''dev'' 2) 1) = 0"
proof -
  have "health_at example_ctl k = None" for k by (simp add: example_ctl_def NewController_def)
  then show ?thesis
    using plan_spawn_gated[of example_team "example_role ''dev'' 2" example_ctl 9 quiet_reader None 1]
      plan_spawn_gated[of example_team "example_role ''dev'' 2" example_ctl 9 quiet_reader "Some (False, ''down'')" 1]
      example_ctl_counts
    by (simp add: gates_open_def bus_open_def backoff_open_def firing_open_def admitted_def Declared_def
        hibernateBlocks_def ExposureVerdict_def example_defs)
qed

section \<open>The order of the listing\<close>

lemma newer_trans: "\<not> newer b a \<Longrightarrow> \<not> newer c b \<Longrightarrow> \<not> newer c a"
  by (auto simp: newer_def split: if_splits)

lemma newer_asym: "newer a b \<Longrightarrow> \<not> newer b a"
  by (auto simp: newer_def split: if_splits)

lemma newer_total: "sess_Name a \<noteq> sess_Name b \<Longrightarrow> newer a b \<or> newer b a"
  by (auto simp: newer_def split: if_splits)

definition keyed_sessions :: "Store \<Rightarrow> bool" where
  "keyed_sessions s \<longleftrightarrow> list_all (\<lambda>(k, x). k = session_key x) (st_sessions s) \<and> distinct (map fst (st_sessions s))"

lemma keyed_names:
  assumes "keyed_sessions s" and "a \<in> set (ListSessionsByTeamRole s ws team role)"
    and "b \<in> set (ListSessionsByTeamRole s ws team role)" and "a \<noteq> b"
  shows "sess_Name a \<noteq> sess_Name b"
proof
  assume n: "sess_Name a = sess_Name b"
  from assms have "(session_key a, a) \<in> set (st_sessions s)" "(session_key b, b) \<in> set (st_sessions s)"
    "sess_Workspace a = ws" "sess_Workspace b = ws"
    by (auto simp: ListSessionsByTeamRole_def ListSessions_def keyed_sessions_def list_all_iff)
  with n assms(1,4) show False
    by (auto simp: keyed_sessions_def session_key_def dest: eq_key_imp_eq_value)
qed

definition same_listing :: "Store \<Rightarrow> Store \<Rightarrow> bool" where
  "same_listing s s' \<longleftrightarrow> s' = s\<lparr>st_sessions := st_sessions s'\<rparr> \<and> mset (st_sessions s') = mset (st_sessions s)"

lemma same_listing_msets:
  assumes "same_listing s s'"
  shows "mset (ListSessionsByTeamRole s' ws team role) = mset (ListSessionsByTeamRole s ws team role)"
    and "mset (ListSessionsByTeam s' ws team) = mset (ListSessionsByTeam s ws team)"
    and "GetScheduleStatus s' k = GetScheduleStatus s k"
proof -
  have m: "mset (ListSessions s') = mset (ListSessions s)"
    using assms by (simp add: same_listing_def ListSessions_def)
  show "mset (ListSessionsByTeamRole s' ws team role) = mset (ListSessionsByTeamRole s ws team role)"
    "mset (ListSessionsByTeam s' ws team) = mset (ListSessionsByTeam s ws team)"
    using m by (simp_all add: ListSessionsByTeamRole_def ListSessionsByTeam_def)
  obtain ss where "s' = s\<lparr>st_sessions := ss\<rparr>" using assms by (auto simp: same_listing_def)
  then show "GetScheduleStatus s' k = GetScheduleStatus s k" by (simp add: GetScheduleStatus_def)
qed

lemma list_ex_mset: "mset xs = mset ys \<Longrightarrow> list_ex P xs = list_ex P ys"
  by (metis list_ex_iff set_mset_mset)

lemma wake_loop_order:
  assumes "same_listing s s'"
  shows "wake_loop s' t since now sups = wake_loop s t since now sups"
  using list_ex_mset[OF same_listing_msets(1)[OF assms]] by (induction sups) (simp_all add: Let_def)

lemma hibernateBlocks_order:
  assumes "same_listing s s'"
  shows "hibernateBlocks s' now t role = hibernateBlocks s now t role"
proof -
  have "wakeAllowsWorkers s' t now = wakeAllowsWorkers s t now"
    using wake_loop_order[OF assms] by (simp add: wakeAllowsWorkers_def del: wake_loop.simps split: list.splits)
  then show ?thesis by (simp add: hibernateBlocks_def)
qed

lemma admissionVerdict_order: "same_listing s s' \<Longrightarrow> admissionVerdict s' t role want = admissionVerdict s t role want"
  using count_if_mset[OF same_listing_msets(2)] by (simp add: admissionVerdict_def slot_counts)

lemma role_sessions_order:
  assumes "same_listing (c_store c) (c_store c')"
  shows "mset (role_sessions c' t role) = mset (role_sessions c t role)"
  using same_listing_msets(1)[OF assms] by (simp add: role_sessions_def withoutRetiring_def)

lemma role_sessions_sorted:
  assumes "same_listing (c_store c) (c_store c')" and "keyed_sessions (c_store c)"
  shows "sortNewestFirst (role_sessions c' t role) = sortNewestFirst (role_sessions c t role)"
  unfolding sortNewestFirst_def
proof (rule sort_by_perm[symmetric])
  show "mset (role_sessions c t role) = mset (role_sessions c' t role)" using role_sessions_order[OF assms(1)] by simp
next
  fix a b assume "a \<in> set (role_sessions c t role)" "b \<in> set (role_sessions c t role)" "a \<noteq> b"
  then show "newer a b \<or> newer b a"
    by (intro newer_total keyed_names[OF assms(2)]) (auto simp: role_sessions_def withoutRetiring_def)
qed (auto dest: newer_trans newer_asym)

text \<open>
  The plan does not depend on the order the store lists its sessions in, which Go randomises: two
  controllers that differ only in that order compute the same plan, down to the sessions to delete
  and their order (ArcavenAE/marvel#348).
\<close>

theorem plan_ignores_listing_order:
  assumes "keyed_sessions (c_store c)" and "same_listing (c_store c) s'"
  shows "planRole now src bus (c\<lparr>c_store := s'\<rparr>) t role gen = planRole now src bus c t role gen"
proof -
  let ?c = "c\<lparr>c_store := s'\<rparr>"
  have l: "same_listing (c_store c) (c_store ?c)" using assms(2) by simp
  note m = role_sessions_order[OF l, of t role]
  have sched: "role_schedule ?c t role = role_schedule c t role"
    using same_listing_msets(3)[OF l] by (simp add: role_schedule_def)
  then have act: "actual_slots ?c t role = actual_slots c t role"
    using count_if_mset[OF m] by (simp add: actual_slots_def slot_counts)
  have spawn: "plan_spawn now src bus ?c t role p = plan_spawn now src bus c t role p" for p
  proof -
    have "plan_admit ?c t role p = plan_admit c t role p" for p
      using admissionVerdict_order[OF assms(2), of t role] by (simp add: plan_admit_def Let_def)
    then have bk: "plan_backoff now ?c t role p = plan_backoff now c t role p" for p
      by (simp add: plan_backoff_def split: option.splits)
    have hib: "hibernateBlocks (c_store ?c) now t role = hibernateBlocks (c_store c) now t role"
      using hibernateBlocks_order[OF assms(2)] by simp
    show ?thesis unfolding plan_spawn_def hib bk by (rule refl)
  qed
  have shed: "plan_shed (role_sessions ?c t role) p = plan_shed (role_sessions c t role) p" for p
    using role_sessions_sorted[OF l assms(1)] by (simp add: plan_shed_def)
  show ?thesis unfolding planRole_def Let_def sched act spawn shed by (rule refl)
qed

definition two_dev_ctl :: "(string \<times> Session) list \<Rightarrow> Controller" where
  "two_dev_ctl ss = NewController (NewStore\<lparr>st_sessions := ss\<rparr>)"

definition dev_a :: "string \<times> Session" where "dev_a = (''ws/a'', example_session ''a'' ''dev'' 1 5)"
definition dev_b :: "string \<times> Session" where "dev_b = (''ws/b'', example_session ''b'' ''dev'' 2 5)"

theorem plan_ignores_listing_order_witness:
  "planRole 9 quiet_reader None (two_dev_ctl [dev_b, dev_a]) example_team (example_role ''dev'' 1) 2 =
   planRole 9 quiet_reader None (two_dev_ctl [dev_a, dev_b]) example_team (example_role ''dev'' 1) 2"
proof -
  let ?s = "\<lambda>ss. NewStore\<lparr>st_sessions := ss\<rparr>"
  have "keyed_sessions (c_store (two_dev_ctl [dev_a, dev_b]))" "same_listing (?s [dev_a, dev_b]) (?s [dev_b, dev_a])"
    by (simp_all add: keyed_sessions_def same_listing_def two_dev_ctl_def NewController_def dev_a_def dev_b_def
        session_key_def example_defs)
  then show ?thesis
    using plan_ignores_listing_order[of "two_dev_ctl [dev_a, dev_b]" "?s [dev_b, dev_a]"]
    by (simp add: two_dev_ctl_def NewController_def)
qed

section \<open>Which sessions are shed\<close>

lemma sorted_newest: "sorted_wrt (\<lambda>a b. \<not> newer b a) (sortNewestFirst ss)"
  unfolding sortNewestFirst_def by (rule sorted_sort_by) (auto dest: newer_trans newer_asym)

text \<open>
  A scale-down sheds the oldest sessions and keeps the newest: the rows the plan deletes are
  rows of the role that are not retiring, no row it deletes is newer than one it keeps, and it
  lists them oldest first.
\<close>

theorem shed_oldest_first:
  fixes now src bus c t role gen
  defines "del \<equiv> plan_Delete (planRole now src bus c t role gen)"
  shows "\<exists>kept. mset (role_sessions c t role) = mset del + mset kept \<and>
    (\<forall>d k. d \<in> set del \<and> k \<in> set kept \<longrightarrow> \<not> newer d k) \<and> sorted_wrt (\<lambda>a b. \<not> newer a b) del"
proof -
  let ?s = "sortNewestFirst (role_sessions c t role)"
  obtain n where d: "del = take n (rev ?s)" unfolding del_def planRole_delete by (metis take0)
  let ?kept = "drop n (rev ?s)"
  have rs: "sorted_wrt (\<lambda>a b. \<not> newer a b) (take n (rev ?s) @ ?kept)"
    using sorted_newest by (simp add: sorted_wrt_rev)
  have "mset (role_sessions c t role) = mset (take n (rev ?s) @ ?kept)"
    by (simp only: append_take_drop_id) (simp add: sortNewestFirst_def)
  with rs d show ?thesis
    unfolding sorted_wrt_append by (intro exI[of _ ?kept]) (simp only: mset_append simp_thms, blast)
qed

theorem shed_oldest_first_witness:
  "\<exists>kept. mset [snd dev_a, snd dev_b] = mset [snd dev_a] + mset kept \<and>
    (\<forall>d k. d \<in> set [snd dev_a] \<and> k \<in> set kept \<longrightarrow> \<not> newer d k) \<and> sorted_wrt (\<lambda>a b. \<not> newer a b) [snd dev_a]"
proof -
  let ?c = "two_dev_ctl [dev_b, dev_a]"
  have rs: "role_sessions ?c example_team (example_role ''dev'' 1) = [snd dev_b, snd dev_a]"
    by (simp add: role_sessions_def withoutRetiring_def isRetiring_def ListSessionsByTeamRole_def ListSessions_def
        two_dev_ctl_def NewController_def dev_a_def dev_b_def example_defs)
  have "plan_Delete (planRole 9 quiet_reader None ?c example_team (example_role ''dev'' 1) 2) = [snd dev_a]"
    unfolding planRole_delete actual_slots_def rs
    by (simp add: slot_counts slot_simps DesiredReplicas_def sortNewestFirst_def
        sort_by_def newer_def dev_a_def dev_b_def example_defs)
  with shed_oldest_first[of ?c example_team "example_role ''dev'' 1" 9 quiet_reader None 2] rs
  show ?thesis by (simp add: add_mset_commute)
qed

section \<open>The posture gate\<close>

text \<open>
  The start-line posture withholds exactly the cold spawn: the plan of a role is dropped if and
  only if it would spawn, the operator has not converged the team, and no session of the team is
  alive. Top-ups of a live team, scale-downs and holds always go through.
\<close>

theorem posture_withholds_cold_spawn_only:
  "reconcile_plan now src bus c t role = None \<longleftrightarrow>
     plan_Action (planRole now src bus c t role (team_Generation t)) = RoleSpawn \<and>
     team_ConvergencePosture t \<noteq> PostureConverge \<and>
     \<not> list_ex alive (ListSessionsByTeam (c_store c) (team_Workspace t) (team_Name t))"
proof -
  have "CountAlive ss = 0 \<longleftrightarrow> \<not> list_ex alive ss" for ss
    by (auto simp: CountAlive_eq filter_empty_conv list_ex_iff)
  moreover have "PostureHold \<noteq> PostureConverge" by (simp add: PostureHold_def PostureConverge_def)
  ultimately show ?thesis by (auto simp: reconcile_plan_def postureWithholds_def Posture_def Let_def)
qed

end
