(* ===== verification/Clock_Properties.thy ===== *)
theory Clock_Properties
  imports Next_Firing
begin

text \<open>
  The schedule clock against the wall clock, for zones with a fixed offset (\<open>Etc/UTC\<close> and the
  \<open>+HH:MM\<close> spellings): \<open>NextFiring\<close> is the least firing, \<open>CatchUp\<close> counts every due time of a sleep and
  finds the newest, and some accepted expressions never fire.
\<close>

section \<open>The next firing is the least\<close>

lemma pick_after_least:
  assumes "0 \<le> after" and "best = 0 \<or> after < best"
  defines "r \<equiv> \<lambda>ts. pick_after after best ts"
  shows "(r ts = 0 \<and> best = 0 \<and> (\<forall>t\<in>set ts. t \<le> after)) \<or>
    (after < r ts \<and> (r ts \<in> set ts \<or> r ts = best) \<and> (\<forall>t\<in>set ts. after < t \<longrightarrow> r ts \<le> t) \<and> (best = 0 \<or> r ts \<le> best))"
  unfolding r_def
  using assms(2)
proof (induction ts arbitrary: best)
  case (Cons t ts)
  let ?b = "if after < t \<and> (is_zero best \<or> t < best) then t else best"
  have b: "?b = 0 \<or> after < ?b" using Cons.prems assms(1) by (auto simp: is_zero_def)
  have e: "pick_after after best (t # ts) = pick_after after ?b ts" by (simp add: pick_after_def)
  show ?case
    unfolding e using Cons.IH[OF b] Cons.prems assms(1) by (auto simp: is_zero_def split: if_splits)
qed (use assms(1) in \<open>auto simp: pick_after_def\<close>)

lemma pick_earlier_id: "\<forall>t\<in>set ts. best \<le> t \<Longrightarrow> pick_earlier after best ts = best"
  by (induction ts) (auto simp: pick_earlier_def)

abbreviation due_after :: "cronSpec \<Rightarrow> int \<Rightarrow> time \<Rightarrow> time \<Rightarrow> bool" where
  "due_after c off after t \<equiv> fires_at c (FixedZone off) t \<and> after < t"

lemma next_loop_fixed:
  fixes off
  defines "loc \<equiv> FixedZone off"
  assumes "0 \<le> after" and "\<forall>t. due_after c off after t \<longrightarrow> localDate loc after - 1 + int i \<le> localDate loc t"
  shows "case next_loop c loc after (localDate loc after - 1) i n 0 of
      None \<Rightarrow> \<forall>t. due_after c off after t \<longrightarrow> localDate loc after - 1 + int (i + n) \<le> localDate loc t
    | Some t \<Rightarrow> due_after c off after t \<and> (\<forall>t'. due_after c off after t' \<longrightarrow> t \<le> t')"
  using assms(3)
proof (induction n arbitrary: i)
  case (Suc n)
  let ?d = "localDate loc after - 1 + int i"
  let ?ts = "firingsOn c ?d loc"
  let ?b = "pick_after after 0 ?ts"
  have ts: "set ?ts = {t. fires_at c (FixedZone off) t \<and> localDate loc t = ?d}"
    unfolding loc_def by (rule set_firingsOn_fixed)
  from pick_after_least[OF assms(2), of 0 ?ts]
  consider (none) "?b = 0" "\<forall>t\<in>set ?ts. t \<le> after"
    | (some) "after < ?b" "?b \<in> set ?ts" "\<forall>t\<in>set ?ts. after < t \<longrightarrow> ?b \<le> t"
    using assms(2) by auto
  then show ?case
  proof cases
    case none
    have "\<forall>t. due_after c off after t \<longrightarrow> localDate loc after - 1 + int (i + 1) \<le> localDate loc t"
    proof (intro allI impI)
      fix t assume t: "due_after c off after t"
      with none(2) ts have "localDate loc t \<noteq> ?d" by force
      with Suc.prems t show "localDate loc after - 1 + int (i + 1) \<le> localDate loc t" by force
    qed
    from Suc.IH[OF this] none(1) show ?thesis by (auto simp: is_zero_def split: option.splits)
  next
    case some
    have "localDate loc ?b = ?d" using some(2) ts by auto
    have "0 < i"
    proof (rule ccontr)
      assume "\<not> 0 < i"
      then have "localDate loc ?b < localDate loc after" using \<open>localDate loc ?b = ?d\<close> by simp
      then have "?b < after" unfolding loc_def by (rule localDate_mono)
      with some(1) show False by simp
    qed
    have "?b \<le> t" if "localDate loc t > ?d" for t
      using that \<open>localDate loc ?b = ?d\<close> localDate_mono[of off ?b t] unfolding loc_def by simp
    moreover have "set (firingsOn c (?d + 1) loc) = {t. fires_at c (FixedZone off) t \<and> localDate loc t = ?d + 1}"
      unfolding loc_def by (rule set_firingsOn_fixed)
    ultimately have e: "pick_earlier after ?b (firingsOn c (?d + 1) loc) = ?b" by (intro pick_earlier_id) auto
    have "?b \<le> t" if t: "due_after c off after t" for t
    proof (cases "localDate loc t = ?d")
      case True
      with t ts some(3) show ?thesis by auto
    next
      case False
      with Suc.prems t have "?d < localDate loc t" by force
      then show ?thesis by fact
    qed
    moreover have "due_after c off after ?b" using some ts by auto
    moreover have "next_loop c loc after (localDate loc after - 1) i (Suc n) 0 = Some ?b"
      using e some(1) \<open>0 < i\<close> assms(2) by (simp add: is_zero_def Let_def algebra_simps)
    ultimately show ?thesis by simp
  qed
qed (use assms(3) in simp)

lemma NextFiring_fixed:
  assumes "loadScheduleZone tzdb (sp_Timezone p) = Inr (FixedZone off)" and "compileCron (sp_Cron p) = Inr c"
    and "0 \<le> after"
  shows "case NextFiring tzdb p after of
      Inr t \<Rightarrow> fires_at c (FixedZone off) t \<and> after < t \<and> (\<forall>t'. fires_at c (FixedZone off) t' \<and> after < t' \<longrightarrow> t \<le> t')
    | Inl e \<Rightarrow> e = ErrNoFiring \<and> (\<forall>t. fires_at c (FixedZone off) t \<and> after < t \<longrightarrow>
                  localDate (FixedZone off) after - 1 + 9 * 366 \<le> localDate (FixedZone off) t)"
proof -
  let ?l = "FixedZone off"
  have "\<forall>t. due_after c off after t \<longrightarrow> localDate ?l after - 1 + int 0 \<le> localDate ?l t"
  proof (intro allI impI)
    fix t assume "due_after c off after t"
    then have "\<not> localDate ?l t < localDate ?l after" using localDate_mono[of off t after] by auto
    then show "localDate ?l after - 1 + int 0 \<le> localDate ?l t" by simp
  qed
  from next_loop_fixed[OF assms(3) this, of maxScheduleScanDays] show ?thesis
    using assms(1,2) by (auto simp: NextFiring_def maxScheduleScanDays_def split: option.splits)
qed

text \<open>
  C14. The schedule clock finds the next firing: in a zone with a fixed offset \<open>NextFiring\<close> returns the
  earliest instant after the given one at which the zone's wall clock reads a whole minute the cron
  fields admit, and it reports that there is none only if no such instant falls within its scan of
  nine years of calendar days.
\<close>

theorem NextFiring_least:
  assumes "loadScheduleZone tzdb (sp_Timezone p) = Inr (FixedZone off)" and "compileCron (sp_Cron p) = Inr c"
    and "0 \<le> after"
  shows "case NextFiring tzdb p after of
      Inr t \<Rightarrow> fires_at c (FixedZone off) t \<and> after < t \<and> (\<forall>t'. fires_at c (FixedZone off) t' \<and> after < t' \<longrightarrow> t \<le> t')
    | Inl e \<Rightarrow> e = ErrNoFiring \<and> (\<forall>t. fires_at c (FixedZone off) t \<and> after < t \<longrightarrow>
                  localDate (FixedZone off) after - 1 + 9 * 366 \<le> localDate (FixedZone off) t)"
  by (rule NextFiring_fixed) fact+

text \<open>The nightly schedule of the witness: 02:30 every day at a fixed offset.\<close>

definition nightly :: SchedulePolicy where
  "nightly = \<lparr>sp_Cron = ''30 2 * * *'', sp_Timezone = ''-06:00'', sp_DSTAck = False, sp_Concurrency = [],
     sp_StartingDeadline = 0, sp_ActiveDeadline = 0, sp_Jitter = 0, sp_StaleAfter = 0, sp_Retries = 0,
     sp_OnFailure = [], sp_History = None, sp_Suspend = False\<rparr>"

lemma nightly_zone: "loadScheduleZone tzdb (sp_Timezone nightly) = Inr (FixedZone (- 21600))"
  by (simp add: loadScheduleZone_def nightly_def parseFixedOffset_def has_prefix_def atoi_def is_digit_def
      digits_val_def digit_val_def)

lemma star_matches:
  assumes "\<forall>n. bit (cs_dom c) n \<longleftrightarrow> int n \<in> {1..31}" "\<forall>n. bit (cs_month c) n \<longleftrightarrow> int n \<in> {1..12}"
    "\<forall>n. int n \<in> {0..6} \<longrightarrow> bit (cs_dow c) n"
  shows "matchesDay c d"
  using assms month_dom_bounds[of d] dom_le_31[of d] weekday_bounds[of d]
  by (simp add: matchesDay_def has_bit_iff Let_def nat_le_iff le_nat_iff Suc_le_eq)

lemma nightly_compiles:
  "\<exists>c. compileCron (sp_Cron nightly) = Inr c \<and> (\<forall>d. fires_at c (FixedZone (- 21600)) (utc_wall d 2 30 + 21600 * second))"
proof -
  have d: "itoa 30 = ''30''" "itoa 2 = ''2''" by (code_simp+)
  have ok: "list_all2 field_ok [[CNum 30], [CNum 2], [CStar], [CStar], [CStar]] cronFields"
    by (simp add: field_ok_def cronFields_def)
  have r: "render_cron [[CNum 30], [CNum 2], [CStar], [CStar], [CStar]] = sp_Cron nightly"
    by (simp add: render_cron_def render_field_def nightly_def d)
  from compile_render[OF ok] obtain c where c: "compileCron (sp_Cron nightly) = Inr c"
    "\<And>n. bit (cs_minute c) n \<longleftrightarrow> int n \<in> field_set (0, 59) [CNum 30]" "\<And>n. bit (cs_hour c) n \<longleftrightarrow> int n \<in> field_set (0, 23) [CNum 2]"
    "\<And>n. bit (cs_dom c) n \<longleftrightarrow> int n \<in> field_set (1, 31) [CStar]" "\<And>n. bit (cs_month c) n \<longleftrightarrow> int n \<in> field_set (1, 12) [CStar]"
    "\<And>n. bit (cs_dow c) n \<longleftrightarrow> int n \<in> field_set (0, 7) [CStar] \<or> n = 0 \<and> 7 \<in> field_set (0, 7) [CStar]"
    unfolding r by auto
  have "matchesDay c d" for d by (rule star_matches) (auto simp: c field_set_def)
  moreover have "has_bit (cs_hour c) 2" "has_bit (cs_minute c) 30" by (simp_all add: has_bit_iff c field_set_def)
  moreover have "utc_wall d 2 30 mod minute = 0" for d by (simp add: utc_wall_def time_simps)
  ultimately have "fires_at c (FixedZone (- 21600)) (utc_wall d 2 30 + 21600 * second)" for d
    using utc_wall_parts[of 2 30 d] by (simp add: fires_at_def wall_clock_fixed Let_def)
  with c(1) show ?thesis by blast
qed

theorem NextFiring_least_witness:
  "\<exists>t c. NextFiring (\<lambda>_. None) nightly 0 = Inr t \<and> compileCron (sp_Cron nightly) = Inr c \<and>
     fires_at c (FixedZone (- 21600)) t \<and> 0 < t \<and> t \<le> utc_wall 5 2 30 + 21600 * second"
proof -
  let ?t = "utc_wall 5 2 30 + 21600 * second"
  obtain c where c: "compileCron (sp_Cron nightly) = Inr c" "fires_at c (FixedZone (- 21600)) ?t"
    using nightly_compiles by blast
  have dates: "localDate (FixedZone (- 21600)) ?t = 5" "localDate (FixedZone (- 21600)) 0 = - 1" "0 < ?t"
    using utc_wall_parts[of 2 30 5] by (simp_all add: localDate_def wall_clock_fixed day_number_def utc_wall_def time_simps)
  from NextFiring_least[OF nightly_zone[of "\<lambda>_. None"] c(1), of 0] c dates show ?thesis
    by (cases "NextFiring (\<lambda>_. None) nightly 0") fastforce+
qed

section \<open>The recovery walk counts every due time\<close>

lemma expand_loop_range:
  assumes "expand_loop v hi step acc = Some w" and "bit w n" and "0 \<le> v" and "hi < 64"
  shows "bit acc n \<or> (v \<le> int n \<and> int n \<le> hi)"
  using assms
proof (induction v hi step acc rule: expand_loop.induct)
  case (1 v hi step acc)
  show ?case
  proof (cases "v \<le> hi \<and> 1 \<le> step \<and> step < 2 ^ 63 \<and> hi < 2 ^ 63")
    case False
    with 1 show ?thesis by (subst (asm) expand_loop.simps) auto
  next
    case True
    then have e: "expand_loop (wrap64 (v + step)) hi step (acc OR push_bit (nat v) 1) = Some w"
      using 1(2,4) by (subst (asm) expand_loop.simps) auto
    have nn: "0 \<le> wrap64 (v + step)"
    proof (rule ccontr)
      assume "\<not> 0 \<le> wrap64 (v + step)"
      with e True 1(4) show False by (subst (asm) expand_loop.simps) auto
    qed
    have "wrap64 (v + step) = v + step"
      using nn True 1(4) wrap64_small[of "v + step"] wrap64_high[of "v + step"] by (cases "v + step < 2 ^ 63") auto
    with 1(1)[OF True _ e 1(3) nn 1(5)] 1(4) True show ?thesis by (auto simp: bit_simps)
  qed
qed

lemma checked_item_range:
  assumes "checkCronItem item lo hi = None" and "item_range item lo hi = (a, b, s)"
  shows "lo \<le> a" and "b \<le> hi"
  using assms
  by (auto simp: checkCronItem_def check_base_def cronNumber_def item_range_def atoi_or_zero_def Let_def
      split: prod.splits option.splits sum.splits if_splits)

lemma compile_items_range:
  assumes "compile_items items lo hi acc = Some w" and "\<forall>x\<in>set items. checkCronItem x lo hi = None"
    and "0 \<le> lo" and "hi < 64" and "bit w n"
  shows "bit acc n \<or> (lo \<le> int n \<and> int n \<le> hi)"
  using assms
proof (induction items arbitrary: acc)
  case (Cons x items)
  obtain a b s where r: "item_range x lo hi = (a, b, s)" by (metis surj_pair)
  from Cons.prems(1) obtain v where v: "expandCronItem x lo hi = Some v" "compile_items items lo hi (acc OR v) = Some w"
    by (auto split: option.splits)
  have "bit v n \<Longrightarrow> lo \<le> int n \<and> int n \<le> hi"
    using v(1) checked_item_range[OF _ r] expand_loop_range[of a b s 0 v n] Cons.prems r
    by (auto simp: expandCronItem_def)
  with Cons.IH[OF v(2)] Cons.prems show ?case by (auto simp: bit_simps)
qed simp

lemma compile_fields_range:
  assumes "compile_fields fbs = Some ws" and "first_error checkCronField fbs = None" and "\<forall>fb\<in>set fbs. bounds_ok (snd fb)"
  shows "list_all2 (\<lambda>w fb. \<forall>n. bit w n \<longrightarrow> fst (snd fb) \<le> int n \<and> int n \<le> snd (snd fb)) ws fbs"
  using assms
proof (induction fbs arbitrary: ws)
  case (Cons fb fbs)
  obtain f lo hi where fb: "fb = (f, lo, hi)" by (metis surj_pair)
  from Cons.prems(1) fb obtain w ws' where w: "compile_items (split_on CHR '','' f) lo hi 0 = Some w"
    "compile_fields fbs = Some ws'" "ws = w # ws'" by (auto split: option.splits)
  have "\<forall>x\<in>set (split_on CHR '','' f). checkCronItem x lo hi = None"
    using Cons.prems(2) fb by (auto simp: checkCronField_def first_error_None split: option.splits)
  from compile_items_range[OF w(1) this] Cons.prems(3) fb
  have "\<forall>n. bit w n \<longrightarrow> lo \<le> int n \<and> int n \<le> hi" by (auto simp: bounds_ok_def)
  with Cons w(2,3) fb show ?case by (auto split: option.splits)
qed simp

lemma compiled_bounds:
  assumes "compileCron expr = Inr c"
  shows "bit (cs_hour c) n \<Longrightarrow> n < 24" and "bit (cs_minute c) n \<Longrightarrow> n < 60"
proof -
  from assms obtain fs bits where c: "parseCron expr = Inr fs" "compile_fields (zip fs cronFields) = Some bits"
    "cs_minute c = bits ! 0" "cs_hour c = bits ! 1"
    by (auto simp: compileCron_def Let_def split: sum.splits option.splits)
  then have l: "length fs = 5" "first_error checkCronField (zip fs cronFields) = None"
    by (auto simp: parseCron_def Let_def cronFields_def split: if_splits option.splits)
  have b: "\<forall>fb\<in>set (zip fs cronFields). bounds_ok (snd fb)"
    by (auto dest!: set_zip_rightD simp: cronFields_def bounds_ok_def)
  note r = compile_fields_range[OF c(2) l(2) b]
  have "bit (bits ! 1) n \<Longrightarrow> int n \<le> 23" "bit (bits ! 0) n \<Longrightarrow> int n \<le> 59"
    using list_all2_nthD2[OF r, of 1] list_all2_nthD2[OF r, of 0] l(1) by (auto simp: cronFields_def)
  then show "bit (cs_hour c) n \<Longrightarrow> n < 24" "bit (cs_minute c) n \<Longrightarrow> n < 60" using c by auto
qed

lemma ones_count:
  assumes "\<And>n. bit w n \<Longrightarrow> n < k" and "k \<le> 64"
  shows "OnesCount64 w = int (length (filter (has_bit w) [0..int k - 1]))"
proof -
  have "length (filter (has_bit w) [0..int k - 1]) = card {x \<in> {0..int k - 1}. has_bit w x}"
    by (subst distinct_length_filter) (auto intro!: arg_cong[of _ _ card])
  also have "{x \<in> {0..int k - 1}. has_bit w x} = int ` {n. n < 64 \<and> bit w n}"
  proof (intro set_eqI iffI)
    fix x assume "x \<in> {x \<in> {0..int k - 1}. has_bit w x}"
    then have "x = int (nat x)" "nat x < 64 \<and> bit w (nat x)" using assms(2) by (auto simp: has_bit_iff)
    then show "x \<in> int ` {n. n < 64 \<and> bit w n}" by blast
  qed (use assms in \<open>auto simp: has_bit_iff dest: assms(1)\<close>)
  also have "card (int ` {n. n < 64 \<and> bit w n}) = card {n. n < 64 \<and> bit w n}" by (intro card_image) simp
  also have "\<dots> = length (filter (bit w) [0..<64])"
    by (subst distinct_length_filter) (auto intro!: arg_cong[of _ _ card])
  finally show ?thesis by (simp add: OnesCount64_def)
qed

lemma length_day_slots:
  assumes "compileCron expr = Inr c"
  shows "int (length (day_slots c)) = OnesCount64 (cs_hour c) * OnesCount64 (cs_minute c)"
proof -
  have "OnesCount64 (cs_hour c) = int (length (filter (has_bit (cs_hour c)) [0..23]))"
    "OnesCount64 (cs_minute c) = int (length (filter (has_bit (cs_minute c)) [0..59]))"
    using ones_count[of "cs_hour c" 24] ones_count[of "cs_minute c" 60] compiled_bounds[OF assms] by auto
  then show ?thesis by (simp add: day_slots_def length_concat comp_def sum_list_triv)
qed

lemma offsetChangesOn_fixed [simp]: "\<not> offsetChangesOn d (FixedZone off)"
  by (simp add: offsetChangesOn_def FixedZone_def Let_def)

text \<open>The due times of day \<open>d\<close> inside the span.\<close>

definition span_on :: "cronSpec \<Rightarrow> int \<Rightarrow> time \<Rightarrow> time \<Rightarrow> int \<Rightarrow> time list" where
  "span_on c off after now d = filter (\<lambda>t. after < t \<and> t \<le> now) (firingsOn c d (FixedZone off))"

lemma set_span_on:
  "set (span_on c off after now d) =
     {t. fires_at c (FixedZone off) t \<and> localDate (FixedZone off) t = d \<and> after < t \<and> t \<le> now}"
  by (auto simp: span_on_def set_firingsOn_fixed)

lemma count_fold:
  "foldl (\<lambda>(m, ld) t. if P t then (m + 1, d) else (m, ld)) (m, ld) ts =
     (m + int (length (filter P ts)), if filter P ts = [] then ld else d)" for m :: int
  by (induction ts arbitrary: m ld) auto

lemma middle_day:
  assumes "localDate (FixedZone off) after < d" and "d < localDate (FixedZone off) now"
  shows "span_on c off after now d = firingsOn c d (FixedZone off)"
proof -
  have "after < t \<and> t \<le> now" if "t \<in> set (firingsOn c d (FixedZone off))" for t
    using that assms localDate_mono[of off after t] localDate_mono[of off t now] by (auto simp: set_firingsOn_fixed)
  then show ?thesis unfolding span_on_def by (intro filter_True) blast
qed

lemma catch_day_fixed:
  assumes "compileCron expr = Inr c" and "day_slots c \<noteq> []"
    and "localDate (FixedZone off) after \<le> d" and "d \<le> localDate (FixedZone off) now"
  shows "catch_day c (FixedZone off) after now (localDate (FixedZone off) after) (localDate (FixedZone off) now) d (m, ld) =
    (m + int (length (span_on c off after now d)), if span_on c off after now d = [] then ld else d)"
proof (cases "matchesDay c d")
  case False
  then show ?thesis by (simp add: catch_day_def span_on_def firingsOn_fixed(1))
next
  case True
  show ?thesis
  proof (cases "d \<noteq> localDate (FixedZone off) after \<and> d \<noteq> localDate (FixedZone off) now")
    case True
    then have "span_on c off after now d = firingsOn c d (FixedZone off)" using assms(3,4) by (intro middle_day) auto
    with True \<open>matchesDay c d\<close> length_day_slots[OF assms(1)] assms(2) show ?thesis
      by (simp add: catch_day_def firingsOn_fixed(1))
  next
    case False
    with \<open>matchesDay c d\<close> show ?thesis by (auto simp: catch_day_def count_fold span_on_def)
  qed
qed

lemma catch_fold:
  assumes "compileCron expr = Inr c" and "day_slots c \<noteq> []"
    and "\<forall>d\<in>set ds. localDate (FixedZone off) after \<le> d \<and> d \<le> localDate (FixedZone off) now"
  shows "foldl (\<lambda>st d. catch_day c (FixedZone off) after now (localDate (FixedZone off) after) (localDate (FixedZone off) now) d st) (m, ld) ds =
    (m + (\<Sum>d\<leftarrow>ds. int (length (span_on c off after now d))),
     last (ld # filter (\<lambda>d. span_on c off after now d \<noteq> []) ds))"
  using assms(3) by (induction ds arbitrary: m ld) (auto simp: catch_day_fixed[OF assms(1,2)])

lemma newest_fold:
  fixes after now :: int
  defines "f \<equiv> \<lambda>newest t. if after < t \<and> t \<le> now \<and> newest < t then t else newest"
  assumes "after \<le> nw"
  shows "foldl f nw ts = Max (insert nw {t \<in> set ts. after < t \<and> t \<le> now})"
  using assms(2)
proof (induction ts arbitrary: nw)
  case (Cons t ts)
  let ?S = "{t \<in> set ts. after < t \<and> t \<le> now}"
  have fin: "finite ?S" by simp
  show ?case
  proof (cases "after < t \<and> t \<le> now")
    case True
    then have "insert nw {x \<in> set (t # ts). after < x \<and> x \<le> now} = insert nw (insert t ?S)" by auto
    moreover have "foldl f nw (t # ts) = Max (insert (max nw t) ?S)"
      using Cons.IH[of "f nw t"] Cons.prems True by (auto simp: f_def max_def)
    ultimately show ?thesis using fin by (cases "?S = {}") (simp_all add: max.assoc)
  next
    case False
    then have "{x \<in> set (t # ts). after < x \<and> x \<le> now} = ?S" by auto
    then show ?thesis using Cons False by (auto simp: f_def)
  qed
qed simp

lemma catch_fold_empty:
  assumes "compileCron expr = Inr c" and "day_slots c = []"
  shows "fst (foldl (\<lambda>st d. catch_day c (FixedZone off) after now first lst d st) st ds) = fst st"
proof (induction ds arbitrary: st)
  case (Cons d ds)
  have "OnesCount64 (cs_hour c) * OnesCount64 (cs_minute c) = 0" using length_day_slots[OF assms(1)] assms(2) by simp
  then have "fst (catch_day c (FixedZone off) after now first lst d st) = fst st"
    by (cases st) (simp add: catch_day_def firingsOn_fixed(1) assms(2))
  with Cons show ?case by simp
qed simp

abbreviation due_span :: "cronSpec \<Rightarrow> int \<Rightarrow> time \<Rightarrow> time \<Rightarrow> time set" where
  "due_span c off after now \<equiv> {t. fires_at c (FixedZone off) t \<and> after < t \<and> t \<le> now}"

lemma due_span_days:
  "due_span c off after now =
     (\<Union>d\<in>{localDate (FixedZone off) after..localDate (FixedZone off) now}. set (span_on c off after now d))"
proof -
  have "localDate (FixedZone off) after \<le> localDate (FixedZone off) t \<and> localDate (FixedZone off) t \<le> localDate (FixedZone off) now"
    if "after < t" "t \<le> now" for t
    using that localDate_mono[of off t after] localDate_mono[of off now t] by force
  then show ?thesis by (auto simp: set_span_on)
qed

lemma due_span_card:
  "finite (due_span c off after now)"
  "int (card (due_span c off after now)) =
     (\<Sum>d\<leftarrow>[localDate (FixedZone off) after..localDate (FixedZone off) now]. int (length (span_on c off after now d)))"
proof -
  let ?I = "{localDate (FixedZone off) after..localDate (FixedZone off) now}"
  show "finite (due_span c off after now)" unfolding due_span_days by simp
  have dis: "distinct (span_on c off after now d)" for d
    using firingsOn_fixed(2)[of c d off] by (simp add: span_on_def strict_sorted_iff)
  have "card (due_span c off after now) = (\<Sum>d\<in>?I. card (set (span_on c off after now d)))"
    unfolding due_span_days by (intro card_UN_disjoint) (auto simp: set_span_on)
  also have "\<dots> = (\<Sum>d\<in>?I. length (span_on c off after now d))" using dis by (simp add: distinct_card)
  finally show "int (card (due_span c off after now)) =
     (\<Sum>d\<leftarrow>[localDate (FixedZone off) after..localDate (FixedZone off) now]. int (length (span_on c off after now d)))"
    by (simp add: sum_list_distinct_conv_sum_set)
qed

lemma sorted_le_last: "sorted ys \<Longrightarrow> y \<in> set ys \<Longrightarrow> y \<le> last ys" for y :: int
  by (induction ys) auto

text \<open>The newest due time of the span lies on its last day with one.\<close>

lemma newest_day:
  fixes c off after now
  defines "days \<equiv> filter (\<lambda>d. span_on c off after now d \<noteq> []) [localDate (FixedZone off) after..localDate (FixedZone off) now]"
  assumes "days \<noteq> []"
  shows "due_span c off after now \<noteq> {}"
    and "Max (insert after (set (span_on c off after now (last days)))) = Max (due_span c off after now)"
proof -
  let ?T = "set (span_on c off after now (last days))"
  have ne: "?T \<noteq> {}" using last_in_set[OF assms(2)] by (simp add: days_def)
  have sub: "?T \<subseteq> due_span c off after now" by (auto simp: set_span_on)
  then show "due_span c off after now \<noteq> {}" using ne by (metis subset_empty)
  have "\<exists>u\<in>?T. t \<le> u" if "t \<in> due_span c off after now" for t
  proof -
    have "t \<in> (\<Union>d\<in>{localDate (FixedZone off) after..localDate (FixedZone off) now}. set (span_on c off after now d))"
      using that by (simp only: due_span_days)
    then obtain e where e: "localDate (FixedZone off) after \<le> e" "e \<le> localDate (FixedZone off) now"
      "t \<in> set (span_on c off after now e)" by auto
    then have "e \<in> set days" by (auto simp: days_def)
    then have "e \<le> last days" unfolding days_def by (intro sorted_le_last) (auto simp: sorted_wrt_filter)
    then consider "e = last days" | "e < last days" by linarith
    then show ?thesis
    proof cases
      case 2
      from ne obtain u where u: "u \<in> ?T" unfolding ex_in_conv[symmetric] ..
      have "t < u" by (rule localDate_mono[of off]) (use u 2 e(3) in \<open>simp add: set_span_on\<close>)
      then show ?thesis using u by (intro bexI[of _ u] less_imp_le)
    qed (use e in auto)
  qed
  then have "Max (due_span c off after now) = Max ?T" by (intro Max_eq_if[OF due_span_card(1)]) (use sub in auto)
  moreover have "Max ?T \<in> due_span c off after now" using Max_in[OF _ ne] sub by blast
  then have "after < Max ?T" by simp
  ultimately show "Max (insert after ?T) = Max (due_span c off after now)" using ne by simp
qed

lemma CatchUp_fixed:
  assumes "loadScheduleZone tzdb (sp_Timezone p) = Inr (FixedZone off)" and "compileCron (sp_Cron p) = Inr c"
    and "0 < localDate (FixedZone off) after"
  shows "CatchUp tzdb p after now =
    Inr (if due_span c off after now = {} then after else Max (due_span c off after now), int (card (due_span c off after now)))"
proof (cases "now \<le> after")
  case True
  then show ?thesis by (auto simp: CatchUp_def)
next
  case False
  let ?L = "FixedZone off" and ?days = "[localDate (FixedZone off) after..localDate (FixedZone off) now]"
  let ?r = "foldl (\<lambda>st d. catch_day c ?L after now (localDate ?L after) (localDate ?L now) d st) (0, 0) ?days"
  let ?S = "due_span c off after now"
  have cu: "CatchUp tzdb p after now =
      Inr (if is_zero (snd ?r) then after else Max (insert after (set (span_on c off after now (snd ?r)))), fst ?r)"
    using False by (simp add: CatchUp_def assms(1,2) Let_def newest_fold split_beta span_on_def)
  show ?thesis
  proof (cases "day_slots c = []")
    case True
    then have none: "span_on c off after now d = []" for d by (simp add: span_on_def firingsOn_fixed(1))
    then have "?S = {}" unfolding due_span_days by simp
    with cu catch_fold_empty[OF assms(2) True] none show ?thesis by simp
  next
    case ne: False
    let ?ds = "filter (\<lambda>d. span_on c off after now d \<noteq> []) ?days"
    have r: "?r = (int (card ?S), last (0 # ?ds))"
      using catch_fold[OF assms(2) ne, of ?days] by (simp add: due_span_card(2))
    show ?thesis
    proof (cases "?ds = []")
      case True
      then have "?S = {}" unfolding due_span_days by (auto simp: filter_empty_conv)
      then show ?thesis using cu r True by (simp add: is_zero_def)
    next
      case False
      moreover have "last ?ds \<noteq> 0" using last_in_set[OF False] assms(3) by auto
      ultimately have "CatchUp tzdb p after now = Inr (Max ?S, int (card ?S))"
        using cu r newest_day(2)[OF False] by (simp add: is_zero_def)
      then show ?thesis using newest_day(1)[OF False] by (simp only: if_False)
    qed
  qed
qed

text \<open>
  C33. The recovery walk of a schedule after a sleep: in a zone with a fixed offset \<open>CatchUp\<close> counts
  exactly the due times after the one the clock was waiting for, up to now, and returns the newest
  of them (or the one it was waiting for when there is none), although it counts whole days from
  the cron fields alone.
\<close>

theorem CatchUp_counts_due_times:
  fixes c off after now
  assumes "loadScheduleZone tzdb (sp_Timezone p) = Inr (FixedZone off)" and "compileCron (sp_Cron p) = Inr c"
    and "0 < localDate (FixedZone off) after"
  defines "S \<equiv> {t. fires_at c (FixedZone off) t \<and> after < t \<and> t \<le> now}"
  shows "finite S \<and> CatchUp tzdb p after now = Inr (if S = {} then after else Max S, int (card S))"
  unfolding S_def using due_span_card(1) CatchUp_fixed[OF assms(1-3)] by blast

theorem CatchUp_counts_due_times_witness:
  "\<exists>c newest missed. compileCron (sp_Cron nightly) = Inr c \<and>
     CatchUp (\<lambda>_. None) nightly (2 * day_ns) (9 * day_ns) = Inr (newest, missed) \<and>
     utc_wall 5 2 30 + 21600 * second \<le> newest \<and> newest \<le> 9 * day_ns \<and> 1 \<le> missed"
proof -
  let ?t = "utc_wall 5 2 30 + 21600 * second"
  obtain c where c: "compileCron (sp_Cron nightly) = Inr c" "fires_at c (FixedZone (- 21600)) ?t"
    using nightly_compiles by blast
  let ?S = "{t. fires_at c (FixedZone (- 21600)) t \<and> 2 * day_ns < t \<and> t \<le> 9 * day_ns}"
  have "?t \<in> ?S" using c(2) by (simp add: utc_wall_def time_simps)
  moreover have "0 < localDate (FixedZone (- 21600)) (2 * day_ns)"
    by (simp add: localDate_def wall_clock_fixed day_number_def time_simps)
  from CatchUp_counts_due_times[OF nightly_zone[of "\<lambda>_. None"] c(1) this, of "9 * day_ns"]
  have "finite ?S" "CatchUp (\<lambda>_. None) nightly (2 * day_ns) (9 * day_ns) = Inr (if ?S = {} then 2 * day_ns else Max ?S, int (card ?S))"
    by blast+
  moreover have "?S \<noteq> {}" using \<open>?t \<in> ?S\<close> by blast
  moreover have "Max ?S \<in> ?S" by (rule Max_in) fact+
  moreover have "?t \<le> Max ?S" by (rule Max_ge) fact+
  moreover have "0 < card ?S" using card_gt_0_iff calculation by blast
  ultimately show ?thesis using c(1) by (intro exI[of _ c] exI[of _ "Max ?S"] exI[of _ "int (card ?S)"]) auto
qed

section \<open>An accepted schedule that never fires\<close>

text \<open>
  The parser accepts schedules that can never fire: ``30 February'' compiles, no calendar day
  matches it, and \<open>NextFiring\<close> fails from every instant in every zone.
\<close>

theorem february_30_never_fires:
  fixes after tzdb d
  defines "p \<equiv> nightly\<lparr>sp_Cron := ''0 0 30 2 *''\<rparr>"
  shows "\<exists>c. compileCron ''0 0 30 2 *'' = Inr c \<and> \<not> matchesDay c d \<and>
    NextFiring tzdb p after = Inl ErrNoFiring"
proof -
  have dg: "itoa 30 = ''30''" "itoa 2 = ''2''" "itoa 0 = ''0''" by (code_simp+)
  have ok: "list_all2 field_ok [[CNum 0], [CNum 0], [CNum 30], [CNum 2], [CStar]] cronFields"
    by (simp add: field_ok_def cronFields_def)
  have r: "render_cron [[CNum 0], [CNum 0], [CNum 30], [CNum 2], [CStar]] = ''0 0 30 2 *''"
    by (simp add: render_cron_def render_field_def dg)
  from compile_render[OF ok] obtain c where c: "compileCron ''0 0 30 2 *'' = Inr c"
    "\<And>n. bit (cs_dom c) n \<longleftrightarrow> int n \<in> field_set (1, 31) [CNum 30]" "\<And>n. bit (cs_month c) n \<longleftrightarrow> int n \<in> field_set (1, 12) [CNum 2]"
    "cs_dowStar c" unfolding r by auto
  have no: "\<not> matchesDay c d" for d
  proof
    assume m: "matchesDay c d"
    then have "has_bit (cs_month c) (month_of_day d)" "has_bit (cs_dom c) (dom_of_day d)"
      using c(4) by (auto simp: matchesDay_def Let_def split: if_splits)
    then have "month_of_day d = 2" "dom_of_day d = 30"
      using month_dom_bounds[of d] by (auto simp: has_bit_iff c field_set_def)
    with month_dom_bounds(4)[of d] show False by (simp add: days_in_month_def split: if_splits)
  qed
  have "next_loop c loc after day i n 0 = None" for loc day i n
    by (induction n arbitrary: i) (simp_all add: firingsOn_def no pick_after_def is_zero_def)
  then have "NextFiring tzdb p after = Inl ErrNoFiring"
    using nightly_zone[of tzdb] c(1) by (simp add: NextFiring_def p_def nightly_def)
  with c(1) no show ?thesis by blast
qed

end
