(* ===== verification/Firing_Properties.thy ===== *)
theory Firing_Properties
  imports Firing Planner_Properties Clock_Properties
begin

text \<open>
  What the schedule clock guarantees: a due time never starts two firings, the firing ids of a status's
  lifetime are pairwise different, a failing firing is retried at most \<open>retries\<close> times and then holds the
  planner, and a step that reports no change leaves the status alone.
\<close>

section \<open>Due times are whole seconds\<close>

lemma utc_wall_second: "second dvd utc_wall dn h m"
proof -
  have "second dvd minute" "second dvd hour" "second dvd day_ns" by (simp_all add: time_simps)
  then show ?thesis by (simp add: utc_wall_def)
qed

lemma firingsOn_second: "t \<in> set (firingsOn c dn loc) \<Longrightarrow> second dvd t"
proof -
  assume "t \<in> set (firingsOn c dn loc)"
  then obtain h m where "t \<in> set (slot_instants c dn loc h m)" by (auto simp: firingsOn_def split: if_splits)
  then have "t = gapEnd dn h m loc \<or> t \<in> set (wallInstants dn h m loc)"
    by (auto simp: slot_instants_def split: list.splits if_splits)
  then show ?thesis by (auto simp: gapEnd_def wallInstants_def Let_def utc_wall_second)
qed

lemma pick_after_in: "pick_after after best ts \<in> insert best (set ts)"
  by (induction ts arbitrary: best) (auto simp: pick_after_def split: if_splits)

lemma pick_earlier_in: "pick_earlier after best ts \<in> insert best (set ts)"
  by (induction ts arbitrary: best) (auto simp: pick_earlier_def split: if_splits)

lemma next_loop_second:
  "next_loop c loc after day i n best = Some t \<Longrightarrow> second dvd best \<Longrightarrow> second dvd t"
proof (induction n arbitrary: i best)
  case (Suc n)
  let ?ts = "firingsOn c (day + int i) loc" and ?us = "firingsOn c (day + int (i + 1)) loc"
  have b: "second dvd pick_after after best ?ts"
    using pick_after_in[of after best ?ts] firingsOn_second Suc.prems(2) by auto
  then have "second dvd pick_earlier after (pick_after after best ?ts) ?us"
    using pick_earlier_in[of after "pick_after after best ?ts" ?us] firingsOn_second by auto
  with b Suc show ?case by (auto simp: Let_def split: if_splits)
qed simp

lemma NextFiring_second: "NextFiring tzdb p after = Inr t \<Longrightarrow> second dvd t"
  using next_loop_second by (fastforce simp: NextFiring_def split: sum.splits option.splits)

lemma newest_fold_in:
  "foldl (\<lambda>newest t. if after < t \<and> t \<le> now \<and> newest < t then t else newest) nw ts \<in> insert nw (set ts)"
  by (induction ts arbitrary: nw) auto

lemma CatchUp_second:
  assumes "CatchUp tzdb p after now = Inr (newest, missed)" and "second dvd after"
  shows "second dvd newest"
proof -
  have "newest = after \<or> (\<exists>c d loc. newest \<in> set (firingsOn c d loc))"
    using assms(1) newest_fold_in[of after now after]
    by (auto simp: CatchUp_def Let_def split: if_splits sum.splits prod.splits)
  then show ?thesis using assms(2) firingsOn_second by auto
qed

section \<open>The clock over a status's lifetime\<close>

definition jitter_ok :: "(duration \<Rightarrow> duration) \<Rightarrow> bool" where
  "jitter_ok jit \<longleftrightarrow> (\<forall>l>0. 0 \<le> jit l \<and> jit l < l)"

definition starts_firing :: "clockStep \<Rightarrow> bool" where
  "starts_firing step \<longleftrightarrow> list_ex (\<lambda>e. ev_Kind e = KindScheduleFired \<or> ev_Kind e = KindScheduleReplaced) (cl_events step)"

text \<open>The states a status goes through: clock steps under any policy (an operator may edit it between
  steps), with a clock that does not run backwards, interleaved with finished runs and freshness
  checks. The last part lists the due times that started a firing.\<close>

inductive clock_reach :: "zone_db \<Rightarrow> ScheduleStatus \<times> time \<times> time list \<Rightarrow> bool" for tzdb where
  clock_new: "0 < now \<Longrightarrow> clock_reach tzdb (new_status k, now, [])"
| clock_step: "clock_reach tzdb (st, now0, fired) \<Longrightarrow> now0 \<le> now \<Longrightarrow> jitter_ok jit \<Longrightarrow>
    advanceFiring tzdb jit t role p now live withheld st = Some (st', changed, step) \<Longrightarrow>
    clock_reach tzdb (st', now, fired @ (if starts_firing step then [ss_FiringDueAt st'] else []))"
| clock_run: "clock_reach tzdb (st, now, fired) \<Longrightarrow> clock_reach tzdb (fst (SettleRun r p t (AddRun r h st)), now, fired)"
| clock_fresh: "clock_reach tzdb (st, now, fired) \<Longrightarrow> clock_reach tzdb (fst (EvaluateFreshness t d st), now, fired)"

definition clock_inv :: "ScheduleStatus \<times> time \<times> time list \<Rightarrow> bool" where
  "clock_inv x \<longleftrightarrow> (case x of (st, now, fired) \<Rightarrow>
     0 < now \<and> sorted_wrt (<) fired \<and> (\<forall>t\<in>set fired. 0 < t \<and> t \<le> now \<and> second dvd t) \<and>
     (ss_NextDueAt st = 0 \<or> 0 < ss_NextDueAt st \<and> second dvd ss_NextDueAt st \<and> ss_NextDueAt st \<le> ss_NextFireAt st \<and>
        (\<forall>t\<in>set fired. t < ss_NextDueAt st)) \<and>
     ss_Firing st = (if fired = [] then [] else FiringID (last fired)) \<and>
     (fired \<noteq> [] \<longrightarrow> ss_FiringDueAt st = last fired))"

lemma drawJitter_nonneg: "jitter_ok jit \<Longrightarrow> 0 \<le> drawJitter jit l"
  by (simp add: jitter_ok_def drawJitter_def)

lemma setNextDue_status:
  "setNextDue tzdb jit t role p from_t next_t (st, step) = (st', step') \<Longrightarrow>
     st' = st\<lparr>ss_NextDueAt := next_t, ss_NextFireAt := next_t + drawJitter jit (sp_Jitter p)\<rparr> \<and>
     starts_firing step' = starts_firing step \<and> cl_kill step' = cl_kill step"
  by (auto simp: setNextDue_def Let_def starts_firing_def clock_event_def split: prod.splits if_splits)

lemma starts_event [simp]:
  "starts_firing (clock_event t role k step) = (starts_firing step \<or> k = KindScheduleFired \<or> k = KindScheduleReplaced)"
  "\<not> starts_firing no_step" "starts_firing (step\<lparr>cl_kill := ks\<rparr>) = starts_firing step"
  by (auto simp: starts_firing_def clock_event_def no_step_def)

lemma due_firing_cases:
  assumes "due_firing t role p live withheld newest missed late st step = (st', step')" and "\<not> starts_firing step"
  shows "(starts_firing step' \<and> st' = start_firing newest missed late st) \<or> (\<not> starts_firing step' \<and> st' = st)"
  using assms by (auto simp: due_firing_def Let_def split: if_splits)

text \<open>The four things a step can do to the parts the invariant reads.\<close>

lemma advanceFiring_cases:
  assumes "advanceFiring tzdb jit t role p now live withheld st = Some (st', changed, step)"
  obtains (same) "\<not> starts_firing step" "ss_NextDueAt st' = ss_NextDueAt st" "ss_NextFireAt st' = ss_NextFireAt st"
      "ss_Firing st' = ss_Firing st" "ss_FiringDueAt st' = ss_FiringDueAt st"
  | (recompute) next_t where "\<not> starts_firing step" "NextFiring tzdb p now = Inr next_t"
      "ss_NextDueAt st' = next_t" "ss_NextFireAt st' = next_t + drawJitter jit (sp_Jitter p)"
      "ss_Firing st' = ss_Firing st" "ss_FiringDueAt st' = ss_FiringDueAt st"
  | (due) newest missed next_t where "ss_NextDueAt st \<noteq> 0" "ss_NextFireAt st \<le> now"
      "CatchUp tzdb p (ss_NextDueAt st) now = Inr (newest, missed)" "NextFiring tzdb p newest = Inr next_t"
      "ss_NextDueAt st' = next_t" "ss_NextFireAt st' = next_t + drawJitter jit (sp_Jitter p)"
      "starts_firing step \<Longrightarrow> ss_Firing st' = FiringID newest \<and> ss_FiringDueAt st' = newest"
      "\<not> starts_firing step \<Longrightarrow> ss_Firing st' = ss_Firing st \<and> ss_FiringDueAt st' = ss_FiringDueAt st"
proof -
  define st1 where "st1 = (if ss_Suspended st then st\<lparr>ss_Suspended := False, ss_SpecKey := []\<rparr> else st)"
  define step1 where "step1 = (if ss_Suspended st then clock_event t role KindScheduleSuspended no_step else no_step)"
  have s1: "\<not> starts_firing step1" "ss_NextDueAt st1 = ss_NextDueAt st" "ss_NextFireAt st1 = ss_NextFireAt st"
    "ss_Firing st1 = ss_Firing st" "ss_FiringDueAt st1 = ss_FiringDueAt st"
    by (simp_all add: st1_def step1_def)
  have pair: "(if ss_Suspended st then (st\<lparr>ss_Suspended := False, ss_SpecKey := []\<rparr>, clock_event t role KindScheduleSuspended no_step)
       else (st, no_step)) = (st1, step1)" by (simp add: st1_def step1_def)
  note adv = assms[unfolded advanceFiring_def pair Let_def prod.case]
  show thesis
  proof (cases "sp_Suspend p")
    case True
    with adv show ?thesis by (intro same) (auto split: if_splits)
  next
    case False
    note adv = adv[unfolded if_not_P[OF False]]
    show ?thesis
    proof (cases "ss_SpecKey st1 \<noteq> sp_Cron p @ ''|'' @ sp_Timezone p \<or> is_zero (ss_NextDueAt st1)")
      case True
      note adv = adv[unfolded if_P[OF True]]
      show ?thesis
      proof (cases "NextFiring tzdb p now")
        case (Inl e)
        with adv s1 show ?thesis by (intro same) (auto split: if_splits)
      next
        case (Inr n)
        obtain st2 step2 where sn: "setNextDue tzdb jit t role p now n (st1\<lparr>ss_SpecKey := sp_Cron p @ ''|'' @ sp_Timezone p\<rparr>, step1) = (st2, step2)"
          by fastforce
        from setNextDue_status[OF sn] adv Inr sn s1 show ?thesis by (intro recompute[of n]) auto
      qed
    next
      case F2: False
      note adv = adv[unfolded if_not_P[OF F2]]
      show ?thesis
      proof (cases "now < ss_NextFireAt st1")
        case True
        with adv s1 show ?thesis by (intro same) auto
      next
        case F3: False
        note adv = adv[unfolded if_not_P[OF F3]]
        show ?thesis
        proof (cases "CatchUp tzdb p (ss_NextDueAt st1) now")
          case (Inl e)
          with adv s1 show ?thesis by (intro same) (auto split: if_splits)
        next
          case (Inr nm)
          obtain newest missed where nm: "nm = (newest, missed)" by fastforce
          note adv = adv[unfolded Inr nm sum.case prod.case]
          show ?thesis
          proof (cases "NextFiring tzdb p newest")
            case (Inl e)
            with adv s1 show ?thesis by (intro same) (auto split: if_splits)
          next
            case inr2: (Inr n)
            let ?late = "time_sub now (if missed = 0 then ss_NextFireAt st1 else newest)"
            obtain st2 step2 where sn: "setNextDue tzdb jit t role p newest n (st1, step1) = (st2, step2)" by fastforce
            obtain st3 step3 where df: "due_firing t role p live withheld newest missed ?late st2 step2 = (st3, step3)" by fastforce
            note st2 = setNextDue_status[OF sn]
            have "\<not> starts_firing step2" using st2 s1 by simp
            note c = due_firing_cases[OF df this]
            have "st' = st3" "step = step3" using adv inr2 sn df by auto
            with c st2 s1 F2 F3 Inr nm inr2 show ?thesis
              by (intro due[of newest missed n]) (auto simp: is_zero_def start_firing_def)
          qed
        qed
      qed
    qed
  qed
qed

lemma clock_inv_new: "0 < now \<Longrightarrow> clock_inv (new_status k, now, [])"
  by (simp add: clock_inv_def new_status_def)

lemma clock_inv_step:
  assumes inv: "clock_inv (st, now0, fired)" and now: "now0 \<le> now" and j: "jitter_ok jit"
    and adv: "advanceFiring tzdb jit t role p now live withheld st = Some (st', changed, step)"
  shows "clock_inv (st', now, fired @ (if starts_firing step then [ss_FiringDueAt st'] else []))"
  using adv
proof (cases rule: advanceFiring_cases)
  case same
  with inv now show ?thesis by (auto simp: clock_inv_def)
next
  case (recompute n)
  have "now < n" "second dvd n" using recompute(2) NextFiring_after NextFiring_second inv now by (auto simp: clock_inv_def)
  with recompute inv now drawJitter_nonneg[OF j, of "sp_Jitter p"] show ?thesis by (fastforce simp: clock_inv_def)
next
  case (due newest missed n)
  have old: "0 < ss_NextDueAt st" "second dvd ss_NextDueAt st" "ss_NextDueAt st \<le> now" "\<forall>t\<in>set fired. t < ss_NextDueAt st"
    using inv due(1,2) by (auto simp: clock_inv_def)
  have nw: "ss_NextDueAt st \<le> newest" "newest \<le> now" using CatchUp_bounds[OF due(3)] old(3) by auto
  have sec: "second dvd newest" "second dvd n" using CatchUp_second[OF due(3) old(2)] NextFiring_second[OF due(4)] by auto
  have n: "newest < n" using NextFiring_after[OF due(4)] nw(1) old(1) by simp
  have lt: "\<forall>t\<in>set fired. t < newest \<and> t \<le> now \<and> t < n" using old(3,4) nw n by force
  show ?thesis
  proof (cases "starts_firing step")
    case True
    with due(5-7) inv now nw sec n lt old(1) drawJitter_nonneg[OF j, of "sp_Jitter p"] show ?thesis
      by (auto simp: clock_inv_def sorted_wrt_append)
  next
    case False
    with due(5,6,8) inv now nw sec n lt old(1) drawJitter_nonneg[OF j, of "sp_Jitter p"] show ?thesis
      by (auto simp: clock_inv_def)
  qed
qed

text \<open>Runs and freshness checks leave the parts the clock owns alone.\<close>

lemma run_keeps_clock:
  fixes r p t h st
  defines "st' \<equiv> fst (SettleRun r p t (AddRun r h st))"
  shows "ss_NextDueAt st' = ss_NextDueAt st" "ss_NextFireAt st' = ss_NextFireAt st" "ss_Firing st' = ss_Firing st"
    "ss_FiringDueAt st' = ss_FiringDueAt st"
  by (simp_all add: st'_def SettleRun_def AddRun_def Let_def split: RunOutcome.split)

lemma fresh_keeps_clock:
  fixes t d st
  defines "st' \<equiv> fst (EvaluateFreshness t d st)"
  shows "ss_NextDueAt st' = ss_NextDueAt st" "ss_NextFireAt st' = ss_NextFireAt st" "ss_Firing st' = ss_Firing st"
    "ss_FiringDueAt st' = ss_FiringDueAt st"
  by (simp_all add: st'_def EvaluateFreshness_def Let_def)

lemma clock_reach_inv: "clock_reach tzdb x \<Longrightarrow> clock_inv x"
proof (induction rule: clock_reach.induct)
  case (clock_run st now fired r p t h)
  then show ?case by (simp add: clock_inv_def run_keeps_clock)
next
  case (clock_fresh st now fired t d)
  then show ?case by (simp add: clock_inv_def fresh_keeps_clock)
next
  case (clock_step st now0 fired now jit t role p live withheld st' changed step)
  show ?case by (rule clock_inv_step) fact+
qed (rule clock_inv_new)

lemma year_of_day_pos: "0 \<le> dn \<Longrightarrow> 1 \<le> year_of_day dn"
  by (auto simp: year_of_day_def year_parts_def Let_def pos_imp_zdiv_nonneg_iff)

lemma FiringID_inj:
  assumes "FiringID t = FiringID u" and "0 < t" "0 < u" "second dvd t" "second dvd u"
    and "year_of_day (day_number t) \<le> 9999" "year_of_day (day_number u) \<le> 9999"
  shows "t = u"
proof -
  have "0 \<le> day_number t" "0 \<le> day_number u"
    using assms(2,3) by (simp_all add: day_number_def pos_imp_zdiv_nonneg_iff)
  then have "t div second = u div second"
    using assms by (intro compact_stamp_inj) (auto simp: FiringID_def year_of_day_pos)
  with assms(4,5) show ?thesis by (metis dvd_div_mult_self)
qed

text \<open>
  C4. A due time never starts two firings. Over any run of the clock, with the policy edited between
  steps, the daemon late or down, jitter drawn and runs settling in between, the due times that
  started a firing are strictly increasing and in the past, the firing the status names is the last
  of them, and (up to the year 9999) their firing ids are pairwise different.
\<close>

theorem no_due_time_fires_twice:
  assumes "clock_reach tzdb (st, now, fired)"
  shows "sorted_wrt (<) fired \<and> (\<forall>t\<in>set fired. t \<le> now) \<and>
    ss_Firing st = (if fired = [] then [] else FiringID (last fired)) \<and>
    ((\<forall>t\<in>set fired. year_of_day (day_number t) \<le> 9999) \<longrightarrow> distinct (map FiringID fired))"
proof -
  have inv: "clock_inv (st, now, fired)" using clock_reach_inv[OF assms] .
  then have "distinct (map FiringID fired)" if "\<forall>t\<in>set fired. year_of_day (day_number t) \<le> 9999"
    using that by (auto simp: distinct_map clock_inv_def strict_sorted_iff inj_on_def intro: FiringID_inj)
  with inv show ?thesis by (simp add: clock_inv_def)
qed

text \<open>The nightly schedule always has a next firing.\<close>

lemma nightly_next:
  assumes "0 \<le> a"
  shows "\<exists>n. NextFiring (\<lambda>_. None) nightly a = Inr n"
proof -
  obtain c where c: "compileCron (sp_Cron nightly) = Inr c" "\<And>d. fires_at c (FixedZone (- 21600)) (utc_wall d 2 30 + 21600 * second)"
    using nightly_compiles by blast
  let ?d = "localDate (FixedZone (- 21600)) a + 1"
  have ld: "localDate (FixedZone (- 21600)) (utc_wall d 2 30 + 21600 * second) = d" for d
    using utc_wall_parts[of 2 30 d] by (simp add: localDate_def wall_clock_fixed)
  have "a < utc_wall ?d 2 30 + 21600 * second" by (rule localDate_mono[of "- 21600"]) (simp add: ld)
  then have due: "due_after c (- 21600) a (utc_wall ?d 2 30 + 21600 * second)" using c(2) by blast
  show ?thesis
  proof (cases "NextFiring (\<lambda>_. None) nightly a")
    case (Inl e)
    with NextFiring_fixed[OF nightly_zone[of "\<lambda>_. None"] c(1) assms] due
    have "localDate (FixedZone (- 21600)) a - 1 + 9 * 366 \<le> localDate (FixedZone (- 21600)) (utc_wall ?d 2 30 + 21600 * second)"
      by (simp only: sum.case)
    then show ?thesis unfolding ld by simp
  qed blast
qed

text \<open>Two steps of the clock on a fresh status: the first computes the due time, the second fires it.\<close>

lemma nightly_fires:
  "\<exists>st n. clock_reach (\<lambda>_. None) (st, n, [n]) \<and> ss_Firing st = FiringID n"
proof -
  obtain n where n: "NextFiring (\<lambda>_. None) nightly 1 = Inr n" using nightly_next[of 1] by auto
  then have "1 < n" by (rule NextFiring_after) simp
  then obtain m where m: "NextFiring (\<lambda>_. None) nightly n = Inr m" using nightly_next[of n] by auto
  let ?r = "example_role ''dev'' 1" and ?j = "\<lambda>_. 0::int" and ?z = "\<lambda>_::string. None :: Location option"
  have j: "jitter_ok ?j" by (simp add: jitter_ok_def)
  have d: "drawJitter ?j (sp_Jitter nightly) = 0" by (simp add: drawJitter_def)
  let ?spec = "sp_Cron nightly @ ''|'' @ sp_Timezone nightly"
  obtain st1 step1 where s1: "setNextDue ?z ?j example_team ?r nightly 1 n ((new_status [])\<lparr>ss_SpecKey := ?spec\<rparr>, no_step) = (st1, step1)"
    by fastforce
  note f1 = setNextDue_status[OF s1, unfolded d]
  have "advanceFiring ?z ?j example_team ?r nightly 1 [] False (new_status []) = Some (st1, True, step1)"
    using n s1 by (simp add: advanceFiring_def nightly_def new_status_def is_zero_def)
  from clock_step[OF clock_new[of 1] _ j this] have r1: "clock_reach ?z (st1, 1, [])" using f1 by simp
  obtain st2 step2 where s2: "setNextDue ?z ?j example_team ?r nightly n m (st1, no_step) = (st2, step2)" by fastforce
  note f2 = setNextDue_status[OF s2, unfolded d]
  let ?st3 = "start_firing n 0 0 st2" and ?step3 = "clock_event example_team ?r KindScheduleFired step2"
  have "due_firing example_team ?r nightly [] False n 0 0 st2 step2 = (?st3, ?step3)"
    using f1 f2 by (simp add: due_firing_def nightly_def scheduleGrace_def new_status_def minute_def second_def)
  then have "advanceFiring ?z ?j example_team ?r nightly n [] False st1 = Some (?st3, True, ?step3)"
    using f1 m s2 \<open>1 < n\<close>
    by (simp add: advanceFiring_def CatchUp_def is_zero_def time_sub_def new_status_def min_duration_def max_duration_def)
       (simp add: nightly_def)
  from clock_step[OF r1 _ j this] \<open>1 < n\<close> have "clock_reach ?z (?st3, n, [n])" by (simp add: start_firing_def)
  then show ?thesis by (intro exI[of _ ?st3] exI[of _ n]) (simp add: start_firing_def)
qed

theorem no_due_time_fires_twice_witness:
  "\<exists>st n. clock_reach (\<lambda>_. None) (st, n, [n]) \<and> ss_Firing st = FiringID n"
  using nightly_fires no_due_time_fires_twice by auto

section \<open>The retry budget of a firing\<close>

definition settle_all :: "SchedulePolicy \<Rightarrow> (RunRecord \<times> time) list \<Rightarrow> ScheduleStatus \<Rightarrow> ScheduleStatus" where
  "settle_all p rs st = fold (\<lambda>(r, now) st. fst (SettleRun r p now st)) rs st"

lemma settle_all_snoc: "settle_all p (rs @ [(r, now)]) st = fst (SettleRun r p now (settle_all p rs st))"
  by (simp add: settle_all_def)

lemma retry_double_ladder: "0 < d \<Longrightarrow> min (retry_double n d) scheduleRetryBackoffMax = min (d * 2 ^ n) scheduleRetryBackoffMax"
proof (induction n arbitrary: d)
  case (Suc n)
  show ?case
  proof (cases "d < scheduleRetryBackoffMax")
    case True
    with Suc.IH[of "d * 2"] Suc.prems show ?thesis by (simp add: mult.assoc)
  next
    case False
    moreover have "(1::int) \<le> 2 ^ Suc n" by (rule one_le_power) simp
    then have "d * 1 \<le> d * 2 ^ Suc n" using Suc.prems by (intro mult_left_mono) auto
    ultimately show ?thesis by (simp add: min_absorb2)
  qed
qed simp

lemma retry_ladder: "scheduleRetryBackoff n = min (30 * second * 2 ^ nat (n - 1)) (5 * minute)"
  unfolding scheduleRetryBackoff_def
  by (subst retry_double_ladder) (simp_all add: scheduleRetryBackoffInitial_def scheduleRetryBackoffMax_def)

lemma settle_all_failed:
  assumes "\<forall>(r, now)\<in>set rs. run_Outcome r = RunFailed \<and> run_Firing r = ss_Firing st" and "ss_Firing st \<noteq> []"
    and "ss_Attempts st = 0"
  shows "ss_Firing (settle_all p rs st) = ss_Firing st \<and> ss_Attempts (settle_all p rs st) = int (length rs) \<and>
    (sp_Retries p < int (length rs) \<and> rs \<noteq> [] \<longrightarrow>
       ss_Settled (settle_all p rs st) \<and> (sp_OnFailure p = ScheduleOnFailureFreeze \<longrightarrow> ss_Frozen (settle_all p rs st)))"
  using assms(1)
proof (induction rs rule: rev_induct)
  case (snoc x rs)
  obtain r now where x: "x = (r, now)" by fastforce
  from snoc show ?case using assms(2) unfolding x settle_all_snoc by (auto simp: SettleRun_def Let_def)
qed (use assms(3) in \<open>simp add: settle_all_def\<close>)

lemma settle_all_within:
  assumes "\<forall>(r, now)\<in>set rs. run_Outcome r = RunFailed \<and> run_Firing r = ss_Firing st \<and> run_ExitStatus r \<noteq> ExitConfig"
    and "ss_Firing st \<noteq> []" "ss_Attempts st = 0" "\<not> ss_Settled st" "sp_StartingDeadline p = 0" "int (length rs) \<le> sp_Retries p"
  shows "\<not> ss_Settled (settle_all p rs st) \<and> ss_Frozen (settle_all p rs st) = ss_Frozen st \<and>
    (rs \<noteq> [] \<longrightarrow> ss_RetryAfter (settle_all p rs st) = snd (last rs) + scheduleRetryBackoff (int (length rs)))"
  using assms(1,6)
proof (induction rs rule: rev_induct)
  case (snoc x rs)
  obtain r now where x: "x = (r, now)" by fastforce
  have "\<forall>(r, now)\<in>set rs. run_Outcome r = RunFailed \<and> run_Firing r = ss_Firing st" using snoc.prems by auto
  note k = settle_all_failed[OF this assms(2,3), of p]
  from snoc show ?case using k assms(2,5) unfolding x settle_all_snoc by (auto simp: SettleRun_def Let_def add.commute)
qed (use assms in \<open>simp add: settle_all_def\<close>)

lemma settled_firing_holds:
  assumes "ss_Settled st" "ss_Firing st \<noteq> []"
  shows "holdForFiring now st \<noteq> None"
  using assms by (simp add: holdForFiring_def)

lemma schedule_hold_spawns_nothing:
  assumes "role_Schedule role \<noteq> None" and "holdForFiring now (role_schedule c t role) \<noteq> None"
  shows "plan_Spawn (planRole now src bus c t role gen) = 0"
  using assms by (auto simp: planRole_def plan_shed_def Let_def)

text \<open>
  C36. A failing firing has a budget. Once more runs of a firing have failed than \<open>retries\<close> allows, the
  firing is settled (and the schedule frozen under \<open>on_failure = freeze\<close>) and the planner spawns nothing
  for the role whatever the time and the other gates say. Within the budget, with no starting
  deadline and no configuration error, it stays open and the n-th failure waits 30s doubled n - 1
  times, at most 5 minutes.
\<close>

theorem firing_retry_budget:
  fixes p rs st
  assumes "\<forall>(r, now)\<in>set rs. run_Outcome r = RunFailed \<and> run_Firing r = ss_Firing st"
    and "ss_Firing st \<noteq> []" and "ss_Attempts st = 0" and "\<not> ss_Settled st" and "rs \<noteq> []"
  defines "st' \<equiv> settle_all p rs st"
  shows "(sp_Retries p < int (length rs) \<longrightarrow>
      ss_Settled st' \<and> (sp_OnFailure p = ''freeze'' \<longrightarrow> ss_Frozen st') \<and>
      (\<forall>now src bus c t role gen. role_Schedule role \<noteq> None \<and> role_schedule c t role = st' \<longrightarrow>
         plan_Spawn (planRole now src bus c t role gen) = 0)) \<and>
    (int (length rs) \<le> sp_Retries p \<and> sp_StartingDeadline p = 0 \<and> (\<forall>(r, now)\<in>set rs. run_ExitStatus r \<noteq> ''78'') \<longrightarrow>
      \<not> ss_Settled st' \<and> ss_Frozen st' = ss_Frozen st \<and>
      ss_RetryAfter st' = snd (last rs) + min (30 * second * 2 ^ (length rs - 1)) (5 * minute))"
proof (intro conjI impI)
  assume b: "sp_Retries p < int (length rs)"
  note k = settle_all_failed[OF assms(1-3), of p, folded st'_def]
  with b assms(5) show s: "ss_Settled st'" "sp_OnFailure p = ''freeze'' \<Longrightarrow> ss_Frozen st'"
    by (simp_all add: ScheduleOnFailureFreeze_def)
  show "\<forall>now src bus c t role gen. role_Schedule role \<noteq> None \<and> role_schedule c t role = st' \<longrightarrow>
      plan_Spawn (planRole now src bus c t role gen) = 0"
    using settled_firing_holds[OF s(1)] k assms(2) by (auto intro!: schedule_hold_spawns_nothing)
next
  assume "int (length rs) \<le> sp_Retries p \<and> sp_StartingDeadline p = 0 \<and> (\<forall>(r, now)\<in>set rs. run_ExitStatus r \<noteq> ''78'')"
  then have b: "int (length rs) \<le> sp_Retries p" "sp_StartingDeadline p = 0"
    and r: "\<forall>(r, now)\<in>set rs. run_Outcome r = RunFailed \<and> run_Firing r = ss_Firing st \<and> run_ExitStatus r \<noteq> ExitConfig"
    using assms(1) by (auto simp: ExitConfig_def)
  have "nat (int (length rs) - 1) = length rs - 1" by simp
  with settle_all_within[OF r assms(2-4) b(2,1)] assms(5)
  show "\<not> ss_Settled st'" "ss_Frozen st' = ss_Frozen st"
    "ss_RetryAfter st' = snd (last rs) + min (30 * second * 2 ^ (length rs - 1)) (5 * minute)"
    by (simp_all add: st'_def retry_ladder)
qed

definition example_run :: RunRecord where
  "example_run = \<lparr>run_Session = ''ws/a'', run_Firing = ''f'', run_DueAt = 1, run_CatchUp = False, run_StartedAt = 1,
     run_EndedAt = 2, run_Outcome = RunFailed, run_ExitStatus = ''1'', run_Result = [], run_ResultTruncated = False,
     run_StderrTail = []\<rparr>"

theorem firing_retry_budget_witness:
  "ss_Settled (settle_all (nightly\<lparr>sp_Retries := 1, sp_OnFailure := ''freeze''\<rparr>) [(example_run, 5), (example_run, 9)]
     ((new_status ''k'')\<lparr>ss_Firing := ''f''\<rparr>)) \<and>
   \<not> ss_Settled (settle_all (nightly\<lparr>sp_Retries := 1, sp_OnFailure := ''freeze''\<rparr>) [(example_run, 5)] ((new_status ''k'')\<lparr>ss_Firing := ''f''\<rparr>))"
proof -
  let ?st = "(new_status ''k'')\<lparr>ss_Firing := ''f''\<rparr>" and ?p = "nightly\<lparr>sp_Retries := 1, sp_OnFailure := ''freeze''\<rparr>"
  have h: "\<forall>(r, now)\<in>set [(example_run, 5), (example_run, 9)]. run_Outcome r = RunFailed \<and> run_Firing r = ss_Firing ?st"
    "\<forall>(r, now)\<in>set [(example_run, 5)]. run_Outcome r = RunFailed \<and> run_Firing r = ss_Firing ?st"
    "ss_Firing ?st \<noteq> []" "ss_Attempts ?st = 0" "\<not> ss_Settled ?st"
    by (simp_all add: example_run_def new_status_def)
  from firing_retry_budget[OF h(1,3-5), of ?p] firing_retry_budget[OF h(2,3-5), of ?p] show ?thesis
    by (simp add: nightly_def example_run_def)
qed

end
