(* ===== verification/Session_Manager.thy ===== *)
theory Session_Manager
  imports Role_Health Firing Exposure
begin

text \<open>
  The session manager of \<open>internal/session/manager.go\<close>: \<open>Create\<close>, \<open>Delete\<close> and \<open>KillPastDeadline\<close>, the
  reap pass \<open>ReapDead\<close> with \<open>clearStaleCrashed\<close>, \<open>ClearCrashedForRole\<close> and \<open>DeleteAllInWorkspace\<close>, and the
  run record of \<open>run_record.go\<close>.

  The manager's state is the store it shares with the controller, the keys it holds an instance for,
  whether the credential hook \<open>SessionEnded\<close> is wired, and the events it emitted. tmux and the launch
  are outside: what the driver answers during one operation is the argument \<open>tx\<close>, and the outcome of
  each stage of a launch (settings file, directory, container and sandbox checks, the launch plan,
  the overlay, the spawn) is the argument \<open>le\<close>. Views, overlay files, token files, the resume
  journal, backend fields, spend and message texts have no part in the statements and are left out; so
  is the kill by which a reap reclaims the window of a dead pane, a call to tmux whose answer is only
  logged.
\<close>

section \<open>tmux and the manager's state\<close>

record PaneStatus =
  ps_Exists :: bool
  ps_Dead :: bool
  ps_Created :: bool
  ps_ExitStatus :: string

datatype kill_outcome = KillOk | KillPaneGone | KillErr string

record runTail =
  tail_result :: string
  tail_endReason :: string

definition no_tail :: runTail where "no_tail = \<lparr>tail_result = [], tail_endReason = []\<rparr>"

record tmux_env =
  tx_PaneStatus :: "string \<Rightarrow> string + PaneStatus"
  tx_PaneStatuses :: "string + (string \<rightharpoonup> PaneStatus)"
  tx_KillPane :: "string \<Rightarrow> kill_outcome"
  tx_InstanceKill :: "string \<Rightarrow> kill_outcome"
  tx_tail :: "string \<Rightarrow> runTail"
  tx_stderr :: "string \<Rightarrow> string"

record Manager =
  mg_store :: Store
  mg_instances :: "string set"
  mg_hook :: bool
  mg_events :: "Event list"

datatype MgrError = MErrStore StoreError | MErrKill string | MErrExposure string | MErrRefused string
  | MErrToken | MErrTmux string | MErrLaunch string | MErrSpawn string

definition mg_emit :: "EventKind \<Rightarrow> Session \<Rightarrow> Manager \<Rightarrow> Manager" where
  "mg_emit k sess m =
     m\<lparr>mg_events := mg_events m @ [\<lparr>ev_Kind = k, ev_Workspace = sess_Workspace sess, ev_Team = sess_Team sess,
          ev_Role = sess_Role sess, ev_Session = session_key sess\<rparr>]\<rparr>"

section \<open>Instances\<close>

definition sessionEnded :: "commit_oracle \<Rightarrow> string \<Rightarrow> Manager \<Rightarrow> Manager" where
  "sessionEnded commits key m =
     (if \<not> mg_hook m then m
      else m\<lparr>mg_store := fst (UpdateSession commits key (\<lambda>live. (live\<lparr>sess_Ending := True\<rparr>, None)) (mg_store m))\<rparr>)"

definition takeInstance :: "string \<Rightarrow> Manager \<Rightarrow> Manager \<times> bool" where
  "takeInstance key m = (m\<lparr>mg_instances := mg_instances m - {key}\<rparr>, key \<in> mg_instances m)"

text \<open>Whether there was an instance, the run's tail, and the kill error.\<close>

definition retireInstance :: "commit_oracle \<Rightarrow> tmux_env \<Rightarrow> string \<Rightarrow> Manager \<Rightarrow> Manager \<times> bool \<times> runTail \<times> string option" where
  "retireInstance commits tx key m =
     (case takeInstance key (sessionEnded commits key m) of
        (m', False) \<Rightarrow> (m', False, no_tail, None)
      | (m', True) \<Rightarrow> (m', True, tx_tail tx key, case tx_InstanceKill tx key of KillErr e \<Rightarrow> Some e | _ \<Rightarrow> None))"

definition detachInstance :: "commit_oracle \<Rightarrow> tmux_env \<Rightarrow> string \<Rightarrow> Manager \<Rightarrow> Manager \<times> runTail" where
  "detachInstance commits tx key m =
     (case takeInstance key (sessionEnded commits key m) of
        (m', had) \<Rightarrow> (m', if had then tx_tail tx key else no_tail))"

section \<open>The run record\<close>

definition gooseStderrTail :: "tmux_env \<Rightarrow> Session \<Rightarrow> string" where
  "gooseStderrTail tx sess = (if rt_Name (sess_Runtime sess) \<noteq> ''goose'' \<or> sess_HarnessHome sess = [] then [] else tx_stderr tx (sess_HarnessHome sess))"

definition outcome_kind :: "RunOutcome \<Rightarrow> EventKind" where
  "outcome_kind oc = (case oc of RunSucceeded \<Rightarrow> KindRunSucceeded | RunFailed \<Rightarrow> KindRunFailed | RunCancelled \<Rightarrow> KindRunCancelled)"

definition run_record_of :: "tmux_env \<Rightarrow> time \<Rightarrow> Session \<Rightarrow> RunOutcome \<Rightarrow> string \<Rightarrow> runTail \<Rightarrow> RunRecord" where
  "run_record_of tx now sess oc exitStatus tail =
     SetStderrTail (gooseStderrTail tx sess) (SetResult (tail_result tail)
       \<lparr>run_Session = session_key sess, run_Firing = sess_Firing sess, run_DueAt = zero_time, run_CatchUp = False,
        run_StartedAt = sess_CreatedAt sess, run_EndedAt = now, run_Outcome = oc, run_ExitStatus = exitStatus,
        run_Result = [], run_ResultTruncated = False, run_StderrTail = []\<rparr>)"

text \<open>What the closure of \<open>recordRun\<close> does to the stored status: the status and whether it froze.\<close>

definition settle_record :: "SchedulePolicy \<Rightarrow> RunRecord \<Rightarrow> ScheduleStatus \<Rightarrow> ScheduleStatus \<times> bool" where
  "settle_record p rec st =
     (let rec' = (if run_Firing rec \<noteq> [] \<and> run_Firing rec = ss_Firing st
                  then rec\<lparr>run_DueAt := ss_FiringDueAt st, run_CatchUp := ss_FiringCatchUp st\<rparr> else rec)
      in SettleRun rec' p (run_EndedAt rec') (AddRun rec' (HistoryBound p) st))"

definition recordRun :: "commit_oracle \<Rightarrow> tmux_env \<Rightarrow> time \<Rightarrow> Session \<Rightarrow> RunOutcome \<Rightarrow> string \<Rightarrow> runTail \<Rightarrow> EventKind option \<Rightarrow>
    Manager \<Rightarrow> Manager" where
  "recordRun commits tx now sess oc exitStatus tail kindOverride m =
     (case GetTeam (mg_store m) (sess_Workspace sess @ ''/'' @ sess_Team sess) of
        Inl _ \<Rightarrow> m
      | Inr team \<Rightarrow>
          (case Option.bind (find_role team (sess_Role sess)) role_Schedule of
             None \<Rightarrow> m
           | Some p \<Rightarrow>
               let rec = run_record_of tx now sess oc exitStatus tail;
                   key = sess_Workspace sess @ ''/'' @ sess_Team sess @ ''/'' @ sess_Role sess;
                   st = fst (GetScheduleStatus (mg_store m) key);
                   froze = snd (settle_record p rec st);
                   m1 = m\<lparr>mg_store := fst (UpdateScheduleStatus commits key (\<lambda>st. (fst (settle_record p rec st), True)) (mg_store m))\<rparr>;
                   m2 = (if froze then mg_emit KindScheduleFrozen sess m1 else m1)
               in mg_emit (case kindOverride of Some k \<Rightarrow> k | None \<Rightarrow> outcome_kind oc) sess m2))"

definition gooseWallClockReason :: string where "gooseWallClockReason = ''watchdog: wall-clock''"

definition recordScheduledRun :: "commit_oracle \<Rightarrow> tmux_env \<Rightarrow> time \<Rightarrow> Session \<Rightarrow> RunOutcome \<Rightarrow> string \<Rightarrow> runTail \<Rightarrow> Manager \<Rightarrow> Manager" where
  "recordScheduledRun commits tx now sess oc exitStatus tail m =
     recordRun commits tx now sess oc exitStatus tail
       (if oc = RunFailed \<and> rt_Name (sess_Runtime sess) = ''goose'' \<and> tail_endReason tail = gooseWallClockReason
        then Some KindRunDeadline else None) m"

section \<open>Creating a session\<close>

text \<open>What the stages of a launch answer, and the events the checks and the plan report: a refusal is noted
  when it starts and then at a low cadence, so a refused launch may or may not report one.\<close>

record launch_env =
  le_refused :: "string option"
  le_checkEvents :: "Event list"
  le_token :: "string option"
  le_newSession :: "string option"
  le_plan :: "string option"
  le_planEvents :: "Event list"
  le_home :: string
  le_spawn :: "string + string"

definition checkExposure :: "ExposureReader \<Rightarrow> Session \<Rightarrow> Store \<Rightarrow> MgrError option" where
  "checkExposure src sess s =
     (case GetTeam s (sess_Workspace sess @ ''/'' @ sess_Team sess) of
        Inl (ErrNotFound _) \<Rightarrow> None
      | Inl _ \<Rightarrow> Some (MErrExposure ''team record unreadable'')
      | Inr t \<Rightarrow>
          (case find_role t (sess_Role sess) of
             None \<Rightarrow> None
           | Some r \<Rightarrow> (case ExposureVerdict src (sess_Workspace sess) (sess_Team sess) (Some r) of
                          (True, reason) \<Rightarrow> Some (MErrExposure reason)
                        | (False, _) \<Rightarrow> None)))"

definition pending_row :: "time \<Rightarrow> string \<Rightarrow> Session \<Rightarrow> Session" where
  "pending_row now hash sess = sess\<lparr>sess_State := SessionPending, sess_CreatedAt := now, sess_HeartbeatTokenHash := hash\<rparr>"

text \<open>A failed stage between the tmux session and the spawn drops the row, whatever the drop returns.\<close>

definition abandon :: "commit_oracle \<Rightarrow> string \<Rightarrow> Manager \<Rightarrow> Manager" where
  "abandon commits key m = m\<lparr>mg_store := fst (DeleteSession commits key (mg_store m))\<rparr>"

definition mg_report :: "Event list \<Rightarrow> Manager \<Rightarrow> Manager" where
  "mg_report evs m = m\<lparr>mg_events := mg_events m @ evs\<rparr>"

definition announceSpawn :: "Session \<Rightarrow> Manager \<Rightarrow> Manager" where
  "announceSpawn sess m = mg_emit KindSessionFirstPrompt sess (mg_emit KindSessionCreated sess m)"

definition Create :: "commit_oracle \<Rightarrow> ExposureReader \<Rightarrow> launch_env \<Rightarrow> time \<Rightarrow> Session \<Rightarrow> Manager \<Rightarrow> Manager \<times> MgrError option" where
  "Create commits src le now sess0 m =
     (case checkExposure src sess0 (mg_store m) of
        Some e \<Rightarrow> (m, Some e)
      | None \<Rightarrow>
      let m0 = mg_report (le_checkEvents le) m
      in case le_refused le of
        Some e \<Rightarrow> (m0, Some (MErrRefused e))
      | None \<Rightarrow>
      case le_token le of
        None \<Rightarrow> (m0, Some MErrToken)
      | Some hash \<Rightarrow>
      let sess = pending_row now hash sess0; key = session_key sess
      in case CreateSession commits sess (mg_store m0) of
        (s, Some e) \<Rightarrow> (m0\<lparr>mg_store := s\<rparr>, Some (MErrStore e))
      | (s, None) \<Rightarrow>
      let m1 = m0\<lparr>mg_store := s\<rparr>
      in case le_newSession le of
        Some e \<Rightarrow> (m1, Some (MErrTmux e))
      | None \<Rightarrow>
      let m2 = mg_report (le_planEvents le) m1
      in case le_plan le of
        Some e \<Rightarrow> (abandon commits key m2, Some (MErrLaunch e))
      | None \<Rightarrow>
      case le_spawn le of
        Inl e \<Rightarrow> (abandon commits key m2, Some (MErrSpawn e))
      | Inr pane \<Rightarrow>
      let m3 = m2\<lparr>mg_instances := insert key (mg_instances m2)\<rparr>
      in case UpdateSession commits key (\<lambda>live. (live\<lparr>sess_PaneID := pane, sess_State := SessionRunning, sess_HarnessHome := le_home le\<rparr>, None)) (mg_store m3) of
        (s2, Some e) \<Rightarrow> (m3\<lparr>mg_store := s2\<rparr>, Some (MErrStore e))
      | (s2, None) \<Rightarrow> (announceSpawn sess (m3\<lparr>mg_store := s2\<rparr>), None))"

lemma mg_report_sel [simp]:
  "mg_store (mg_report evs m) = mg_store m" "mg_instances (mg_report evs m) = mg_instances m" "mg_events (mg_report evs m) = mg_events m @ evs"
  by (simp_all add: mg_report_def)

section \<open>Deleting a session\<close>

definition headlessCompleted :: "Session \<Rightarrow> PaneStatus \<Rightarrow> bool" where
  "headlessCompleted sess st \<longleftrightarrow>
     rt_Mode (sess_Runtime sess) = RuntimeModeHeadless \<and> ps_Exists st \<and> ps_Dead st \<and> ps_ExitStatus st = ''0''"

definition headlessConfigError :: "Session \<Rightarrow> PaneStatus \<Rightarrow> bool" where
  "headlessConfigError sess st \<longleftrightarrow>
     rt_Mode (sess_Runtime sess) = RuntimeModeHeadless \<and> ps_Exists st \<and> ps_Dead st \<and> ps_ExitStatus st = ExitConfig"

definition dropSession :: "commit_oracle \<Rightarrow> Session \<Rightarrow> Manager \<Rightarrow> Manager \<times> MgrError option" where
  "dropSession commits sess m =
     (case DeleteSession commits (session_key sess) (mg_store m) of
        (s, Some e) \<Rightarrow> (m\<lparr>mg_store := s\<rparr>, Some (MErrStore e))
      | (s, None) \<Rightarrow> (mg_emit KindSessionDeleted sess (m\<lparr>mg_store := s\<rparr>), None))"

definition keepAfterFailedKill :: "commit_oracle \<Rightarrow> Session \<Rightarrow> string \<Rightarrow> Manager \<Rightarrow> Manager \<times> MgrError option" where
  "keepAfterFailedKill commits sess kerr m =
     (mg_emit KindSessionKillFailed sess
        (m\<lparr>mg_store := fst (UpdateSession commits (session_key sess)
             (\<lambda>live. (live\<lparr>sess_State := SessionFailed, sess_KillError := kerr\<rparr>, None)) (mg_store m))\<rparr>),
      Some (MErrKill kerr))"

text \<open>The status of a pane that has already ended, if the read says so.\<close>

definition pane_ended :: "tmux_env \<Rightarrow> Session \<Rightarrow> PaneStatus option" where
  "pane_ended tx sess =
     (if sess_PaneID sess = [] then None
      else case tx_PaneStatus tx (sess_PaneID sess) of
        Inl _ \<Rightarrow> None
      | Inr st \<Rightarrow> if \<not> ps_Exists st \<or> ps_Dead st then Some st else None)"

definition record_deleted :: "commit_oracle \<Rightarrow> tmux_env \<Rightarrow> time \<Rightarrow> bool \<Rightarrow> Session \<Rightarrow> runTail \<Rightarrow> Manager \<Rightarrow> Manager" where
  "record_deleted commits tx now pastDeadline sess tail m =
     (if sess_PaneID sess = [] then m
      else case pane_ended tx sess of
        Some st \<Rightarrow> recordScheduledRun commits tx now sess (if headlessCompleted sess st then RunSucceeded else RunFailed)
                     (ps_ExitStatus st) tail m
      | None \<Rightarrow>
          if pastDeadline then recordRun commits tx now sess RunFailed [] tail (Some KindRunDeadline) m
          else recordScheduledRun commits tx now sess RunCancelled [] tail m)"

definition deleteSession :: "commit_oracle \<Rightarrow> tmux_env \<Rightarrow> time \<Rightarrow> string \<Rightarrow> bool \<Rightarrow> Manager \<Rightarrow> Manager \<times> MgrError option" where
  "deleteSession commits tx now key pastDeadline m =
     (case GetSession (mg_store m) key of
        Inl e \<Rightarrow> (m, Some (MErrStore e))
      | Inr sess \<Rightarrow>
          (case retireInstance commits tx key m of
             (m1, had, tail, kerr) \<Rightarrow>
               let kerr' = (if \<not> had \<and> sess_PaneID sess \<noteq> []
                            then case tx_KillPane tx (sess_PaneID sess) of KillErr e \<Rightarrow> Some e | _ \<Rightarrow> kerr
                            else kerr)
               in case kerr' of
                    Some e \<Rightarrow> keepAfterFailedKill commits sess e m1
                  | None \<Rightarrow> dropSession commits sess (record_deleted commits tx now pastDeadline sess tail m1)))"

definition Delete :: "commit_oracle \<Rightarrow> tmux_env \<Rightarrow> time \<Rightarrow> string \<Rightarrow> Manager \<Rightarrow> Manager \<times> MgrError option" where
  "Delete commits tx now key m = deleteSession commits tx now key False m"

definition KillPastDeadline :: "commit_oracle \<Rightarrow> tmux_env \<Rightarrow> time \<Rightarrow> string \<Rightarrow> Manager \<Rightarrow> Manager \<times> MgrError option" where
  "KillPastDeadline commits tx now key m = deleteSession commits tx now key True m"

definition DeleteAllInWorkspace :: "commit_oracle \<Rightarrow> tmux_env \<Rightarrow> time \<Rightarrow> string \<Rightarrow> Manager \<Rightarrow> Manager" where
  "DeleteAllInWorkspace commits tx now ws m =
     foldl (\<lambda>m s. if sess_Workspace s = ws then fst (Delete commits tx now (session_key s) m) else m) m (ListSessions (mg_store m))"

section \<open>The reap pass\<close>

text \<open>\<open>paneListing.status\<close>: the listing answers; a pane it does not hold is read again on its own.\<close>

definition listing_status :: "tmux_env \<Rightarrow> string \<Rightarrow> string + PaneStatus" where
  "listing_status tx pane =
     (case tx_PaneStatuses tx of
        Inl e \<Rightarrow> Inl e
      | Inr panes \<Rightarrow> (case panes pane of Some st \<Rightarrow> Inr st | None \<Rightarrow> tx_PaneStatus tx pane))"

definition stale_crashed :: "string list \<Rightarrow> Session \<Rightarrow> Session \<Rightarrow> bool" where
  "stale_crashed marked sess x \<longleftrightarrow>
     (sess_State x = SessionCrashed \<or> session_key x \<in> set marked) \<and>
     sess_Workspace x = sess_Workspace sess \<and> sess_Team x = sess_Team sess \<and> sess_Role x = sess_Role sess \<and>
     session_key x \<noteq> session_key sess"

definition clearStaleCrashed :: "commit_oracle \<Rightarrow> Session list \<Rightarrow> string list \<Rightarrow> Session \<Rightarrow> Manager \<Rightarrow> Manager" where
  "clearStaleCrashed commits snapshot marked sess m =
     foldl (\<lambda>m x. if stale_crashed marked sess x then abandon commits (session_key x) m else m) m snapshot"

definition reaped_of :: "Session \<Rightarrow> ReapedSession" where
  "reaped_of sess = \<lparr>reap_Key = session_key sess, reap_Workspace = sess_Workspace sess, reap_Team = sess_Team sess,
     reap_Role = sess_Role sess\<rparr>"

type_synonym reap_state = "Manager \<times> string list \<times> ReapedSession list"

text \<open>The three ends of a row whose pane is gone: succeeded, configuration error, crashed.\<close>

definition mark_ended :: "SessionState \<Rightarrow> HealthState \<Rightarrow> PaneStatus \<Rightarrow> Session \<Rightarrow> Session \<times> string option" where
  "mark_ended state health st live =
     (live\<lparr>sess_State := state, sess_PaneID := [], sess_ExitStatus := ps_ExitStatus st, sess_HealthState := health\<rparr>, None)"

definition reap_gone :: "commit_oracle \<Rightarrow> tmux_env \<Rightarrow> time \<Rightarrow> Session list \<Rightarrow> Session \<Rightarrow> PaneStatus \<Rightarrow> reap_state \<Rightarrow> reap_state" where
  "reap_gone commits tx now snapshot sess st = (\<lambda>(m, marked, reaped).
     let key = session_key sess; (m1, tail) = detachInstance commits tx key m
     in if sess_KillError sess \<noteq> [] then
          (fst (dropSession commits sess (recordScheduledRun commits tx now sess RunCancelled (ps_ExitStatus st) tail m1)), marked, reaped)
        else if headlessCompleted sess st then
          (case UpdateSession commits key (mark_ended SessionSucceeded HealthUnknown st) (mg_store m1) of
             (s, Some _) \<Rightarrow> (m1\<lparr>mg_store := s\<rparr>, marked, reaped)
           | (s, None) \<Rightarrow> (recordScheduledRun commits tx now sess RunSucceeded (ps_ExitStatus st) tail
                            (mg_emit KindSessionSucceeded sess (m1\<lparr>mg_store := s\<rparr>)), marked, reaped))
        else if headlessConfigError sess st then
          (case UpdateSession commits key (mark_ended SessionFailed HealthUnknown st) (mg_store m1) of
             (s, Some _) \<Rightarrow> (m1\<lparr>mg_store := s\<rparr>, marked, reaped)
           | (s, None) \<Rightarrow> (recordScheduledRun commits tx now sess RunFailed (ps_ExitStatus st) tail
                            (mg_emit KindSessionFailed sess (m1\<lparr>mg_store := s\<rparr>)), marked, reaped))
        else
          let m2 = clearStaleCrashed commits snapshot marked sess m1
          in case UpdateSession commits key (mark_ended SessionCrashed HealthUnhealthy st) (mg_store m2) of
               (s, Some _) \<Rightarrow> (m2\<lparr>mg_store := s\<rparr>, marked, reaped)
             | (s, None) \<Rightarrow> (recordScheduledRun commits tx now sess RunFailed (ps_ExitStatus st) tail
                              (mg_emit KindSessionCrashed sess (m2\<lparr>mg_store := s\<rparr>)), marked @ [key], reaped @ [reaped_of sess]))"

definition reap_one :: "commit_oracle \<Rightarrow> tmux_env \<Rightarrow> time \<Rightarrow> Session list \<Rightarrow> Session \<Rightarrow> reap_state \<Rightarrow> reap_state" where
  "reap_one commits tx now snapshot sess rs =
     (if sess_PaneID sess = [] then rs
      else case listing_status tx (sess_PaneID sess) of
        Inl _ \<Rightarrow> rs
      | Inr st \<Rightarrow> if ps_Exists st \<and> \<not> ps_Dead st then rs else reap_gone commits tx now snapshot sess st rs)"

definition ReapDead :: "commit_oracle \<Rightarrow> tmux_env \<Rightarrow> time \<Rightarrow> Manager \<Rightarrow> Manager \<times> ReapedSession list" where
  "ReapDead commits tx now m =
     (let snapshot = ListSessions (mg_store m)
      in case foldl (\<lambda>rs sess. reap_one commits tx now snapshot sess rs) (m, [], []) snapshot of
           (m', _, reaped) \<Rightarrow> (m', reaped))"

definition ClearCrashedForRole :: "commit_oracle \<Rightarrow> string \<Rightarrow> string \<Rightarrow> string \<Rightarrow> Manager \<Rightarrow> Manager" where
  "ClearCrashedForRole commits ws team role m =
     foldl (\<lambda>m s. if sess_State s = SessionCrashed \<and> sess_Workspace s = ws \<and> sess_Team s = team \<and> sess_Role s = role
                   then abandon commits (session_key s) m else m) m (ListSessions (mg_store m))"

end
