(* ===== verification/Session_Properties.thy ===== *)
theory Session_Properties
  imports Session_Manager Planner_Properties
begin

text \<open>
  What the session manager guarantees of the rows it creates, deletes and reaps. The statements about
  a pass assume that the store's writes commit (an in-memory store always does); what a failed write
  leaves is the subject of \<open>Store_Properties\<close>.
\<close>

section \<open>Rows after a store operation\<close>

abbreviation rows :: "Manager \<Rightarrow> string \<rightharpoonup> Session" where
  "rows m \<equiv> session_at (mg_store m)"

definition all_commit :: "commit_oracle \<Rightarrow> bool" where
  "all_commit commits \<longleftrightarrow> (\<forall>n. commits n)"

lemma persist_commits:
  assumes "all_commit commits"
  shows "snd (persistPut commits b k p v s) = None" "snd (persistPutIfChanged commits b k p v s) = None"
    "snd (persistDelete commits b k s) = None"
  using assms
  by (simp_all add: persistPut_def persistPutIfChanged_def persistDelete_def putBytes_def boltUpdate_def Let_def all_commit_def split: option.split)

lemma delete_duties_commits: "all_commit commits \<Longrightarrow> snd (delete_duties commits seat ds s) = None"
proof (induction commits seat ds s rule: delete_duties.induct)
  case (2 commits seat k r rest s)
  show ?case
  proof (cases "persistDelete commits bucketDutyReadiness k s")
    case (Pair s' e)
    with persist_commits(3)[OF 2(3), of bucketDutyReadiness k s] have "e = None" by simp
    with Pair 2 show ?thesis by simp
  qed
qed simp

lemma update_commits:
  assumes "all_commit commits" and "session_at s k = Some v" and "\<And>x. snd (f x) = None"
  obtains s' where "UpdateSession commits k f s = (s', None)" "session_at s' = (session_at s)(k \<mapsto> fst (f v))"
proof -
  obtain w where w: "f v = (w, None)" using assms(3)[of v] by (cases "f v") auto
  obtain s' e where u: "UpdateSession commits k f s = (s', e)" by fastforce
  have "e = None" using u assms(2) w persist_commits(2)[OF assms(1)]
    by (simp add: UpdateSession_def) (metis snd_conv)
  then show thesis using that u session_table.update_look[OF assms(2), of commits f] by simp
qed

lemma delete_commits:
  assumes "all_commit commits" and "session_at s k = Some v"
  shows "\<exists>s'. DeleteSession commits k s = (s', None)"
proof -
  obtain s' e where p: "persistDelete commits bucketSessions k s = (s', e)" by fastforce
  with persist_commits(3)[OF assms(1), of bucketSessions k s] have "e = None" by simp
  with p assms delete_duties_commits[OF assms(1)] show ?thesis
    by (simp add: DeleteSession_def deleteSeatDutiesLocked_def) (metis prod.collapse)
qed

lemma abandon_rows [simp]: "all_commit commits \<Longrightarrow> rows (abandon commits k m) = (rows m)(k := None)"
proof (cases "rows m k")
  case None
  then show ?thesis using session_table.delete_missing[of "mg_store m" k commits] by (auto simp: abandon_def)
next
  case (Some v)
  assume c: "all_commit commits"
  obtain s' where "DeleteSession commits k (mg_store m) = (s', None)" using delete_commits[OF c Some] by blast
  then show ?thesis using session_table.delete_ok by (auto simp: abandon_def)
qed

section \<open>What the bookkeeping leaves alone\<close>

lemma mg_emit_simps [simp]: "mg_store (mg_emit k sess m) = mg_store m" "mg_instances (mg_emit k sess m) = mg_instances m"
  by (simp_all add: mg_emit_def)

lemma UpdateScheduleStatus_sessions [simp]:
  "st_sessions (fst (UpdateScheduleStatus commits k f s)) = st_sessions s"
  by (auto simp: UpdateScheduleStatus_def Let_def same_tables_def split: prod.splits option.splits dest!: persist_tables)

lemma recordRun_sessions [simp]:
  "st_sessions (mg_store (recordRun commits tx now sess oc ex tail ko m)) = st_sessions (mg_store m)"
  by (simp add: recordRun_def Let_def split: sum.split option.split)

lemma recordScheduledRun_sessions [simp]:
  "st_sessions (mg_store (recordScheduledRun commits tx now sess oc ex tail m)) = st_sessions (mg_store m)"
  by (simp add: recordScheduledRun_def)

lemma record_deleted_sessions [simp]:
  "st_sessions (mg_store (record_deleted commits tx now pd sess tail m)) = st_sessions (mg_store m)"
  by (simp add: record_deleted_def split: option.split)

text \<open>Ending a session's credentials touches its own row only.\<close>

lemma sessionEnded_rows:
  "rows (sessionEnded commits k m) = (case rows m k of None \<Rightarrow> rows m
     | Some v \<Rightarrow> (rows m)(k \<mapsto> if mg_hook m then v\<lparr>sess_Ending := True\<rparr> else v))"
  using session_table.update_look[of "mg_store m" k _ commits "\<lambda>live. (live\<lparr>sess_Ending := True\<rparr>, None)"]
    session_table.update_missing[of "mg_store m" k commits]
  by (auto simp: sessionEnded_def split: option.split)

definition ended_row :: "Manager \<Rightarrow> Session \<Rightarrow> Session" where
  "ended_row m v = (if mg_hook m then v\<lparr>sess_Ending := True\<rparr> else v)"

lemma sessionEnded_row:
  "rows m k = Some v \<Longrightarrow> rows (sessionEnded commits k m) = (rows m)(k \<mapsto> ended_row m v)"
  by (simp add: sessionEnded_rows ended_row_def)

lemma ended_row_simps [simp]:
  "sess_State (ended_row m v) = sess_State v" "sess_PaneID (ended_row m v) = sess_PaneID v"
  "sess_Workspace (ended_row m v) = sess_Workspace v" "sess_Team (ended_row m v) = sess_Team v"
  "sess_Role (ended_row m v) = sess_Role v" "sess_Name (ended_row m v) = sess_Name v" "session_key (ended_row m v) = session_key v"
  "sess_Generation (ended_row m v) = sess_Generation v"
  by (simp_all add: ended_row_def session_key_def)

lemma instance_rows:
  "rows (fst (retireInstance commits tx k m)) = rows (sessionEnded commits k m)"
  "rows (fst (detachInstance commits tx k m)) = rows (sessionEnded commits k m)"
  by (simp_all add: retireInstance_def detachInstance_def takeInstance_def split: bool.split prod.split)

section \<open>The reap pass\<close>

text \<open>The verdict of the pass on a row, from what tmux answers: its pane is gone, and it crashed.\<close>

definition pane_gone :: "tmux_env \<Rightarrow> Session \<Rightarrow> bool" where
  "pane_gone tx sess \<longleftrightarrow> sess_PaneID sess \<noteq> [] \<and>
     (case listing_status tx (sess_PaneID sess) of Inl _ \<Rightarrow> False | Inr st \<Rightarrow> \<not> ps_Exists st \<or> ps_Dead st)"

definition reap_crash :: "tmux_env \<Rightarrow> Session \<Rightarrow> bool" where
  "reap_crash tx sess \<longleftrightarrow> pane_gone tx sess \<and> sess_KillError sess = [] \<and>
     (case listing_status tx (sess_PaneID sess) of Inl _ \<Rightarrow> False
      | Inr st \<Rightarrow> \<not> headlessCompleted sess st \<and> \<not> headlessConfigError sess st)"

definition slot_of :: "Session \<Rightarrow> string \<times> string \<times> string" where
  "slot_of s = (sess_Workspace s, sess_Team s, sess_Role s)"

definition rows_wf :: "Store \<Rightarrow> bool" where
  "rows_wf s \<longleftrightarrow> distinct (map session_key (ListSessions s)) \<and> map fst (st_sessions s) = map session_key (ListSessions s) \<and>
     (\<forall>x\<in>set (ListSessions s). sess_State x = SessionCrashed \<longrightarrow> sess_PaneID x = [])"

lemma slot_of_simps [simp]:
  "slot_of (ended_row m v) = slot_of v"
  "slot_of (v\<lparr>sess_State := a, sess_PaneID := b, sess_ExitStatus := c, sess_HealthState := d\<rparr>) = slot_of v"
  by (simp_all add: slot_of_def)

lemma clearStaleCrashed_rows:
  assumes "all_commit commits"
  shows "rows (clearStaleCrashed commits snapshot marked sess m) =
    (\<lambda>k. if \<exists>x\<in>set snapshot. stale_crashed marked sess x \<and> session_key x = k then None else rows m k)"
proof -
  have "rows (foldl (\<lambda>m x. if stale_crashed marked sess x then abandon commits (session_key x) m else m) m xs) =
    (\<lambda>k. if \<exists>x\<in>set xs. stale_crashed marked sess x \<and> session_key x = k then None else rows m k)" for xs
    by (induction xs rule: rev_induct) (auto simp: assms intro!: ext)
  then show ?thesis by (simp add: clearStaleCrashed_def)
qed

lemma drop_rows:
  assumes "all_commit commits" "rows m (session_key sess) = Some v"
  shows "rows (fst (dropSession commits sess m)) = (rows m)(session_key sess := None)"
    and "snd (dropSession commits sess m) = None"
proof -
  obtain s' where "DeleteSession commits (session_key sess) (mg_store m) = (s', None)" using delete_commits[OF assms] by blast
  then show "rows (fst (dropSession commits sess m)) = (rows m)(session_key sess := None)" "snd (dropSession commits sess m) = None"
    using session_table.delete_ok by (auto simp: dropSession_def)
qed

lemma mark_ended_update:
  assumes "all_commit commits" "session_at s k = Some v"
  obtains s' where "UpdateSession commits k (mark_ended a h st) s = (s', None)"
    "session_at s' = (session_at s)(k \<mapsto> v\<lparr>sess_State := a, sess_PaneID := [], sess_ExitStatus := ps_ExitStatus st, sess_HealthState := h\<rparr>)"
  using update_commits[OF assms, of "mark_ended a h st"] by (auto simp: mark_ended_def)

text \<open>What one row of the pass does to the table.\<close>

lemma reap_gone_effect:
  assumes c: "all_commit commits" and row: "rows m (session_key sess) = Some sess"
    and st: "listing_status tx (sess_PaneID sess) = Inr st" and gone: "pane_gone tx sess"
  shows "\<exists>m' v. sess_State v \<noteq> SessionCrashed \<and> slot_of v = slot_of sess \<and> \<not> reap_crash tx sess \<and>
      reap_gone commits tx now snapshot sess st (m, marked, reaped) = (m', marked, reaped) \<and>
      (rows m' = (rows m)(session_key sess := None) \<or> rows m' = (rows m)(session_key sess \<mapsto> v))
    \<or> sess_State v = SessionCrashed \<and> slot_of v = slot_of sess \<and> reap_crash tx sess \<and>
      reap_gone commits tx now snapshot sess st (m, marked, reaped) = (m', marked @ [session_key sess], reaped @ [reaped_of sess]) \<and>
      rows m' = (\<lambda>k. if \<exists>x\<in>set snapshot. stale_crashed marked sess x \<and> session_key x = k then None else rows m k)(session_key sess \<mapsto> v)"
proof -
  let ?k = "session_key sess"
  obtain m1 tail where d: "detachInstance commits tx ?k m = (m1, tail)" by fastforce
  have r1: "rows m1 = (rows m)(?k \<mapsto> ended_row m sess)"
    using instance_rows(2)[of commits tx ?k m] d sessionEnded_row[OF row, of commits] by simp
  then have k1: "rows m1 ?k = Some (ended_row m sess)" by simp
  let ?fin = "\<lambda>a h. (ended_row m sess)\<lparr>sess_State := a, sess_PaneID := [], sess_ExitStatus := ps_ExitStatus st, sess_HealthState := h\<rparr>"
  consider (kill) "sess_KillError sess \<noteq> []" | (ok) "sess_KillError sess = []" "headlessCompleted sess st"
    | (cfg) "sess_KillError sess = []" "\<not> headlessCompleted sess st" "headlessConfigError sess st"
    | (crash) "sess_KillError sess = []" "\<not> headlessCompleted sess st" "\<not> headlessConfigError sess st" by blast
  then show ?thesis
  proof cases
    case kill
    let ?m = "recordScheduledRun commits tx now sess RunCancelled (ps_ExitStatus st) tail m1"
    have "rows ?m ?k = Some (ended_row m sess)" using k1 by simp
    from drop_rows(1)[OF c this] r1 have "rows (fst (dropSession commits sess ?m)) = (rows m)(?k := None)" by simp
    with kill d show ?thesis
      by (intro exI[of _ "fst (dropSession commits sess ?m)"] exI[of _ "sess\<lparr>sess_State := SessionRunning\<rparr>"])
         (simp add: reap_gone_def reap_crash_def slot_of_def)
  next
    case ok
    obtain s' where "UpdateSession commits ?k (mark_ended SessionSucceeded HealthUnknown st) (mg_store m1) = (s', None)"
      "session_at s' = (rows m1)(?k \<mapsto> ?fin SessionSucceeded HealthUnknown)" using mark_ended_update[OF c k1] by blast
    with ok d r1 st show ?thesis
      by (intro exI[of _ "recordScheduledRun commits tx now sess RunSucceeded (ps_ExitStatus st) tail
           (mg_emit KindSessionSucceeded sess (m1\<lparr>mg_store := s'\<rparr>))"] exI[of _ "?fin SessionSucceeded HealthUnknown"])
         (simp add: reap_gone_def reap_crash_def)
  next
    case cfg
    obtain s' where "UpdateSession commits ?k (mark_ended SessionFailed HealthUnknown st) (mg_store m1) = (s', None)"
      "session_at s' = (rows m1)(?k \<mapsto> ?fin SessionFailed HealthUnknown)" using mark_ended_update[OF c k1] by blast
    with cfg d r1 st show ?thesis
      by (intro exI[of _ "recordScheduledRun commits tx now sess RunFailed (ps_ExitStatus st) tail
           (mg_emit KindSessionFailed sess (m1\<lparr>mg_store := s'\<rparr>))"] exI[of _ "?fin SessionFailed HealthUnknown"])
         (simp add: reap_gone_def reap_crash_def)
  next
    case crash
    let ?m2 = "clearStaleCrashed commits snapshot marked sess m1"
    have r2: "rows ?m2 = (\<lambda>k. if \<exists>x\<in>set snapshot. stale_crashed marked sess x \<and> session_key x = k then None else rows m1 k)"
      by (rule clearStaleCrashed_rows[OF c])
    then have k2: "rows ?m2 ?k = Some (ended_row m sess)" using k1 by (auto simp: stale_crashed_def)
    obtain s' where "UpdateSession commits ?k (mark_ended SessionCrashed HealthUnhealthy st) (mg_store ?m2) = (s', None)"
      "session_at s' = (rows ?m2)(?k \<mapsto> ?fin SessionCrashed HealthUnhealthy)" using mark_ended_update[OF c k2] by blast
    with crash d r1 r2 st gone show ?thesis
      by (intro exI[of _ "recordScheduledRun commits tx now sess RunFailed (ps_ExitStatus st) tail
           (mg_emit KindSessionCrashed sess (?m2\<lparr>mg_store := s'\<rparr>))"] exI[of _ "?fin SessionCrashed HealthUnhealthy"])
         (auto simp: reap_gone_def reap_crash_def fun_eq_iff)
  qed
qed

lemma reap_one_cases:
  "reap_one commits tx now snapshot sess rs =
     (if pane_gone tx sess then reap_gone commits tx now snapshot sess (case listing_status tx (sess_PaneID sess) of Inr st \<Rightarrow> st) rs else rs)"
  by (auto simp: reap_one_def pane_gone_def split: sum.splits)

text \<open>The invariant of the pass, after the rows of \<open>P\<close> and before those of \<open>R\<close>.\<close>

definition reap_inv :: "tmux_env \<Rightarrow> Session list \<Rightarrow> Session list \<Rightarrow> reap_state \<Rightarrow> bool" where
  "reap_inv tx P R rs \<longleftrightarrow> (case rs of (m, marked, reaped) \<Rightarrow>
     marked = map session_key (filter (reap_crash tx) P) \<and> reaped = map reaped_of (filter (reap_crash tx) P) \<and>
     (\<forall>x\<in>set (P @ R). sess_State x \<noteq> SessionCrashed \<and> (x \<in> set P \<longrightarrow> \<not> pane_gone tx x) \<longrightarrow> rows m (session_key x) = Some x) \<and>
     (\<forall>k s. rows m k = Some s \<longrightarrow> (\<exists>x\<in>set (P @ R). session_key x = k \<and> slot_of s = slot_of x \<and>
        (sess_State s = SessionCrashed \<longrightarrow> sess_State x = SessionCrashed \<or> reap_crash tx x \<and> x \<in> set P))) \<and>
     (\<forall>x\<in>set P. reap_crash tx x \<longrightarrow> (\<forall>k s. rows m k = Some s \<and> sess_State s = SessionCrashed \<and> slot_of s = slot_of x \<longrightarrow>
        k = session_key (last (filter (\<lambda>y. reap_crash tx y \<and> slot_of y = slot_of x) P)))))"

lemma rows_snapshot:
  assumes "rows_wf s" "x \<in> set (ListSessions s)"
  shows "session_at s (session_key x) = Some x"
proof -
  from assms(2) obtain k where kx: "(k, x) \<in> set (st_sessions s)" by (auto simp: ListSessions_def)
  then obtain i where i: "i < length (st_sessions s)" "st_sessions s ! i = (k, x)" by (auto simp: in_set_conv_nth)
  have "map fst (st_sessions s) ! i = map session_key (ListSessions s) ! i" using assms(1) by (simp add: rows_wf_def)
  then have "k = session_key x" using i by (simp add: ListSessions_def)
  moreover have "distinct (map fst (st_sessions s))" using assms(1) by (simp add: rows_wf_def)
  ultimately show ?thesis using kx by (simp add: map_of_eq_Some_iff)
qed

lemma snapshot_rows:
  assumes "rows_wf s" "session_at s k = Some x"
  shows "x \<in> set (ListSessions s) \<and> session_key x = k"
proof -
  have "x \<in> set (ListSessions s)" using assms(2) by (auto simp: ListSessions_def dest!: map_of_SomeD intro: rev_image_eqI)
  from assms(2) obtain i where i: "i < length (st_sessions s)" "st_sessions s ! i = (k, x)"
    by (auto dest!: map_of_SomeD simp: in_set_conv_nth)
  have "map fst (st_sessions s) ! i = map session_key (ListSessions s) ! i" using assms(1) by (simp add: rows_wf_def)
  then have "k = session_key x" using i by (simp add: ListSessions_def)
  with \<open>x \<in> set (ListSessions s)\<close> show ?thesis by simp
qed

text \<open>A row that is not charged: the other rows stay, and its own is dropped or ends as anything but crashed.\<close>

lemma reap_inv_quiet:
  assumes inv: "reap_inv tx P (sess # R) (m, marked, reaped)" and nc: "\<not> reap_crash tx sess"
    and sess: "sess \<notin> set P"
    and keep: "\<forall>x\<in>set (P @ sess # R). (x = sess \<longrightarrow> \<not> pane_gone tx sess) \<longrightarrow> rows m' (session_key x) = rows m (session_key x)"
    and new: "\<And>k s. rows m' k = Some s \<Longrightarrow> rows m k = Some s \<or> k = session_key sess \<and> slot_of s = slot_of sess \<and> sess_State s \<noteq> SessionCrashed"
  shows "reap_inv tx (P @ [sess]) R (m', marked, reaped)"
  unfolding reap_inv_def prod.case
proof (intro conjI ballI allI impI)
  show "marked = map session_key (filter (reap_crash tx) (P @ [sess]))" "reaped = map reaped_of (filter (reap_crash tx) (P @ [sess]))"
    using inv nc by (simp_all add: reap_inv_def)
next
  fix x assume x: "x \<in> set ((P @ [sess]) @ R)" "sess_State x \<noteq> SessionCrashed \<and> (x \<in> set (P @ [sess]) \<longrightarrow> \<not> pane_gone tx x)"
  then have "rows m (session_key x) = Some x" using inv sess unfolding reap_inv_def prod.case by auto
  then show "rows m' (session_key x) = Some x" using keep x by auto
next
  fix k s assume s: "rows m' k = Some s"
  from new[OF s] show "\<exists>x\<in>set ((P @ [sess]) @ R). session_key x = k \<and> slot_of s = slot_of x \<and>
      (sess_State s = SessionCrashed \<longrightarrow> sess_State x = SessionCrashed \<or> reap_crash tx x \<and> x \<in> set (P @ [sess]))"
  proof
    assume "rows m k = Some s"
    then obtain x where "x \<in> set (P @ sess # R)" "session_key x = k" "slot_of s = slot_of x"
      "sess_State s = SessionCrashed \<longrightarrow> sess_State x = SessionCrashed \<or> reap_crash tx x \<and> x \<in> set P"
      using inv unfolding reap_inv_def prod.case by blast
    then show ?thesis by (intro bexI[of _ x]) auto
  qed (intro bexI[of _ sess], auto)
next
  fix x k s assume x: "x \<in> set (P @ [sess])" "reap_crash tx x"
    and s: "rows m' k = Some s \<and> sess_State s = SessionCrashed \<and> slot_of s = slot_of x"
  then have "x \<in> set P" "rows m k = Some s" using nc new by auto
  then have "k = session_key (last (filter (\<lambda>y. reap_crash tx y \<and> slot_of y = slot_of x) P))"
    using inv x(2) s unfolding reap_inv_def prod.case by blast
  then show "k = session_key (last (filter (\<lambda>y. reap_crash tx y \<and> slot_of y = slot_of x) (P @ [sess])))" using nc by simp
qed

text \<open>A charged row: it becomes the one crash marker of its role.\<close>

lemma reap_inv_crash:
  assumes inv: "reap_inv tx P (sess # R) (m, marked, reaped)" and dist: "distinct (map session_key (P @ sess # R))"
    and gone: "pane_gone tx sess" and e: "sess_State v = SessionCrashed" "slot_of v = slot_of sess" "reap_crash tx sess"
    and r: "rows m' = (\<lambda>k. if \<exists>x\<in>set (P @ sess # R). stale_crashed marked sess x \<and> session_key x = k then None else rows m k)(session_key sess \<mapsto> v)"
  shows "reap_inv tx (P @ [sess]) R (m', marked @ [session_key sess], reaped @ [reaped_of sess])"
proof -
  have others: "session_key x \<noteq> session_key sess" if "x \<in> set P \<union> set R" for x
    using dist that by auto (metis imageI)+
  have sub: "rows m k = Some s" "\<not> (\<exists>x\<in>set (P @ sess # R). stale_crashed marked sess x \<and> session_key x = k)"
    if "rows m' k = Some s" "k \<noteq> session_key sess" for k s
    using that r by (auto split: if_splits)
  have mk: "marked = map session_key (filter (reap_crash tx) P)" using inv by (simp add: reap_inv_def)
  have only: "k = session_key sess" if a: "rows m' k = Some s" "sess_State s = SessionCrashed" "slot_of s = slot_of sess" for k s
  proof (rule ccontr)
    assume ne: "k \<noteq> session_key sess"
    note k = sub[OF a(1) ne]
    obtain x where x: "x \<in> set (P @ sess # R)" "session_key x = k" "slot_of s = slot_of x"
      "sess_State x = SessionCrashed \<or> reap_crash tx x \<and> x \<in> set P"
      using inv k(1) a(2) unfolding reap_inv_def prod.case by blast
    then have "stale_crashed marked sess x"
      using a(3) ne mk by (auto simp: stale_crashed_def slot_of_def)
    with k(2) x show False by blast
  qed
  show ?thesis unfolding reap_inv_def prod.case
  proof (intro conjI ballI allI impI)
    show "marked @ [session_key sess] = map session_key (filter (reap_crash tx) (P @ [sess]))"
      "reaped @ [reaped_of sess] = map reaped_of (filter (reap_crash tx) (P @ [sess]))"
      using inv e(3) by (simp_all add: reap_inv_def)
  next
    fix x assume x': "x \<in> set ((P @ [sess]) @ R)" "sess_State x \<noteq> SessionCrashed \<and> (x \<in> set (P @ [sess]) \<longrightarrow> \<not> pane_gone tx x)"
    then have x: "x \<in> set (P @ R)" "sess_State x \<noteq> SessionCrashed" "x \<in> set P \<Longrightarrow> \<not> reap_crash tx x" using gone by (auto simp: reap_crash_def)
    have mx: "session_key x \<notin> set marked" using x dist by (auto simp: mk distinct_map dest!: inj_onD)
    have "\<not> stale_crashed marked sess y" if "y \<in> set (P @ sess # R)" "session_key y = session_key x" for y
    proof -
      have "y = x" using that x(1) dist by (auto simp: distinct_map dest!: inj_onD)
      then show ?thesis using x(2) mx by (auto simp: stale_crashed_def)
    qed
    moreover have "rows m (session_key x) = Some x" using inv x' x(1) dist unfolding reap_inv_def prod.case by auto
    ultimately show "rows m' (session_key x) = Some x" using x(1) others by (auto simp: r)
  next
    fix k s assume s: "rows m' k = Some s"
    show "\<exists>x\<in>set ((P @ [sess]) @ R). session_key x = k \<and> slot_of s = slot_of x \<and>
        (sess_State s = SessionCrashed \<longrightarrow> sess_State x = SessionCrashed \<or> reap_crash tx x \<and> x \<in> set (P @ [sess]))"
    proof (cases "k = session_key sess")
      case True
      then show ?thesis using s r e(2,3) by (intro bexI[of _ sess]) auto
    next
      case False
      from sub(1)[OF s False] obtain x where "x \<in> set (P @ sess # R)" "session_key x = k" "slot_of s = slot_of x"
        "sess_State s = SessionCrashed \<longrightarrow> sess_State x = SessionCrashed \<or> reap_crash tx x \<and> x \<in> set P"
        using inv unfolding reap_inv_def prod.case by blast
      then show ?thesis by (intro bexI[of _ x]) auto
    qed
  next
    fix x k s assume x: "x \<in> set (P @ [sess])" "reap_crash tx x"
      and s: "rows m' k = Some s \<and> sess_State s = SessionCrashed \<and> slot_of s = slot_of x"
    show "k = session_key (last (filter (\<lambda>y. reap_crash tx y \<and> slot_of y = slot_of x) (P @ [sess])))"
    proof (cases "slot_of x = slot_of sess")
      case True
      with only s e(3) show ?thesis by simp
    next
      case False
      then have "k \<noteq> session_key sess" using s r e(2) by auto
      with sub(1) s have "rows m k = Some s" by blast
      with inv x False s show ?thesis unfolding reap_inv_def prod.case by auto
    qed
  qed
qed

lemma reap_inv_step:
  assumes c: "all_commit commits" and dist: "distinct (map session_key (P @ sess # R))"
    and wf: "\<forall>x\<in>set (P @ sess # R). sess_State x = SessionCrashed \<longrightarrow> sess_PaneID x = []"
    and inv: "reap_inv tx P (sess # R) rs"
  shows "reap_inv tx (P @ [sess]) R (reap_one commits tx now (P @ sess # R) sess rs)"
proof (cases "pane_gone tx sess")
  case False
  then have nc: "\<not> reap_crash tx sess" by (simp add: reap_crash_def)
  obtain m marked reaped where rs: "rs = (m, marked, reaped)" by (cases rs)
  have "reap_inv tx (P @ [sess]) R rs" unfolding rs by (rule reap_inv_quiet[OF inv[unfolded rs] nc]) (use dist in auto)
  with False show ?thesis by (simp add: reap_one_cases)
next
  case True
  obtain m marked reaped where rs: "rs = (m, marked, reaped)" by (cases rs)
  have live: "sess_State sess \<noteq> SessionCrashed" using True wf by (auto simp: pane_gone_def)
  then have row: "rows m (session_key sess) = Some sess" using inv dist by (auto simp: reap_inv_def rs)
  obtain st where st: "listing_status tx (sess_PaneID sess) = Inr st" using True by (auto simp: pane_gone_def split: sum.splits)
  have others: "session_key x \<noteq> session_key sess" if "x \<in> set P \<union> set R" for x
    using dist that by auto (metis imageI)+
  note one = reap_one_cases[of commits tx now "P @ sess # R" sess rs, unfolded st sum.case if_P[OF True] rs]
  from reap_gone_effect[OF c row st True, of now "P @ sess # R" marked reaped] show ?thesis
  proof (elim exE disjE conjE)
    fix m' v assume e: "sess_State v \<noteq> SessionCrashed" "slot_of v = slot_of sess" "\<not> reap_crash tx sess"
      "reap_gone commits tx now (P @ sess # R) sess st (m, marked, reaped) = (m', marked, reaped)"
      and r: "rows m' = (rows m)(session_key sess := None)"
    show ?thesis unfolding rs one e(4)
      by (rule reap_inv_quiet[OF inv[unfolded rs] e(3)]) (use r e others True dist in \<open>auto split: if_splits\<close>)
  next
    fix m' v assume e: "sess_State v \<noteq> SessionCrashed" "slot_of v = slot_of sess" "\<not> reap_crash tx sess"
      "reap_gone commits tx now (P @ sess # R) sess st (m, marked, reaped) = (m', marked, reaped)"
      and r: "rows m' = (rows m)(session_key sess \<mapsto> v)"
    show ?thesis unfolding rs one e(4)
      by (rule reap_inv_quiet[OF inv[unfolded rs] e(3)]) (use r e others True dist in \<open>auto split: if_splits\<close>)
  next
    fix m' v assume e: "sess_State v = SessionCrashed" "slot_of v = slot_of sess" "reap_crash tx sess"
      "reap_gone commits tx now (P @ sess # R) sess st (m, marked, reaped) = (m', marked @ [session_key sess], reaped @ [reaped_of sess])"
      and r: "rows m' = (\<lambda>k. if \<exists>x\<in>set (P @ sess # R). stale_crashed marked sess x \<and> session_key x = k then None else rows m k)(session_key sess \<mapsto> v)"
    show ?thesis unfolding rs one e(4) by (rule reap_inv_crash[OF inv[unfolded rs] dist True e(1-3) r])
  qed
qed

lemma reap_fold_inv:
  assumes c: "all_commit commits" and dist: "distinct (map session_key (P @ R))"
    and wf: "\<forall>x\<in>set (P @ R). sess_State x = SessionCrashed \<longrightarrow> sess_PaneID x = []"
    and inv: "reap_inv tx P R rs"
  shows "reap_inv tx (P @ R) [] (foldl (\<lambda>rs sess. reap_one commits tx now (P @ R) sess rs) rs R)"
  using dist wf inv
proof (induction R arbitrary: P rs)
  case (Cons sess R)
  from Cons.IH[of "P @ [sess]"] reap_inv_step[OF c Cons.prems, of now] Cons.prems(1,2) show ?case by simp
qed simp

lemma reap_fold_start:
  assumes "rows_wf (mg_store m)"
  shows "reap_inv tx [] (ListSessions (mg_store m)) (m, [], [])"
  using rows_snapshot[OF assms] snapshot_rows[OF assms] by (auto simp: reap_inv_def)

lemma ReapDead_inv:
  assumes "all_commit commits" "rows_wf (mg_store m)" "ReapDead commits tx now m = (m', reaped)"
  shows "\<exists>marked. reap_inv tx (ListSessions (mg_store m)) [] (m', marked, reaped)"
proof -
  let ?ss = "ListSessions (mg_store m)"
  have "reap_inv tx ?ss [] (foldl (\<lambda>rs sess. reap_one commits tx now ?ss sess rs) (m, [], []) ?ss)"
    using reap_fold_inv[OF assms(1) _ _ reap_fold_start[OF assms(2)], of tx now] assms(2) by (simp add: rows_wf_def)
  with assms(3) show ?thesis by (auto simp: ReapDead_def Let_def split: prod.splits)
qed

lemma ReapDead_keeps:
  assumes "all_commit commits" "rows_wf (mg_store m)" "x \<in> set (ListSessions (mg_store m))"
    and "sess_State x \<noteq> SessionCrashed" "\<not> pane_gone tx x"
  shows "rows (fst (ReapDead commits tx now m)) (session_key x) = Some x"
proof -
  obtain m' reaped where r: "ReapDead commits tx now m = (m', reaped)" by fastforce
  from ReapDead_inv[OF assms(1,2) r] assms(3-5) r show ?thesis by (auto simp: reap_inv_def)
qed

end
