(* ===== verification/Session_Lifecycle.thy ===== *)
theory Session_Lifecycle
  imports Session_Properties
begin

text \<open>
  The life of a session row from \<open>Create\<close> to the reap: at most one crash marker per role, a create that
  leaves a running session or nothing, the one failure that leaves a row behind, a delete whose kill
  did not take, and the names the controller gives to new sessions.
\<close>

section \<open>Crash markers\<close>

definition one_marker :: "Store \<Rightarrow> bool" where
  "one_marker s \<longleftrightarrow> (\<forall>k1 k2 s1 s2. session_at s k1 = Some s1 \<and> session_at s k2 = Some s2 \<and>
     sess_State s1 = SessionCrashed \<and> sess_State s2 = SessionCrashed \<and> slot_of s1 = slot_of s2 \<longrightarrow> k1 = k2)"

text \<open>
  C25. At most one crash marker per role. A reap pass keeps the store at one crashed row per role, even
  when several replicas of a role are reaped in the same pass; and a role reaped in the pass ends it
  with no crashed row but that of its last reaped session, whatever it held before.
\<close>

theorem one_crash_marker_per_role:
  assumes "\<forall>n. commits n" and "rows_wf (mg_store m)"
  shows "(one_marker (mg_store m) \<longrightarrow> one_marker (mg_store (fst (ReapDead commits tx now m)))) \<and>
    (\<forall>x\<in>set (ListSessions (mg_store m)). reap_crash tx x \<longrightarrow>
       (\<forall>k s. session_at (mg_store (fst (ReapDead commits tx now m))) k = Some s \<and> sess_State s = SessionCrashed \<and> slot_of s = slot_of x \<longrightarrow>
          k = session_key (last (filter (\<lambda>y. reap_crash tx y \<and> slot_of y = slot_of x) (ListSessions (mg_store m))))))"
proof -
  let ?ss = "ListSessions (mg_store m)"
  obtain m' reaped where r: "ReapDead commits tx now m = (m', reaped)" by fastforce
  then obtain marked where inv: "reap_inv tx ?ss [] (m', marked, reaped)"
    using ReapDead_inv[OF _ assms(2) r] assms(1) by (auto simp: all_commit_def)
  have last1: "k = session_key (last (filter (\<lambda>y. reap_crash tx y \<and> slot_of y = slot_of x) ?ss))"
    if "x \<in> set ?ss" "reap_crash tx x" "rows m' k = Some s" "sess_State s = SessionCrashed" "slot_of s = slot_of x" for x k s
    using inv that unfolding reap_inv_def prod.case by blast
  have org: "\<exists>x\<in>set ?ss. session_key x = k \<and> slot_of s = slot_of x \<and> (sess_State x = SessionCrashed \<or> reap_crash tx x)"
    if "rows m' k = Some s" "sess_State s = SessionCrashed" for k s
    using inv that unfolding reap_inv_def prod.case by (metis append_Nil2)
  have "one_marker (mg_store m')" if om: "one_marker (mg_store m)"
    unfolding one_marker_def
  proof (intro allI impI, elim conjE)
    fix k1 k2 s1 s2 assume a: "rows m' k1 = Some s1" "rows m' k2 = Some s2" "sess_State s1 = SessionCrashed"
      "sess_State s2 = SessionCrashed" "slot_of s1 = slot_of s2"
    obtain x1 x2 where x: "x1 \<in> set ?ss" "session_key x1 = k1" "slot_of s1 = slot_of x1" "sess_State x1 = SessionCrashed \<or> reap_crash tx x1"
      "x2 \<in> set ?ss" "session_key x2 = k2" "slot_of s2 = slot_of x2" "sess_State x2 = SessionCrashed \<or> reap_crash tx x2"
      using org[OF a(1,3)] org[OF a(2,4)] by blast
    show "k1 = k2"
    proof (cases "reap_crash tx x1 \<or> reap_crash tx x2")
      case True
      then obtain y where "y \<in> set ?ss" "reap_crash tx y" "slot_of s1 = slot_of y" "slot_of s2 = slot_of y" using x a(5) by metis
      with last1[of y k1 s1] last1[of y k2 s2] a show ?thesis by simp
    next
      case False
      with x have "sess_State x1 = SessionCrashed" "sess_State x2 = SessionCrashed" by auto
      with om x rows_snapshot[OF assms(2)] a(5) show ?thesis unfolding one_marker_def by metis
    qed
  qed
  with last1 r show ?thesis by auto
qed

text \<open>Two replicas of a role whose panes are both gone.\<close>

definition both_gone :: tmux_env where
  "both_gone = \<lparr>tx_PaneStatus = \<lambda>_. Inr \<lparr>ps_Exists = False, ps_Dead = False, ps_Created = False, ps_ExitStatus = []\<rparr>,
     tx_PaneStatuses = Inr Map.empty, tx_KillPane = \<lambda>_. KillPaneGone, tx_InstanceKill = \<lambda>_. KillPaneGone,
     tx_tail = \<lambda>_. no_tail, tx_stderr = \<lambda>_. []\<rparr>"

definition two_replicas :: Manager where
  "two_replicas = \<lparr>mg_store = NewStore\<lparr>st_sessions := [(''ws/a'', example_session ''a'' ''dev'' 1 5), (''ws/b'', example_session ''b'' ''dev'' 1 6)]\<rparr>,
     mg_instances = {}, mg_hook = False, mg_events = []\<rparr>"

lemma two_replicas_facts:
  "rows_wf (mg_store two_replicas)" "one_marker (mg_store two_replicas)"
  "ListSessions (mg_store two_replicas) = [example_session ''a'' ''dev'' 1 5, example_session ''b'' ''dev'' 1 6]"
  "reap_crash both_gone (example_session n r g t)" "session_key (example_session n r g t) = ''ws/'' @ n"
  by (auto simp: rows_wf_def one_marker_def two_replicas_def ListSessions_def NewStore_def example_session_def session_key_def
      reap_crash_def pane_gone_def listing_status_def both_gone_def headlessCompleted_def headlessConfigError_def split: if_splits)

theorem one_crash_marker_per_role_witness:
  "one_marker (mg_store (fst (ReapDead (\<lambda>_. True) both_gone 9 two_replicas)))"
  using one_crash_marker_per_role[of "\<lambda>_. True" two_replicas both_gone 9] two_replicas_facts by simp

section \<open>What is charged\<close>

text \<open>
  C21. A reap pass charges exactly the crashes. When the store's writes commit, the sessions handed to
  the crash-loop accounting are the rows, in listing order, whose pane tmux reports gone or dead and
  that were neither asked to die before, nor a headless run that exited 0 or 78; a row that is not a
  crash marker and whose pane is alive, absent or unreadable is left as it was; and a pass in which
  tmux cannot be read changes nothing, so an outage is not a fleet of crashes.
\<close>

theorem reap_charges_exactly_crashes:
  assumes "\<forall>n. commits n" and "rows_wf (mg_store m)"
  shows "snd (ReapDead commits tx now m) = map reaped_of (filter (reap_crash tx) (ListSessions (mg_store m))) \<and>
    (\<forall>x\<in>set (ListSessions (mg_store m)). sess_State x \<noteq> SessionCrashed \<and> \<not> pane_gone tx x \<longrightarrow>
       session_at (mg_store (fst (ReapDead commits tx now m))) (session_key x) = Some x) \<and>
    ((\<exists>e. tx_PaneStatuses tx = Inl e) \<longrightarrow> ReapDead commits tx now m = (m, []))"
proof -
  obtain m' reaped where r: "ReapDead commits tx now m = (m', reaped)" by fastforce
  have c: "all_commit commits" using assms(1) by (simp add: all_commit_def)
  from ReapDead_inv[OF c assms(2) r] have "reaped = map reaped_of (filter (reap_crash tx) (ListSessions (mg_store m)))"
    by (auto simp: reap_inv_def)
  moreover have "ReapDead commits tx now m = (m, [])" if "tx_PaneStatuses tx = Inl e" for e
  proof -
    have "\<not> pane_gone tx x" for x using that by (simp add: pane_gone_def listing_status_def)
    then have "foldl (\<lambda>rs sess. reap_one commits tx now ss sess rs) rs xs = rs" for ss xs and rs :: reap_state
      by (induction xs arbitrary: rs) (auto simp: reap_one_cases)
    then show ?thesis by (simp add: ReapDead_def)
  qed
  moreover have "\<forall>x\<in>set (ListSessions (mg_store m)). sess_State x \<noteq> SessionCrashed \<and> \<not> pane_gone tx x \<longrightarrow>
      rows (fst (ReapDead commits tx now m)) (session_key x) = Some x"
    using ReapDead_keeps[OF c assms(2)] by blast
  ultimately show ?thesis using r by (intro conjI) auto
qed

theorem reap_charges_exactly_crashes_witness:
  "snd (ReapDead (\<lambda>_. True) both_gone 9 two_replicas) =
     [reaped_of (example_session ''a'' ''dev'' 1 5), reaped_of (example_session ''b'' ''dev'' 1 6)]"
  using reap_charges_exactly_crashes[of "\<lambda>_. True" two_replicas both_gone 9] two_replicas_facts by simp

section \<open>Creating\<close>

lemma AList_update_new: "k \<notin> fst ` set al \<Longrightarrow> AList.update k v al = al @ [(k, v)]"
  by (induction al) auto

lemma create_commits:
  assumes "all_commit commits" "session_at s (session_key v) = None"
  obtains s' where "CreateSession commits v s = (s', None)" "session_at s' = (session_at s)(session_key v \<mapsto> v)"
proof -
  obtain s' e where c: "CreateSession commits v s = (s', e)" by fastforce
  obtain s1 e1 where p: "persistPut commits bucketSessions (session_key v) False (VSession v) s = (s1, e1)" by fastforce
  with persist_commits(1)[OF assms(1), of bucketSessions "session_key v" False "VSession v" s] have "e1 = None" by simp
  with c p assms(2) have "e = None" by (auto simp: CreateSession_def)
  with c session_table.create_new[OF assms(2), of commits] that show thesis by blast
qed

definition running_row :: "time \<Rightarrow> string \<Rightarrow> string \<Rightarrow> string \<Rightarrow> Session \<Rightarrow> Session" where
  "running_row now hash pane home sess =
     (pending_row now hash sess)\<lparr>sess_PaneID := pane, sess_State := SessionRunning, sess_HarnessHome := home\<rparr>"

lemma pending_key [simp]: "session_key (pending_row now hash sess) = session_key sess"
  by (simp add: pending_row_def session_key_def)

lemma abandon_either: "rows (abandon commits k m) \<in> {rows m, (rows m)(k := None)}"
  using session_table.delete_any[of commits k "mg_store m"] by (simp add: abandon_def)

lemma abandon_events [simp]: "mg_events (abandon commits k m) = mg_events m"
  by (simp add: abandon_def)

lemma announceSpawn_sel [simp]:
  "mg_store (announceSpawn sess m) = mg_store m" "mg_instances (announceSpawn sess m) = mg_instances m"
  "map ev_Kind (mg_events (announceSpawn sess m)) = map ev_Kind (mg_events m) @ [KindSessionCreated, KindSessionFirstPrompt]"
  by (simp_all add: announceSpawn_def mg_emit_def)

text \<open>
  C26. A create leaves a running session or nothing. If the tmux session is there, a create of a new
  key that succeeds leaves exactly the running row with its pane and an instance to retire, and the
  last two events say so. One that fails at any stage (exposure, the placement checks, the token, the
  store, the launch plan, the spawn) reports at most what the checks and the plan report, and leaves the
  rows as they were while the file takes the writes. When a write fails there are two exceptions: the
  pending row may stay, when the delete of it is the write that failed, and the running row is there,
  with its instance, when the last update is.
\<close>

theorem create_all_or_nothing:
  assumes "session_at (mg_store m) (session_key sess) = None" and "le_newSession le = None"
  shows "case Create commits src le now sess m of
      (m', None) \<Rightarrow> (\<exists>hash pane. le_token le = Some hash \<and> le_spawn le = Inr pane \<and>
          session_at (mg_store m') = (session_at (mg_store m))(session_key sess \<mapsto> running_row now hash pane (le_home le) sess)) \<and>
        session_key sess \<in> mg_instances m' \<and>
        map ev_Kind (mg_events m') = map ev_Kind (mg_events m @ le_checkEvents le @ le_planEvents le) @ [KindSessionCreated, KindSessionFirstPrompt]
    | (m', Some e) \<Rightarrow> mg_events m' \<in> {mg_events m, mg_events m @ le_checkEvents le, mg_events m @ le_checkEvents le @ le_planEvents le} \<and>
        (session_at (mg_store m') = session_at (mg_store m) \<or>
         \<not> (\<forall>n. commits n) \<and> (\<exists>hash. session_at (mg_store m') = (session_at (mg_store m))(session_key sess \<mapsto> pending_row now hash sess)) \<or>
         \<not> (\<forall>n. commits n) \<and> session_key sess \<in> mg_instances m' \<and> (\<exists>err. e = MErrStore err) \<and>
           (\<exists>hash pane. session_at (mg_store m') = (session_at (mg_store m))(session_key sess \<mapsto> running_row now hash pane (le_home le) sess)))"
proof (cases "checkExposure src sess (mg_store m) = None \<and> le_refused le = None \<and> le_token le \<noteq> None")
  case False
  then show ?thesis by (auto simp: Create_def Let_def split: option.split)
next
  case True
  then obtain hash where h: "le_token le = Some hash" by auto
  let ?p = "pending_row now hash sess" and ?k = "session_key sess"
  obtain s ce where cr: "CreateSession commits ?p (mg_store m) = (s, ce)" by fastforce
  let ?m2 = "m\<lparr>mg_store := s, mg_events := mg_events m @ le_checkEvents le @ le_planEvents le\<rparr>"
  let ?f = "\<lambda>pane live. (live\<lparr>sess_PaneID := pane, sess_State := SessionRunning, sess_HarnessHome := le_home le\<rparr>, None)"
  show ?thesis
  proof (cases ce)
    case (Some e)
    then show ?thesis using True h cr session_table.create_fails[of commits ?p "mg_store m" s e] by (simp add: Create_def Let_def)
  next
    case None
    have s: "session_at s = (rows m)(?k \<mapsto> ?p)" using session_table.create_new[of "mg_store m" ?p commits s] cr None assms(1) by simp
    have same: "(rows m)(?k := None) = rows m" using assms(1) by auto
    have ab: "rows (abandon commits ?k ?m2) = rows m \<or> \<not> (\<forall>n. commits n) \<and> rows (abandon commits ?k ?m2) = (rows m)(?k \<mapsto> ?p)"
      using abandon_either[of commits ?k ?m2] abandon_rows[of commits ?k ?m2] s same by (auto simp: all_commit_def)
    have up: "\<exists>s2 ue. UpdateSession commits ?k (?f pane) s = (s2, ue) \<and> session_at s2 = (rows m)(?k \<mapsto> running_row now hash pane (le_home le) sess) \<and>
        (ue = None \<or> \<not> (\<forall>n. commits n))" for pane
    proof -
      obtain s2 ue where u: "UpdateSession commits ?k (?f pane) s = (s2, ue)" by fastforce
      have "session_at s2 = (rows m)(?k \<mapsto> running_row now hash pane (le_home le) sess)"
        using session_table.update_look[of s ?k ?p commits "?f pane"] u s by (simp add: running_row_def)
      moreover have "ue = None" if "\<forall>n. commits n"
        by (rule update_commits[of commits s ?k ?p "?f pane"]) (use that u s in \<open>auto simp: all_commit_def\<close>)
      ultimately show ?thesis using u by blast
    qed
    have m2: "mg_report (le_planEvents le) ((mg_report (le_checkEvents le) m)\<lparr>mg_store := s\<rparr>) = ?m2" by (simp add: mg_report_def)
    consider e where "le_plan le = Some e" | e where "le_plan le = None" "le_spawn le = Inl e" | pane where "le_plan le = None" "le_spawn le = Inr pane"
      by (cases "le_plan le"; cases "le_spawn le") auto
    then show ?thesis
    proof cases
      case 3
      obtain s2 ue where u: "UpdateSession commits ?k (?f pane) s = (s2, ue)" "session_at s2 = (rows m)(?k \<mapsto> running_row now hash pane (le_home le) sess)"
        "ue = None \<or> \<not> (\<forall>n. commits n)" using up[of pane] by blast
      show ?thesis
      proof (cases ue)
        case None
        then show ?thesis using True h cr \<open>ce = None\<close> 3 assms(2) u by (simp add: Create_def Let_def m2)
      next
        case (Some e)
        then show ?thesis using True h cr \<open>ce = None\<close> 3 assms(2) u by (simp add: Create_def Let_def m2) blast
      qed
    qed (use True h cr None assms(2) ab in \<open>auto simp: Create_def Let_def m2\<close>)
  qed
qed

definition good_launch :: launch_env where
  "good_launch = \<lparr>le_refused = None, le_checkEvents = [], le_token = Some ''h'', le_newSession = None, le_plan = None, le_planEvents = [],
     le_home = [], le_spawn = Inr ''%7''\<rparr>"

definition empty_manager :: Manager where
  "empty_manager = \<lparr>mg_store = NewStore, mg_instances = {}, mg_hook = False, mg_events = []\<rparr>"

theorem create_all_or_nothing_witness:
  "case Create (\<lambda>_. True) quiet_reader good_launch 9 (example_session ''a'' ''dev'' 1 5) empty_manager of
     (m', None) \<Rightarrow> session_at (mg_store m') = [''ws/a'' \<mapsto> running_row 9 ''h'' ''%7'' [] (example_session ''a'' ''dev'' 1 5)] \<and>
       map ev_Kind (mg_events m') = [KindSessionCreated, KindSessionFirstPrompt]
   | (m', Some e) \<Rightarrow> session_at (mg_store m') = Map.empty"
  using create_all_or_nothing[where m = empty_manager and sess = "example_session ''a'' ''dev'' 1 5" and le = good_launch and commits = "\<lambda>_. True"
    and src = quiet_reader and now = 9]
  by (simp add: two_replicas_facts empty_manager_def NewStore_def good_launch_def split: prod.splits option.splits)

text \<open>
  C39. A tmux failure leaks a replica slot. When the tmux session cannot be made, \<open>Create\<close> reports the
  error but keeps the row it has just stored: pending, with no pane, counted as alive, so it holds
  its replica slot; and every later reap pass, whatever tmux answers, leaves it there.
\<close>

theorem tmux_failure_leaks_slot:
  fixes now :: time
  assumes "\<forall>n. commits n" and "rows_wf (mg_store m)" and "session_at (mg_store m) (session_key sess) = None"
    and "checkExposure src sess (mg_store m) = None" "le_refused le = None" "le_token le = Some hash" "le_newSession le = Some e"
    and "sess_PaneID sess = []"
  defines "m' \<equiv> fst (Create commits src le now sess m)" and "row \<equiv> pending_row now hash sess"
  shows "snd (Create commits src le now sess m) = Some (MErrTmux e) \<and> session_at (mg_store m') (session_key sess) = Some row \<and>
    CountsAsAlive (sess_State row) \<and>
    (\<forall>tx now'. session_at (mg_store (fst (ReapDead commits tx now' m'))) (session_key sess) = Some row)"
proof -
  have c: "all_commit commits" using assms(1) by (simp add: all_commit_def)
  obtain s where s: "CreateSession commits row (mg_store m) = (s, None)" "session_at s = (rows m)(session_key sess \<mapsto> row)"
    using create_commits[OF c, of "mg_store m" row] assms(3) by (auto simp: row_def)
  have cr: "Create commits src le now sess m = ((mg_report (le_checkEvents le) m)\<lparr>mg_store := s\<rparr>, Some (MErrTmux e))"
    using assms(4-7) s(1) by (simp add: Create_def Let_def row_def)
  then have m': "mg_store m' = s" by (simp add: m'_def)
  have ss: "st_sessions s = st_sessions (mg_store m) @ [(session_key sess, row)]"
    using s(1) assms(3) by (auto simp: CreateSession_def row_def same_tables_def map_of_eq_None_iff AList_update_new
        split: prod.splits option.splits dest!: persist_tables(1))
  have row: "sess_State row = SessionPending" "sess_PaneID row = []" "session_key row = session_key sess"
    using assms(8) by (simp_all add: row_def pending_row_def session_key_def)
  have "session_key sess \<notin> session_key ` set (ListSessions (mg_store m))"
    using rows_snapshot[OF assms(2)] assms(3) by (metis imageE option.distinct(1))
  then have wf: "rows_wf (mg_store m')"
    using assms(2) ss row by (auto simp: rows_wf_def m' ListSessions_def)
  have "row \<in> set (ListSessions (mg_store m'))" by (simp add: m' ListSessions_def ss)
  moreover have "\<not> pane_gone tx row" for tx using row by (simp add: pane_gone_def)
  ultimately have "rows (fst (ReapDead commits tx now' m')) (session_key sess) = Some row" for tx now'
    using ReapDead_keeps[OF c wf, of row] row by simp
  with cr s(2) m' row show ?thesis by simp
qed

definition tmux_down :: launch_env where
  "tmux_down = good_launch\<lparr>le_newSession := Some ''no server running''\<rparr>"

theorem tmux_failure_leaks_slot_witness:
  "session_at (mg_store (fst (ReapDead (\<lambda>_. True) both_gone 99 (fst (Create (\<lambda>_. True) quiet_reader tmux_down 9
      ((example_session ''a'' ''dev'' 1 5)\<lparr>sess_PaneID := []\<rparr>) empty_manager))))) ''ws/a''
   = Some (pending_row 9 ''h'' ((example_session ''a'' ''dev'' 1 5)\<lparr>sess_PaneID := []\<rparr>))"
proof -
  let ?x = "(example_session ''a'' ''dev'' 1 5)\<lparr>sess_PaneID := []\<rparr>"
  have f: "rows_wf (mg_store empty_manager)" "session_at (mg_store empty_manager) (session_key ?x) = None"
    "checkExposure quiet_reader ?x (mg_store empty_manager) = None" "sess_PaneID ?x = []" "session_key ?x = ''ws/a''"
    by (simp_all add: rows_wf_def empty_manager_def NewStore_def ListSessions_def checkExposure_def GetTeam_def session_key_def example_session_def)
  have l: "le_refused tmux_down = None" "le_token tmux_down = Some ''h''" "le_newSession tmux_down = Some ''no server running''"
    by (simp_all add: tmux_down_def good_launch_def)
  show ?thesis using tmux_failure_leaks_slot[of "\<lambda>_. True", OF _ f(1-3) l f(4), of 9] f(5) by simp
qed

section \<open>Names\<close>





text \<open>The name a session is created under does not separate a team from a role: two teams of one
  workspace can be given the same key.\<close>

lemma session_names_collide:
  fixes t1 t2 r1 r2
  assumes "team_Name t1 = ''a''" "role_Name r1 = ''b-c''" "team_Name t2 = ''a-b''" "role_Name r2 = ''c''"
  shows "index_prefix t1 r1 gen = index_prefix t2 r2 gen"
  using assms by (simp add: index_prefix_def)

section \<open>Deleting\<close>




end
