(* ===== verification/Adoption.thy ===== *)
theory Adoption
  imports Session_Manager
begin

text \<open>
  What a starting daemon does with the tmux state it finds (\<open>reconcilePrefix\<close> of
  \<open>internal/session/manager.go\<close>, behind \<open>AdoptOrLeave\<close> and \<open>AdoptOrKill\<close>), and the preview
  \<open>marvel reap\<close> shows first (\<open>UnrecordedTmuxState\<close>).

  Here tmux is state: the list of its sessions with their panes. Which calls to it fail is the
  argument \<open>tf\<close>; which workspaces the store records is the argument \<open>known\<close> (the workspace table is
  not modelled). Events keep their kind and coordinates; the pid an adoption records is left out.
\<close>

section \<open>The tmux server\<close>

record Pane =
  pane_ID :: string
  pane_Created :: bool

type_synonym tmux_world = "(string \<times> Pane list) list"

record tmux_faults =
  tf_listSessions :: bool
  tf_listPanes :: "string \<Rightarrow> bool"
  tf_timeout :: "string \<Rightarrow> bool"
  tf_killSession :: "string \<Rightarrow> bool"
  tf_killPane :: "string \<Rightarrow> bool"

definition KillSession :: "string \<Rightarrow> tmux_world \<Rightarrow> tmux_world" where
  "KillSession name w = filter (\<lambda>e. fst e \<noteq> name) w"

definition KillPane :: "string \<Rightarrow> tmux_world \<Rightarrow> tmux_world" where
  "KillPane p w = map (\<lambda>(n, ps). (n, filter (\<lambda>x. pane_ID x \<noteq> p) ps)) w"

text \<open>\<open>ListPanes\<close>: an error for a session that is not there, or when the call fails.\<close>

definition ListPanes :: "tmux_faults \<Rightarrow> tmux_world \<Rightarrow> string \<Rightarrow> Pane list option" where
  "ListPanes tf w name = (if tf_listPanes tf name then None else map_of w name)"

section \<open>The pass\<close>

datatype UnrecordedPolicy = LeaveUnrecorded | KillUnrecorded

definition marvelSessionPrefix :: string where "marvelSessionPrefix = ''marvel-''"

definition tmuxSessionName :: "string \<Rightarrow> string" where
  "tmuxSessionName workspace = marvelSessionPrefix @ workspace"

definition recordedByPane :: "Store \<Rightarrow> (string \<rightharpoonup> string)" where
  "recordedByPane s =
     foldl (\<lambda>mp x. if sess_PaneID x \<noteq> [] then mp(sess_PaneID x \<mapsto> session_key x) else mp) Map.empty (ListSessions s)"

record adopt_state =
  ad_world :: tmux_world
  ad_adopted :: nat
  ad_acted :: nat
  ad_events :: "Event list"

definition ad_emit :: "EventKind \<Rightarrow> string \<Rightarrow> string \<Rightarrow> adopt_state \<Rightarrow> adopt_state" where
  "ad_emit k ws sess a =
     a\<lparr>ad_events := ad_events a @ [\<lparr>ev_Kind = k, ev_Workspace = ws, ev_Team = [], ev_Role = [], ev_Session = sess\<rparr>]\<rparr>"

definition adopt_pane :: "tmux_faults \<Rightarrow> (string \<rightharpoonup> string) \<Rightarrow> UnrecordedPolicy \<Rightarrow> string \<Rightarrow> adopt_state \<Rightarrow> Pane \<Rightarrow> adopt_state" where
  "adopt_pane tf rec policy ws a p =
     (case rec (pane_ID p) of
        Some key \<Rightarrow> ad_emit KindReconcileAdopted ws key (a\<lparr>ad_adopted := ad_adopted a + 1\<rparr>)
      | None \<Rightarrow>
          if \<not> pane_Created p then a
          else if policy = LeaveUnrecorded then ad_emit KindReconcileLeft ws [] (a\<lparr>ad_acted := ad_acted a + 1\<rparr>)
          else if tf_killPane tf (pane_ID p) then a
          else ad_emit KindReconcileKilled ws []
                 (a\<lparr>ad_acted := ad_acted a + 1, ad_world := KillPane (pane_ID p) (ad_world a)\<rparr>))"

definition adopt_session :: "tmux_faults \<Rightarrow> (string \<Rightarrow> bool) \<Rightarrow> (string \<rightharpoonup> string) \<Rightarrow> string \<Rightarrow> UnrecordedPolicy \<Rightarrow> adopt_state \<Rightarrow> string \<Rightarrow> adopt_state" where
  "adopt_session tf known rec pfx policy a name =
     (if \<not> has_prefix name pfx then a
      else
        let ws = drop (length pfx) name
        in if \<not> known ws
           then if policy = LeaveUnrecorded then ad_emit KindReconcileLeft ws [] (a\<lparr>ad_acted := ad_acted a + 1\<rparr>)
                else if tf_killSession tf name then a
                else ad_emit KindReconcileKilled ws []
                       (a\<lparr>ad_acted := ad_acted a + 1, ad_world := KillSession name (ad_world a)\<rparr>)
           else case ListPanes tf (ad_world a) name of
                  None \<Rightarrow> a
                | Some panes \<Rightarrow> foldl (adopt_pane tf rec policy ws) a panes)"

definition reconcilePrefix :: "tmux_faults \<Rightarrow> (string \<Rightarrow> bool) \<Rightarrow> string \<Rightarrow> UnrecordedPolicy \<Rightarrow> Store \<Rightarrow> tmux_world \<Rightarrow> adopt_state option" where
  "reconcilePrefix tf known pfx policy s w =
     (if tf_listSessions tf then None
      else Some (foldl (adopt_session tf known (recordedByPane s) pfx policy)
             \<lparr>ad_world = w, ad_adopted = 0, ad_acted = 0, ad_events = []\<rparr> (map fst w)))"

definition AdoptOrKill :: "tmux_faults \<Rightarrow> (string \<Rightarrow> bool) \<Rightarrow> Store \<Rightarrow> tmux_world \<Rightarrow> adopt_state option" where
  "AdoptOrKill tf known s w = reconcilePrefix tf known marvelSessionPrefix KillUnrecorded s w"

definition AdoptOrLeave :: "tmux_faults \<Rightarrow> (string \<Rightarrow> bool) \<Rightarrow> Store \<Rightarrow> tmux_world \<Rightarrow> adopt_state option" where
  "AdoptOrLeave tf known s w = reconcilePrefix tf known marvelSessionPrefix LeaveUnrecorded s w"

section \<open>The preview\<close>

datatype Found = FoundSession string | FoundPane string string

definition found_in :: "tmux_faults \<Rightarrow> (string \<Rightarrow> bool) \<Rightarrow> (string \<rightharpoonup> string) \<Rightarrow> tmux_world \<Rightarrow> string \<Rightarrow> Found list option" where
  "found_in tf known rec w name =
     (if \<not> has_prefix name marvelSessionPrefix then Some []
      else
        let ws = drop (length marvelSessionPrefix) name
        in if \<not> known ws then Some [FoundSession name]
           else if tf_listPanes tf name \<and> tf_timeout tf name then None
           else case ListPanes tf w name of
                  None \<Rightarrow> Some []
                | Some panes \<Rightarrow> Some (map (\<lambda>p. FoundPane (pane_ID p) ws) (filter (\<lambda>p. pane_Created p \<and> rec (pane_ID p) = None) panes)))"

fun preview_loop :: "tmux_faults \<Rightarrow> (string \<Rightarrow> bool) \<Rightarrow> (string \<rightharpoonup> string) \<Rightarrow> tmux_world \<Rightarrow> string list \<Rightarrow> Found list option" where
  "preview_loop tf known rec w [] = Some []"
| "preview_loop tf known rec w (n # ns) =
     (case found_in tf known rec w n of
        None \<Rightarrow> None
      | Some fs \<Rightarrow> (case preview_loop tf known rec w ns of None \<Rightarrow> None | Some gs \<Rightarrow> Some (fs @ gs)))"

definition UnrecordedTmuxState :: "tmux_faults \<Rightarrow> (string \<Rightarrow> bool) \<Rightarrow> Store \<Rightarrow> tmux_world \<Rightarrow> Found list option" where
  "UnrecordedTmuxState tf known s w =
     (if tf_listSessions tf then None else preview_loop tf known (recordedByPane s) w (map fst w))"

section \<open>Recorded panes\<close>

lemma recordedByPane_dom:
  assumes "x \<in> set (ListSessions s)" "sess_PaneID x \<noteq> []"
  shows "recordedByPane s (sess_PaneID x) \<noteq> None"
proof -
  have "x \<in> set xs \<Longrightarrow> foldl (\<lambda>mp x. if sess_PaneID x \<noteq> [] then mp(sess_PaneID x \<mapsto> session_key x) else mp) mp xs (sess_PaneID x) \<noteq> None" for xs mp
    using assms(2) by (induction xs rule: rev_induct) auto
  with assms(1) show ?thesis by (simp add: recordedByPane_def)
qed

text \<open>A pane is protected when the store records it or marvel did not create it.\<close>

definition protected_pane :: "(string \<rightharpoonup> string) \<Rightarrow> Pane \<Rightarrow> bool" where
  "protected_pane rec p \<longleftrightarrow> rec (pane_ID p) \<noteq> None \<or> \<not> pane_Created p"

definition has_pane :: "tmux_world \<Rightarrow> string \<Rightarrow> Pane \<Rightarrow> bool" where
  "has_pane w name p \<longleftrightarrow> (\<exists>ps. (name, ps) \<in> set w \<and> p \<in> set ps)"

lemma has_pane_KillPane: "has_pane (KillPane q w) name p \<longleftrightarrow> has_pane w name p \<and> pane_ID p \<noteq> q"
  by (fastforce simp: has_pane_def KillPane_def)

lemma has_pane_KillSession: "has_pane (KillSession n w) name p \<longleftrightarrow> has_pane w name p \<and> name \<noteq> n"
  by (auto simp: has_pane_def KillSession_def)

text \<open>Pane ids are unique in a server.\<close>

definition pane_ids_unique :: "tmux_world \<Rightarrow> bool" where
  "pane_ids_unique w \<longleftrightarrow> (\<forall>n n' p p'. has_pane w n p \<and> has_pane w n' p' \<and> pane_ID p = pane_ID p' \<longrightarrow> n = n' \<and> p = p')"

lemma adopt_emit_world [simp]: "ad_world (ad_emit k ws x a) = ad_world a"
  by (simp add: ad_emit_def)

lemma adopt_pane_world [simp]:
  "ad_world (adopt_pane tf rec policy ws a p) =
     (if rec (pane_ID p) = None \<and> pane_Created p \<and> policy = KillUnrecorded \<and> \<not> tf_killPane tf (pane_ID p)
      then KillPane (pane_ID p) (ad_world a) else ad_world a)"
  by (cases policy) (simp_all add: adopt_pane_def split: option.split)

lemma adopt_panes_world:
  "policy = LeaveUnrecorded \<Longrightarrow> ad_world (foldl (adopt_pane tf rec policy ws) a ps) = ad_world a"
  by (induction ps rule: rev_induct) simp_all

lemma adopt_panes_sub:
  "has_pane (ad_world (foldl (adopt_pane tf rec policy ws) a ps)) n p \<Longrightarrow> has_pane (ad_world a) n p"
  by (induction ps rule: rev_induct) (auto simp: has_pane_KillPane split: if_splits)

lemma adopt_panes_keep:
  assumes "has_pane (ad_world a) n p" "\<And>q. q \<in> set ps \<Longrightarrow> pane_ID q = pane_ID p \<Longrightarrow> protected_pane rec q"
  shows "has_pane (ad_world (foldl (adopt_pane tf rec policy ws) a ps)) n p"
  using assms(2)
proof (induction ps rule: rev_induct)
  case (snoc q ps)
  then have "has_pane (ad_world (foldl (adopt_pane tf rec policy ws) a ps)) n p" by simp
  with snoc.prems[of q] show ?case by (auto simp: has_pane_KillPane protected_pane_def)
qed (use assms(1) in simp)

lemma ListPanes_has: "ListPanes tf w name = Some ps \<Longrightarrow> q \<in> set ps \<Longrightarrow> has_pane w name q"
  by (auto simp: ListPanes_def has_pane_def split: if_splits dest!: map_of_SomeD)

text \<open>A pane is safe when its tmux session is not marvel's, or its workspace is recorded and the pane
  is protected.\<close>

definition safe_pane :: "(string \<Rightarrow> bool) \<Rightarrow> (string \<rightharpoonup> string) \<Rightarrow> string \<Rightarrow> string \<Rightarrow> Pane \<Rightarrow> bool" where
  "safe_pane known rec pfx name p \<longleftrightarrow> \<not> has_prefix name pfx \<or> known (drop (length pfx) name) \<and> protected_pane rec p"

lemma adopt_session_cases:
  obtains (same) "ad_world (adopt_session tf known rec pfx policy a name) = ad_world a"
  | (killed) "ad_world (adopt_session tf known rec pfx policy a name) = KillSession name (ad_world a)"
      "has_prefix name pfx" "\<not> known (drop (length pfx) name)"
  | (panes) ps where "ListPanes tf (ad_world a) name = Some ps" "has_prefix name pfx"
      "adopt_session tf known rec pfx policy a name = foldl (adopt_pane tf rec policy (drop (length pfx) name)) a ps"
proof (cases "has_prefix name pfx")
  case False
  then show ?thesis by (intro same) (simp add: adopt_session_def)
next
  case p: True
  show ?thesis
  proof (cases "known (drop (length pfx) name)")
    case True
    show ?thesis
    proof (cases "ListPanes tf (ad_world a) name")
      case None
      with p True show ?thesis by (intro same) (simp add: adopt_session_def)
    next
      case (Some ps)
      with p True show ?thesis by (intro panes[of ps]) (simp_all add: adopt_session_def)
    qed
  next
    case False
    show ?thesis
    proof (cases "policy = LeaveUnrecorded \<or> tf_killSession tf name")
      case True
      with p False show ?thesis by (intro same) (auto simp: adopt_session_def Let_def)
    next
      case no: False
      with p False show ?thesis by (intro killed) (auto simp: adopt_session_def Let_def)
    qed
  qed
qed

lemma adopt_session_keep:
  assumes u: "pane_ids_unique w" and sub: "\<And>n q. has_pane (ad_world a) n q \<Longrightarrow> has_pane w n q"
    and p: "has_pane (ad_world a) n p" "safe_pane known rec pfx n p"
  shows "has_pane (ad_world (adopt_session tf known rec pfx policy a name)) n p"
    and "has_pane (ad_world (adopt_session tf known rec pfx policy a name)) n' q \<Longrightarrow> has_pane w n' q"
proof -
  have keep: "has_pane (ad_world (foldl (adopt_pane tf rec policy ws) a ps)) n p"
    if l: "ListPanes tf (ad_world a) name = Some ps" and k: "has_prefix name pfx" for ps ws
  proof (rule adopt_panes_keep[OF p(1)])
    fix q assume q: "q \<in> set ps" "pane_ID q = pane_ID p"
    have "name = n \<and> q = p"
      using u sub[OF ListPanes_has[OF l q(1)]] sub[OF p(1)] q(2) unfolding pane_ids_unique_def by blast
    with p(2) k show "protected_pane rec q" by (auto simp: safe_pane_def)
  qed
  show "has_pane (ad_world (adopt_session tf known rec pfx policy a name)) n p"
  proof (cases rule: adopt_session_cases[where tf = tf and known = known and rec = rec and pfx = pfx and policy = policy and a = a and name = name])
    case (panes ps)
    then show ?thesis using keep[OF panes(1,2)] by simp
  qed (use p in \<open>auto simp: has_pane_KillSession safe_pane_def\<close>)
  show "has_pane w n' q" if "has_pane (ad_world (adopt_session tf known rec pfx policy a name)) n' q"
  proof (cases rule: adopt_session_cases[where tf = tf and known = known and rec = rec and pfx = pfx and policy = policy and a = a and name = name])
    case (panes ps)
    then show ?thesis using that sub adopt_panes_sub by metis
  qed (use that sub in \<open>auto simp: has_pane_KillSession\<close>)
qed

lemma adopt_fold_keep:
  assumes "pane_ids_unique w" "has_pane w n p" "safe_pane known rec pfx n p"
  shows "has_pane (ad_world (foldl (adopt_session tf known rec pfx policy) \<lparr>ad_world = w, ad_adopted = 0, ad_acted = 0, ad_events = []\<rparr> names)) n p \<and>
    (\<forall>n' q. has_pane (ad_world (foldl (adopt_session tf known rec pfx policy) \<lparr>ad_world = w, ad_adopted = 0, ad_acted = 0, ad_events = []\<rparr> names)) n' q \<longrightarrow> has_pane w n' q)"
proof (induction names rule: rev_induct)
  case (snoc name names)
  let ?a = "foldl (adopt_session tf known rec pfx policy) \<lparr>ad_world = w, ad_adopted = 0, ad_acted = 0, ad_events = []\<rparr> names"
  have sub: "\<And>n q. has_pane (ad_world ?a) n q \<Longrightarrow> has_pane w n q" and p: "has_pane (ad_world ?a) n p" using snoc by blast+
  show ?case using adopt_session_keep[OF assms(1) sub p assms(3), of tf policy name] by simp
qed (use assms(2) in simp)

text \<open>
  C31. What a starting daemon kills. Whatever calls to tmux fail, a pane that is gone after the pass was
  in a tmux session of marvel's prefix, under the policy that kills, and either its workspace is not
  recorded or marvel created the pane and no session in the store names it. So in a recorded workspace no recorded pane and no pane marvel did
  not create is lost, and under the default policy nothing is.
\<close>

theorem adopt_kills_only_unrecorded:
  assumes "pane_ids_unique w" and "reconcilePrefix tf known pfx policy s w = Some a"
    and "has_pane w n p" and "\<not> has_pane (ad_world a) n p"
  shows "policy = KillUnrecorded \<and> has_prefix n pfx \<and>
    (\<not> known (drop (length pfx) n) \<or>
     pane_Created p \<and> (\<forall>x\<in>set (ListSessions s). sess_PaneID x \<noteq> pane_ID p \<or> pane_ID p = []))"
proof -
  let ?rec = "recordedByPane s"
  have a: "a = foldl (adopt_session tf known ?rec pfx policy) \<lparr>ad_world = w, ad_adopted = 0, ad_acted = 0, ad_events = []\<rparr> (map fst w)"
    using assms(2) by (simp add: reconcilePrefix_def split: if_splits)
  have "\<not> safe_pane known ?rec pfx n p" using adopt_fold_keep[OF assms(1,3)] assms(4) by (auto simp: a)
  moreover have "protected_pane ?rec p" if "x \<in> set (ListSessions s)" "sess_PaneID x = pane_ID p" "pane_ID p \<noteq> []" for x
    using that recordedByPane_dom by (fastforce simp: protected_pane_def)
  ultimately have "has_prefix n pfx \<and> (\<not> known (drop (length pfx) n) \<or>
      pane_Created p \<and> (\<forall>x\<in>set (ListSessions s). sess_PaneID x \<noteq> pane_ID p \<or> pane_ID p = []))"
    unfolding safe_pane_def protected_pane_def by blast
  moreover have "policy = KillUnrecorded"
  proof (cases policy)
    case LeaveUnrecorded
    have "ad_world (foldl (adopt_session tf known ?rec pfx policy) b names) = ad_world b" for b names
    proof (induction names rule: rev_induct)
      case (snoc name names)
      then show ?case using adopt_panes_world[OF LeaveUnrecorded, of tf ?rec] LeaveUnrecorded
        by (auto simp: adopt_session_def Let_def split: option.split)
    qed simp
    then show ?thesis using assms(3,4) by (simp add: a)
  qed simp
  ultimately show ?thesis by simp
qed

definition two_panes :: tmux_world where
  "two_panes = [(''marvel-ws'', [\<lparr>pane_ID = ''%1'', pane_Created = True\<rparr>, \<lparr>pane_ID = ''%2'', pane_Created = True\<rparr>])]"

definition no_faults :: tmux_faults where
  "no_faults = \<lparr>tf_listSessions = False, tf_listPanes = \<lambda>_. False, tf_timeout = \<lambda>_. False, tf_killSession = \<lambda>_. False,
     tf_killPane = \<lambda>_. False\<rparr>"

definition one_recorded :: Store where
  "one_recorded = NewStore\<lparr>st_sessions := [(''ws/a'', example_session ''a'' ''dev'' 1 5)]\<rparr>"

theorem adopt_kills_only_unrecorded_witness:
  "\<exists>a. AdoptOrKill no_faults (\<lambda>_. True) one_recorded two_panes = Some a \<and>
     \<not> has_pane (ad_world a) ''marvel-ws'' \<lparr>pane_ID = ''%2'', pane_Created = True\<rparr> \<and>
     (\<forall>x\<in>set (ListSessions one_recorded). sess_PaneID x \<noteq> ''%2'')"
proof -
  let ?p = "\<lparr>pane_ID = ''%2'', pane_Created = True\<rparr>"
  have u: "pane_ids_unique two_panes" by (auto simp: pane_ids_unique_def has_pane_def two_panes_def)
  obtain a where a: "reconcilePrefix no_faults (\<lambda>_. True) ''marvel-'' KillUnrecorded one_recorded two_panes = Some a"
    by (simp add: reconcilePrefix_def no_faults_def)
  have "has_pane two_panes ''marvel-ws'' ?p" by (simp add: has_pane_def two_panes_def)
  moreover have "\<not> has_pane (ad_world a) ''marvel-ws'' ?p"
    using a by (auto simp: reconcilePrefix_def no_faults_def one_recorded_def two_panes_def ListSessions_def example_session_def
        recordedByPane_def adopt_session_def adopt_pane_def ListPanes_def KillPane_def has_prefix_def has_pane_def ad_emit_def Let_def)
  ultimately show ?thesis
    using adopt_kills_only_unrecorded[OF u a, of "''marvel-ws''" ?p] a by (auto simp: AdoptOrKill_def marvelSessionPrefix_def)
qed

section \<open>The preview tells the truth\<close>

text \<open>What a found entry stands for.\<close>

fun entry_kills :: "Found \<Rightarrow> tmux_world \<Rightarrow> tmux_world" where
  "entry_kills (FoundSession n) w = KillSession n w"
| "entry_kills (FoundPane p ws) w = KillPane p w"

definition quiet_faults :: "tmux_faults \<Rightarrow> bool" where
  "quiet_faults tf \<longleftrightarrow> \<not> tf_listSessions tf \<and> (\<forall>n. \<not> tf_listPanes tf n \<and> \<not> tf_killSession tf n \<and> \<not> tf_killPane tf n)"

lemma adopt_panes_found:
  assumes "\<And>p. \<not> tf_killPane tf p"
  shows "ad_world (foldl (adopt_pane tf rec KillUnrecorded ws) a ps) =
      foldl (\<lambda>w f. entry_kills f w) (ad_world a) (map (\<lambda>p. FoundPane (pane_ID p) ws) (filter (\<lambda>p. pane_Created p \<and> rec (pane_ID p) = None) ps)) \<and>
    ad_acted (foldl (adopt_pane tf rec KillUnrecorded ws) a ps) =
      ad_acted a + length (filter (\<lambda>p. pane_Created p \<and> rec (pane_ID p) = None) ps)"
proof (induction ps arbitrary: a)
  case (Cons p ps)
  show ?case using Cons[of "adopt_pane tf rec KillUnrecorded ws a p"] assms
    by (auto simp: adopt_pane_def ad_emit_def split: option.splits)
qed simp

lemma map_of_KillSession: "name \<noteq> n \<Longrightarrow> map_of (KillSession n w) name = map_of w name"
  by (induction w) (auto simp: KillSession_def)

lemma map_of_KillPane: "map_of (KillPane q w) name = map_option (filter (\<lambda>x. pane_ID x \<noteq> q)) (map_of w name)"
  by (induction w) (auto simp: KillPane_def)

lemma found_elsewhere:
  assumes u: "pane_ids_unique w" and fs: "found_in tf known rec w name = Some fs" and n: "n \<noteq> name"
    and same: "map_of v n = map_of w n"
  shows "map_of (foldl (\<lambda>w f. entry_kills f w) v fs) n = map_of w n"
proof -
  have in_name: "f = FoundSession name \<or> (\<exists>q ws. f = FoundPane (pane_ID q) ws \<and> has_pane w name q)" if "f \<in> set fs" for f
    using fs that by (auto simp: found_in_def Let_def ListPanes_def has_pane_def split: if_splits option.splits dest!: map_of_SomeD)
  have step: "map_of (entry_kills f v) n = map_of w n" if f: "f \<in> set fs" and v: "map_of v n = map_of w n" for f v
  proof -
    from in_name[OF f] show ?thesis
    proof (elim disjE exE conjE)
      fix q ws assume q: "f = FoundPane (pane_ID q) ws" "has_pane w name q"
      have "pane_ID x \<noteq> pane_ID q" if "map_of w n = Some ps" "x \<in> set ps" for ps x
        using u q(2) n that unfolding pane_ids_unique_def has_pane_def by (metis map_of_SomeD)
      then show ?thesis using v q(1) by (cases "map_of w n") (auto simp: map_of_KillPane filter_id_conv)
    qed (use v n in \<open>simp add: map_of_KillSession\<close>)
  qed
  have "set gs \<subseteq> set fs \<Longrightarrow> map_of (foldl (\<lambda>w f. entry_kills f w) v gs) n = map_of w n" for gs
    by (induction gs rule: rev_induct) (use same step in auto)
  then show ?thesis by simp
qed

lemma adopt_session_found:
  assumes "quiet_faults tf" and "map_of (ad_world a) name = map_of w name" "map_of w name \<noteq> None"
    and "found_in tf known rec w name = Some fs"
  shows "ad_world (adopt_session tf known rec marvelSessionPrefix KillUnrecorded a name) = foldl (\<lambda>w f. entry_kills f w) (ad_world a) fs"
    and "ad_acted (adopt_session tf known rec marvelSessionPrefix KillUnrecorded a name) = ad_acted a + length fs"
proof -
  obtain ps where ps: "map_of w name = Some ps" using assms(3) by auto
  have lp: "ListPanes tf (ad_world a) name = Some ps" "ListPanes tf w name = Some ps" "\<not> tf_listPanes tf name" "\<not> tf_killSession tf name"
    "\<And>p. \<not> tf_killPane tf p"
    using assms(1,2) ps by (auto simp: quiet_faults_def ListPanes_def)
  have "ad_world (adopt_session tf known rec marvelSessionPrefix KillUnrecorded a name) = foldl (\<lambda>w f. entry_kills f w) (ad_world a) fs \<and>
    ad_acted (adopt_session tf known rec marvelSessionPrefix KillUnrecorded a name) = ad_acted a + length fs"
  proof (cases "has_prefix name marvelSessionPrefix \<and> known (drop (length marvelSessionPrefix) name)")
    case True
    then have "fs = map (\<lambda>p. FoundPane (pane_ID p) (drop (length marvelSessionPrefix) name)) (filter (\<lambda>p. pane_Created p \<and> rec (pane_ID p) = None) ps)"
      using assms(4) lp by (simp add: found_in_def Let_def)
    with True lp adopt_panes_found[of tf rec "drop (length marvelSessionPrefix) name" a ps] show ?thesis
      by (simp add: adopt_session_def Let_def)
  next
    case False
    with assms(4) lp(4) show ?thesis by (auto simp: adopt_session_def found_in_def Let_def ad_emit_def split: if_splits)
  qed
  then show "ad_world (adopt_session tf known rec marvelSessionPrefix KillUnrecorded a name) = foldl (\<lambda>w f. entry_kills f w) (ad_world a) fs"
    "ad_acted (adopt_session tf known rec marvelSessionPrefix KillUnrecorded a name) = ad_acted a + length fs" by blast+
qed

lemma preview_fold:
  assumes "quiet_faults tf" "pane_ids_unique w" "preview_loop tf known rec w names = Some found" "distinct names"
    and "\<forall>n\<in>set names. map_of (ad_world a) n = map_of w n \<and> map_of w n \<noteq> None"
  shows "ad_world (foldl (adopt_session tf known rec marvelSessionPrefix KillUnrecorded) a names) = foldl (\<lambda>w f. entry_kills f w) (ad_world a) found \<and>
    ad_acted (foldl (adopt_session tf known rec marvelSessionPrefix KillUnrecorded) a names) = ad_acted a + length found"
  using assms(3-5)
proof (induction names arbitrary: a found)
  case (Cons n ns)
  then obtain fs gs where f: "found_in tf known rec w n = Some fs" "preview_loop tf known rec w ns = Some gs" "found = fs @ gs"
    by (auto split: option.splits)
  let ?a = "adopt_session tf known rec marvelSessionPrefix KillUnrecorded a n"
  have n: "map_of (ad_world a) n = map_of w n" "map_of w n \<noteq> None" using Cons.prems(3) by auto
  note st = adopt_session_found[OF assms(1) n f(1)]
  have "\<forall>x\<in>set ns. map_of (ad_world ?a) x = map_of w x \<and> map_of w x \<noteq> None"
  proof
    fix x assume x: "x \<in> set ns"
    with Cons.prems(2,3) have "x \<noteq> n" "map_of (ad_world a) x = map_of w x" "map_of w x \<noteq> None" by auto
    with found_elsewhere[OF assms(2) f(1)] st(1) show "map_of (ad_world ?a) x = map_of w x \<and> map_of w x \<noteq> None" by simp
  qed
  from Cons.IH[OF f(2) _ this] Cons.prems(2) st f(3) show ?case by simp
qed simp

text \<open>
  The preview and the action agree. When tmux answers, what \<open>marvel reap\<close> lists is exactly what the
  reclaiming pass then kills: its effect on the server is the killing of the listed sessions and
  panes, in order, and its count is the length of the list.
\<close>

theorem preview_agrees_with_kill:
  assumes "quiet_faults tf" and "pane_ids_unique w" and "distinct (map fst w)"
    and "UnrecordedTmuxState tf known s w = Some found"
  shows "\<exists>a. AdoptOrKill tf known s w = Some a \<and> ad_world a = foldl (\<lambda>w f. entry_kills f w) w found \<and> ad_acted a = length found"
proof -
  have q: "\<not> tf_listSessions tf" using assms(1) by (simp add: quiet_faults_def)
  have "\<forall>n\<in>set (map fst w). map_of w n \<noteq> None" by (auto simp: map_of_eq_None_iff)
  with preview_fold[OF assms(1,2) _ assms(3), of known "recordedByPane s" found "\<lparr>ad_world = w, ad_adopted = 0, ad_acted = 0, ad_events = []\<rparr>"]
    assms(4) q show ?thesis by (simp add: UnrecordedTmuxState_def AdoptOrKill_def reconcilePrefix_def)
qed

theorem preview_agrees_with_kill_witness:
  "\<exists>a. UnrecordedTmuxState no_faults (\<lambda>_. True) one_recorded two_panes = Some [FoundPane ''%2'' ''ws''] \<and>
     AdoptOrKill no_faults (\<lambda>_. True) one_recorded two_panes = Some a \<and> ad_world a = KillPane ''%2'' two_panes \<and> ad_acted a = 1"
proof -
  have u: "pane_ids_unique two_panes" by (auto simp: pane_ids_unique_def has_pane_def two_panes_def)
  have q: "quiet_faults no_faults" by (simp add: quiet_faults_def no_faults_def)
  have f: "UnrecordedTmuxState no_faults (\<lambda>_. True) one_recorded two_panes = Some [FoundPane ''%2'' ''ws'']"
    by (simp add: UnrecordedTmuxState_def no_faults_def two_panes_def found_in_def has_prefix_def marvelSessionPrefix_def ListPanes_def
        recordedByPane_def one_recorded_def ListSessions_def example_session_def session_key_def)
  from preview_agrees_with_kill[OF q u _ f] f show ?thesis by (simp add: two_panes_def)
qed

end
