(* ===== verification/Fleet.thy ===== *)
theory Fleet
  imports Session_Manager Planner
begin

text \<open>
  The controller with the session manager it drives, as \<open>internal/team/controller.go\<close> holds both, and
  the three per-role holds of the spawn path: the bus hold (\<open>bushold.go\<close>), the exposure hold
  (\<open>exposurehold.go\<close>) and the admission hold with its standing condition on the team record
  (\<open>admission.go\<close>).

  A reconcile pass works on \<open>t\<close>, a local copy of the team that its operations keep in step with the
  record in the store; the operations below therefore take and return the pair of that copy and the
  fleet. The controller and the manager share one store and one event ring, so the manager's state
  is the fleet's store, events, instances and hook (\<open>mgr_of\<close>, \<open>put_mgr\<close>).

  What a pass reads from outside the process is one record, \<open>tick_env\<close>: whether writes commit, the
  clock, the exposure reader, the bus verdict, tmux, the outcome of a launch, whether a seat's views
  are built, where a handoff file would be, whether a notice reached a seat, what the newest read of
  a handoff file found, the resume journal, and the shift timeout.
\<close>

section \<open>State and environment\<close>

record Fleet =
  fl_ctl :: Controller
  fl_instances :: "string set"
  fl_hook :: bool
  fl_retireSeen :: "string set"
  fl_retireEnded :: "string \<rightharpoonup> time"
  fl_roleDrained :: "string \<rightharpoonup> int"
  fl_autoShifts :: int
  fl_hibernateSaid :: "string \<rightharpoonup> time"

record ResumeEntry =
  re_Session :: string
  re_Workspace :: string
  re_Team :: string
  re_Role :: string

text \<open>\<open>handoffProbeResult\<close>: when the read of the handoff file began and whether it found the marker.\<close>

record handoffProbeResult =
  pr_startedAt :: time
  pr_complete :: bool

record tick_env =
  te_commits :: commit_oracle
  te_now :: time
  te_src :: ExposureReader
  te_bus :: "(bool \<times> string) option"
  te_tx :: tmux_env
  te_launch :: "Session \<Rightarrow> launch_env"
  te_views :: "Session \<Rightarrow> bool"
  te_path :: "string \<Rightarrow> Session \<Rightarrow> string"
  te_notify :: "Session \<Rightarrow> string option"
  te_probe :: "string \<rightharpoonup> handoffProbeResult"
  te_journal :: "ResumeEntry list option"
  te_snapshot :: "(Team \<Rightarrow> Snapshot) option"
  te_shiftTimeout :: duration

abbreviation fl_store :: "Fleet \<Rightarrow> Store" where
  "fl_store f \<equiv> c_store (fl_ctl f)"

abbreviation frows :: "Fleet \<Rightarrow> string \<rightharpoonup> Session" where
  "frows f \<equiv> session_at (fl_store f)"

abbreviation fteams :: "Fleet \<Rightarrow> string \<rightharpoonup> Team" where
  "fteams f \<equiv> team_at (fl_store f)"

definition mgr_of :: "Fleet \<Rightarrow> Manager" where
  "mgr_of f = \<lparr>mg_store = fl_store f, mg_instances = fl_instances f, mg_hook = fl_hook f, mg_events = c_events (fl_ctl f)\<rparr>"

definition put_mgr :: "Manager \<Rightarrow> Fleet \<Rightarrow> Fleet" where
  "put_mgr m f = f\<lparr>fl_ctl := (fl_ctl f)\<lparr>c_store := mg_store m, c_events := mg_events m\<rparr>,
                   fl_instances := mg_instances m, fl_hook := mg_hook m\<rparr>"

definition fl_emit :: "EventKind \<Rightarrow> Team \<Rightarrow> string \<Rightarrow> string \<Rightarrow> Fleet \<Rightarrow> Fleet" where
  "fl_emit k t role sess f = f\<lparr>fl_ctl := emit k (team_Workspace t) (team_Name t) role sess (fl_ctl f)\<rparr>"

text \<open>The calls into the session manager. \<open>DeleteAndReap\<close> is \<open>Delete\<close> followed by the sweep of the seat's
  home directory, which no record depends on.\<close>

definition fl_Create :: "tick_env \<Rightarrow> Session \<Rightarrow> Fleet \<Rightarrow> Fleet \<times> MgrError option" where
  "fl_Create e sess f =
     (case Create (te_commits e) (te_src e) (te_launch e sess) (te_now e) sess (mgr_of f) of (m, err) \<Rightarrow> (put_mgr m f, err))"

definition fl_Delete :: "tick_env \<Rightarrow> string \<Rightarrow> Fleet \<Rightarrow> Fleet \<times> MgrError option" where
  "fl_Delete e key f =
     (case Delete (te_commits e) (te_tx e) (te_now e) key (mgr_of f) of (m, err) \<Rightarrow> (put_mgr m f, err))"

definition DeleteAndReap :: "tick_env \<Rightarrow> string \<Rightarrow> Fleet \<Rightarrow> Fleet" where
  "DeleteAndReap e key f =
     (case GetSession (fl_store f) key of Inl _ \<Rightarrow> f | Inr _ \<Rightarrow> fst (fl_Delete e key f))"

definition fl_ClearCrashed :: "tick_env \<Rightarrow> Team \<Rightarrow> string \<Rightarrow> Fleet \<Rightarrow> Fleet" where
  "fl_ClearCrashed e t role f =
     put_mgr (ClearCrashedForRole (te_commits e) (team_Workspace t) (team_Name t) role (mgr_of f)) f"

text \<open>\<open>Store.UpdateTeam\<close> on the team's own record, with a callback that cannot fail.\<close>

definition fl_UpdateTeam :: "tick_env \<Rightarrow> string \<Rightarrow> (Team \<Rightarrow> Team) \<Rightarrow> Fleet \<Rightarrow> Fleet \<times> StoreError option" where
  "fl_UpdateTeam e key g f =
     (case UpdateTeam (te_commits e) key (\<lambda>live. (g live, None)) (fl_store f) of
        (s, err) \<Rightarrow> (f\<lparr>fl_ctl := (fl_ctl f)\<lparr>c_store := s\<rparr>\<rparr>, err))"

section \<open>The bus and exposure holds\<close>

definition latchBusHold :: "Team \<Rightarrow> string \<Rightarrow> Fleet \<Rightarrow> Fleet" where
  "latchBusHold t role f =
     (let key = role_key (team_Workspace t) (team_Name t) role
      in if key \<in> c_busHolds (fl_ctl f) then f
         else fl_emit KindBusUnavailable t role [] (f\<lparr>fl_ctl := (fl_ctl f)\<lparr>c_busHolds := insert key (c_busHolds (fl_ctl f))\<rparr>\<rparr>))"

definition clearBusHold :: "Team \<Rightarrow> string \<Rightarrow> Fleet \<Rightarrow> Fleet" where
  "clearBusHold t role f =
     f\<lparr>fl_ctl := (fl_ctl f)\<lparr>c_busHolds := c_busHolds (fl_ctl f) - {role_key (team_Workspace t) (team_Name t) role}\<rparr>\<rparr>"

definition latchExposureHold :: "Team \<Rightarrow> string \<Rightarrow> Fleet \<Rightarrow> Fleet" where
  "latchExposureHold t role f =
     (let key = role_key (team_Workspace t) (team_Name t) role
      in if key \<in> c_exposureHolds (fl_ctl f) then f
         else fl_emit KindExposureRefused t role []
                (f\<lparr>fl_ctl := (fl_ctl f)\<lparr>c_exposureHolds := insert key (c_exposureHolds (fl_ctl f))\<rparr>\<rparr>))"

definition clearExposureHold :: "Team \<Rightarrow> string \<Rightarrow> Fleet \<Rightarrow> Fleet" where
  "clearExposureHold t role f =
     f\<lparr>fl_ctl := (fl_ctl f)\<lparr>c_exposureHolds := c_exposureHolds (fl_ctl f) - {role_key (team_Workspace t) (team_Name t) role}\<rparr>\<rparr>"

section \<open>The admission hold\<close>

definition setAdmissionState :: "tick_env \<Rightarrow> AdmissionState \<Rightarrow> Team \<times> Fleet \<Rightarrow> Team \<times> Fleet" where
  "setAdmissionState e st = (\<lambda>(t, f).
     if team_Admission t = st then (t, f)
     else (t\<lparr>team_Admission := st\<rparr>, fst (fl_UpdateTeam e (team_key t) (\<lambda>live. live\<lparr>team_Admission := st\<rparr>) f)))"

definition latchAdmissionHold :: "tick_env \<Rightarrow> string \<Rightarrow> string \<Rightarrow> string \<Rightarrow> Team \<times> Fleet \<Rightarrow> Team \<times> Fleet" where
  "latchAdmissionHold e role key reason = (\<lambda>(t, f).
     let rk = role_key (team_Workspace t) (team_Name t) role; held = c_admissionHolds (fl_ctl f)
     in if (case held rk of Some k \<Rightarrow> k | None \<Rightarrow> []) = key then (t, f)
        else setAdmissionState e \<lparr>as_Held = True, as_Role = role, as_Reason = reason, as_Since = te_now e\<rparr>
               (t, fl_emit KindAdmissionRefused t role [] (f\<lparr>fl_ctl := (fl_ctl f)\<lparr>c_admissionHolds := held(rk \<mapsto> key)\<rparr>\<rparr>)))"

definition clearAdmissionHold :: "tick_env \<Rightarrow> string \<Rightarrow> Team \<times> Fleet \<Rightarrow> Team \<times> Fleet" where
  "clearAdmissionHold e role = (\<lambda>(t, f).
     let rk = role_key (team_Workspace t) (team_Name t) role; held = c_admissionHolds (fl_ctl f)
     in if held rk = None then (t, f)
        else let f1 = fl_emit KindAdmissionCleared t role [] (f\<lparr>fl_ctl := (fl_ctl f)\<lparr>c_admissionHolds := held(rk := None)\<rparr>\<rparr>)
             in if as_Role (team_Admission t) = role then setAdmissionState e no_admission (t, f1) else (t, f1))"

definition reconcileAdmissionState :: "tick_env \<Rightarrow> Team \<times> Fleet \<Rightarrow> Team \<times> Fleet" where
  "reconcileAdmissionState e = (\<lambda>(t, f).
     if \<not> as_Held (team_Admission t) then (t, f)
     else if c_admissionHolds (fl_ctl f) (role_key (team_Workspace t) (team_Name t) (as_Role (team_Admission t))) \<noteq> None then (t, f)
     else setAdmissionState e no_admission (t, f))"

text \<open>\<open>admitShift\<close>: a shift is replacement, so its request carries \<open>Overlap\<close>. A role named twice in the list,
  or declared twice, counts as often. \<open>te_snapshot\<close> is the controller's \<open>Snapshots\<close>, the reader of the
  spend meter.\<close>

definition admitShift :: "tick_env \<Rightarrow> Store \<Rightarrow> Team \<Rightarrow> string list \<Rightarrow> Verdict" where
  "admitShift e s t roles =
     (let req = \<lparr>req_Role = [], Want = sum_list (map (\<lambda>name. sum_list (map role_Replicas (filter (\<lambda>r. role_Name r = name) (team_Roles t)))) roles),
                 req_Kind = Growth, Overlap = True, AllowPartial = False\<rparr>
      in case te_snapshot e of
           None \<Rightarrow> CheckSessions (team_Budget t) (CountAlive (ListSessionsByTeam s (team_Workspace t) (team_Name t))) (declaredSessions t) req
         | Some snapshot \<Rightarrow> Check (team_Budget t) (snapshot t) req)"

definition placement :: "Team \<Rightarrow> Role \<Rightarrow> string" where
  "placement t role = (if role_WorkDir role \<noteq> [] then role_WorkDir role else team_WorkDir t)"

section \<open>What the operations change\<close>

lemma mgr_of_sel [simp]:
  "mg_store (mgr_of f) = fl_store f" "mg_instances (mgr_of f) = fl_instances f"
  "mg_hook (mgr_of f) = fl_hook f" "mg_events (mgr_of f) = c_events (fl_ctl f)"
  by (simp_all add: mgr_of_def)

lemma put_mgr_sel [simp]:
  "fl_store (put_mgr m f) = mg_store m" "c_events (fl_ctl (put_mgr m f)) = mg_events m"
  "fl_instances (put_mgr m f) = mg_instances m" "fl_retireSeen (put_mgr m f) = fl_retireSeen f"
  "fl_retireEnded (put_mgr m f) = fl_retireEnded f" "fl_roleDrained (put_mgr m f) = fl_roleDrained f"
  "c_busHolds (fl_ctl (put_mgr m f)) = c_busHolds (fl_ctl f)"
  "c_exposureHolds (fl_ctl (put_mgr m f)) = c_exposureHolds (fl_ctl f)"
  "c_admissionHolds (fl_ctl (put_mgr m f)) = c_admissionHolds (fl_ctl f)"
  "c_roleHealth (fl_ctl (put_mgr m f)) = c_roleHealth (fl_ctl f)"
  by (simp_all add: put_mgr_def)

lemma fl_emit_sel [simp]:
  "fl_store (fl_emit k t role sess f) = fl_store f" "fl_retireSeen (fl_emit k t role sess f) = fl_retireSeen f"
  "fl_retireEnded (fl_emit k t role sess f) = fl_retireEnded f" "fl_roleDrained (fl_emit k t role sess f) = fl_roleDrained f"
  "fl_instances (fl_emit k t role sess f) = fl_instances f"
  by (simp_all add: fl_emit_def emit_def)

lemma hold_stores [simp]:
  "fl_store (latchBusHold t role f) = fl_store f" "fl_store (clearBusHold t role f) = fl_store f"
  "fl_store (latchExposureHold t role f) = fl_store f" "fl_store (clearExposureHold t role f) = fl_store f"
  by (simp_all add: latchBusHold_def clearBusHold_def latchExposureHold_def clearExposureHold_def Let_def)

end
