(* ===== verification/Retirement.thy ===== *)
theory Retirement
  imports Fleet
begin

text \<open>
  Retirement (\<open>internal/team/retire.go\<close>): a running seat that is removed is asked for its handoff,
  recorded in the team's \<open>Retiring\<close> map with a window, and killed when the handoff is written or the
  window ends; the last seat of a dropped role finishes the role's removal.

  The handoff file is outside: \<open>te_path\<close> is the file a template names for a seat (empty when none
  resolves), \<open>te_notify\<close> why a notice was not delivered, and \<open>te_probe\<close> the newest finished read of a
  seat's file, as \<open>handoffProbes.complete\<close> returns it. The saved screen, the message to the supervisor
  and the held directories leave no trace in the modelled state.
\<close>

section \<open>Asking a seat to leave\<close>

definition DefaultShiftHandoffWindow :: duration where "DefaultShiftHandoffWindow = 5 * minute"

definition HandoffWindowOrDefault :: "ShiftPolicy option \<Rightarrow> duration" where
  "HandoffWindowOrDefault p =
     (case p of None \<Rightarrow> DefaultShiftHandoffWindow
      | Some p \<Rightarrow> if shp_HandoffWindow p \<le> 0 then DefaultShiftHandoffWindow else shp_HandoffWindow p)"

definition dropShiftRequest :: "tick_env \<Rightarrow> string \<Rightarrow> Team \<times> Fleet \<Rightarrow> Team \<times> Fleet" where
  "dropShiftRequest e role = (\<lambda>(t, f).
     case fl_UpdateTeam e (team_key t) (\<lambda>live. live\<lparr>team_ShiftRequests := (team_ShiftRequests live)(role := None)\<rparr>) f of
       (f1, Some _) \<Rightarrow> (t, f1)
     | (f1, None) \<Rightarrow> (t\<lparr>team_ShiftRequests := (team_ShiftRequests t)(role := None)\<rparr>, f1))"

text \<open>The request a retirement opens. \<open>prepareHandoffNotice\<close> resolves no file for an empty template.\<close>

definition retire_request :: "tick_env \<Rightarrow> Role option \<Rightarrow> Session \<Rightarrow> RetireRequest" where
  "retire_request e role sess =
     (let pol = (case role of None \<Rightarrow> None | Some r \<Rightarrow> role_Shift r);
          template = (case pol of None \<Rightarrow> [] | Some p \<Rightarrow> shp_Handoff p);
          path = (if template = [] then [] else te_path e template sess)
      in \<lparr>rq_Session = session_key sess, rq_Role = sess_Role sess, rq_RequestedAt = te_now e,
          rq_Window = HandoffWindowOrDefault pol, rq_Path = path,
          rq_Marker = (if path = [] then [] else case pol of None \<Rightarrow> [] | Some p \<Rightarrow> shp_HandoffMarker p),
          rq_NoticeUndelivered = (case te_notify e sess of None \<Rightarrow> [] | Some why \<Rightarrow> why)\<rparr>)"

definition retireSession :: "tick_env \<Rightarrow> Role option \<Rightarrow> Session \<Rightarrow> Team \<times> Fleet \<Rightarrow> Team \<times> Fleet" where
  "retireSession e role sess = (\<lambda>(t, f).
     if isRetiring t (session_key sess) then (t, f)
     else if sess_State sess \<noteq> SessionRunning
     then (t, DeleteAndReap e (session_key sess) (fl_emit KindSessionRetired t (sess_Role sess) (session_key sess) f))
     else if (case role of None \<Rightarrow> False | Some r \<Rightarrow> rt_Mode (role_Runtime r) = RuntimeModeHeadless)
     then (t, DeleteAndReap e (session_key sess) f)
     else
       let (t1, f1) = (case team_ShiftRequests t (sess_Role sess) of
                         Some req \<Rightarrow> if sr_Session req = session_key sess then dropShiftRequest e (sess_Role sess) (t, f) else (t, f)
                       | None \<Rightarrow> (t, f));
           req = retire_request e role sess
       in case fl_UpdateTeam e (team_key t1) (\<lambda>live. live\<lparr>team_Retiring := AList.update (session_key sess) req (team_Retiring live)\<rparr>) f1 of
            (f2, Some _) \<Rightarrow> (t1, f2)
          | (f2, None) \<Rightarrow> (t1\<lparr>team_Retiring := AList.update (session_key sess) req (team_Retiring t1)\<rparr>,
                            f2\<lparr>fl_retireSeen := insert (session_key sess) (fl_retireSeen f2)\<rparr>))"

section \<open>Ending a retirement\<close>

definition roleRemains :: "Team \<Rightarrow> string \<Rightarrow> Fleet \<Rightarrow> bool" where
  "roleRemains t role f \<longleftrightarrow>
     (\<exists>r\<in>set (team_Retiring t). rq_Role (snd r) = role) \<or>
     (\<exists>s\<in>set (ListSessionsByTeamRole (fl_store f) (team_Workspace t) (team_Name t) role). sess_Generation s \<noteq> 0)"

definition finishRoleRemoval :: "tick_env \<Rightarrow> string \<Rightarrow> Team \<times> Fleet \<Rightarrow> Team \<times> Fleet" where
  "finishRoleRemoval e role = (\<lambda>(t, f).
     if find_role t role \<noteq> None \<or> roleRemains t role f then (t, f)
     else let key = role_key (team_Workspace t) (team_Name t) role;
              c = fl_ctl f;
              c1 = forgetRoleHealth (te_commits e) key (c\<lparr>c_roleHealth := AList.delete key (c_roleHealth c)\<rparr>);
              c2 = c1\<lparr>c_admissionHolds := (c_admissionHolds c1)(key := None), c_busHolds := c_busHolds c1 - {key}\<rparr>
          in (t, fl_emit KindRoleRemoved t role [] (f\<lparr>fl_ctl := c2, fl_roleDrained := (fl_roleDrained f)(key := None)\<rparr>)))"

definition dropRetirement :: "tick_env \<Rightarrow> RetireRequest \<Rightarrow> Team \<times> Fleet \<Rightarrow> Team \<times> Fleet" where
  "dropRetirement e req = (\<lambda>(t, f).
     let f0 = f\<lparr>fl_retireSeen := fl_retireSeen f - {rq_Session req},
                fl_retireEnded := (fl_retireEnded f)(rq_Session req := None)\<rparr>
     in case fl_UpdateTeam e (team_key t) (\<lambda>live. live\<lparr>team_Retiring := AList.delete (rq_Session req) (team_Retiring live)\<rparr>) f0 of
          (f1, err) \<Rightarrow>
            if (case err of None \<Rightarrow> True | Some (ErrNotFound _) \<Rightarrow> True | Some _ \<Rightarrow> False)
            then finishRoleRemoval e (rq_Role req) (t\<lparr>team_Retiring := AList.delete (rq_Session req) (team_Retiring t)\<rparr>, f1)
            else (t, f1))"

definition killRetired :: "tick_env \<Rightarrow> Session \<Rightarrow> RetireRequest \<Rightarrow> Team \<times> Fleet \<Rightarrow> Team \<times> Fleet" where
  "killRetired e sess req = (\<lambda>(t, f).
     dropRetirement e req
       (t, DeleteAndReap e (session_key sess) (fl_emit KindSessionRetired t (sess_Role sess) (session_key sess) f)))"

text \<open>The result is whether the outcome can be decided, with the fleet that noted when the seat was first
  seen ended.\<close>

definition retireEndSettled :: "tick_env \<Rightarrow> RetireRequest \<Rightarrow> handoffProbeResult option \<Rightarrow> Fleet \<Rightarrow> bool \<times> Fleet" where
  "retireEndSettled e req read f =
     (if rq_Path req = [] then (True, f)
      else let endedAt = (case fl_retireEnded f (rq_Session req) of Some at \<Rightarrow> at | None \<Rightarrow> te_now e);
               f1 = f\<lparr>fl_retireEnded := (fl_retireEnded f)(rq_Session req \<mapsto> endedAt)\<rparr>
           in if (case read of Some r \<Rightarrow> endedAt \<le> pr_startedAt r | None \<Rightarrow> False) then (True, f1)
              else (rq_RequestedAt req + rq_Window req \<le> te_now e, f1))"

definition advanceRetirement :: "tick_env \<Rightarrow> RetireRequest \<Rightarrow> Team \<times> Fleet \<Rightarrow> Team \<times> Fleet" where
  "advanceRetirement e req = (\<lambda>(t, f).
     case GetSession (fl_store f) (rq_Session req) of
       Inl _ \<Rightarrow> dropRetirement e req (t, f)
     | Inr sess \<Rightarrow>
     if \<not> sess_CreatedAt sess < rq_RequestedAt req then dropRetirement e req (t, f)
     else
       let seen = rq_Session req \<in> fl_retireSeen f;
           f1 = f\<lparr>fl_retireSeen := insert (rq_Session req) (fl_retireSeen f)\<rparr>;
           read = (if rq_Path req = [] then None else te_probe e (rq_Session req));
           deadline = rq_RequestedAt req + rq_Window req
       in if \<not> CountsAsAlive (sess_State sess) then
            let (settled, f2) = (if seen then retireEndSettled e req read f1 else (True, f1))
            in if \<not> settled then (t, f2) else killRetired e sess req (t, f2)
          else if (case read of Some r \<Rightarrow> pr_complete r | None \<Rightarrow> False) then killRetired e sess req (t, f1)
          else if te_now e < deadline then (t, f1)
          else if rq_Path req \<noteq> [] \<and> (case read of None \<Rightarrow> True | Some r \<Rightarrow> pr_startedAt r < deadline) then (t, f1)
          else killRetired e sess req (t, f1))"

text \<open>The keys are sorted, so a pass takes the retirements in one order. A retirement of this pass's own
  keys is looked up again, as the loop reads the map it mutates; a key that has gone reads as the zero
  request.\<close>

definition zero_request :: RetireRequest where
  "zero_request = \<lparr>rq_Session = [], rq_Role = [], rq_RequestedAt = zero_time, rq_Window = 0, rq_Path = [], rq_Marker = [],
     rq_NoticeUndelivered = []\<rparr>"

definition advanceRetirements :: "tick_env \<Rightarrow> Team \<times> Fleet \<Rightarrow> Team \<times> Fleet" where
  "advanceRetirements e = (\<lambda>(t, f).
     foldl (\<lambda>(t, f) key. advanceRetirement e (case map_of (team_Retiring t) key of Some req \<Rightarrow> req | None \<Rightarrow> zero_request) (t, f))
       (t, f) (sort (map fst (team_Retiring t))))"

end
