(* ===== verification/Role_Apply.thy ===== *)
theory Role_Apply
  imports Retirement
begin

text \<open>
  The effects of a role's plan: \<open>applyRolePlan\<close>, \<open>reconcileRoleAt\<close> and \<open>reconcileRole\<close> of
  \<open>internal/team/controller.go\<close>, with \<open>wakePredecessors\<close> of \<open>internal/team/hibernate.go\<close>. The rate limit on
  reports of a refused placement (\<open>ClearPlacementRefusal\<close>) is the manager's logging and is left out.
\<close>

section \<open>Spawning\<close>

text \<open>Go's \<open>byKey\<close> keeps the last journal entry of a session.\<close>

definition journal_entry :: "ResumeEntry list \<Rightarrow> string \<Rightarrow> ResumeEntry option" where
  "journal_entry entries key = find (\<lambda>x. re_Session x = key) (rev entries)"

definition wakePredecessors :: "tick_env \<Rightarrow> Team \<Rightarrow> string \<Rightarrow> Fleet \<Rightarrow> string list" where
  "wakePredecessors e t role f =
     (case team_Hibernate t of
        None \<Rightarrow> []
      | Some m \<Rightarrow>
          if hm_State m \<noteq> HibernateWaking \<or> hm_Seats m = [] then []
          else case te_journal e of
            None \<Rightarrow> []
          | Some entries \<Rightarrow>
              let named = map sess_Predecessor (filter (\<lambda>s. CountsAsAlive (sess_State s) \<and> sess_Predecessor s \<noteq> [])
                            (ListSessionsByTeamRole (fl_store f) (team_Workspace t) (team_Name t) role))
              in filter (\<lambda>key. key \<notin> set named \<and>
                   (case journal_entry entries key of
                      None \<Rightarrow> False
                    | Some x \<Rightarrow> re_Workspace x = team_Workspace t \<and> re_Team x = team_Name t \<and> re_Role x = role) \<and>
                   (case GetSession (fl_store f) key of Inr s \<Rightarrow> \<not> CountsAsAlive (sess_State s) | Inl _ \<Rightarrow> True))
                 (hm_Seats m))"

text \<open>The record a controller hands to \<open>Create\<close>: the fields it does not set are Go's zero values.\<close>

definition zero_session :: "Runtime \<Rightarrow> Session" where
  "zero_session rt = \<lparr>sess_WorkDir = [], sess_Name = [], sess_Workspace = [], sess_Team = [], sess_Role = [], sess_Generation = 0,
     sess_Runtime = rt, sess_State = SessionPending, sess_LastHeartbeat = zero_time, sess_HealthState = HealthUnknown,
     sess_ActivityState = ActivityUnknown, sess_FailureCount = 0, sess_RestartCount = 0, sess_LastHealthCheck = zero_time,
     sess_CreatedAt = zero_time, sess_PausedTotal = 0, sess_PauseAppliedSince = zero_time, sess_HarnessHome = [], sess_Predecessor = [], sess_HandoffRequestedAt = zero_time,
     sess_ExitStatus = [], sess_Firing = [], sess_Reason = [], sess_ContextAt = zero_time, sess_ContextTokens = 0,
     sess_ContextLimit = 0, sess_ContextSource = [], sess_ContextRequests = 0, sess_SpendOut = None,
     sess_SpendPromptTokens = None, sess_HeartbeatTokenHash = [], sess_Ending = False, sess_PaneID = [], sess_KillError = [],
     sess_TotalsChangedAt = zero_time\<rparr>"

definition new_session :: "Team \<Rightarrow> Role \<Rightarrow> int \<Rightarrow> Fleet \<Rightarrow> Session" where
  "new_session t role gen f =
     (zero_session (role_Runtime role))\<lparr>
       sess_Name := index_prefix t role gen @ itoa (nextIndex (fl_store f) t role gen),
       sess_Workspace := team_Workspace t, sess_Team := team_Name t, sess_Role := role_Name role,
       sess_Generation := gen, sess_WorkDir := placement t role\<rparr>"

text \<open>The spawn loop: round \<open>i\<close> of \<open>n\<close> stops the loop when the seat's views are still building; a failed
  create is logged and the loop goes on.\<close>

fun spawn_loop :: "tick_env \<Rightarrow> Team \<Rightarrow> Role \<Rightarrow> RolePlan \<Rightarrow> string list \<Rightarrow> nat \<Rightarrow> nat \<Rightarrow> Fleet \<Rightarrow> Fleet" where
  "spawn_loop e t role plan preds i 0 f = f"
| "spawn_loop e t role plan preds i (Suc n) f =
     (let sess0 = (new_session t role (plan_Generation plan) f)\<lparr>sess_Firing := plan_Firing plan\<rparr>;
          sess = (if i < length preds then sess0\<lparr>sess_Predecessor := preds ! i\<rparr> else sess0)
      in if \<not> te_views e sess then f else spawn_loop e t role plan preds (Suc i) n (fst (fl_Create e sess f)))"

definition drop_finished_runs :: "tick_env \<Rightarrow> Team \<Rightarrow> RolePlan \<Rightarrow> Fleet \<Rightarrow> Fleet" where
  "drop_finished_runs e t plan f =
     (if plan_Firing plan = [] then f
      else foldl (\<lambda>f s. if sess_Firing s \<noteq> plan_Firing plan \<and> \<not> CountsAsAlive (sess_State s)
                        then fst (fl_Delete e (session_key s) f) else f)
             f (ListSessionsByTeamRole (fl_store f) (team_Workspace t) (team_Name t) (plan_Role plan)))"

definition spawn_seats :: "tick_env \<Rightarrow> Team \<Rightarrow> Role \<Rightarrow> RolePlan \<Rightarrow> Fleet \<Rightarrow> Fleet" where
  "spawn_seats e t role plan f =
     (let f1 = drop_finished_runs e t plan (fl_ClearCrashed e t (plan_Role plan) f)
      in spawn_loop e t role plan (wakePredecessors e t (plan_Role plan) f1) 0 (nat (plan_Spawn plan)) f1)"

section \<open>Enacting a plan\<close>

definition apply_holds :: "tick_env \<Rightarrow> RolePlan \<Rightarrow> Team \<times> Fleet \<Rightarrow> Team \<times> Fleet" where
  "apply_holds e plan = (\<lambda>(t, f).
     let f1 = (case plan_bus plan of busNoop \<Rightarrow> f | busClear \<Rightarrow> clearBusHold t (plan_Role plan) f
               | busHold \<Rightarrow> latchBusHold t (plan_Role plan) f);
         f2 = (case plan_exposure plan of exposureNoop \<Rightarrow> f1 | exposureClear \<Rightarrow> clearExposureHold t (plan_Role plan) f1
               | exposureHold \<Rightarrow> latchExposureHold t (plan_Role plan) f1)
     in case ai_op (plan_admission plan) of
          admissionNoop \<Rightarrow> (t, f2)
        | admissionClear \<Rightarrow> clearAdmissionHold e (plan_Role plan) (t, f2)
        | admissionLatch \<Rightarrow> latchAdmissionHold e (plan_Role plan) (ai_key (plan_admission plan)) (ai_reason (plan_admission plan)) (t, f2))"

definition applyRolePlan :: "tick_env \<Rightarrow> Role \<Rightarrow> RolePlan \<Rightarrow> Team \<times> Fleet \<Rightarrow> Team \<times> Fleet" where
  "applyRolePlan e role plan tf =
     (let (t1, f1) = apply_holds e plan tf;
          f2 = (if 0 < plan_Spawn plan then spawn_seats e t1 role plan f1 else f1)
      in foldl (\<lambda>tf sess. retireSession e (Some role) sess tf) (t1, f2) (plan_Delete plan))"

definition reconcileRoleAt :: "tick_env \<Rightarrow> Role \<Rightarrow> int \<Rightarrow> Team \<times> Fleet \<Rightarrow> Team \<times> Fleet" where
  "reconcileRoleAt e role gen = (\<lambda>(t, f).
     applyRolePlan e role (planRole (te_now e) (te_src e) (te_bus e) (fl_ctl f) t role gen) (t, f))"

definition reconcileRole :: "tick_env \<Rightarrow> Role \<Rightarrow> Team \<times> Fleet \<Rightarrow> Team \<times> Fleet" where
  "reconcileRole e role = (\<lambda>(t, f).
     case reconcile_plan (te_now e) (te_src e) (te_bus e) (fl_ctl f) t role of
       None \<Rightarrow> (t, f)
     | Some plan \<Rightarrow> applyRolePlan e role plan (t, f))"

end
