(* ===== verification/Health.thy ===== *)
theory Health
  imports Fleet Store_Durability
begin

text \<open>
  The health tick of \<open>internal/team/controller.go\<close>: \<open>evaluateHealth\<close> with the activity advisory
  (\<open>evaluateActivity\<close>, \<open>activityObservable\<close>), the restart policy (\<open>applyRestartPolicy\<close>) and the restart
  itself (\<open>restartSession\<close>). The sessions' updates go through one write set that is flushed at the end
  of the tick; the restart path writes the store directly, as in the code. The tick rings and the
  load rows refreshed on the way out are display data and are left out.
\<close>

section \<open>Activity\<close>

definition activityObservable :: "Session \<Rightarrow> Role option \<Rightarrow> bool" where
  "activityObservable s role \<longleftrightarrow>
     rt_Mode (sess_Runtime s) = RuntimeModeHeadless \<or> rt_ContextFeed (sess_Runtime s) = ContextFeedStatusline \<or>
     (case role of None \<Rightarrow> False
      | Some r \<Rightarrow> (case role_HealthCheck r of None \<Rightarrow> False | Some hc \<Rightarrow> hc_Type hc = HealthCheckHeartbeat))"

definition evaluateActivity :: "Session \<Rightarrow> Role option \<Rightarrow> time \<Rightarrow> ActivityState" where
  "evaluateActivity s role now =
     (case role of
        None \<Rightarrow> ActivityUnknown
      | Some r \<Rightarrow>
          if role_ActivityTimeout r \<le> 0 then ActivityUnknown
          else if \<not> is_zero (sess_ContextAt s)
          then if Quiet s (role_ActivityTimeout r) now then ActivityStalled else ActivityActive
          else if \<not> activityObservable s role then ActivityUnknown
          else if role_ActivityTimeout r < AgeAt s now then ActivityStalled else ActivityUnknown)"

section \<open>The verdict on one session\<close>

text \<open>The mutation of the row, with the two flags the tick acts on: the session turned unhealthy, and
  the restart policy applies.\<close>

record health_verdict =
  hv_session :: Session
  hv_turned :: bool
  hv_restart :: bool

definition quiet_verdict :: "Session \<Rightarrow> health_verdict" where
  "quiet_verdict s = \<lparr>hv_session = s, hv_turned = False, hv_restart = False\<rparr>"

definition failed_verdict :: "HealthCheck \<Rightarrow> Session \<Rightarrow> health_verdict" where
  "failed_verdict hc live =
     (let live1 = live\<lparr>sess_FailureCount := sess_FailureCount live + 1\<rparr>;
          over = (hc_FailureThreshold hc \<le> sess_FailureCount live1)
      in \<lparr>hv_session = live1\<lparr>sess_HealthState := HealthUnhealthy\<rparr>,
          hv_turned = (over \<and> sess_HealthState live1 \<noteq> HealthUnhealthy), hv_restart = over\<rparr>)"

definition health_eval :: "Role option \<Rightarrow> time \<Rightarrow> Session \<Rightarrow> health_verdict" where
  "health_eval role now live0 =
     (let live = live0\<lparr>sess_ActivityState := evaluateActivity live0 role now\<rparr>
      in case (case role of None \<Rightarrow> None | Some r \<Rightarrow> role_HealthCheck r) of
           None \<Rightarrow> quiet_verdict (live\<lparr>sess_HealthState := HealthUnknown\<rparr>)
         | Some hc \<Rightarrow>
             if hc_Type hc \<noteq> HealthCheckHeartbeat
             then quiet_verdict (live\<lparr>sess_HealthState := HealthAlive, sess_FailureCount := 0\<rparr>)
             else
               let live1 = live\<lparr>sess_LastHealthCheck := now\<rparr>
               in if is_zero (sess_LastHeartbeat live1)
                  then if AgeAt live1 now < hc_Timeout hc
                       then quiet_verdict (live1\<lparr>sess_HealthState := HealthUnknown\<rparr>)
                       else failed_verdict hc live1
                  else if hc_Timeout hc < time_sub now (sess_LastHeartbeat live1) then failed_verdict hc live1
                  else quiet_verdict (live1\<lparr>sess_FailureCount := 0, sess_HealthState := HealthHealthy\<rparr>))"

section \<open>The restart policy\<close>

definition fl_update :: "tick_env \<Rightarrow> string \<Rightarrow> (Session \<Rightarrow> Session) \<Rightarrow> Fleet \<Rightarrow> Fleet" where
  "fl_update e key g f = f\<lparr>fl_ctl := update_session (te_commits e) key (\<lambda>live. (g live, None)) (fl_ctl f)\<rparr>"

definition fl_notice :: "EventKind \<Rightarrow> Team \<Rightarrow> Role \<Rightarrow> Session \<Rightarrow> Fleet \<Rightarrow> Fleet" where
  "fl_notice k t role sess f = fl_emit k t (role_Name role) (session_key sess) f"

definition restartSession :: "tick_env \<Rightarrow> Session \<Rightarrow> Team \<Rightarrow> Role \<Rightarrow> Fleet \<Rightarrow> Fleet" where
  "restartSession e sess t role f =
     (let key = role_key (team_Workspace t) (team_Name t) (role_Name role);
          (c, rh) = getRoleHealth key (fl_ctl f);
          f0 = f\<lparr>fl_ctl := c\<rparr>
      in if te_now e < rh_BackoffUntil rh
         then fl_update e (session_key sess) (\<lambda>live. live\<lparr>sess_State := SessionCrashLoopBackOff\<rparr>)
                (if sess_State sess \<noteq> SessionCrashLoopBackOff then fl_notice KindCrashLoopBackoff t role sess f0 else f0)
         else case noteCrashAndBackoff (te_commits e) (te_now e) (team_Workspace t) (team_Name t) (role_Name role)
                     (role_MaxRestarts role) (fl_ctl f0) of
                (c1, False) \<Rightarrow>
                  let f1 = f0\<lparr>fl_ctl := c1\<rparr>
                  in fl_update e (session_key sess) (\<lambda>live. live\<lparr>sess_State := SessionFailed\<rparr>)
                       (if sess_State sess \<noteq> SessionFailed
                        then fl_notice KindSessionFailed t role sess (fl_notice KindRoleSaturated t role sess f1) else f1)
              | (c1, True) \<Rightarrow>
                  fst (fl_Delete e (session_key sess)
                    (fl_update e (session_key sess) (\<lambda>live. live\<lparr>sess_RestartCount := sess_RestartCount live + 1, sess_State := SessionFailed\<rparr>)
                      (fl_notice KindSessionRestarted t role sess (f0\<lparr>fl_ctl := c1\<rparr>)))))"

definition applyRestartPolicy :: "tick_env \<Rightarrow> Session \<Rightarrow> Team \<Rightarrow> Role \<Rightarrow> Fleet \<Rightarrow> Fleet" where
  "applyRestartPolicy e sess t role f =
     (if role_RestartPolicy role = RestartNever then
        let f1 = fl_update e (session_key sess) (\<lambda>live. live\<lparr>sess_State := SessionFailed\<rparr>) f;
            c = freezeRole (te_commits e) (team_Workspace t) (team_Name t) (role_Name role) (fl_ctl f1)
        in fl_notice KindSessionFailed t role sess (f1\<lparr>fl_ctl := c\<rparr>)
      else if role_RestartPolicy role = RestartOnFailure then
        if sess_State sess = SessionFailed then restartSession e sess t role f
        else fl_update e (session_key sess) (\<lambda>live. live\<lparr>sess_State := SessionFailed\<rparr>) f
      else restartSession e sess t role f)"

section \<open>The tick\<close>

definition team_cache :: "Team list \<Rightarrow> string \<rightharpoonup> Team" where
  "team_cache teams = map_of (rev (map (\<lambda>t. (team_key t, t)) teams))"

definition note_obs :: "Session \<Rightarrow> (string \<times> roleObs) list \<Rightarrow> (string \<times> roleObs) list" where
  "note_obs s obs =
     (let key = role_key (sess_Workspace s) (sess_Team s) (sess_Role s);
          ob = (case map_of obs key of Some ob \<Rightarrow> ob | None \<Rightarrow> \<lparr>obs_healthy = False, obs_unhealthy = False\<rparr>)
      in case sess_HealthState s of
           HealthHealthy \<Rightarrow> AList.update key (ob\<lparr>obs_healthy := True\<rparr>) obs
         | HealthAlive \<Rightarrow> AList.update key (ob\<lparr>obs_healthy := True\<rparr>) obs
         | HealthUnhealthy \<Rightarrow> AList.update key (ob\<lparr>obs_unhealthy := True\<rparr>) obs
         | HealthUnknown \<Rightarrow> obs)"

type_synonym health_state = "Fleet \<times> WriteSet \<times> (string \<times> roleObs) list"

definition health_session :: "tick_env \<Rightarrow> (string \<rightharpoonup> Team) \<Rightarrow> Session \<Rightarrow> health_state \<Rightarrow> health_state" where
  "health_session e cache sess = (\<lambda>(f, w, obs).
     if sess_State sess \<noteq> SessionRunning then (f, w, obs)
     else case cache (sess_Workspace sess @ ''/'' @ sess_Team sess) of
       None \<Rightarrow> (f, w, obs)
     | Some t \<Rightarrow>
     if isRetiring t (session_key sess) then (f, w, obs)
     else
       let role = find_role t (sess_Role sess)
       in case WriteSet_UpdateSession (session_key sess) (\<lambda>live. (hv_session (health_eval role (te_now e) live), None)) w (fl_store f) of
            (s, w1, Some _) \<Rightarrow> (f\<lparr>fl_ctl := (fl_ctl f)\<lparr>c_store := s\<rparr>\<rparr>, w1, obs)
          | (s, w1, None) \<Rightarrow>
              (case frows f (session_key sess) of
                 None \<Rightarrow> (f, w1, obs)
               | Some live \<Rightarrow>
                   let v = health_eval role (te_now e) live; updated = hv_session v;
                       f1 = f\<lparr>fl_ctl := (fl_ctl f)\<lparr>c_store := s\<rparr>\<rparr>;
                       f2 = (if hv_turned v
                             then f1\<lparr>fl_ctl := emit KindHealthCheckFailed (sess_Workspace updated) (sess_Team updated) (sess_Role updated)
                                                 (session_key updated) (fl_ctl f1)\<rparr> else f1);
                       f3 = (case role of
                               None \<Rightarrow> f2
                             | Some r \<Rightarrow> if hv_restart v \<and> role_Schedule r = None then applyRestartPolicy e updated t r f2 else f2)
                   in (f3, w1, note_obs updated obs)))"

definition evaluateHealth :: "tick_env \<Rightarrow> Fleet \<Rightarrow> Fleet" where
  "evaluateHealth e f =
     (let cache = team_cache (ListTeams (fl_store f));
          (f1, w, obs) = foldl (\<lambda>st sess. health_session e cache sess st) (f, NewWriteSet, []) (ListSessions (fl_store f));
          c = decayHealthyRoles (te_commits e) (te_now e) obs (fl_ctl f1)
      in f1\<lparr>fl_ctl := c\<lparr>c_store := fst (Flush (te_commits e) w (c_store c))\<rparr>\<rparr>)"

end
