(* ===== verification/Shift.thy ===== *)
theory Shift
  imports Role_Apply Health
begin

text \<open>
  The rolling shift of \<open>internal/team/controller.go\<close>: starting one (\<open>initiateShiftLocked\<close>, \<open>shiftOrder\<close>),
  driving it one reconcile tick at a time (\<open>reconcileShift\<close>, \<open>shiftLaunch\<close>, \<open>shiftDrain\<close>, with the readiness
  gate \<open>allReady\<close>), and giving up on a stuck one (\<open>abortStuckShift\<close>). The bookkeeping of handoff probes
  that a start clears belongs to the handoff requests and is left out; the requests themselves move
  into the shift here as there.
\<close>

section \<open>Starting a shift\<close>

text \<open>\<open>last\<close> is a Go map by role name, so of two roles with one name the later decides.\<close>

definition shifts_last :: "Role list \<Rightarrow> string \<Rightarrow> bool" where
  "shifts_last roles name =
     (case find (\<lambda>r. role_Name r = name) (rev roles) of None \<Rightarrow> False | Some r \<Rightarrow> IsSupervisorRole r)"

definition shiftOrder :: "Role list \<Rightarrow> string list" where
  "shiftOrder roles = sort_by (\<lambda>a b. \<not> shifts_last roles a \<and> shifts_last roles b) (map role_Name roles)"

datatype ShiftError = ShiftNoTeam StoreError | ShiftInProgress | ShiftPruning | ShiftNoRole | ShiftHibernated string
  | ShiftRefused | ShiftStore StoreError

text \<open>The mutation of the team record, and the re-check it makes under the store's lock.\<close>

definition start_shift :: "time \<Rightarrow> string list \<Rightarrow> int \<Rightarrow> Team \<Rightarrow> Team \<times> string option" where
  "start_shift now roles oldGen live =
     (if sh_Phase (team_Shift live) \<noteq> ShiftNone then (live, Some ''shift already in progress'')
      else let moved = (\<lambda>r. if r \<in> set roles then team_ShiftRequests live r else None)
           in (live\<lparr>team_Generation := oldGen + 1,
                    team_Shift := \<lparr>sh_Phase = ShiftLaunching, sh_OldGeneration = oldGen, sh_RoleIndex = 0, sh_Roles = roles,
                                   sh_StartedAt = now, sh_Drained = Map.empty, sh_HandoffRequests = moved\<rparr>,
                    team_ShiftRequests := (\<lambda>r. if r \<in> set roles then None else team_ShiftRequests live r)\<rparr>, None))"

definition shift_roles :: "Team \<Rightarrow> string \<Rightarrow> string list option" where
  "shift_roles t role =
     (if role = [] then Some (shiftOrder (team_Roles t))
      else if find_role t role = None then None else Some [role])"

definition initiateShiftLocked :: "tick_env \<Rightarrow> string \<Rightarrow> string \<Rightarrow> Fleet \<Rightarrow> Fleet \<times> ShiftError option" where
  "initiateShiftLocked e teamKey role f =
     (case GetTeam (fl_store f) teamKey of
        Inl err \<Rightarrow> (f, Some (ShiftNoTeam err))
      | Inr t \<Rightarrow>
      if sh_Phase (team_Shift t) \<noteq> ShiftNone then (f, Some ShiftInProgress)
      else if team_Pruning t \<noteq> None then (f, Some ShiftPruning)
      else case shift_roles t role of
        None \<Rightarrow> (f, Some ShiftNoRole)
      | Some roles \<Rightarrow>
      case find (\<lambda>name. Covers (team_Hibernate t) name) roles of
        Some name \<Rightarrow> (f, Some (ShiftHibernated name))
      | None \<Rightarrow>
      if Declared (team_Budget t) \<and> Refused (admitShift e (fl_store f) t roles)
      then (fl_emit KindAdmissionRefused t [] [] f, Some ShiftRefused)
      else case UpdateTeam (te_commits e) teamKey (start_shift (te_now e) roles (team_Generation t)) (fl_store f) of
        (s, Some err) \<Rightarrow> (f\<lparr>fl_ctl := (fl_ctl f)\<lparr>c_store := s\<rparr>\<rparr>, Some (ShiftStore err))
      | (s, None) \<Rightarrow> (fl_emit KindShiftStarted t [] [] (f\<lparr>fl_ctl := (fl_ctl f)\<lparr>c_store := s\<rparr>\<rparr>), None))"

definition IsShifting :: "Fleet \<Rightarrow> string \<Rightarrow> bool" where
  "IsShifting f teamKey = (case GetTeam (fl_store f) teamKey of Inl _ \<Rightarrow> False | Inr t \<Rightarrow> sh_Phase (team_Shift t) \<noteq> ShiftNone)"

section \<open>Launching the new generation\<close>

definition seat_ready :: "Role \<Rightarrow> Session \<Rightarrow> bool" where
  "seat_ready role s \<longleftrightarrow> sess_State s = SessionRunning \<and>
     (case role_HealthCheck role of None \<Rightarrow> True
      | Some hc \<Rightarrow> \<not> (hc_Type hc = HealthCheckHeartbeat \<and> is_zero (sess_LastHeartbeat s)))"

definition allReady :: "Session list \<Rightarrow> Role \<Rightarrow> bool" where
  "allReady sessions role \<longleftrightarrow> list_all (seat_ready role) sessions"

text \<open>The replicas a shift launches: none for a scheduled role, whose firing does its spawning.\<close>

definition launch_desired :: "Team \<Rightarrow> Role \<Rightarrow> int" where
  "launch_desired t role = (if role_Schedule role \<noteq> None then 0 else DesiredReplicas t role)"

definition new_gen_alive :: "Fleet \<Rightarrow> Team \<Rightarrow> Role \<Rightarrow> Session list" where
  "new_gen_alive f t role =
     aliveSessions (ListSessionsByTeamRoleGeneration (fl_store f) (team_Workspace t) (team_Name t) (role_Name role) (team_Generation t))"

text \<open>Rounds \<open>i\<close> to \<open>desired\<close> of the create loop, \<open>n\<close> of them left. It stops, and with it the tick, when a
  seat's views are still building or a create fails: the flag says whether the loop ran to its end.\<close>

fun launch_loop :: "tick_env \<Rightarrow> Team \<Rightarrow> Role \<Rightarrow> Session list \<Rightarrow> nat \<Rightarrow> nat \<Rightarrow> Fleet \<Rightarrow> bool \<times> Fleet" where
  "launch_loop e t role preds i 0 f = (True, f)"
| "launch_loop e t role preds i (Suc n) f =
     (let sess0 = new_session t role (team_Generation t) f;
          sess1 = (if i < length preds then sess0\<lparr>sess_Predecessor := session_key (preds ! (length preds - 1 - i))\<rparr> else sess0);
          sess = (case sh_HandoffRequests (team_Shift t) (role_Name role) of
                    Some req \<Rightarrow> if i < length preds \<and> sr_Session req = sess_Predecessor sess1
                                then sess1\<lparr>sess_HandoffRequestedAt := sr_RequestedAt req\<rparr> else sess1
                  | None \<Rightarrow> sess1)
      in if \<not> te_views e sess then (False, f)
         else case fl_Create e sess f of
                (f1, Some _) \<Rightarrow> (False, f1)
              | (f1, None) \<Rightarrow> launch_loop e t role preds (Suc i) n f1)"

text \<open>The second half of \<open>shiftLaunch\<close>: with enough live seats, all ready, the phase flips to draining, in
  the store first and announced after.\<close>

definition shift_ready :: "tick_env \<Rightarrow> Role \<Rightarrow> Team \<times> Fleet \<Rightarrow> Team \<times> Fleet" where
  "shift_ready e role = (\<lambda>(t, f).
     let newGen = new_gen_alive f t role
     in if launch_desired t role \<le> int (length newGen) \<and> allReady newGen role
        then case fl_UpdateTeam e (team_key t) (\<lambda>live. live\<lparr>team_Shift := (team_Shift live)\<lparr>sh_Phase := ShiftDraining\<rparr>\<rparr>) f of
               (f1, Some _) \<Rightarrow> (t, f1)
             | (f1, None) \<Rightarrow> (t\<lparr>team_Shift := (team_Shift t)\<lparr>sh_Phase := ShiftDraining\<rparr>\<rparr>,
                               fl_emit KindShiftRoleReady t (role_Name role) [] f1)
        else (t, f))"

definition shiftLaunch :: "tick_env \<Rightarrow> Role \<Rightarrow> Team \<times> Fleet \<Rightarrow> Team \<times> Fleet" where
  "shiftLaunch e role = (\<lambda>(t, f).
     let live = withoutRetiring t (new_gen_alive f t role); desired = launch_desired t role
     in if int (length live) < desired
        then case ExposureVerdict (te_src e) (team_Workspace t) (team_Name t) (Some role) of
               (True, _) \<Rightarrow> (t, latchExposureHold t (role_Name role) f)
             | (False, _) \<Rightarrow>
                 let f1 = clearExposureHold t (role_Name role) f;
                     preds = sortNewestFirst (aliveSessions (sessionsOutsideGeneration
                               (ListSessionsByTeamRole (fl_store f1) (team_Workspace t) (team_Name t) (role_Name role)) (team_Generation t)))
                 in (case launch_loop e t role preds (length live) (nat (desired - int (length live))) f1 of
                       (False, f2) \<Rightarrow> (t, f2)
                     | (True, f2) \<Rightarrow> shift_ready e role (t, f2))
        else shift_ready e role (t, f))"

section \<open>Draining the old seats\<close>

definition old_seats :: "Fleet \<Rightarrow> Team \<Rightarrow> Role \<Rightarrow> Session list" where
  "old_seats f t role =
     withoutRetiring t (sessionsOutsideGeneration
       (ListSessionsByTeamRole (fl_store f) (team_Workspace t) (team_Name t) (role_Name role)) (team_Generation t))"

definition next_role :: "Team \<Rightarrow> Team" where
  "next_role t =
     (let sh = (team_Shift t)\<lparr>sh_RoleIndex := sh_RoleIndex (team_Shift t) + 1\<rparr>
      in t\<lparr>team_Shift := if sh_RoleIndex sh < length (sh_Roles sh) then sh\<lparr>sh_Phase := ShiftLaunching\<rparr> else sh\<rparr>)"

definition drained_count :: "Team \<Rightarrow> string \<Rightarrow> int" where
  "drained_count t role = (case sh_Drained (team_Shift t) role of None \<Rightarrow> 0 | Some n \<Rightarrow> n)"

definition shiftDrain :: "tick_env \<Rightarrow> Role \<Rightarrow> Team \<times> Fleet \<Rightarrow> Team \<times> Fleet" where
  "shiftDrain e role = (\<lambda>(t, f).
     let oldGen = old_seats f t role
     in if oldGen = []
        then let f1 = (if 0 < drained_count t (role_Name role) then f else fl_emit KindShiftDrainedEmpty t (role_Name role) [] f)
             in (next_role t, fst (fl_UpdateTeam e (team_key t) next_role f1))
        else case fl_Delete e (session_key (last (sortNewestFirst oldGen))) f of
               (f1, Some _) \<Rightarrow> (t, f1)
             | (f1, None) \<Rightarrow>
                 (t, fst (fl_UpdateTeam e (team_key t)
                       (\<lambda>live. live\<lparr>team_Shift := (team_Shift live)\<lparr>sh_Drained := (sh_Drained (team_Shift live))
                                      (role_Name role \<mapsto> drained_count live (role_Name role) + 1)\<rparr>\<rparr>) f1)))"

section \<open>One tick of a shift\<close>

definition defaultShiftTimeout :: duration where "defaultShiftTimeout = 10 * minute"

definition shiftTimeout :: "tick_env \<Rightarrow> duration" where
  "shiftTimeout e = (if 0 < te_shiftTimeout e then te_shiftTimeout e else defaultShiftTimeout)"

definition shift_role :: "Team \<Rightarrow> string" where
  "shift_role t = (if sh_RoleIndex (team_Shift t) < length (sh_Roles (team_Shift t))
     then sh_Roles (team_Shift t) ! sh_RoleIndex (team_Shift t) else [])"

definition abortStuckShift :: "tick_env \<Rightarrow> Team \<times> Fleet \<Rightarrow> Team \<times> Fleet" where
  "abortStuckShift e = (\<lambda>(t, f).
     let role = shift_role t;
         rollback = (sh_Phase (team_Shift t) = ShiftLaunching \<and> sh_RoleIndex (team_Shift t) = 0);
         oldGen = sh_OldGeneration (team_Shift t);
         f1 = fl_emit KindShiftTimedOut t role [] f;
         f2 = (if sh_Phase (team_Shift t) = ShiftLaunching \<and> role \<noteq> []
               then foldl (\<lambda>f sess. fst (fl_Delete e (session_key sess) f)) f1
                      (ListSessionsByTeamRoleGeneration (fl_store f1) (team_Workspace t) (team_Name t) role (team_Generation t))
               else f1);
         close = (\<lambda>live. live\<lparr>team_Generation := if rollback then oldGen else team_Generation live, team_Shift := no_shift\<rparr>)
     in (close t, fst (fl_UpdateTeam e (team_key t) close f2)))"

definition reconcileShift :: "tick_env \<Rightarrow> Team \<times> Fleet \<Rightarrow> Team \<times> Fleet" where
  "reconcileShift e = (\<lambda>(t, f).
     let sh = team_Shift t
     in if \<not> is_zero (sh_StartedAt sh) \<and> shiftTimeout e < time_sub (te_now e) (sh_StartedAt sh) then abortStuckShift e (t, f)
        else if length (sh_Roles sh) \<le> sh_RoleIndex sh
        then (t\<lparr>team_Shift := no_shift\<rparr>,
              fst (fl_UpdateTeam e (team_key t) (\<lambda>live. live\<lparr>team_Shift := no_shift\<rparr>) (fl_emit KindShiftCompleted t [] [] f)))
        else
          let (t1, f1) = foldl (\<lambda>(t, f) role. if role_Name role = shift_role t then (t, f)
                                  else reconcileRoleAt e role (shiftRepairGeneration t (role_Name role)) (t, f)) (t, f) (team_Roles t)
          in case find_role t1 (shift_role t1) of
               None \<Rightarrow>
                 let bump = (\<lambda>live. live\<lparr>team_Shift := (team_Shift live)\<lparr>sh_RoleIndex := sh_RoleIndex (team_Shift live) + 1\<rparr>\<rparr>)
                 in (bump t1, fst (fl_UpdateTeam e (team_key t1) bump f1))
             | Some role \<Rightarrow>
                 (case sh_Phase (team_Shift t1) of
                    ShiftLaunching \<Rightarrow> shiftLaunch e role (t1, f1)
                  | ShiftDraining \<Rightarrow> shiftDrain e role (t1, f1)
                  | ShiftNone \<Rightarrow> (t1, f1)))"

end
