(* ===== verification/Fleet_Frame.thy ===== *)
theory Fleet_Frame
  imports Shift Session_Lifecycle Store_Durability
begin

text \<open>
  What a role's reconcile can reach. \<open>seat_step S\<close> is one change of the session table to a row of a slot
  in \<open>S\<close>: a new row, a row rewritten under its key, a row removed. Every operation of the session
  manager on a seat of \<open>S\<close>, and every role reconcile, is a sequence of such steps, whatever the file and
  tmux do; the rows of the slots outside \<open>S\<close> are therefore the same, in the same order, after it.
\<close>

section \<open>Steps of the session table\<close>

type_synonym slot = "string \<times> string \<times> string"
type_synonym seats = "(string \<times> Session) list"

inductive seat_step :: "slot set \<Rightarrow> seats \<Rightarrow> seats \<Rightarrow> bool" for S where
  add: "map_of al (session_key x) = None \<Longrightarrow> slot_of x \<in> S \<Longrightarrow> seat_step S al (AList.update (session_key x) x al)"
| rewrite: "map_of al (session_key x) = Some y \<Longrightarrow> slot_of y \<in> S \<Longrightarrow> slot_of x \<in> S \<Longrightarrow>
    seat_step S al (AList.update (session_key x) x al)"
| remove: "map_of al k = Some y \<Longrightarrow> slot_of y \<in> S \<Longrightarrow> seat_step S al (AList.delete k al)"

inductive_cases seat_stepE: "seat_step S al al'"

abbreviation seat_steps :: "slot set \<Rightarrow> seats \<Rightarrow> seats \<Rightarrow> bool" where
  "seat_steps S \<equiv> (seat_step S)\<^sup>*\<^sup>*"

definition keyed :: "seats \<Rightarrow> bool" where
  "keyed al \<longleftrightarrow> list_all (\<lambda>(k, x). k = session_key x) al \<and> distinct (map fst al)"

lemma keyed_sessions_iff: "keyed_sessions s = keyed (st_sessions s)"
  by (simp add: keyed_sessions_def keyed_def)

text \<open>The key of a seat in \<open>S\<close>, or of no seat.\<close>

definition owned :: "slot set \<Rightarrow> seats \<Rightarrow> string \<Rightarrow> bool" where
  "owned S al k \<longleftrightarrow> (\<forall>y. map_of al k = Some y \<longrightarrow> slot_of y \<in> S)"

lemma seat_step_keyed: "seat_step S al al' \<Longrightarrow> keyed al \<Longrightarrow> keyed al'"
  by (induction rule: seat_step.induct)
    (auto simp: keyed_def distinct_update distinct_delete list_all_AList_update list_all_AList_delete)

lemma seat_steps_keyed: "seat_steps S al al' \<Longrightarrow> keyed al \<Longrightarrow> keyed al'"
  by (induction rule: rtranclp_induct) (auto intro: seat_step_keyed)

lemma seat_step_owned: "seat_step S al al' \<Longrightarrow> owned S al k \<Longrightarrow> owned S al' k"
  by (induction rule: seat_step.induct) (auto simp: owned_def update_conv' delete_conv' split: if_splits)

lemma seat_steps_owned: "seat_steps S al al' \<Longrightarrow> owned S al k \<Longrightarrow> owned S al' k"
  by (induction rule: rtranclp_induct) (auto intro: seat_step_owned)

lemma seat_step_mono: "S \<subseteq> T \<Longrightarrow> seat_step S al al' \<Longrightarrow> seat_step T al al'"
  by (erule seat_stepE) (auto intro: seat_step.intros)

lemma seat_steps_mono: "seat_steps S al al' \<Longrightarrow> S \<subseteq> T \<Longrightarrow> seat_steps T al al'"
  by (induction rule: rtranclp_induct) (auto intro: rtranclp.rtrancl_into_rtrancl seat_step_mono)

text \<open>The rows of a slot outside \<open>S\<close> stay, in their order.\<close>

definition slot_rows :: "slot set \<Rightarrow> seats \<Rightarrow> seats" where
  "slot_rows Q al = filter (\<lambda>(k, x). slot_of x \<in> Q) al"

lemma filter_update_off:
  assumes "\<not> P (k, v)" and "\<And>y. map_of al k = Some y \<Longrightarrow> \<not> P (k, y)"
  shows "filter P (AList.update k v al) = filter P al"
  using assms by (induction al) auto

lemma filter_delete_off:
  assumes "distinct (map fst al)" and "\<And>y. map_of al k = Some y \<Longrightarrow> \<not> P (k, y)"
  shows "filter P (AList.delete k al) = filter P al"
proof -
  have "\<not> P x" if "x \<in> set al" "fst x = k" for x
    using that assms by (metis map_of_eq_Some_iff prod.collapse)
  then show ?thesis by (auto simp: AList.delete_eq filter_filter intro!: filter_cong)
qed

lemma seat_step_frame:
  assumes "seat_step S al al'" and "keyed al" and "S \<inter> Q = {}"
  shows "slot_rows Q al' = slot_rows Q al"
  using assms
proof (induction rule: seat_step.induct)
  case (add al x)
  then show ?case unfolding slot_rows_def by (intro filter_update_off) auto
next
  case (rewrite al x y)
  then show ?case unfolding slot_rows_def by (intro filter_update_off) auto
next
  case (remove al k y)
  then show ?case unfolding slot_rows_def keyed_def by (intro filter_delete_off) auto
qed

lemma seat_steps_frame:
  assumes "seat_steps S al al'" and "keyed al" and "S \<inter> Q = {}"
  shows "slot_rows Q al' = slot_rows Q al"
  using assms
proof (induction rule: rtranclp_induct)
  case (step al1 al2)
  then show ?case using seat_step_frame[OF step(2) seat_steps_keyed[OF step(1) step(4)] step(5)] by simp
qed simp

lemma map_of_slot_rows:
  assumes "keyed al"
  shows "map_of (slot_rows Q al) k = Some x \<longleftrightarrow> map_of al k = Some x \<and> slot_of x \<in> Q"
proof -
  have "distinct (map fst (slot_rows Q al))" using assms by (simp add: keyed_def slot_rows_def distinct_map_filter)
  then show ?thesis using assms by (auto simp: map_of_eq_Some_iff keyed_def slot_rows_def)
qed

lemma seat_steps_row:
  assumes "seat_steps S al al'" and "keyed al" and "slot_of x \<notin> S"
  shows "map_of al' k = Some x \<longleftrightarrow> map_of al k = Some x"
  using map_of_slot_rows[of al "- S" k x] map_of_slot_rows[of al' "- S" k x] seat_steps_frame[OF assms(1,2), of "- S"]
    seat_steps_keyed[OF assms(1,2)] assms(2,3) by auto

lemma ListSessionsByTeamRole_slot: "ListSessionsByTeamRole s ws tm r = map snd (slot_rows {(ws, tm, r)} (st_sessions s))"
  by (simp add: ListSessionsByTeamRole_def ListSessions_def slot_rows_def slot_of_def filter_map comp_def case_prod_beta')

section \<open>The session manager's operations are steps\<close>

lemma UpdateSession_table:
  "st_sessions (fst (UpdateSession commits k fn s)) =
     (case session_at s k of None \<Rightarrow> st_sessions s | Some x \<Rightarrow> AList.update k (fst (fn x)) (st_sessions s))"
  by (auto simp: UpdateSession_def Let_def store_simps split: option.splits prod.splits)

lemma DeleteSession_table:
  "st_sessions (fst (DeleteSession commits k s)) = st_sessions s \<or>
   session_at s k \<noteq> None \<and> st_sessions (fst (DeleteSession commits k s)) = AList.delete k (st_sessions s)"
  by (auto simp: DeleteSession_def deleteSeatDutiesLocked_def delete_duties_tables same_tables_def
      split: prod.splits option.splits dest!: persist_tables)

lemma CreateSession_table:
  "st_sessions (fst (CreateSession commits x s)) = st_sessions s \<or>
   session_at s (session_key x) = None \<and> st_sessions (fst (CreateSession commits x s)) = AList.update (session_key x) x (st_sessions s)"
  by (auto simp: CreateSession_def same_tables_def split: prod.splits option.splits dest!: persist_tables)

lemma CreateSession_ok:
  "CreateSession commits x s = (s', None) \<Longrightarrow> session_at s (session_key x) = None \<and>
     st_sessions s' = AList.update (session_key x) x (st_sessions s)"
  by (auto simp: CreateSession_def same_tables_def split: prod.splits option.splits if_splits dest!: persist_tables)

lemma UpdateSession_step:
  assumes "keyed (st_sessions s)" "owned S (st_sessions s) k" "\<And>x. slot_of (fst (fn x)) = slot_of x" "\<And>x. session_key (fst (fn x)) = session_key x"
  shows "seat_steps S (st_sessions s) (st_sessions (fst (UpdateSession commits k fn s)))"
proof (cases "session_at s k")
  case None
  then show ?thesis by (simp add: UpdateSession_table)
next
  case (Some x)
  then have "session_key x = k" using assms(1) by (auto simp: keyed_def list_all_iff dest!: map_of_SomeD)
  then have "seat_step S (st_sessions s) (AList.update k (fst (fn x)) (st_sessions s))"
    using seat_step.rewrite[of "st_sessions s" "fst (fn x)" x S] assms Some by (simp add: owned_def)
  with Some show ?thesis by (simp add: UpdateSession_table)
qed

lemma DeleteSession_step:
  assumes "owned S (st_sessions s) k"
  shows "seat_steps S (st_sessions s) (st_sessions (fst (DeleteSession commits k s)))"
  using DeleteSession_table[of commits k s] seat_step.remove[of "st_sessions s" k _ S] assms
  by (auto simp: owned_def intro: r_into_rtranclp)

abbreviation mrows :: "Manager \<Rightarrow> seats" where
  "mrows m \<equiv> st_sessions (mg_store m)"

lemma abandon_step: "owned S (mrows m) k \<Longrightarrow> seat_steps S (mrows m) (mrows (abandon commits k m))"
  by (simp add: abandon_def DeleteSession_step)

lemma key_updates [simp]:
  "session_key (x\<lparr>sess_Ending := b\<rparr>) = session_key x" "slot_of (x\<lparr>sess_Ending := b\<rparr>) = slot_of x"
  "session_key (x\<lparr>sess_State := st, sess_KillError := ke\<rparr>) = session_key x" "slot_of (x\<lparr>sess_State := st, sess_KillError := ke\<rparr>) = slot_of x"
  "session_key (x\<lparr>sess_PaneID := p, sess_State := st\<rparr>) = session_key x" "slot_of (x\<lparr>sess_PaneID := p, sess_State := st\<rparr>) = slot_of x"
  "session_key (x\<lparr>sess_PaneID := p, sess_State := st, sess_HarnessHome := home\<rparr>) = session_key x"
  "slot_of (x\<lparr>sess_PaneID := p, sess_State := st, sess_HarnessHome := home\<rparr>) = slot_of x"
  "slot_of (pending_row now h x) = slot_of x"
  by (simp_all add: session_key_def slot_of_def pending_row_def)

lemma sessionEnded_step:
  "keyed (mrows m) \<Longrightarrow> owned S (mrows m) k \<Longrightarrow> seat_steps S (mrows m) (mrows (sessionEnded commits k m))"
  by (simp add: sessionEnded_def UpdateSession_step)

lemma retireInstance_step:
  "keyed (mrows m) \<Longrightarrow> owned S (mrows m) k \<Longrightarrow> seat_steps S (mrows m) (mrows (fst (retireInstance commits tx k m)))"
  using sessionEnded_step[of m S k commits]
  by (simp add: retireInstance_def takeInstance_def split: bool.split prod.split)

lemma keepAfterFailedKill_step:
  "keyed (mrows m) \<Longrightarrow> owned S (mrows m) (session_key sess) \<Longrightarrow>
   seat_steps S (mrows m) (mrows (fst (keepAfterFailedKill commits sess kerr m)))"
  by (simp add: keepAfterFailedKill_def UpdateSession_step)

lemma dropSession_step:
  "owned S (mrows m) (session_key sess) \<Longrightarrow> seat_steps S (mrows m) (mrows (fst (dropSession commits sess m)))"
  using DeleteSession_step[of S "mg_store m" "session_key sess" commits]
  by (auto simp: dropSession_def Let_def split: prod.splits option.splits)

lemma Delete_step:
  assumes "keyed (mrows m)" "owned S (mrows m) k"
  shows "seat_steps S (mrows m) (mrows (fst (Delete commits tx now k m)))"
proof (cases "GetSession (mg_store m) k")
  case (Inl e)
  then show ?thesis by (simp add: Delete_def deleteSession_def)
next
  case (Inr sess)
  then have k: "session_key sess = k" using assms(1) by (auto simp: GetSession_def keyed_def list_all_iff split: option.splits dest!: map_of_SomeD)
  obtain m1 had tl kerr where r: "retireInstance commits tx k m = (m1, had, tl, kerr)" by (metis prod_cases4)
  have st1: "seat_steps S (mrows m) (mrows m1)" using retireInstance_step[OF assms, of commits tx] r by simp
  have m1: "keyed (mrows m1)" "owned S (mrows m1) k" using seat_steps_keyed[OF st1 assms(1)] seat_steps_owned[OF st1 assms(2)] by auto
  have "seat_steps S (mrows m) (mrows (fst (keepAfterFailedKill commits sess e m1)))" for e
    by (rule rtranclp_trans[OF st1 keepAfterFailedKill_step]) (use m1 k in auto)
  moreover have "seat_steps S (mrows m) (mrows (fst (dropSession commits sess (record_deleted commits tx now False sess tl m1))))"
    using rtranclp_trans[OF st1] dropSession_step[of S "record_deleted commits tx now False sess tl m1" sess commits] m1 k by simp
  ultimately show ?thesis using Inr r
    by (simp add: Delete_def deleteSession_def Let_def del: mg_emit_simps split: option.split)
qed

lemma Create_step:
  assumes "keyed (mrows m)" "slot_of sess \<in> S"
  shows "seat_steps S (mrows m) (mrows (fst (Create commits src le now sess m)))"
proof -
  have main: "seat_steps S (mrows m) (st_sessions s)" "owned S (st_sessions s) (session_key sess)" "keyed (st_sessions s)"
    if "CreateSession commits (pending_row now hash sess) (mg_store m) = (s, None)" for s hash
  proof -
    have "seat_step S (mrows m) (st_sessions s)"
      using CreateSession_ok[OF that] seat_step.add[of "mrows m" "pending_row now hash sess" S] assms(2) by simp
    then show st: "seat_steps S (mrows m) (st_sessions s)" by blast
    show "keyed (st_sessions s)" using seat_steps_keyed[OF st assms(1)] .
    show "owned S (st_sessions s) (session_key sess)"
      using CreateSession_ok[OF that] assms(2) by (simp add: owned_def update_conv')
  qed
  have fail: "st_sessions s = mrows m" if "CreateSession commits (pending_row now hash sess) (mg_store m) = (s, Some e)" for s e hash
    using that by (auto simp: CreateSession_def same_tables_def split: prod.splits option.splits if_splits dest!: persist_tables)
  have ab: "seat_steps S (mrows m) (st_sessions (fst (DeleteSession commits (session_key sess) s)))"
    if "CreateSession commits (pending_row now hash sess) (mg_store m) = (s, None)" for s hash
    using main[OF that] abandon_step[of S "m\<lparr>mg_store := s\<rparr>" "session_key sess" commits] by (simp add: abandon_def rtranclp_trans[of "seat_step S"])
  have up: "seat_steps S (mrows m) (st_sessions s2)"
    if cr: "CreateSession commits (pending_row now hash sess) (mg_store m) = (s, None)"
      and u: "UpdateSession commits (session_key sess) (\<lambda>live. (live\<lparr>sess_PaneID := pane, sess_State := SessionRunning, sess_HarnessHome := home\<rparr>, None)) s = (s2, e)"
    for s s2 hash pane home e
  proof -
    have "seat_steps S (st_sessions s) (st_sessions (fst (s2, e)))"
      unfolding u[symmetric] by (rule UpdateSession_step) (use main[OF cr] in simp_all)
    then show ?thesis using main(1)[OF cr] by (simp add: rtranclp_trans[of "seat_step S"])
  qed
  show ?thesis using main(1) ab fail
    by (auto simp: Create_def announceSpawn_def abandon_def Let_def split: option.split sum.split prod.split dest: fail intro: up)
qed

lemma session_ops_teams [simp]:
  "st_teams (fst (CreateSession commits x s)) = st_teams s" "st_teams (fst (UpdateSession commits k fn s)) = st_teams s"
  "st_teams (fst (DeleteSession commits k s)) = st_teams s" "st_teams (fst (UpdateScheduleStatus commits k h s)) = st_teams s"
  by (auto simp: CreateSession_def UpdateSession_def DeleteSession_def UpdateScheduleStatus_def deleteSeatDutiesLocked_def
      delete_duties_tables same_tables_def Let_def persist_tables_fst split: prod.splits option.splits dest!: persist_tables)

lemma session_ops_teams_eq:
  "CreateSession commits x s = (s', e) \<Longrightarrow> st_teams s' = st_teams s" "UpdateSession commits k fn s = (s', e) \<Longrightarrow> st_teams s' = st_teams s"
  "DeleteSession commits k s = (s', e) \<Longrightarrow> st_teams s' = st_teams s"
  using session_ops_teams by (metis fst_conv)+

lemma manager_teams [simp]:
  "st_teams (mg_store (abandon commits k m)) = st_teams (mg_store m)"
  "st_teams (mg_store (sessionEnded commits k m)) = st_teams (mg_store m)"
  "st_teams (mg_store (fst (retireInstance commits tx k m))) = st_teams (mg_store m)"
  "st_teams (mg_store (recordRun commits tx now sess oc ex tail ko m)) = st_teams (mg_store m)"
  "st_teams (mg_store (fst (dropSession commits sess m))) = st_teams (mg_store m)"
  "st_teams (mg_store (fst (keepAfterFailedKill commits sess ke m))) = st_teams (mg_store m)"
  by (auto simp: abandon_def sessionEnded_def retireInstance_def takeInstance_def recordRun_def dropSession_def
      keepAfterFailedKill_def Let_def split: bool.split prod.split sum.split option.split dest: session_ops_teams_eq)

lemma record_deleted_teams [simp]:
  "st_teams (mg_store (record_deleted commits tx now pd sess tail m)) = st_teams (mg_store m)"
  by (simp add: record_deleted_def recordScheduledRun_def split: option.split)

lemma Create_teams [simp]: "st_teams (mg_store (fst (Create commits src le now sess m))) = st_teams (mg_store m)"
  by (auto simp: Create_def announceSpawn_def Let_def split: option.split sum.split prod.split dest!: session_ops_teams_eq)

lemma Delete_teams [simp]: "st_teams (mg_store (fst (Delete commits tx now k m))) = st_teams (mg_store m)"
  using manager_teams(3)[of commits tx k m]
  by (auto simp: Delete_def deleteSession_def Let_def simp del: manager_teams(3) split: sum.split prod.split option.split)

section \<open>The frame of a role's operations\<close>

abbreviation fseats :: "Fleet \<Rightarrow> seats" where
  "fseats f \<equiv> st_sessions (fl_store f)"

text \<open>The part of a team record that only apply, a shift and a prune change.\<close>

definition core :: "Team \<Rightarrow> Team" where
  "core t = t\<lparr>team_Admission := no_admission, team_ShiftRequests := Map.empty, team_Retiring := []\<rparr>"

definition role_frame :: "slot set \<Rightarrow> Team \<times> Fleet \<Rightarrow> Team \<times> Fleet \<Rightarrow> bool" where
  "role_frame S a b \<longleftrightarrow> seat_steps S (fseats (snd a)) (fseats (snd b)) \<and> core (fst b) = core (fst a) \<and>
     (\<forall>k. map_option core (fteams (snd b) k) = map_option core (fteams (snd a) k)) \<and>
     (\<forall>k. k \<noteq> team_key (fst a) \<longrightarrow> fteams (snd b) k = fteams (snd a) k) \<and>
     (\<forall>k x. frows (snd a) k = Some x \<and> slot_of x \<notin> S \<longrightarrow> isRetiring (fst b) k = isRetiring (fst a) k \<and>
        (\<forall>j. map_option (\<lambda>t. isRetiring t k) (fteams (snd b) j) = map_option (\<lambda>t. isRetiring t k) (fteams (snd a) j)))"

lemma core_simps [simp]:
  "core (t\<lparr>team_Admission := a\<rparr>) = core t" "core (t\<lparr>team_ShiftRequests := q\<rparr>) = core t" "core (t\<lparr>team_Retiring := r\<rparr>) = core t"
  by (simp_all add: core_def)

lemma coreD:
  assumes "core t' = core t"
  shows "team_Name t' = team_Name t" "team_Workspace t' = team_Workspace t" "team_Roles t' = team_Roles t"
    "team_Generation t' = team_Generation t" "team_Shift t' = team_Shift t" "team_key t' = team_key t"
    "team_Pruning t' = team_Pruning t" "team_WorkDir t' = team_WorkDir t"
proof -
  show "team_Name t' = team_Name t" "team_Workspace t' = team_Workspace t" "team_Roles t' = team_Roles t"
    "team_Generation t' = team_Generation t" "team_Shift t' = team_Shift t"
    "team_Pruning t' = team_Pruning t" "team_WorkDir t' = team_WorkDir t"
    using arg_cong[OF assms, of team_Name] arg_cong[OF assms, of team_Workspace] arg_cong[OF assms, of team_Roles]
      arg_cong[OF assms, of team_Generation] arg_cong[OF assms, of team_Shift] arg_cong[OF assms, of team_Pruning]
      arg_cong[OF assms, of team_WorkDir] by (simp_all add: core_def)
  then show "team_key t' = team_key t" by (simp add: team_key_def)
qed

lemma role_frame_refl [simp]: "role_frame S a a"
  by (simp add: role_frame_def)

lemma role_frame_trans:
  assumes "role_frame S a b" "role_frame S b c" "keyed (fseats (snd a))"
  shows "role_frame S a c"
proof -
  have "frows (snd b) k = Some x" if "frows (snd a) k = Some x" "slot_of x \<notin> S" for k x
    using seat_steps_row[of S "fseats (snd a)" "fseats (snd b)" x k] assms that by (auto simp: role_frame_def)
  moreover have "core (fst b) = core (fst a)" using assms(1) by (simp add: role_frame_def)
  note coreD(6)[OF this]
  ultimately show ?thesis using assms by (auto simp: role_frame_def)
qed

lemma role_frame_core: "role_frame S a b \<Longrightarrow> core (fst b) = core (fst a)"
  by (simp add: role_frame_def)

lemma role_frame_keyed: "role_frame S a b \<Longrightarrow> keyed (fseats (snd a)) \<Longrightarrow> keyed (fseats (snd b))"
  by (auto simp: role_frame_def intro: seat_steps_keyed)

lemma role_frame_owned: "role_frame S a b \<Longrightarrow> owned S (fseats (snd a)) k \<Longrightarrow> owned S (fseats (snd b)) k"
  by (auto simp: role_frame_def intro: seat_steps_owned)

lemma role_frame_mono:
  assumes "role_frame S a b" "S \<subseteq> T"
  shows "role_frame T a b"
proof -
  have "slot_of x \<notin> S" if "slot_of x \<notin> T" for x using that assms(2) by blast
  then show ?thesis using assms seat_steps_mono by (fastforce simp: role_frame_def)
qed

text \<open>A sequence of operations, each with the frame.\<close>

lemma role_frame_fold:
  assumes "\<And>x b. x \<in> set xs \<Longrightarrow> role_frame S a b \<Longrightarrow> keyed (fseats (snd b)) \<Longrightarrow> role_frame S b (op b x)"
    and "keyed (fseats (snd a))"
  shows "role_frame S a (foldl op a xs)"
  using assms(1)
proof (induction xs rule: rev_induct)
  case (snoc x xs)
  then have "role_frame S a (foldl op a xs)" by simp
  moreover from role_frame_keyed[OF this assms(2)] snoc(2)[of x, OF _ this] have "role_frame S (foldl op a xs) (op (foldl op a xs) x)" by simp
  ultimately show ?case using role_frame_trans assms(2) by simp
qed simp

text \<open>The interface of an operation on one seat, as the passes over several seats rely on it: given the key of
  a seat of \<open>S\<close>, or of none, it stays within \<open>S\<close>.\<close>

locale seat_operation =
  fixes S :: "slot set" and op :: "'a \<Rightarrow> Team \<times> Fleet \<Rightarrow> Team \<times> Fleet" and seat :: "'a \<Rightarrow> string"
  assumes stays: "keyed (fseats f) \<Longrightarrow> owned S (fseats f) (seat x) \<Longrightarrow> role_frame S (t, f) (op x (t, f))"
begin

lemma pass_stays:
  assumes "keyed (fseats f)" and "\<And>x. x \<in> set xs \<Longrightarrow> owned S (fseats f) (seat x)"
  shows "role_frame S (t, f) (foldl (\<lambda>tf x. op x tf) (t, f) xs)"
proof (rule role_frame_fold)
  fix x b assume x: "x \<in> set xs" and b: "role_frame S (t, f) b" "keyed (fseats (snd b))"
  have "owned S (fseats (snd b)) (seat x)" using role_frame_owned[OF b(1)] assms(2)[OF x] by simp
  with stays[OF b(2)] show "role_frame S b (op x b)" by (cases b) simp
qed (simp add: assms(1))

lemma pass_keeps_others:
  assumes "keyed (fseats f)" and "\<And>x. x \<in> set xs \<Longrightarrow> owned S (fseats f) (seat x)" and "frows f k = Some y" and "slot_of y \<notin> S"
  shows "frows (snd (foldl (\<lambda>tf x. op x tf) (t, f) xs)) k = Some y"
  using pass_stays[OF assms(1,2), where t = t] seat_steps_row[OF _ assms(1,4), of _ k] assms(3) by (simp add: role_frame_def)

end

section \<open>The operations keep the frame\<close>

lemma role_frame_same:
  assumes "fl_store f' = fl_store f" "core t' = core t" "team_Retiring t' = team_Retiring t"
  shows "role_frame S (t, f) (t', f')"
  using assms by (simp add: role_frame_def isRetiring_def)

lemma fl_call_store:
  "fl_store (fst (fl_Delete e k f)) = mg_store (fst (Delete (te_commits e) (te_tx e) (te_now e) k (mgr_of f)))"
  "fl_store (fst (fl_Create e sess f)) = mg_store (fst (Create (te_commits e) (te_src e) (te_launch e sess) (te_now e) sess (mgr_of f)))"
  by (simp_all add: fl_Delete_def fl_Create_def split: prod.split)

lemma fl_Delete_frame:
  assumes "keyed (fseats f)" "owned S (fseats f) k"
  shows "role_frame S (t, f) (t, fst (fl_Delete e k f))"
  using Delete_step[of "mgr_of f" S k "te_commits e" "te_tx e" "te_now e"] assms
  by (simp add: role_frame_def fl_call_store)

interpretation delete_seat: seat_operation S "\<lambda>sess (t, f). (t, fst (fl_Delete e (session_key sess) f))" session_key for S e
  by unfold_locales (simp add: fl_Delete_frame)

lemma fl_Create_frame:
  assumes "keyed (fseats f)" "slot_of sess \<in> S"
  shows "role_frame S (t, f) (t, fst (fl_Create e sess f))"
  using Create_step[of "mgr_of f" sess S "te_commits e" "te_src e" "te_launch e sess" "te_now e"] assms
  by (simp add: role_frame_def fl_call_store)

lemma listed_row:
  assumes "keyed (st_sessions s)" "x \<in> set (ListSessions s)"
  shows "session_at s (session_key x) = Some x"
proof -
  from assms(2) obtain k where "(k, x) \<in> set (st_sessions s)" by (auto simp: ListSessions_def)
  with assms(1) show ?thesis by (auto simp: keyed_def list_all_iff map_of_eq_Some_iff)
qed

lemma DeleteAndReap_frame:
  assumes "keyed (fseats f)" "owned S (fseats f) k"
  shows "role_frame S (t, f) (t, DeleteAndReap e k f)"
  using fl_Delete_frame[OF assms] by (simp add: DeleteAndReap_def split: sum.split)

lemma ClearCrashed_steps:
  assumes "keyed (mrows m)" "(ws, tm, role) \<in> S"
  shows "seat_steps S (mrows m) (mrows (ClearCrashedForRole commits ws tm role m)) \<and>
    st_teams (mg_store (ClearCrashedForRole commits ws tm role m)) = st_teams (mg_store m)"
proof -
  have own: "owned S (mrows m) (session_key x)" if "x \<in> set (ListSessions (mg_store m))" "slot_of x \<in> S" for x
    using listed_row[OF assms(1) that(1)] that(2) by (simp add: owned_def)
  let ?op = "\<lambda>m s. if sess_State s = SessionCrashed \<and> sess_Workspace s = ws \<and> sess_Team s = tm \<and> sess_Role s = role
                   then abandon commits (session_key s) m else m"
  have "seat_steps S (mrows m) (mrows (foldl ?op m xs)) \<and> st_teams (mg_store (foldl ?op m xs)) = st_teams (mg_store m)"
    if "set xs \<subseteq> set (ListSessions (mg_store m))" for xs
    using that
  proof (induction xs rule: rev_induct)
    case (snoc x xs)
    let ?m = "foldl ?op m xs"
    have st: "seat_steps S (mrows m) (mrows ?m)" using snoc by simp
    have "seat_steps S (mrows m) (mrows (abandon commits (session_key x) ?m))" if "slot_of x = (ws, tm, role)"
      using rtranclp_trans[OF st abandon_step] seat_steps_owned[OF st own[of x]] that snoc(2) assms(2) by simp
    with st snoc show ?case by (simp add: slot_of_def)
  qed simp
  then show ?thesis by (simp add: ClearCrashedForRole_def)
qed

lemma fl_ClearCrashed_frame:
  assumes "keyed (fseats f)" "(team_Workspace t, team_Name t, role) \<in> S"
  shows "role_frame S (t, f) (t, fl_ClearCrashed e t role f)"
  using ClearCrashed_steps[of "mgr_of f" "team_Workspace t" "team_Name t" role S "te_commits e"] assms
  by (simp add: role_frame_def fl_ClearCrashed_def)

lemma fl_UpdateTeam_seats [simp]: "fseats (fst (fl_UpdateTeam e k g f)) = fseats f"
  by (auto simp: fl_UpdateTeam_def UpdateTeam_def Let_def persist_tables_fst split: prod.split option.split dest!: persist_tables simp: same_tables_def)

lemma fl_UpdateTeam_teams:
  "fteams (fst (fl_UpdateTeam e k g f)) = (case fteams f k of None \<Rightarrow> fteams f | Some t \<Rightarrow> (fteams f)(k \<mapsto> g t))"
  using team_table.update_look[of "fl_store f" k _ "te_commits e" "\<lambda>live. (g live, None)"]
    team_table.update_missing[of "fl_store f" k "te_commits e" "\<lambda>live. (g live, None)"]
  by (auto simp: fl_UpdateTeam_def split: prod.split option.split)

lemma fl_UpdateTeam_frame:
  assumes "\<And>x. core (g x) = core x" "core t' = core t"
    and "\<And>k x y. frows f k = Some x \<Longrightarrow> slot_of x \<notin> S \<Longrightarrow> isRetiring t' k = isRetiring t k \<and> isRetiring (g y) k = isRetiring y k"
    and "key = team_key t"
  shows "role_frame S (t, f) (t', fst (fl_UpdateTeam e key g f))"
  using assms by (auto simp: role_frame_def fl_UpdateTeam_teams split: option.split)

section \<open>A small fleet\<close>

text \<open>The fleet of one team and its sessions, and a world in which everything works.\<close>

definition fleet_of :: "Team \<Rightarrow> Session list \<Rightarrow> Fleet" where
  "fleet_of t ss = \<lparr>fl_ctl = NewController (NewStore\<lparr>st_sessions := map (\<lambda>x. (session_key x, x)) ss, st_teams := [(team_key t, t)]\<rparr>),
     fl_instances = {}, fl_hook = False, fl_retireSeen = {}, fl_retireEnded = Map.empty, fl_roleDrained = Map.empty,
     fl_autoShifts = 0, fl_hibernateSaid = Map.empty\<rparr>"

definition example_env :: "time \<Rightarrow> tick_env" where
  "example_env now = \<lparr>te_commits = \<lambda>_. True, te_now = now, te_src = quiet_reader, te_bus = None, te_tx = both_gone,
     te_launch = \<lambda>_. good_launch, te_views = \<lambda>_. True, te_path = \<lambda>_ _. [], te_notify = \<lambda>_. None, te_probe = Map.empty,
     te_journal = None, te_snapshot = None, te_shiftTimeout = 0\<rparr>"

lemma fleet_of_sel [simp]:
  "fseats (fleet_of t ss) = map (\<lambda>x. (session_key x, x)) ss" "fteams (fleet_of t ss) = [team_key t \<mapsto> t]"
  "ListSessions (fl_store (fleet_of t ss)) = ss"
  by (simp_all add: fleet_of_def NewController_def NewStore_def ListSessions_def comp_def)

lemma fleet_of_keyed: "distinct (map session_key ss) \<Longrightarrow> keyed_sessions (fl_store (fleet_of t ss))"
  by (simp add: keyed_sessions_iff keyed_def list_all_iff comp_def)

end
