(* ===== verification/Role_Frame.thy ===== *)
theory Role_Frame
  imports Fleet_Frame
begin

text \<open>
  A role's reconcile stays within its role: whatever the plan, the file, tmux and the launches do, the
  rows of every other role, the shift state and the generation of every team, and whether a seat of
  another role is retiring, are the same after it.
\<close>

section \<open>Holds and requests\<close>

lemma setAdmissionState_frame: "role_frame S (t, f) (setAdmissionState e st (t, f))"
  by (simp add: setAdmissionState_def fl_UpdateTeam_frame isRetiring_def)

lemma role_frame_start:
  assumes "fl_store f' = fl_store f" "role_frame S (t, f') b"
  shows "role_frame S (t, f) b"
  using assms by (simp add: role_frame_def)

lemma latchAdmissionHold_frame: "role_frame S (t, f) (latchAdmissionHold e role key reason (t, f))"
  by (simp add: latchAdmissionHold_def Let_def role_frame_start[OF _ setAdmissionState_frame])

lemma clearAdmissionHold_frame: "role_frame S (t, f) (clearAdmissionHold e role (t, f))"
  by (simp add: clearAdmissionHold_def Let_def role_frame_start[OF _ setAdmissionState_frame] role_frame_same)

lemma apply_holds_frame: "role_frame S (t, f) (apply_holds e plan (t, f))"
proof -
  define f1 where "f1 = (case plan_bus plan of busNoop \<Rightarrow> f | busClear \<Rightarrow> clearBusHold t (plan_Role plan) f
    | busHold \<Rightarrow> latchBusHold t (plan_Role plan) f)"
  define f2 where "f2 = (case plan_exposure plan of exposureNoop \<Rightarrow> f1 | exposureClear \<Rightarrow> clearExposureHold t (plan_Role plan) f1
    | exposureHold \<Rightarrow> latchExposureHold t (plan_Role plan) f1)"
  have "fl_store f1 = fl_store f" by (simp add: f1_def split: busIntent.split)
  then have f2: "fl_store f2 = fl_store f" by (simp add: f2_def split: exposureIntent.split)
  have "role_frame S (t, f) (case ai_op (plan_admission plan) of admissionNoop \<Rightarrow> (t, f2)
      | admissionClear \<Rightarrow> clearAdmissionHold e (plan_Role plan) (t, f2)
      | admissionLatch \<Rightarrow> latchAdmissionHold e (plan_Role plan) (ai_key (plan_admission plan)) (ai_reason (plan_admission plan)) (t, f2))"
    using role_frame_start[OF f2 clearAdmissionHold_frame] role_frame_start[OF f2 latchAdmissionHold_frame] role_frame_same[OF f2]
    by (simp split: admissionOp.split)
  then show ?thesis unfolding f2_def f1_def by (simp add: apply_holds_def Let_def)
qed

lemma dropShiftRequest_frame: "role_frame S (t, f) (dropShiftRequest e role (t, f))"
  using fl_UpdateTeam_frame[of "\<lambda>live. live\<lparr>team_ShiftRequests := (team_ShiftRequests live)(role := None)\<rparr>" t t f S "team_key t" e]
    fl_UpdateTeam_frame[of "\<lambda>live. live\<lparr>team_ShiftRequests := (team_ShiftRequests live)(role := None)\<rparr>"
      "t\<lparr>team_ShiftRequests := (team_ShiftRequests t)(role := None)\<rparr>" t f S "team_key t" e]
  by (auto simp: dropShiftRequest_def isRetiring_def split: prod.split option.split)

section \<open>Retiring a seat\<close>

lemma record_retiring_frame:
  assumes "owned S (fseats f) k"
  shows "role_frame S (t, f) (t\<lparr>team_Retiring := AList.update k req (team_Retiring t)\<rparr>,
    fst (fl_UpdateTeam e (team_key t) (\<lambda>live. live\<lparr>team_Retiring := AList.update k req (team_Retiring live)\<rparr>) f))"
    "role_frame S (t, f) (t, fst (fl_UpdateTeam e (team_key t) (\<lambda>live. live\<lparr>team_Retiring := AList.update k req (team_Retiring live)\<rparr>) f))"
  using assms by (auto intro!: fl_UpdateTeam_frame simp: isRetiring_def update_conv' owned_def split: if_splits)

lemma role_frame_seen: "role_frame S a (t, f) \<Longrightarrow> role_frame S a (t, f\<lparr>fl_retireSeen := x\<rparr>)"
  by (simp add: role_frame_def)

lemma retireSession_frame:
  assumes "keyed (fseats f)" "owned S (fseats f) (session_key sess)"
  shows "role_frame S (t, f) (retireSession e role sess (t, f))"
proof -
  let ?req = "retire_request e role sess" and ?k = "session_key sess"
  obtain t1 f1 where d: "(case team_ShiftRequests t (sess_Role sess) of
      Some req \<Rightarrow> if sr_Session req = ?k then dropShiftRequest e (sess_Role sess) (t, f) else (t, f) | None \<Rightarrow> (t, f)) = (t1, f1)"
    by fastforce
  have fr: "role_frame S (t, f) (t1, f1)"
    using dropShiftRequest_frame[of S t f e "sess_Role sess"] d by (auto split: option.splits if_splits)
  have own: "owned S (fseats f1) ?k" using role_frame_owned[OF fr] assms(2) by simp
  have del: "role_frame S (t, f) (t, DeleteAndReap e ?k f)" using DeleteAndReap_frame[OF assms] .
  have del': "role_frame S (t, f) (t, DeleteAndReap e ?k (fl_emit KindSessionRetired t (sess_Role sess) ?k f))"
    using DeleteAndReap_frame[of "fl_emit KindSessionRetired t (sess_Role sess) ?k f" S ?k t e] assms by (simp add: role_frame_def)
  have rec: "role_frame S (t, f) (t1\<lparr>team_Retiring := AList.update ?k ?req (team_Retiring t1)\<rparr>,
      fst (fl_UpdateTeam e (team_key t1) (\<lambda>live. live\<lparr>team_Retiring := AList.update ?k ?req (team_Retiring live)\<rparr>) f1))"
    "role_frame S (t, f) (t1, fst (fl_UpdateTeam e (team_key t1) (\<lambda>live. live\<lparr>team_Retiring := AList.update ?k ?req (team_Retiring live)\<rparr>) f1))"
    using record_retiring_frame[OF own] role_frame_trans[OF fr] assms(1) by simp_all
  obtain f2 err where u: "fl_UpdateTeam e (team_key t1) (\<lambda>live. live\<lparr>team_Retiring := AList.update ?k ?req (team_Retiring live)\<rparr>) f1 = (f2, err)"
    by fastforce
  show ?thesis
  proof (cases "isRetiring t ?k \<or> sess_State sess \<noteq> SessionRunning \<or>
      (case role of None \<Rightarrow> False | Some r \<Rightarrow> rt_Mode (role_Runtime r) = RuntimeModeHeadless)")
    case True
    then show ?thesis unfolding retireSession_def prod.case using del del' by (cases "isRetiring t ?k") simp_all
  next
    case False
    then show ?thesis unfolding retireSession_def prod.case d Let_def u using rec role_frame_seen
      by (cases err) (simp_all add: u)
  qed
qed

interpretation retire_seat: seat_operation S "retireSession e role" session_key for S e role
  by unfold_locales (rule retireSession_frame)

section \<open>Enacting a plan\<close>

lemma new_session_slot [simp]:
  "slot_of (new_session t role gen f) = (team_Workspace t, team_Name t, role_Name role)"
  "slot_of (x\<lparr>sess_Firing := a\<rparr>) = slot_of x" "slot_of (x\<lparr>sess_Predecessor := b\<rparr>) = slot_of x"
  "slot_of (x\<lparr>sess_HandoffRequestedAt := h\<rparr>) = slot_of x"
  by (simp_all add: new_session_def slot_of_def)

lemma spawn_loop_frame:
  assumes "(team_Workspace t, team_Name t, role_Name role) \<in> S" "keyed (fseats f)"
  shows "role_frame S (t, f) (t, spawn_loop e t role plan preds i n f)"
  using assms(2)
proof (induction n arbitrary: i f)
  case (Suc n)
  define sess0 where "sess0 = (new_session t role (plan_Generation plan) f)\<lparr>sess_Firing := plan_Firing plan\<rparr>"
  define sess where "sess = (if i < length preds then sess0\<lparr>sess_Predecessor := preds ! i\<rparr> else sess0)"
  have "slot_of sess \<in> S" using assms(1) by (simp add: sess_def sess0_def)
  then have fr: "role_frame S (t, f) (t, fst (fl_Create e sess f))" using fl_Create_frame Suc.prems by blast
  then have "keyed (fseats (fst (fl_Create e sess f)))" using role_frame_keyed Suc.prems by force
  then have "role_frame S (t, f) (t, spawn_loop e t role plan preds (Suc i) n (fst (fl_Create e sess f)))"
    using role_frame_trans[OF fr Suc.IH] Suc.prems by simp
  then show ?case unfolding spawn_loop.simps(2) sess0_def[symmetric] Let_def sess_def[symmetric] by simp
qed simp

lemma role_row_owned:
  assumes "keyed (fseats f)" "x \<in> set (ListSessionsByTeamRole (fl_store f) ws tm r)" "(ws, tm, r) \<in> S"
  shows "owned S (fseats f) (session_key x)"
  using listed_row[of "fl_store f" x] assms by (auto simp: ListSessionsByTeamRole_def owned_def slot_of_def)

lemma drop_finished_runs_frame:
  assumes "(team_Workspace t, team_Name t, plan_Role plan) \<in> S" "keyed (fseats f)"
  shows "role_frame S (t, f) (t, drop_finished_runs e t plan f)"
proof -
  let ?ss = "filter (\<lambda>s. sess_Firing s \<noteq> plan_Firing plan \<and> \<not> CountsAsAlive (sess_State s))
    (ListSessionsByTeamRole (fl_store f) (team_Workspace t) (team_Name t) (plan_Role plan))"
  have "role_frame S (t, f) (foldl (\<lambda>tf s. (\<lambda>(t, f). (t, fst (fl_Delete e (session_key s) f))) tf) (t, f) ?ss)"
    by (rule delete_seat.pass_stays) (use assms role_row_owned in auto)
  moreover have "foldl (\<lambda>tf s. (\<lambda>(t, f). (t, fst (fl_Delete e (session_key s) f))) tf) (t, f) (filter P xs) =
      (t, foldl (\<lambda>f s. if P s then fst (fl_Delete e (session_key s) f) else f) f xs)" for P xs
    by (induction xs arbitrary: f) simp_all
  ultimately show ?thesis by (simp add: drop_finished_runs_def)
qed

lemma spawn_seats_frame:
  assumes "(team_Workspace t, team_Name t, role_Name role) \<in> S" "plan_Role plan = role_Name role" "keyed (fseats f)"
  shows "role_frame S (t, f) (t, spawn_seats e t role plan f)"
proof -
  let ?f1 = "fl_ClearCrashed e t (plan_Role plan) f"
  let ?f2 = "drop_finished_runs e t plan ?f1"
  have 1: "role_frame S (t, f) (t, ?f1)" using fl_ClearCrashed_frame assms by simp
  have k1: "keyed (fseats ?f1)" using role_frame_keyed[OF 1] assms(3) by simp
  have 2: "role_frame S (t, f) (t, ?f2)" using role_frame_trans[OF 1 drop_finished_runs_frame] k1 assms by simp
  have k2: "keyed (fseats ?f2)" using role_frame_keyed[OF 2] assms(3) by simp
  show ?thesis using role_frame_trans[OF 2 spawn_loop_frame] k2 assms by (simp add: spawn_seats_def Let_def)
qed

lemma applyRolePlan_frame:
  assumes S: "(team_Workspace t, team_Name t, role_Name role) \<in> S" and "plan_Role plan = role_Name role" and k: "keyed (fseats f)"
    and del: "\<And>x. x \<in> set (plan_Delete plan) \<Longrightarrow> owned S (fseats f) (session_key x)"
  shows "role_frame S (t, f) (applyRolePlan e role plan (t, f))"
proof -
  obtain t1 f1 where h: "apply_holds e plan (t, f) = (t1, f1)" by fastforce
  have 1: "role_frame S (t, f) (t1, f1)" using apply_holds_frame[of S t f e plan] h by simp
  have t1: "team_Workspace t1 = team_Workspace t" "team_Name t1 = team_Name t" using coreD[OF role_frame_core[OF 1]] by simp_all
  have k1: "keyed (fseats f1)" using role_frame_keyed[OF 1] k by simp
  let ?f2 = "if 0 < plan_Spawn plan then spawn_seats e t1 role plan f1 else f1"
  have "role_frame S (t1, f1) (t1, spawn_seats e t1 role plan f1)" by (rule spawn_seats_frame) (use S t1 assms(2) k1 in simp_all)
  then have 2: "role_frame S (t, f) (t1, ?f2)" using 1 role_frame_trans[OF 1] k by (cases "0 < plan_Spawn plan") simp_all
  have k2: "keyed (fseats ?f2)" using role_frame_keyed[OF 2] k by simp
  have "role_frame S (t1, ?f2) (foldl (\<lambda>tf sess. retireSession e (Some role) sess tf) (t1, ?f2) (plan_Delete plan))"
    by (rule retire_seat.pass_stays) (use k2 role_frame_owned[OF 2] del in auto)
  with role_frame_trans[OF 2] k show ?thesis by (simp add: applyRolePlan_def h)
qed

lemma planRole_role [simp]: "plan_Role (planRole now src bus c t role gen) = role_Name role"
  by (simp add: planRole_def plan_spawn_def plan_backoff_def plan_admit_def plan_shed_def Let_def split: option.split prod.split bool.split)

lemma planRole_deletes: "set (plan_Delete (planRole now src bus c t role gen)) \<subseteq>
    set (ListSessionsByTeamRole (c_store c) (team_Workspace t) (team_Name t) (role_Name role))"
  by (auto simp: planRole_delete role_sessions_def withoutRetiring_def sortNewestFirst_def dest!: in_set_takeD)

lemma reconcileRoleAt_frame:
  assumes "(team_Workspace t, team_Name t, role_Name role) \<in> S" and "keyed (fseats f)"
  shows "role_frame S (t, f) (reconcileRoleAt e role gen (t, f))"
  unfolding reconcileRoleAt_def prod.case
  using planRole_deletes role_row_owned[OF assms(2) _ assms(1)]
  by (intro applyRolePlan_frame[OF assms(1) planRole_role assms(2)]) blast

lemma reconcileRole_frame:
  assumes "(team_Workspace t, team_Name t, role_Name role) \<in> S" and "keyed (fseats f)"
  shows "role_frame S (t, f) (reconcileRole e role (t, f))"
  using reconcileRoleAt_frame[OF assms, of e "team_Generation t"]
  by (simp add: reconcileRole_def reconcile_plan_def reconcileRoleAt_def Let_def)

end
