(* ===== verification/Shift_Properties.thy ===== *)
theory Shift_Properties
  imports Role_Frame
begin

text \<open>
  What a shift does to the seats: the order of the roles, the launching phase that keeps every seat and
  drains nothing before its successors are ready, the drain that takes the oldest seat first and one
  per tick, the abort of a stuck shift, and that a shift ends.
\<close>

section \<open>The order of the roles\<close>

text \<open>A stable sort by one bit puts one class before the other.\<close>

lemma insert_by_two_classes:
  assumes "\<forall>y\<in>set ys. \<not> P y" "\<forall>z\<in>set zs. P z"
  shows "insert_by (\<lambda>a b. \<not> P a \<and> P b) x (ys @ zs) = (if P x then ys @ x # zs else x # ys @ zs)"
  using assms(1)
proof (induction ys)
  case Nil
  then show ?case using assms(2) by (cases zs) auto
qed auto

lemma sort_by_two_classes: "sort_by (\<lambda>a b. \<not> P a \<and> P b) xs = filter (\<lambda>x. \<not> P x) xs @ filter P xs"
  by (induction xs) (simp_all add: sort_by_def insert_by_two_classes)

text \<open>
  Supervisors turn over last. \<open>shiftOrder\<close> lists the roles that are not supervisors, in roster
  order, and then those that are, in roster order: every role once, nothing else.
\<close>

theorem shift_order_supervisors_last:
  "shiftOrder roles = filter (\<lambda>n. \<not> shifts_last roles n) (map role_Name roles) @ filter (shifts_last roles) (map role_Name roles)"
  unfolding shiftOrder_def by (rule sort_by_two_classes)

section \<open>The other roles during a tick\<close>

abbreviation shift_slot :: "Team \<Rightarrow> slot" where
  "shift_slot t \<equiv> (team_Workspace t, team_Name t, shift_role t)"

definition other_roles :: "tick_env \<Rightarrow> Team \<times> Fleet \<Rightarrow> Team \<times> Fleet" where
  "other_roles e tf =
     foldl (\<lambda>(t, f) role. if role_Name role = shift_role t then (t, f)
              else reconcileRoleAt e role (shiftRepairGeneration t (role_Name role)) (t, f)) tf (team_Roles (fst tf))"

lemma core_shift_role:
  assumes "core t' = core t"
  shows "shift_role t' = shift_role t"
  using coreD(5)[OF assms] by (simp add: shift_role_def)

lemma other_roles_frame:
  assumes "keyed (fseats f)"
  shows "role_frame (- {shift_slot t}) (t, f) (other_roles e (t, f))"
  unfolding other_roles_def
proof (rule role_frame_fold)
  fix role b assume b: "role_frame (- {shift_slot t}) (t, f) b" "keyed (fseats (snd b))"
  obtain t' f' where tf: "b = (t', f')" by fastforce
  have c: "core t' = core t" using role_frame_core[OF b(1)] tf by simp
  have "role_frame (- {shift_slot t}) (t', f') (reconcileRoleAt e role (shiftRepairGeneration t' (role_Name role)) (t', f'))"
    if "role_Name role \<noteq> shift_role t'"
    using that b(2) tf coreD(1,2)[OF c] core_shift_role[OF c] by (intro reconcileRoleAt_frame) auto
  then show "role_frame (- {shift_slot t}) b ((\<lambda>(t, f) role. if role_Name role = shift_role t then (t, f)
      else reconcileRoleAt e role (shiftRepairGeneration t (role_Name role)) (t, f)) b role)"
    by (simp add: tf)
qed (simp add: assms)

lemma other_roles_keep:
  assumes "keyed (fseats f)" "other_roles e (t, f) = (t1, f1)"
  shows "core t1 = core t" "keyed (fseats f1)"
    "slot_of x = shift_slot t \<Longrightarrow> frows f1 k = Some x \<longleftrightarrow> frows f k = Some x"
    "frows f k = Some x \<Longrightarrow> slot_of x = shift_slot t \<Longrightarrow> isRetiring t1 k = isRetiring t k"
    "frows f k = Some x \<Longrightarrow> slot_of x = shift_slot t \<Longrightarrow>
       map_option (\<lambda>t. isRetiring t k) (fteams f1 j) = map_option (\<lambda>t. isRetiring t k) (fteams f j)"
    "map_option core (fteams f1 j) = map_option core (fteams f j)"
proof -
  have fr: "role_frame (- {shift_slot t}) (t, f) (t1, f1)" using other_roles_frame[OF assms(1), of t e] assms(2) by simp
  show "core t1 = core t" using role_frame_core[OF fr] by simp
  show "keyed (fseats f1)" using role_frame_keyed[OF fr] assms(1) by simp
  show "frows f1 k = Some x \<longleftrightarrow> frows f k = Some x" if "slot_of x = shift_slot t"
    using fr seat_steps_row[of "- {shift_slot t}" "fseats f" "fseats f1" x k] assms(1) that by (simp add: role_frame_def)
  show "isRetiring t1 k = isRetiring t k" "map_option (\<lambda>t. isRetiring t k) (fteams f1 j) = map_option (\<lambda>t. isRetiring t k) (fteams f j)"
    if "frows f k = Some x" "slot_of x = shift_slot t" using fr that by (auto simp: role_frame_def)
  show "map_option core (fteams f1 j) = map_option core (fteams f j)" using fr by (simp add: role_frame_def)
qed

text \<open>A tick inside the time limit, with a role to shift.\<close>

definition shift_live :: "tick_env \<Rightarrow> Team \<Rightarrow> bool" where
  "shift_live e t \<longleftrightarrow> \<not> (\<not> is_zero (sh_StartedAt (team_Shift t)) \<and> shiftTimeout e < time_sub (te_now e) (sh_StartedAt (team_Shift t))) \<and>
     sh_RoleIndex (team_Shift t) < length (sh_Roles (team_Shift t))"

lemma reconcileShift_live:
  assumes "shift_live e t" "other_roles e (t, f) = (t1, f1)" "find_role t (shift_role t) = Some role" "keyed (fseats f)"
  shows "reconcileShift e (t, f) =
    (case sh_Phase (team_Shift t) of ShiftLaunching \<Rightarrow> shiftLaunch e role (t1, f1)
     | ShiftDraining \<Rightarrow> shiftDrain e role (t1, f1) | ShiftNone \<Rightarrow> (t1, f1))"
proof -
  have c: "core t1 = core t" using other_roles_keep(1)[OF assms(4,2)] .
  have r: "find_role t1 (shift_role t1) = Some role" "team_Shift t1 = team_Shift t"
    using assms(3) coreD(3,5)[OF c] core_shift_role[OF c] by (simp_all add: find_role_def)
  show ?thesis using assms(1,2) r unfolding reconcileShift_def shift_live_def other_roles_def by (auto simp: Let_def)
qed

lemma reconcileShift_no_role:
  assumes "shift_live e t" "other_roles e (t, f) = (t1, f1)" "find_role t (shift_role t) = None" "keyed (fseats f)"
  shows "fseats (snd (reconcileShift e (t, f))) = fseats f1"
    "sh_Phase (team_Shift (fst (reconcileShift e (t, f)))) = sh_Phase (team_Shift t)"
proof -
  have c: "core t1 = core t" using other_roles_keep(1)[OF assms(4,2)] .
  have r: "find_role t1 (shift_role t1) = None" "team_Shift t1 = team_Shift t"
    using assms(3) coreD(3,5)[OF c] core_shift_role[OF c] by (simp_all add: find_role_def)
  show "fseats (snd (reconcileShift e (t, f))) = fseats f1"
    "sh_Phase (team_Shift (fst (reconcileShift e (t, f)))) = sh_Phase (team_Shift t)"
    using assms(1,2) r unfolding reconcileShift_def shift_live_def other_roles_def by (auto simp: Let_def)
qed

section \<open>Launching\<close>

text \<open>A create never touches a row that is there.\<close>

lemma Create_keeps:
  assumes "rows m k = Some x"
  shows "rows (fst (Create commits src le now sess m)) k = Some x"
proof -
  have new: "k \<noteq> session_key sess \<and> session_at s k = Some x" if "CreateSession commits (pending_row now hash sess) (mg_store m) = (s, None)" for s hash
    using CreateSession_ok[OF that] assms by (auto simp: update_conv')
  have fail: "session_at s k = Some x" if "CreateSession commits (pending_row now hash sess) (mg_store m) = (s, Some e)" for s hash e
    using that assms by (auto simp: CreateSession_def same_tables_def split: prod.splits option.splits if_splits dest!: persist_tables)
  have ab: "session_at (fst (DeleteSession commits (session_key sess) s)) k = Some x"
    if "CreateSession commits (pending_row now hash sess) (mg_store m) = (s, None)" for s hash
    using new[OF that] session_table.other_keys(2)[of k "session_key sess" commits s] by simp
  have up: "session_at s2 k = Some x"
    if c: "CreateSession commits (pending_row now hash sess) (mg_store m) = (s, None)" and u: "UpdateSession commits (session_key sess) fn s = (s2, e)"
    for s s2 hash fn e
    using new[OF c] session_table.other_keys(1)[of k "session_key sess" commits fn s] u by simp
  show ?thesis using assms new ab fail
    by (auto simp: Create_def announceSpawn_def abandon_def Let_def split: option.split sum.split prod.split intro: up dest: fail)
qed

lemma fl_Create_keeps: "frows f k = Some x \<Longrightarrow> frows (fst (fl_Create e sess f)) k = Some x"
  by (simp add: fl_call_store Create_keeps)

lemma launch_loop_keeps: "frows f k = Some x \<Longrightarrow> frows (snd (launch_loop e t role preds i n f)) k = Some x"
proof (induction n arbitrary: i f)
  case (Suc n)
  have "frows f1 k = Some x" if "fl_Create e sess f = (f1, err)" for sess f1 err
    using fl_Create_keeps[OF Suc.prems, of e sess] that by simp
  then show ?case using Suc by (auto simp: Let_def split: prod.splits option.splits)
qed simp

lemma new_gen_alive_cong:
  assumes "fseats f' = fseats f" "core t' = core t"
  shows "new_gen_alive f' t' role = new_gen_alive f t role"
  using assms(1) coreD(1,2,4)[OF assms(2)] by (simp add: new_gen_alive_def ListSessionsByTeamRoleGeneration_def ListSessions_def)

lemma launch_desired_cong:
  assumes "core t' = core t"
  shows "launch_desired t' role = launch_desired t role"
  using coreD(7)[OF assms] by (simp add: launch_desired_def DesiredReplicas_def)

definition launched :: "Fleet \<Rightarrow> Team \<Rightarrow> Role \<Rightarrow> bool" where
  "launched f t role \<longleftrightarrow> launch_desired t role \<le> int (length (new_gen_alive f t role)) \<and>
     (\<forall>s\<in>set (new_gen_alive f t role). seat_ready role s)"

lemma launched_cong:
  assumes "fseats f' = fseats f" "core t' = core t"
  shows "launched f' t' role = launched f t role"
  using new_gen_alive_cong[OF assms] launch_desired_cong[OF assms(2)] by (simp add: launched_def)

lemma shift_ready_spec:
  assumes "sh_Phase (team_Shift t) \<noteq> ShiftDraining"
  shows "fseats (snd (shift_ready e role (t, f))) = fseats f"
    "sh_Phase (team_Shift (fst (shift_ready e role (t, f)))) = ShiftDraining \<Longrightarrow> launched f t role"
proof -
  let ?g = "\<lambda>live. live\<lparr>team_Shift := (team_Shift live)\<lparr>sh_Phase := ShiftDraining\<rparr>\<rparr>"
  obtain f1 err where u: "fl_UpdateTeam e (team_key t) ?g f = (f1, err)" by fastforce
  have "fseats f1 = fseats f" using fl_UpdateTeam_seats[of e "team_key t" ?g f] u by simp
  then show "fseats (snd (shift_ready e role (t, f))) = fseats f"
    "sh_Phase (team_Shift (fst (shift_ready e role (t, f)))) = ShiftDraining \<Longrightarrow> launched f t role"
    using assms u by (auto simp: shift_ready_def Let_def launched_def allReady_def list_all_iff split: option.splits if_splits)
qed

lemma shiftLaunch_spec:
  assumes "sh_Phase (team_Shift t) \<noteq> ShiftDraining"
  shows "frows f k = Some x \<Longrightarrow> frows (snd (shiftLaunch e role (t, f))) k = Some x"
    "sh_Phase (team_Shift (fst (shiftLaunch e role (t, f)))) = ShiftDraining \<Longrightarrow> launched (snd (shiftLaunch e role (t, f))) t role"
proof -
  have r: "frows (snd (shift_ready e role (t, f2))) = frows f2" for f2 using shift_ready_spec(1)[OF assms] by simp
  have l: "sh_Phase (team_Shift (fst (shift_ready e role (t, f2)))) = ShiftDraining \<Longrightarrow> launched (snd (shift_ready e role (t, f2))) t role" for f2
    using shift_ready_spec[OF assms] launched_cong[of "snd (shift_ready e role (t, f2))" f2 t t] by simp
  have k: "frows f2 k = Some x" if "launch_loop e t role preds i n (clearExposureHold t (role_Name role) f) = (b, f2)" "frows f k = Some x" for preds i n b f2
    using launch_loop_keeps[of "clearExposureHold t (role_Name role) f" k x e t role preds i n] that by simp
  show "frows f k = Some x \<Longrightarrow> frows (snd (shiftLaunch e role (t, f))) k = Some x"
    using k by (auto simp: shiftLaunch_def Let_def r split: prod.split bool.split)
  show "sh_Phase (team_Shift (fst (shiftLaunch e role (t, f)))) = ShiftDraining \<Longrightarrow> launched (snd (shiftLaunch e role (t, f))) t role"
    using assms l by (auto simp: shiftLaunch_def Let_def split: prod.splits bool.splits if_splits)
qed

text \<open>
  C17. No seat leaves before its successors are ready. While a role is launching, a tick of the shift
  keeps every seat of the role as it was, whatever the repairs of the other roles, the launches, the
  file and tmux do; and the tick that turns to draining leaves at least the desired number of live
  seats of the new generation, every one of them running and, under a heartbeat check, heard from.
\<close>

theorem launch_keeps_seats_until_ready:
  fixes e :: tick_env
  assumes "keyed_sessions (fl_store f)" and "shift_live e t" and "sh_Phase (team_Shift t) = ShiftLaunching"
  defines "r \<equiv> reconcileShift e (t, f)"
  shows "(\<forall>k x. frows f k = Some x \<and> slot_of x = shift_slot t \<longrightarrow> frows (snd r) k = Some x) \<and>
    (sh_Phase (team_Shift (fst r)) = ShiftDraining \<longrightarrow>
       (\<exists>role. find_role t (shift_role t) = Some role \<and> launch_desired t role \<le> int (length (new_gen_alive (snd r) t role)) \<and>
          (\<forall>s\<in>set (new_gen_alive (snd r) t role). seat_ready role s)))"
proof -
  have k: "keyed (fseats f)" using assms(1) by (simp add: keyed_sessions_iff)
  obtain t1 f1 where o: "other_roles e (t, f) = (t1, f1)" by fastforce
  have c: "core t1 = core t" using other_roles_keep(1)[OF k o] .
  have p: "sh_Phase (team_Shift t1) \<noteq> ShiftDraining" using coreD(5)[OF c] assms(3) by simp
  have keep: "frows f1 k = Some x" if "frows f k = Some x" "slot_of x = shift_slot t" for k x
    using other_roles_keep(3)[OF k o that(2)] that(1) by simp
  show ?thesis
  proof (cases "find_role t (shift_role t)")
    case None
    then show ?thesis using reconcileShift_no_role[OF assms(2) o None k] keep assms(3) by (simp add: r_def)
  next
    case (Some role)
    have r: "r = shiftLaunch e role (t1, f1)" using reconcileShift_live[OF assms(2) o Some k] assms(3) by (simp add: r_def)
    show ?thesis using shiftLaunch_spec[OF p] keep Some launched_cong[OF refl c] by (simp add: r launched_def)
  qed
qed

section \<open>Draining\<close>

text \<open>A delete touches the row it names only.\<close>

lemma Delete_other:
  assumes "j \<noteq> k" and "keyed (mrows m)"
  shows "rows (fst (Delete commits tx now k m)) j = rows m j"
proof (cases "GetSession (mg_store m) k")
  case (Inl err)
  then show ?thesis by (simp add: Delete_def deleteSession_def)
next
  case (Inr sess)
  then have k: "session_key sess = k" using assms(2) by (auto simp: GetSession_def keyed_def list_all_iff split: option.splits dest!: map_of_SomeD)
  obtain m1 had tl kerr where r: "retireInstance commits tx k m = (m1, had, tl, kerr)" by (metis prod_cases4)
  have 1: "rows m1 j = rows m j" using instance_rows(1)[of commits tx k m] sessionEnded_rows[of commits k m] r assms(1) by (simp split: option.splits)
  have 2: "rows (fst (keepAfterFailedKill commits sess err m1)) j = rows m1 j" for err
    using session_table.other_keys(1)[OF assms(1)] k by (simp add: keepAfterFailedKill_def)
  have d: "session_at (fst (DeleteSession commits k s)) j = session_at s j" for s using session_table.other_keys(2)[OF assms(1)] by simp
  have 3: "rows (fst (dropSession commits sess m')) j = rows m' j" for m'
    using d[of "mg_store m'"] k by (auto simp: dropSession_def split: prod.splits option.splits)
  show ?thesis using Inr r 1 2 3 by (simp add: Delete_def deleteSession_def Let_def split: option.split)
qed

lemma fl_Delete_other: "j \<noteq> k \<Longrightarrow> keyed (fseats f) \<Longrightarrow> frows (fst (fl_Delete e k f)) j = frows f j"
  by (simp add: fl_call_store Delete_other)

lemma old_seats_iff:
  assumes "keyed (fseats f)"
  shows "x \<in> set (old_seats f t role) \<longleftrightarrow> frows f (session_key x) = Some x \<and>
    slot_of x = (team_Workspace t, team_Name t, role_Name role) \<and> sess_Generation x \<noteq> team_Generation t \<and> \<not> isRetiring t (session_key x)"
proof -
  have "x \<in> set (ListSessions (fl_store f))" if "frows f (session_key x) = Some x"
    using that by (auto simp: ListSessions_def dest!: map_of_SomeD intro: rev_image_eqI)
  then show ?thesis using listed_row[OF assms, of x]
    by (auto simp: old_seats_def withoutRetiring_def sessionsOutsideGeneration_def ListSessionsByTeamRole_def slot_of_def)
qed

definition oldest_seat :: "Fleet \<Rightarrow> Team \<Rightarrow> Role \<Rightarrow> Session" where
  "oldest_seat f t role = last (sortNewestFirst (old_seats f t role))"

lemma oldest_seat:
  assumes "old_seats f t role \<noteq> []"
  shows "oldest_seat f t role \<in> set (old_seats f t role)"
    "y \<in> set (old_seats f t role) \<Longrightarrow> sess_CreatedAt (oldest_seat f t role) \<le> sess_CreatedAt y"
proof -
  let ?s = "sortNewestFirst (old_seats f t role)"
  have s: "set ?s = set (old_seats f t role)" by (simp add: sortNewestFirst_def)
  then have ne: "?s \<noteq> []" using assms by auto
  then have sp: "?s = butlast ?s @ [last ?s]" by simp
  show "oldest_seat f t role \<in> set (old_seats f t role)" using s last_in_set[OF ne] by (simp add: oldest_seat_def)
  assume "y \<in> set (old_seats f t role)"
  with s have "y \<in> set (butlast ?s) \<or> y = last ?s" using sp by (metis (no_types, lifting) Un_iff empty_iff empty_set insert_iff list.simps(15) set_append)
  moreover have "\<not> newer (last ?s) y" if "y \<in> set (butlast ?s)"
    using sorted_newest[of "old_seats f t role"] that sp by (metis (no_types, lifting) last_in_set last_snoc list.set_intros(1) sorted_wrt_append)
  ultimately show "sess_CreatedAt (oldest_seat f t role) \<le> sess_CreatedAt y" by (auto simp: oldest_seat_def newer_def split: if_splits)
qed

lemma shiftDrain_rows:
  assumes "keyed (fseats f)"
  shows "old_seats f t role = [] \<Longrightarrow> fseats (snd (shiftDrain e role (t, f))) = fseats f"
    "old_seats f t role \<noteq> [] \<Longrightarrow> j \<noteq> session_key (oldest_seat f t role) \<Longrightarrow> frows (snd (shiftDrain e role (t, f))) j = frows f j"
proof -
  show "fseats (snd (shiftDrain e role (t, f))) = fseats f" if "old_seats f t role = []"
    using that by (simp add: shiftDrain_def Let_def)
  assume a: "old_seats f t role \<noteq> []" "j \<noteq> session_key (oldest_seat f t role)"
  obtain f1 err where d: "fl_Delete e (session_key (oldest_seat f t role)) f = (f1, err)" by fastforce
  then have "frows f1 j = frows f j" using fl_Delete_other[OF a(2) assms, of e] by simp
  then show "frows (snd (shiftDrain e role (t, f))) j = frows f j"
    using a(1) d by (simp add: shiftDrain_def Let_def oldest_seat_def split: option.split)
qed

text \<open>The drain looks at the seats the tick started with.\<close>

lemma old_seats_same:
  assumes "keyed (fseats f)" "other_roles e (t, f) = (t1, f1)" "role_Name role = shift_role t"
  shows "set (old_seats f1 t1 role) = set (old_seats f t role)"
proof -
  have c: "core t1 = core t" using other_roles_keep(1)[OF assms(1,2)] .
  have "x \<in> set (old_seats f1 t1 role) \<longleftrightarrow> x \<in> set (old_seats f t role)" for x
    using old_seats_iff[OF other_roles_keep(2)[OF assms(1,2)], of x t1 role] old_seats_iff[OF assms(1), of x t role] coreD(1,2,4)[OF c]
      other_roles_keep(3)[OF assms(1,2), of x "session_key x"] other_roles_keep(4)[OF assms(1,2), of "session_key x" x] assms(3)
    by auto
  then show ?thesis by blast
qed

lemma find_role_name: "find_role t n = Some role \<Longrightarrow> role_Name role = n"
  by (auto simp: find_role_def find_Some_iff)

text \<open>
  C18. The drain is rolling and takes the oldest first. In a tick of the draining phase at most one seat
  of the role changes; it is of another generation than the one just launched, is not retiring, and
  no seat still to drain is older. The seats of the new generation are kept as they are.
\<close>

theorem drain_one_oldest_seat:
  fixes e :: tick_env
  assumes "keyed_sessions (fl_store f)" and "shift_live e t" and "sh_Phase (team_Shift t) = ShiftDraining"
    and "find_role t (shift_role t) = Some role"
  defines "f' \<equiv> snd (reconcileShift e (t, f))"
  shows "\<exists>k0. \<forall>k x. frows f k = Some x \<and> slot_of x = shift_slot t \<and> frows f' k \<noteq> Some x \<longrightarrow>
    k = k0 \<and> sess_Generation x \<noteq> team_Generation t \<and> \<not> isRetiring t k \<and>
    (\<forall>y\<in>set (old_seats f t role). sess_CreatedAt x \<le> sess_CreatedAt y)"
proof -
  have k: "keyed (fseats f)" using assms(1) by (simp add: keyed_sessions_iff)
  obtain t1 f1 where o: "other_roles e (t, f) = (t1, f1)" by fastforce
  have k1: "keyed (fseats f1)" using other_roles_keep(2)[OF k o] .
  have os: "set (old_seats f1 t1 role) = set (old_seats f t role)" using old_seats_same[OF k o find_role_name[OF assms(4)]] .
  have f': "f' = snd (shiftDrain e role (t1, f1))" using reconcileShift_live[OF assms(2) o assms(4) k] assms(3) by (simp add: f'_def)
  let ?x0 = "oldest_seat f1 t1 role"
  have "k = session_key ?x0 \<and> x = ?x0 \<and> x \<in> set (old_seats f t role) \<and> (\<forall>y\<in>set (old_seats f t role). sess_CreatedAt x \<le> sess_CreatedAt y)"
    if x: "frows f k = Some x" "slot_of x = shift_slot t" "frows f' k \<noteq> Some x" for k x
  proof -
    have r1: "frows f1 k = Some x" using other_roles_keep(3)[OF k o x(2)] x(1) by simp
    have ne: "old_seats f1 t1 role \<noteq> []" using shiftDrain_rows(1)[OF k1, of t1 role e] r1 x(3) f' by auto
    then have kk: "k = session_key ?x0" using shiftDrain_rows(2)[OF k1, of t1 role k e] r1 x(3) f' by auto
    have "frows f1 (session_key ?x0) = Some ?x0" using oldest_seat(1)[OF ne] old_seats_iff[OF k1] by blast
    then have "x = ?x0" using kk r1 by simp
    then show ?thesis using kk oldest_seat[OF ne] os by auto
  qed
  then show ?thesis using old_seats_iff[OF k] by (intro exI[of _ "session_key ?x0"]) blast
qed

section \<open>Giving up on a stuck shift\<close>

lemma fl_Delete_teams [simp]: "fteams (fst (fl_Delete e k f)) = fteams f"
  by (simp add: fl_call_store)

lemma delete_all_keeps:
  fixes e :: tick_env and ss :: "Session list"
  assumes "keyed (fseats f)"
  defines "g \<equiv> foldl (\<lambda>f s. fst (fl_Delete e (session_key s) f)) f ss"
  shows "fteams g = fteams f" "keyed (fseats g)" "k \<notin> session_key ` set ss \<Longrightarrow> frows g k = frows f k"
proof -
  have "fteams g = fteams f \<and> keyed (fseats g) \<and> (k \<notin> session_key ` set ss \<longrightarrow> frows g k = frows f k)"
    unfolding g_def
  proof (induction ss rule: rev_induct)
    case (snoc s ss)
    let ?g = "foldl (\<lambda>f s. fst (fl_Delete e (session_key s) f)) f ss"
    have kg: "keyed (fseats ?g)" using snoc by simp
    have "keyed (fseats (fst (fl_Delete e (session_key s) ?g)))"
      using role_frame_keyed[OF fl_Delete_frame[of ?g UNIV "session_key s" undefined e]] kg by (simp add: owned_def)
    with snoc kg fl_Delete_other[of k "session_key s" ?g e] show ?case by auto
  qed (simp add: assms(1))
  then show "fteams g = fteams f" "keyed (fseats g)" "k \<notin> session_key ` set ss \<Longrightarrow> frows g k = frows f k" by auto
qed

definition shift_expired :: "tick_env \<Rightarrow> Team \<Rightarrow> bool" where
  "shift_expired e t \<longleftrightarrow> sh_StartedAt (team_Shift t) \<noteq> 0 \<and> sh_StartedAt (team_Shift t) + shiftTimeout e < te_now e \<and> shiftTimeout e < max_duration"

section \<open>A team in a shift\<close>

definition shifting_team :: "ShiftPhase \<Rightarrow> Team" where
  "shifting_team ph = example_team\<lparr>team_Roles := [example_role ''dev'' 1], team_Generation := 2,
     team_Shift := no_shift\<lparr>sh_Phase := ph, sh_OldGeneration := 1, sh_Roles := [''dev''], sh_StartedAt := 100\<rparr>\<rparr>"

definition old_dev :: Session where "old_dev = example_session ''squad-dev-g1-0'' ''dev'' 1 5"
definition older_dev :: Session where "older_dev = example_session ''squad-dev-g1-1'' ''dev'' 1 4"
definition new_dev :: Session where "new_dev = example_session ''squad-dev-g2-0'' ''dev'' 2 101"

lemmas shifting_defs = shifting_team_def old_dev_def older_dev_def new_dev_def example_defs session_key_def slot_of_def team_key_def

lemma shifting_facts:
  "keyed_sessions (fl_store (fleet_of (shifting_team ph) [old_dev, older_dev, new_dev]))"
  "shift_live (example_env 110) (shifting_team ph)" "shift_expired (example_env (100 + 11 * minute)) (shifting_team ph)"
  "sh_Phase (team_Shift (shifting_team ph)) = ph" "shift_slot (shifting_team ph) = (''ws'', ''squad'', ''dev'')"
  "find_role (shifting_team ph) (shift_role (shifting_team ph)) = Some (example_role ''dev'' 1)"
  "team_at (fl_store (fleet_of (shifting_team ph) ss)) (team_key (shifting_team ph)) = Some (shifting_team ph)"
  by (auto intro!: fleet_of_keyed simp: shift_live_def shift_expired_def shift_role_def find_role_def shiftTimeout_def
      defaultShiftTimeout_def example_env_def time_simps shifting_defs)

theorem launch_keeps_seats_until_ready_witness:
  "session_at (fl_store (snd (reconcileShift (example_env 110) (shifting_team ShiftLaunching,
     fleet_of (shifting_team ShiftLaunching) [old_dev, older_dev, new_dev])))) ''ws/squad-dev-g1-0'' = Some old_dev"
  using launch_keeps_seats_until_ready[OF shifting_facts(1,2,4)] shifting_facts(5)
  by (simp add: shifting_defs)

theorem drain_one_oldest_seat_witness:
  "\<exists>k0. \<forall>k x. frows (fleet_of (shifting_team ShiftDraining) [old_dev, older_dev, new_dev]) k = Some x \<and> slot_of x = (''ws'', ''squad'', ''dev'') \<and>
     frows (snd (reconcileShift (example_env 110) (shifting_team ShiftDraining,
       fleet_of (shifting_team ShiftDraining) [old_dev, older_dev, new_dev]))) k \<noteq> Some x \<longrightarrow>
     k = k0 \<and> sess_Generation x \<noteq> 2 \<and> \<not> isRetiring (shifting_team ShiftDraining) k \<and>
     (\<forall>y\<in>set (old_seats (fleet_of (shifting_team ShiftDraining) [old_dev, older_dev, new_dev]) (shifting_team ShiftDraining) (example_role ''dev'' 1)).
        sess_CreatedAt x \<le> sess_CreatedAt y)"
proof -
  have "team_Generation (shifting_team ShiftDraining) = 2" by (simp add: shifting_team_def)
  then show ?thesis using drain_one_oldest_seat[OF shifting_facts(1,2,4,6)] unfolding shifting_facts(5) by simp
qed

lemma expired_aborts: "shift_expired e t \<Longrightarrow> reconcileShift e (t, f) = abortStuckShift e (t, f)"
  by (auto simp: shift_expired_def reconcileShift_def Let_def time_simps is_zero_def)

text \<open>What an abort does to the rows and to the team record, with the mutation it writes.\<close>

definition abort_team :: "Team \<Rightarrow> Team \<Rightarrow> Team" where
  "abort_team t live = live\<lparr>team_Generation := if sh_Phase (team_Shift t) = ShiftLaunching \<and> sh_RoleIndex (team_Shift t) = 0
     then sh_OldGeneration (team_Shift t) else team_Generation live, team_Shift := no_shift\<rparr>"

lemma abort_effect:
  assumes "keyed (fseats f)"
  shows "fst (abortStuckShift e (t, f)) = abort_team t t"
    "fteams f (team_key t) = Some live \<Longrightarrow> fteams (snd (abortStuckShift e (t, f))) (team_key t) = Some (abort_team t live)"
    "frows f k = Some x \<Longrightarrow> \<not> (sh_Phase (team_Shift t) = ShiftLaunching \<and> slot_of x = shift_slot t \<and> sess_Generation x = team_Generation t) \<Longrightarrow>
       frows (snd (abortStuckShift e (t, f))) k = Some x"
proof -
  let ?f1 = "fl_emit KindShiftTimedOut t (shift_role t) [] f"
  let ?ss = "ListSessionsByTeamRoleGeneration (fl_store ?f1) (team_Workspace t) (team_Name t) (shift_role t) (team_Generation t)"
  define f2 where "f2 = (if sh_Phase (team_Shift t) = ShiftLaunching \<and> shift_role t \<noteq> []
    then foldl (\<lambda>f s. fst (fl_Delete e (session_key s) f)) ?f1 ?ss else ?f1)"
  have k1: "keyed (fseats ?f1)" using assms by simp
  have ab: "abortStuckShift e (t, f) = (abort_team t t, fst (fl_UpdateTeam e (team_key t) (abort_team t) f2))"
    unfolding abortStuckShift_def prod.case Let_def f2_def abort_team_def ..
  have f2: "fteams f2 = fteams f" using delete_all_keeps(1)[OF k1, of e ?ss] by (simp add: f2_def)
  show "fst (abortStuckShift e (t, f)) = abort_team t t" by (simp add: ab)
  show "fteams (snd (abortStuckShift e (t, f))) (team_key t) = Some (abort_team t live)" if "fteams f (team_key t) = Some live"
    using that f2 by (simp add: ab fl_UpdateTeam_teams)
  assume x: "frows f k = Some x" "\<not> (sh_Phase (team_Shift t) = ShiftLaunching \<and> slot_of x = shift_slot t \<and> sess_Generation x = team_Generation t)"
  have "k \<notin> session_key ` set ?ss" if "sh_Phase (team_Shift t) = ShiftLaunching"
    using listed_row[OF assms] x that by (force simp: ListSessionsByTeamRoleGeneration_def slot_of_def)
  then have "frows f2 k = Some x" using delete_all_keeps(3)[OF k1, of k ?ss e] x(1) by (auto simp: f2_def)
  then show "frows (snd (abortStuckShift e (t, f))) k = Some x" by (simp add: ab)
qed

text \<open>
  C20. A shift ends. A tick that finds the shift past its time limit ends it, in the copy the tick works
  on and in the team's record, whatever phase it was stuck in and whether or not the file takes the
  write; the team is then not shifting.
\<close>

theorem stuck_shift_ends:
  assumes "keyed_sessions (fl_store f)" and "team_at (fl_store f) (team_key t) = Some live" and "shift_expired e t"
  shows "sh_Phase (team_Shift (fst (reconcileShift e (t, f)))) = ShiftNone \<and> \<not> IsShifting (snd (reconcileShift e (t, f))) (team_key t)"
  using abort_effect(1,2)[where f = f and e = e and t = t] assms
  by (simp add: expired_aborts keyed_sessions_iff IsShifting_def GetTeam_def abort_team_def no_shift_def)

theorem stuck_shift_ends_witness:
  "\<not> IsShifting (snd (reconcileShift (example_env (100 + 11 * minute)) (shifting_team ShiftDraining,
     fleet_of (shifting_team ShiftDraining) [old_dev, older_dev, new_dev]))) ''ws/squad''"
  using stuck_shift_ends[OF shifting_facts(1,7,3)] by (simp add: shifting_defs)

text \<open>
  Aborting the first launch restores the team. The abort of a shift stuck launching its first role
  gives the team its old generation back, in the copy and in the record, and removes at most the
  seats of the generation that never came ready; stuck later, it keeps the generation it reached and,
  when draining, every seat. No other row is touched.
\<close>

theorem abort_keeps_working_seats:
  fixes e :: tick_env
  assumes "keyed_sessions (fl_store f)" and "team_at (fl_store f) (team_key t) = Some live" and "shift_expired e t"
  defines "r \<equiv> reconcileShift e (t, f)"
  shows "(\<forall>k x. session_at (fl_store f) k = Some x \<and> session_at (fl_store (snd r)) k \<noteq> Some x \<longrightarrow>
       sh_Phase (team_Shift t) = ShiftLaunching \<and> slot_of x = shift_slot t \<and> sess_Generation x = team_Generation t) \<and>
    (\<exists>t'. team_at (fl_store (snd r)) (team_key t) = Some t' \<and>
       (if sh_Phase (team_Shift t) = ShiftLaunching \<and> sh_RoleIndex (team_Shift t) = 0
        then team_Generation (fst r) = sh_OldGeneration (team_Shift t) \<and> team_Generation t' = sh_OldGeneration (team_Shift t)
        else team_Generation (fst r) = team_Generation t \<and> team_Generation t' = team_Generation live))"
proof -
  have k: "keyed (fseats f)" using assms(1) by (simp add: keyed_sessions_iff)
  show ?thesis unfolding r_def expired_aborts[OF assms(3)]
    using abort_effect(1,2)[OF k, where e = e and t = t] abort_effect(3)[OF k, where e = e and t = t] assms(2) by (auto simp: abort_team_def)
qed

theorem abort_keeps_working_seats_witness:
  "session_at (fl_store (snd (reconcileShift (example_env (100 + 11 * minute)) (shifting_team ShiftLaunching,
     fleet_of (shifting_team ShiftLaunching) [old_dev, older_dev, new_dev])))) ''ws/squad-dev-g1-0'' = Some old_dev"
proof -
  have "session_at (fl_store (fleet_of (shifting_team ShiftLaunching) [old_dev, older_dev, new_dev])) ''ws/squad-dev-g1-0'' = Some old_dev"
    "sess_Generation old_dev \<noteq> team_Generation (shifting_team ShiftLaunching)"
    by (simp_all add: shifting_defs)
  then show ?thesis using abort_keeps_working_seats[OF shifting_facts(1,7,3)] by blast
qed

end
