(* ===== verification/Shift_Progress.thy ===== *)
theory Shift_Progress
  imports Shift_Properties
begin

text \<open>
  A drain makes progress: when kills take and writes commit, every draining tick removes one old seat,
  and the tick after the last one moves the shift to the next role.
\<close>

section \<open>A delete that works\<close>

definition kills_take :: "tmux_env \<Rightarrow> bool" where
  "kills_take tx \<longleftrightarrow> (\<forall>p err. tx_KillPane tx p \<noteq> KillErr err) \<and> (\<forall>k err. tx_InstanceKill tx k \<noteq> KillErr err)"

lemma Delete_ok:
  assumes "all_commit commits" "kills_take tx" "rows m k = Some sess" "session_key sess = k"
  shows "snd (Delete commits tx now k m) = None" "rows (fst (Delete commits tx now k m)) = (rows m)(k := None)"
proof -
  obtain m1 had tl kerr where r: "retireInstance commits tx k m = (m1, had, tl, kerr)" by (metis prod_cases4)
  have kerr: "kerr = None" using r assms(2)
    by (auto simp: retireInstance_def takeInstance_def kills_take_def split: bool.splits kill_outcome.splits)
  have kp: "(case tx_KillPane tx p of KillErr e \<Rightarrow> Some e | _ \<Rightarrow> None) = None" for p
    using assms(2) by (simp add: kills_take_def split: kill_outcome.split)
  have r1: "rows m1 = (rows m)(k \<mapsto> ended_row m sess)"
    using instance_rows(1)[of commits tx k m] r sessionEnded_row[OF assms(3), of commits] by simp
  let ?m = "record_deleted commits tx now False sess tl m1"
  have d: "Delete commits tx now k m = dropSession commits sess ?m"
    using assms(3) r kerr kp by (simp add: Delete_def deleteSession_def GetSession_def)
  have "rows ?m (session_key sess) = Some (ended_row m sess)" using r1 assms(4) by simp
  from drop_rows[OF assms(1) this] r1 assms(4) d
  show "snd (Delete commits tx now k m) = None" "rows (fst (Delete commits tx now k m)) = (rows m)(k := None)" by auto
qed

lemma fl_Delete_ok:
  assumes "all_commit (te_commits e)" "kills_take (te_tx e)" "frows f k = Some sess" "session_key sess = k"
  shows "snd (fl_Delete e k f) = None" "frows (fst (fl_Delete e k f)) = (frows f)(k := None)"
proof -
  note d = Delete_ok[of "te_commits e" "te_tx e" "mgr_of f" k sess "te_now e"]
  show "frows (fst (fl_Delete e k f)) = (frows f)(k := None)" using d(2) assms by (simp add: fl_call_store)
  show "snd (fl_Delete e k f) = None" using d(1) assms unfolding fl_Delete_def by (auto split: prod.split)
qed

section \<open>One draining tick\<close>

text \<open>A tick of the reconcile loop for a team in a shift: the team is read from the store.\<close>

definition shift_tick :: "string \<Rightarrow> Fleet \<Rightarrow> tick_env \<Rightarrow> Fleet" where
  "shift_tick key f e = (case GetTeam (fl_store f) key of Inl _ \<Rightarrow> f | Inr t \<Rightarrow> snd (reconcileShift e (t, f)))"

lemma old_seats_distinct: "keyed (fseats f) \<Longrightarrow> distinct (old_seats f t role)"
proof -
  assume k: "keyed (fseats f)"
  have "map fst (fseats f) = map session_key (ListSessions (fl_store f))"
    using k by (auto simp: keyed_def list_all_iff ListSessions_def)
  then have "distinct (ListSessions (fl_store f))" using k by (metis distinct_map keyed_def)
  then show ?thesis by (simp add: old_seats_def withoutRetiring_def sessionsOutsideGeneration_def ListSessionsByTeamRole_def)
qed

lemma fl_Delete_keyed: "keyed (fseats f) \<Longrightarrow> keyed (fseats (fst (fl_Delete e k f)))"
  using role_frame_keyed[OF fl_Delete_frame[of f UNIV k undefined e]] by (simp add: owned_def)

lemma shiftDrain_progress:
  assumes "keyed (fseats f)" "all_commit (te_commits e)" "kills_take (te_tx e)"
    and "old_seats f t role \<noteq> []" "fteams f (team_key t) = Some live"
  shows "frows (snd (shiftDrain e role (t, f))) = (frows f)(session_key (oldest_seat f t role) := None)"
    "fteams (snd (shiftDrain e role (t, f))) (team_key t) =
       Some (live\<lparr>team_Shift := (team_Shift live)\<lparr>sh_Drained := (sh_Drained (team_Shift live))(role_Name role \<mapsto> drained_count live (role_Name role) + 1)\<rparr>\<rparr>)"
    "keyed (fseats (snd (shiftDrain e role (t, f))))"
proof -
  let ?k = "session_key (oldest_seat f t role)"
  have x: "frows f ?k = Some (oldest_seat f t role)" using oldest_seat(1)[OF assms(4)] old_seats_iff[OF assms(1)] by blast
  obtain f1 where d: "fl_Delete e ?k f = (f1, None)" "frows f1 = (frows f)(?k := None)"
    using fl_Delete_ok[OF assms(2,3) x refl] by (metis prod.collapse)
  have "fteams f1 = fteams f" "keyed (fseats f1)" using fl_Delete_teams[of e ?k f] fl_Delete_keyed[OF assms(1), of e ?k] d(1) by simp_all
  with assms(4,5) d
  show "frows (snd (shiftDrain e role (t, f))) = (frows f)(?k := None)"
    "fteams (snd (shiftDrain e role (t, f))) (team_key t) =
       Some (live\<lparr>team_Shift := (team_Shift live)\<lparr>sh_Drained := (sh_Drained (team_Shift live))(role_Name role \<mapsto> drained_count live (role_Name role) + 1)\<rparr>\<rparr>)"
    "keyed (fseats (snd (shiftDrain e role (t, f))))"
    by (simp_all add: shiftDrain_def Let_def oldest_seat_def fl_UpdateTeam_teams)
qed

lemma drain_tick:
  assumes k: "keyed (fseats f)" and t: "fteams f (team_key t) = Some t" and live: "shift_live e t"
    and ph: "sh_Phase (team_Shift t) = ShiftDraining" and role: "find_role t (shift_role t) = Some role"
    and ok: "all_commit (te_commits e)" "kills_take (te_tx e)"
  obtains u where "fteams (shift_tick (team_key t) f e) (team_key t) = Some u" "keyed (fseats (shift_tick (team_key t) f e))"
    "team_key u = team_key t" "team_Roles u = team_Roles t"
    "if old_seats f t role = [] then team_Shift u = team_Shift (next_role t) \<and> old_seats (shift_tick (team_key t) f e) u role = []
     else (\<exists>d. team_Shift u = (team_Shift t)\<lparr>sh_Drained := d\<rparr>) \<and>
          Suc (length (old_seats (shift_tick (team_key t) f e) u role)) = length (old_seats f t role)"
proof -
  obtain t1 f1 where o: "other_roles e (t, f) = (t1, f1)" by fastforce
  have c: "core t1 = core t" and k1: "keyed (fseats f1)" using other_roles_keep(1,2)[OF k o] by auto
  have rn: "role_Name role = shift_role t" using find_role_name[OF role] .
  have os: "set (old_seats f1 t1 role) = set (old_seats f t role)" using old_seats_same[OF k o rn] .
  have key: "team_key t1 = team_key t" using coreD(6)[OF c] .
  obtain l where l: "fteams f1 (team_key t) = Some l" "core l = core t"
    using other_roles_keep(6)[OF k o, of "team_key t"] t by auto
  have ret: "isRetiring l j = isRetiring t j" if "frows f j = Some x" "slot_of x = shift_slot t" for j x
    using other_roles_keep(5)[OF k o that, of "team_key t"] l(1) t by simp
  let ?f' = "shift_tick (team_key t) f e"
  have tick: "?f' = snd (shiftDrain e role (t1, f1))"
    using reconcileShift_live[OF live o role k] ph t by (simp add: shift_tick_def GetTeam_def)
  have seats: "set (old_seats ?f' u role) = {x \<in> set (old_seats f t role). frows ?f' (session_key x) = Some x}"
    if u: "team_Workspace u = team_Workspace l" "team_Name u = team_Name l" "team_Generation u = team_Generation l" "team_Retiring u = team_Retiring l"
      and k': "keyed (fseats ?f')" and sub: "\<And>j x. frows ?f' j = Some x \<Longrightarrow> frows f1 j = Some x" for u
  proof -
    have "isRetiring u = isRetiring l" using u(4) by (simp add: isRetiring_def fun_eq_iff)
    moreover have "frows f (session_key x) = Some x" if "frows ?f' (session_key x) = Some x" "slot_of x = shift_slot t" for x
      using other_roles_keep(3)[OF k o that(2)] sub[OF that(1)] by simp
    ultimately show ?thesis using old_seats_iff[OF k', of _ u role] old_seats_iff[OF k, of _ t role] u(1-3) coreD(1,2,4)[OF l(2)] rn ret by auto
  qed
  show thesis
  proof (cases "old_seats f t role = []")
    case True
    then have e1: "old_seats f1 t1 role = []" using os by (metis set_empty)
    have f': "fteams ?f' (team_key t) = Some (next_role l)" "fseats ?f' = fseats f1"
      using e1 l(1) key by (simp_all add: tick shiftDrain_def Let_def fl_UpdateTeam_teams)
    have "old_seats ?f' (next_role l) role = []"
      using seats[of "next_role l"] k1 f'(2) True by (auto simp: next_role_def Let_def simp flip: set_empty)
    then show thesis using that[OF f'(1)] f'(2) k1 True coreD(3,5,6)[OF l(2)]
      by (simp add: next_role_def Let_def team_key_def)
  next
    case False
    then have e1: "old_seats f1 t1 role \<noteq> []" using os by (metis set_empty)
    let ?x0 = "oldest_seat f1 t1 role"
    let ?u = "l\<lparr>team_Shift := (team_Shift l)\<lparr>sh_Drained := (sh_Drained (team_Shift l))(role_Name role \<mapsto> drained_count l (role_Name role) + 1)\<rparr>\<rparr>"
    note pr = shiftDrain_progress[OF k1 ok e1, of l, folded tick, unfolded key, OF l(1)]
    have x0: "?x0 \<in> set (old_seats f t role)" using oldest_seat(1)[OF e1] os by simp
    have inj: "session_key x \<noteq> session_key ?x0" if "x \<in> set (old_seats f t role)" "x \<noteq> ?x0" for x
      using that x0 old_seats_iff[OF k] by (metis option.inject)
    have "set (old_seats ?f' ?u role) = set (old_seats f t role) - {?x0}"
    proof -
      have "frows f1 (session_key x) = Some x" if "x \<in> set (old_seats f t role)" for x
        using that os old_seats_iff[OF k1] by blast
      then have row: "frows ?f' (session_key x) = Some x \<longleftrightarrow> x \<noteq> ?x0" if "x \<in> set (old_seats f t role)" for x
        using that pr(1) inj[OF that] by auto
      have "set (old_seats ?f' ?u role) = {x \<in> set (old_seats f t role). frows ?f' (session_key x) = Some x}"
        by (rule seats) (use pr in \<open>auto split: if_splits\<close>)
      then show ?thesis using row by blast
    qed
    then have "card (set (old_seats ?f' ?u role)) = card (set (old_seats f t role)) - 1" using x0 by simp
    moreover have "0 < length (old_seats f t role)" using False by simp
    ultimately have "Suc (length (old_seats ?f' ?u role)) = length (old_seats f t role)"
      using distinct_card[OF old_seats_distinct[OF k]] distinct_card[OF old_seats_distinct[OF pr(3)]] by simp
    then show thesis using that[OF pr(2,3)] False coreD(3,5,6)[OF l(2)] by (auto simp: team_key_def)
  qed
qed

section \<open>The drain ends\<close>

lemma shift_live_cong:
  "team_Shift u = (team_Shift t)\<lparr>sh_Drained := d\<rparr> \<Longrightarrow> shift_live e u = shift_live e t"
  by (simp add: shift_live_def)

text \<open>
  C19. A drain ends. A team that drains \<open>n\<close> old seats of a role, with kills that take and writes that
  commit, has none left after \<open>n\<close> ticks inside the time limit, and the tick after that moves the shift to
  the next role, whatever the repairs of the other roles do meanwhile.
\<close>

theorem drain_terminates:
  assumes "keyed_sessions (fl_store f)" and "team_at (fl_store f) (team_key t) = Some t"
    and "sh_Phase (team_Shift t) = ShiftDraining" and "find_role t (shift_role t) = Some role"
    and "length es = Suc (length (old_seats f t role))"
    and "\<forall>e\<in>set es. (\<forall>n. te_commits e n) \<and> kills_take (te_tx e) \<and> shift_live e t"
  shows "\<exists>u. team_at (fl_store (foldl (shift_tick (team_key t)) f es)) (team_key t) = Some u \<and>
    sh_RoleIndex (team_Shift u) = sh_RoleIndex (team_Shift t) + 1 \<and>
    old_seats (foldl (shift_tick (team_key t)) f es) u role = []"
  using assms
proof (induction es arbitrary: f t)
  case (Cons e es)
  have k: "keyed (fseats f)" using Cons.prems(1) by (simp add: keyed_sessions_iff)
  have e: "all_commit (te_commits e)" "kills_take (te_tx e)" "shift_live e t" using Cons.prems(6) by (auto simp: all_commit_def)
  let ?f' = "shift_tick (team_key t) f e"
  obtain u where u: "fteams ?f' (team_key t) = Some u" "keyed (fseats ?f')" "team_key u = team_key t" "team_Roles u = team_Roles t"
    and w: "if old_seats f t role = [] then team_Shift u = team_Shift (next_role t) \<and> old_seats ?f' u role = []
     else (\<exists>d. team_Shift u = (team_Shift t)\<lparr>sh_Drained := d\<rparr>) \<and> Suc (length (old_seats ?f' u role)) = length (old_seats f t role)"
    using drain_tick[OF k Cons.prems(2) e(3) Cons.prems(3,4) e(1,2)] by metis
  show ?case
  proof (cases "old_seats f t role = []")
    case True
    then show ?thesis using Cons.prems(5) w u(1) by (simp add: next_role_def Let_def)
  next
    case False
    then obtain d where d: "team_Shift u = (team_Shift t)\<lparr>sh_Drained := d\<rparr>" "length es = Suc (length (old_seats ?f' u role))"
      using w Cons.prems(5) by auto
    have sr: "shift_role u = shift_role t" using d(1) by (simp add: shift_role_def)
    then have fr: "find_role u (shift_role u) = Some role" using u(4) Cons.prems(4) by (simp add: find_role_def)
    show ?thesis
      using Cons.IH[of ?f' u] u d fr Cons.prems(3,6) shift_live_cong[OF d(1)] by (simp add: keyed_sessions_iff)
  qed
qed simp

theorem drain_terminates_witness:
  "\<exists>u. team_at (fl_store (foldl (shift_tick ''ws/squad'') (fleet_of (shifting_team ShiftDraining) [old_dev, older_dev, new_dev])
       (map example_env [110, 112, 114]))) ''ws/squad'' = Some u \<and> sh_RoleIndex (team_Shift u) = 1"
proof -
  let ?t = "shifting_team ShiftDraining" and ?f = "fleet_of (shifting_team ShiftDraining) [old_dev, older_dev, new_dev]"
  have n: "length (old_seats ?f ?t (example_role ''dev'' 1)) = 2"
    by (simp add: old_seats_def withoutRetiring_def sessionsOutsideGeneration_def ListSessionsByTeamRole_def isRetiring_def shifting_defs)
  have e: "\<forall>e\<in>set (map example_env [110, 112, 114]). (\<forall>n. te_commits e n) \<and> kills_take (te_tx e) \<and> shift_live e ?t"
    by (simp add: example_env_def kills_take_def both_gone_def shift_live_def shiftTimeout_def defaultShiftTimeout_def time_simps shifting_defs)
  show ?thesis using drain_terminates[OF shifting_facts(1,7,4,6) _ e] n by (auto simp: shifting_defs)
qed

end
