(* ===== verification/Health_Properties.thy ===== *)
theory Health_Properties
  imports Shift_Progress
begin

text \<open>
  What a health tick can and cannot do to a seat: a seat that is heard from is kept whatever else the
  tick decides, a seat parked in \<open>crashloop-backoff\<close> is never looked at again, and
  \<open>restart_policy = on-failure\<close> gives the seat's slot away with its pane still there.
\<close>

section \<open>Bookkeeping that touches no session\<close>

lemma PersistRoleHealth_sessions [simp]: "st_sessions (fst (PersistRoleHealth commits rec s)) = st_sessions s"
  by (auto simp: PersistRoleHealth_def same_tables_def persist_tables_fst split: prod.splits option.splits dest!: persist_tables)

lemma health_store_sessions [simp]:
  "st_sessions (c_store (persistRoleHealth commits key rh c)) = st_sessions (c_store c)"
  "st_sessions (c_store (set_health key rh c)) = st_sessions (c_store c)"
  "st_sessions (c_store (emit k ws tm r s c)) = st_sessions (c_store c)"
  by (simp_all add: persistRoleHealth_def set_health_def emit_def)

lemma getRoleHealth_sessions: "getRoleHealth key c = (c1, rh) \<Longrightarrow> c_store c1 = c_store c"
  by (auto simp: getRoleHealth_def split: option.splits)

lemma charge_sessions [simp]:
  "st_sessions (c_store (fst (noteCrashAndBackoff commits now ws tm r n c))) = st_sessions (c_store c)"
  "st_sessions (c_store (freezeRole commits ws tm r c)) = st_sessions (c_store c)"
  by (auto simp: noteCrashAndBackoff_def freezeRole_def Let_def dest!: getRoleHealth_sessions split: prod.split)

lemma decay_sessions [simp]: "st_sessions (c_store (decayHealthyRoles commits now obs c)) = st_sessions (c_store c)"
proof -
  have "st_sessions (c_store (decay_role commits now key ob c)) = st_sessions (c_store c)" for key ob c
    by (simp add: decay_role_def Let_def split: option.split)
  then show ?thesis unfolding decayHealthyRoles_def by (induction obs arbitrary: c) (auto split: prod.split)
qed

lemma Flush_sessions [simp]: "st_sessions (fst (Flush commits w s)) = st_sessions s"
proof -
  have "st_sessions (remember_all recs s) = st_sessions s" for recs s
    unfolding remember_all_def by (induction recs arbitrary: s) (auto simp: rememberPersisted_def split: prod.split)
  then show ?thesis by (auto simp: Flush_def boltUpdate_def Let_def split: option.split)
qed

section \<open>One session's turn\<close>

text \<open>An update of a seat that keeps its identity.\<close>

definition keeps_seat :: "(Session \<Rightarrow> Session) \<Rightarrow> bool" where
  "keeps_seat g \<longleftrightarrow> (\<forall>x. session_key (g x) = session_key x)"

lemma keyed_update:
  assumes "keyed al" "map_of al k = Some x" "session_key y = session_key x"
  shows "keyed (AList.update k y al)"
proof -
  have "k = session_key y" using assms by (auto simp: keyed_def list_all_iff dest!: map_of_SomeD)
  then show ?thesis using assms(1) by (simp add: keyed_def distinct_update list_all_AList_update)
qed

lemma fl_update_rows:
  "fseats (fl_update e k g f) = (case frows f k of None \<Rightarrow> fseats f | Some x \<Rightarrow> AList.update k (g x) (fseats f))"
  by (simp add: fl_update_def update_session_def UpdateSession_table split: option.split)

lemma fl_update_step:
  assumes "keyed (fseats f)" "keeps_seat g"
  shows "keyed (fseats (fl_update e k g f))" "j \<noteq> k \<Longrightarrow> frows (fl_update e k g f) j = frows f j"
    "frows (fl_update e k g f) k = map_option g (frows f k)"
  using assms keyed_update[OF assms(1), of k _ "g _"]
  by (auto simp: fl_update_rows update_conv' keeps_seat_def split: option.split)

lemma fl_notice_store [simp]: "fl_store (fl_notice k t role sess f) = fl_store f"
  by (simp add: fl_notice_def)

lemma state_keeps [simp]:
  "keeps_seat (\<lambda>live. live\<lparr>sess_State := st\<rparr>)" "keeps_seat (\<lambda>live. live\<lparr>sess_RestartCount := sess_RestartCount live + 1, sess_State := st\<rparr>)"
  by (simp_all add: keeps_seat_def session_key_def)

definition others_kept :: "string \<Rightarrow> Fleet \<Rightarrow> Fleet \<Rightarrow> bool" where
  "others_kept k f f' \<longleftrightarrow> keyed (fseats f') \<and> (\<forall>j. j \<noteq> k \<longrightarrow> frows f' j = frows f j)"

lemma restartSession_others:
  assumes "keyed (fseats f)"
  shows "others_kept (session_key sess) f (restartSession e sess t role f)"
proof -
  let ?key = "role_key (team_Workspace t) (team_Name t) (role_Name role)" and ?k = "session_key sess"
  obtain c rh where g: "getRoleHealth ?key (fl_ctl f) = (c, rh)" by fastforce
  have s0: "c_store c = fl_store f" using getRoleHealth_sessions[OF g] .
  obtain c1 b where n: "noteCrashAndBackoff (te_commits e) (te_now e) (team_Workspace t) (team_Name t) (role_Name role) (role_MaxRestarts role) c = (c1, b)"
    by fastforce
  have s1: "st_sessions (c_store c1) = fseats f" using charge_sessions(1)[of "te_commits e" "te_now e" "team_Workspace t" "team_Name t" "role_Name role" "role_MaxRestarts role" c] n s0 by simp
  have upd: "others_kept ?k f (fl_update e ?k g' f')" if "fseats f' = fseats f" "keeps_seat g'" for g' f'
    using fl_update_step[where f = f' and g = g' and e = e and k = ?k] that assms by (simp add: others_kept_def)
  have del: "others_kept ?k f (fst (fl_Delete e ?k f'))" if "others_kept ?k f f'" for f'
    using that fl_Delete_keyed[of f' e ?k] fl_Delete_other[of _ ?k f' e] by (simp add: others_kept_def)
  show ?thesis
    unfolding restartSession_def g Let_def prod.case
    using s0 n s1 by (auto simp: n intro!: upd del split: bool.split)
qed

lemma applyRestartPolicy_others:
  assumes "keyed (fseats f)"
  shows "others_kept (session_key sess) f (applyRestartPolicy e sess t role f)"
  using fl_update_step[where f = f and g = "\<lambda>live. live\<lparr>sess_State := SessionFailed\<rparr>" and e = e and k = "session_key sess"] restartSession_others[OF assms] assms
  by (simp add: applyRestartPolicy_def others_kept_def Let_def)

lemma health_eval_keeps [simp]:
  "session_key (hv_session (health_eval role now live)) = session_key live"
  "sess_State (hv_session (health_eval role now live)) = sess_State live"
  "sess_PaneID (hv_session (health_eval role now live)) = sess_PaneID live"
  by (simp_all add: health_eval_def quiet_verdict_def failed_verdict_def Let_def session_key_def split: option.split)

text \<open>The fleet after the row's update and before the restart policy.\<close>

lemma health_session_cases:
  assumes "keyed (fseats f)"
  obtains "health_session e cache sess (f, w, obs) = (f, w, obs)"
      "\<not> (sess_State sess = SessionRunning \<and> (\<exists>t. cache (sess_Workspace sess @ ''/'' @ sess_Team sess) = Some t \<and>
         \<not> isRetiring t (session_key sess)) \<and> frows f (session_key sess) \<noteq> None)"
  | t live f1 w1 obs1 where "cache (sess_Workspace sess @ ''/'' @ sess_Team sess) = Some t" "sess_State sess = SessionRunning"
      "\<not> isRetiring t (session_key sess)" "frows f (session_key sess) = Some live"
      "others_kept (session_key sess) f f1" "fl_ctl f1\<lparr>c_store := c_store (fl_ctl f), c_events := c_events (fl_ctl f)\<rparr> = fl_ctl f"
      "frows f1 (session_key sess) = Some (hv_session (health_eval (find_role t (sess_Role sess)) (te_now e) live))"
      "health_session e cache sess (f, w, obs) = (case find_role t (sess_Role sess) of None \<Rightarrow> f1
         | Some r \<Rightarrow> if hv_restart (health_eval (find_role t (sess_Role sess)) (te_now e) live) \<and> role_Schedule r = None
             then applyRestartPolicy e (hv_session (health_eval (find_role t (sess_Role sess)) (te_now e) live)) t r f1 else f1, w1, obs1)"
proof (cases "sess_State sess = SessionRunning")
  case False
  then show thesis using that(1) by (simp add: health_session_def)
next
  case run: True
  show thesis
  proof (cases "cache (sess_Workspace sess @ ''/'' @ sess_Team sess)")
    case None
    then show thesis using that(1) run by (simp add: health_session_def)
  next
    case (Some t)
    show thesis
    proof (cases "isRetiring t (session_key sess) \<or> frows f (session_key sess) = None")
      case True
      then show thesis using that(1) run Some by (auto simp: health_session_def WriteSet_UpdateSession_def Let_def)
    next
      case False
      then obtain live where live: "frows f (session_key sess) = Some live" and nr: "\<not> isRetiring t (session_key sess)" by auto
      let ?k = "session_key sess" and ?role = "find_role t (sess_Role sess)"
      let ?v = "health_eval ?role (te_now e) live" let ?u = "hv_session ?v"
      let ?s = "(fl_store f)\<lparr>st_sessions := AList.update ?k ?u (fseats f)\<rparr>"
      let ?f1 = "f\<lparr>fl_ctl := (fl_ctl f)\<lparr>c_store := ?s\<rparr>\<rparr>"
      let ?f2 = "if hv_turned ?v then ?f1\<lparr>fl_ctl := emit KindHealthCheckFailed (sess_Workspace ?u) (sess_Team ?u) (sess_Role ?u) (session_key ?u) (fl_ctl ?f1)\<rparr> else ?f1"
      have st2: "fl_store ?f2 = ?s" by (simp add: emit_def)
      have k: "others_kept ?k f ?f2" using keyed_update[OF assms live, of ?u] st2 by (simp add: others_kept_def update_conv')
      have w: "WriteSet_UpdateSession ?k (\<lambda>live. (hv_session (health_eval ?role (te_now e) live), None)) w (fl_store f)
          = (?s, ws_note ?s (writeSession (session_key ?u)) w, None)"
        using live by (simp add: WriteSet_UpdateSession_def Let_def)
      show thesis
        by (rule that(2)[OF Some run nr live k])
          (use st2 run Some nr live in \<open>simp_all add: emit_def health_session_def w Let_def update_conv'\<close>)
    qed
  qed
qed

lemma health_session_others:
  assumes "keyed (fseats f)"
  shows "others_kept (session_key sess) f (fst (health_session e cache sess (f, w, obs)))"
proof -
  have refl: "others_kept (session_key sess) f f" using assms by (simp add: others_kept_def)
  have trans: "others_kept (session_key sess) f f2" if "others_kept (session_key sess) f f1" "others_kept (session_key sess) f1 f2" for f1 f2
    using that by (simp add: others_kept_def)
  have key: "session_key live = session_key sess" if "frows f (session_key sess) = Some live" for live
    using that assms by (auto simp: keyed_def list_all_iff dest!: map_of_SomeD)
  show ?thesis
  proof (cases rule: health_session_cases[OF assms, of e cache sess w obs])
    case 1
    then show ?thesis using refl by simp
  next
    case (2 t live f1 w1 obs1)
    have "others_kept (session_key sess) f (applyRestartPolicy e (hv_session (health_eval ro (te_now e) live)) t r f1)" for r ro
      using trans[OF 2(5)] applyRestartPolicy_others[of f1 "hv_session (health_eval ro (te_now e) live)" e t r] 2(5) key[OF 2(4)]
      by (simp add: others_kept_def)
    then show ?thesis using 2(5,8) by (simp split: option.split)
  qed
qed

section \<open>The tick\<close>

lemma listed_keys: "keyed (fseats f) \<Longrightarrow> distinct (map session_key (ListSessions (fl_store f)))"
proof -
  assume k: "keyed (fseats f)"
  then have "map session_key (ListSessions (fl_store f)) = map fst (fseats f)" by (auto simp: keyed_def list_all_iff ListSessions_def)
  with k show ?thesis by (simp add: keyed_def)
qed

lemma health_fold_others:
  assumes "keyed (fseats f)" "k \<notin> session_key ` set ss"
  shows "keyed (fseats (fst (foldl (\<lambda>st sess. health_session e cache sess st) (f, w, obs) ss))) \<and>
    frows (fst (foldl (\<lambda>st sess. health_session e cache sess st) (f, w, obs) ss)) k = frows f k"
  using assms
proof (induction ss arbitrary: f w obs)
  case (Cons s ss)
  obtain f1 w1 obs1 where st: "health_session e cache s (f, w, obs) = (f1, w1, obs1)" by (metis prod_cases3)
  have "others_kept (session_key s) f f1" using health_session_others[OF Cons.prems(1), of s e cache w obs] st by simp
  then show ?case using Cons.IH[of f1 w1 obs1] Cons.prems st by (simp add: others_kept_def)
qed simp

text \<open>The tick does to a seat what its own turn does, from the row the tick started with.\<close>

lemma health_tick_row:
  assumes "keyed (fseats f)" "frows f k = Some x"
  obtains f0 w obs where "keyed (fseats f0)" "frows f0 k = Some x"
    "frows (evaluateHealth e f) k = frows (fst (health_session e (team_cache (ListTeams (fl_store f))) x (f0, w, obs))) k"
proof -
  let ?ss = "ListSessions (fl_store f)" and ?cache = "team_cache (ListTeams (fl_store f))"
  let ?op = "\<lambda>st sess. health_session e ?cache sess st"
  have xk: "session_key x = k" and xin: "x \<in> set ?ss"
    using assms by (auto simp: keyed_def list_all_iff ListSessions_def dest!: map_of_SomeD intro: rev_image_eqI)
  then obtain as bs where sp: "?ss = as @ x # bs" by (meson split_list)
  have nin: "k \<notin> session_key ` set as" "k \<notin> session_key ` set bs"
    using listed_keys[OF assms(1)] xk unfolding sp by auto
  obtain f0 w0 o0 where pre: "foldl ?op (f, NewWriteSet, []) as = (f0, w0, o0)" by (metis prod_cases3)
  obtain f1 w1 o1 where own: "health_session e ?cache x (f0, w0, o0) = (f1, w1, o1)" by (metis prod_cases3)
  obtain f2 w2 o2 where post: "foldl ?op (f1, w1, o1) bs = (f2, w2, o2)" by (metis prod_cases3)
  have 0: "keyed (fseats f0)" "frows f0 k = Some x"
    using health_fold_others[OF assms(1) nin(1), of e ?cache NewWriteSet "[]"] pre assms(2) by simp_all
  have k1: "keyed (fseats f1)" using health_session_others[OF 0(1), of x e ?cache w0 o0] own by (simp add: others_kept_def)
  have "frows f2 k = frows f1 k" using health_fold_others[OF k1 nin(2), of e ?cache w1 o1] post by simp
  moreover have "frows (evaluateHealth e f) = frows f2"
    unfolding evaluateHealth_def Let_def sp by (simp add: pre own post)
  ultimately show thesis using that[OF 0, of w0 o0] own by simp
qed

text \<open>
  C29. A seat parked in \<open>crashloop-backoff\<close> stays there. A health tick never touches the row of a session in
  that state, at any time and whatever its heartbeat, its role and the backoff window say, and the row
  goes on occupying a replica slot, so the role is not repaired either.
\<close>

theorem backoff_seat_is_stranded:
  assumes "keyed_sessions (fl_store f)" and "session_at (fl_store f) k = Some x" and "sess_State x = SessionCrashLoopBackOff"
  shows "session_at (fl_store (evaluateHealth e f)) k = Some x \<and> OccupiesReplicaSlot x"
proof -
  have k: "keyed (fseats f)" using assms(1) by (simp add: keyed_sessions_iff)
  obtain f0 w obs where "frows f0 k = Some x"
    "frows (evaluateHealth e f) k = frows (fst (health_session e (team_cache (ListTeams (fl_store f))) x (f0, w, obs))) k"
    using health_tick_row[OF k assms(2)] by metis
  then show ?thesis using assms(3) by (simp add: health_session_def slot_simps)
qed

definition parked :: Session where "parked = old_dev\<lparr>sess_State := SessionCrashLoopBackOff\<rparr>"

theorem backoff_seat_is_stranded_witness:
  "session_at (fl_store (evaluateHealth (example_env 900) (fleet_of (shifting_team ShiftNone) [parked]))) ''ws/squad-dev-g1-0'' = Some parked"
proof -
  have "session_at (fl_store (fleet_of (shifting_team ShiftNone) [parked])) ''ws/squad-dev-g1-0'' = Some parked"
    "sess_State parked = SessionCrashLoopBackOff"
    by (simp_all add: parked_def shifting_defs)
  with backoff_seat_is_stranded[of "fleet_of (shifting_team ShiftNone) [parked]"] show ?thesis by (simp add: fleet_of_keyed)
qed

text \<open>
  A seat that is heard from is kept. A health tick leaves a running seat of a heartbeat-checked role
  whose last heartbeat is within the timeout running, in its pane, healthy and with no failures
  counted, whatever its activity reads and whatever the tick does to every other seat.
\<close>

theorem fresh_heartbeat_keeps_seat:
  assumes "keyed_sessions (fl_store f)" and "session_at (fl_store f) k = Some x" and "sess_State x = SessionRunning"
    and "team_cache (ListTeams (fl_store f)) (sess_Workspace x @ ''/'' @ sess_Team x) = Some t" and "\<not> isRetiring t k"
    and "find_role t (sess_Role x) = Some role" and "role_HealthCheck role = Some hc" and "hc_Type hc = HealthCheckHeartbeat"
    and "sess_LastHeartbeat x \<noteq> zero_time" and "time_sub (te_now e) (sess_LastHeartbeat x) \<le> hc_Timeout hc"
  shows "\<exists>y. session_at (fl_store (evaluateHealth e f)) k = Some y \<and> sess_State y = SessionRunning \<and> sess_PaneID y = sess_PaneID x \<and>
    sess_HealthState y = HealthHealthy \<and> sess_FailureCount y = 0"
proof -
  have k: "keyed (fseats f)" using assms(1) by (simp add: keyed_sessions_iff)
  obtain f0 w obs where f0: "keyed (fseats f0)" "frows f0 k = Some x"
    "frows (evaluateHealth e f) k = frows (fst (health_session e (team_cache (ListTeams (fl_store f))) x (f0, w, obs))) k"
    using health_tick_row[OF k assms(2)] by metis
  have xk: "session_key x = k" using k assms(2) by (auto simp: keyed_def list_all_iff dest!: map_of_SomeD)
  let ?v = "health_eval (Some role) (te_now e) x"
  have v: "\<not> hv_restart ?v" "sess_HealthState (hv_session ?v) = HealthHealthy" "sess_FailureCount (hv_session ?v) = 0"
    using assms(7-10) by (auto simp: health_eval_def quiet_verdict_def Let_def time_simps)
  show ?thesis
  proof (cases rule: health_session_cases[OF f0(1), of e "team_cache (ListTeams (fl_store f))" x w obs])
    case 1
    then show ?thesis using assms(3-5) f0(2) xk by auto
  next
    case (2 t' live f1 w1 obs1)
    have "t' = t" "live = x" using 2(1,4) assms(4) f0(2) xk by auto
    then show ?thesis using 2(7,8) assms(3,6) f0(3) v xk by simp
  qed
qed

definition heartbeat_team :: "string \<Rightarrow> Team" where
  "heartbeat_team policy = example_team\<lparr>team_Roles := [(example_role ''dev'' 1)\<lparr>role_RestartPolicy := policy,
     role_HealthCheck := Some \<lparr>hc_Type = HealthCheckHeartbeat, hc_Timeout = 30, hc_FailureThreshold = 1\<rparr>\<rparr>]\<rparr>"

lemma heartbeat_facts:
  "keyed_sessions (fl_store (fleet_of (heartbeat_team p) [old_dev]))"
  "session_at (fl_store (fleet_of (heartbeat_team p) [old_dev])) ''ws/squad-dev-g1-0'' = Some old_dev"
  "session_key old_dev = ''ws/squad-dev-g1-0''" "sess_State old_dev = SessionRunning" "sess_LastHeartbeat old_dev = 5"
  "team_cache (ListTeams (fl_store (fleet_of (heartbeat_team p) [old_dev]))) (sess_Workspace old_dev @ ''/'' @ sess_Team old_dev) = Some (heartbeat_team p)"
  "\<not> isRetiring (heartbeat_team p) ''ws/squad-dev-g1-0''"
  "find_role (heartbeat_team p) (sess_Role old_dev) = Some ((example_role ''dev'' 1)\<lparr>role_RestartPolicy := p,
     role_HealthCheck := Some \<lparr>hc_Type = HealthCheckHeartbeat, hc_Timeout = 30, hc_FailureThreshold = 1\<rparr>\<rparr>)"
  by (simp_all add: fleet_of_keyed) (simp_all add: fleet_of_def NewController_def NewStore_def ListTeams_def team_cache_def
      heartbeat_team_def find_role_def isRetiring_def shifting_defs)

theorem fresh_heartbeat_keeps_seat_witness:
  "\<exists>y. session_at (fl_store (evaluateHealth (example_env 30) (fleet_of (heartbeat_team RestartAlways) [old_dev]))) ''ws/squad-dev-g1-0'' = Some y \<and>
     sess_State y = SessionRunning \<and> sess_HealthState y = HealthHealthy"
proof -
  have "time_sub (te_now (example_env 30)) (sess_LastHeartbeat old_dev) \<le> 30" "sess_LastHeartbeat old_dev \<noteq> zero_time"
    by (simp_all add: heartbeat_facts(5) example_env_def time_simps)
  then show ?thesis
    using fresh_heartbeat_keeps_seat[OF heartbeat_facts(1,2,4,6,7,8), where e = "example_env 30"] by auto
qed

lemma health_eval_runtime [simp]: "sess_Runtime (hv_session (health_eval role now live)) = sess_Runtime live"
  by (simp add: health_eval_def quiet_verdict_def failed_verdict_def Let_def split: option.split)

text \<open>
  C30. \<open>on-failure\<close> gives the slot away and charges nothing. A health tick that finds a running interactive
  seat of an unscheduled role with \<open>restart_policy = on-failure\<close> past its failure threshold marks the
  row failed and leaves its pane recorded and unkilled; the row no longer occupies a replica slot, and
  the seat's turn changes no restart count and no backoff window, so the replacement the reconciler
  then spawns is neither delayed nor counted.
\<close>

theorem on_failure_frees_slot_uncharged:
  assumes "keyed_sessions (fl_store f)" and "session_at (fl_store f) k = Some x" and "sess_State x = SessionRunning"
    and "team_cache (ListTeams (fl_store f)) (sess_Workspace x @ ''/'' @ sess_Team x) = Some t" and "\<not> isRetiring t k"
    and "find_role t (sess_Role x) = Some role" and "role_Schedule role = None" and "role_RestartPolicy role = RestartOnFailure"
    and "rt_Mode (sess_Runtime x) = RuntimeModeInteractive" and "hv_restart (health_eval (Some role) (te_now e) x)"
  shows "(\<exists>y. session_at (fl_store (evaluateHealth e f)) k = Some y \<and> sess_State y = SessionFailed \<and> sess_PaneID y = sess_PaneID x \<and>
      \<not> OccupiesReplicaSlot y) \<and>
    (\<forall>w obs. c_roleHealth (fl_ctl (fst (health_session e (team_cache (ListTeams (fl_store f))) x (f, w, obs)))) = c_roleHealth (fl_ctl f))"
proof -
  have k: "keyed (fseats f)" using assms(1) by (simp add: keyed_sessions_iff)
  have xk: "session_key x = k" using k assms(2) by (auto simp: keyed_def list_all_iff dest!: map_of_SomeD)
  let ?cache = "team_cache (ListTeams (fl_store f))"
  let ?u = "hv_session (health_eval (Some role) (te_now e) x)"
  have pol: "applyRestartPolicy e ?u t role g = fl_update e k (\<lambda>live. live\<lparr>sess_State := SessionFailed\<rparr>) g" for g
    using assms(3,8) xk by (simp add: applyRestartPolicy_def restart_policies)
  have turn: "frows (fst (health_session e ?cache x (f0, w, obs))) k = Some (?u\<lparr>sess_State := SessionFailed\<rparr>) \<and>
      c_roleHealth (fl_ctl (fst (health_session e ?cache x (f0, w, obs)))) = c_roleHealth (fl_ctl f0)"
    if f0: "keyed (fseats f0)" "frows f0 k = Some x" for f0 w obs
  proof (cases rule: health_session_cases[OF f0(1), of e ?cache x w obs])
    case 1
    then show ?thesis using assms(3-5) f0(2) xk by auto
  next
    case (2 t' live f1 w1 obs1)
    have tl: "t' = t" "live = x" using 2(1,4) assms(4) f0(2) xk by auto
    have k1: "keyed (fseats f1)" using 2(5) by (simp add: others_kept_def)
    have h: "c_roleHealth (fl_ctl f1) = c_roleHealth (fl_ctl f0)" using arg_cong[OF 2(6), of c_roleHealth] by simp
    show ?thesis using 2(7,8) tl assms(6,7,10) xk fl_update_step(3)[OF k1 state_keeps(1), of e k SessionFailed] h
      by (simp add: pol) (simp add: fl_update_def update_session_def)
  qed
  obtain f0 w obs where f0: "keyed (fseats f0)" "frows f0 k = Some x"
    "frows (evaluateHealth e f) k = frows (fst (health_session e ?cache x (f0, w, obs))) k"
    using health_tick_row[OF k assms(2)] by metis
  have "\<not> OccupiesReplicaSlot (?u\<lparr>sess_State := SessionFailed\<rparr>)" using assms(9) by (simp add: slot_simps)
  with turn[OF f0(1,2)] f0(3) turn[OF k assms(2)] show ?thesis by auto
qed

theorem on_failure_frees_slot_uncharged_witness:
  "\<exists>y. session_at (fl_store (evaluateHealth (example_env 100) (fleet_of (heartbeat_team RestartOnFailure) [old_dev]))) ''ws/squad-dev-g1-0'' = Some y \<and>
     sess_State y = SessionFailed \<and> sess_PaneID y = ''%1'' \<and> \<not> OccupiesReplicaSlot y"
proof -
  let ?role = "(example_role ''dev'' 1)\<lparr>role_RestartPolicy := RestartOnFailure,
     role_HealthCheck := Some \<lparr>hc_Type = HealthCheckHeartbeat, hc_Timeout = 30, hc_FailureThreshold = 1\<rparr>\<rparr>"
  have r: "role_Schedule ?role = None" "role_RestartPolicy ?role = RestartOnFailure" "rt_Mode (sess_Runtime old_dev) = RuntimeModeInteractive"
    "hv_restart (health_eval (Some ?role) (te_now (example_env 100)) old_dev)" "sess_PaneID old_dev = ''%1''"
    by (simp_all add: health_eval_def failed_verdict_def Let_def example_env_def time_simps shifting_defs)
  show ?thesis using on_failure_frees_slot_uncharged[OF heartbeat_facts(1,2,4,6,7,8) r(1-4)] r(5) by auto
qed

end
