(* ===== verification/Retirement_Properties.thy ===== *)
theory Retirement_Properties
  imports Shift_Progress
begin

text \<open>
  A retiring seat leaves when it is due and not before, and a role that is dropped is forgotten with its
  last seat.
\<close>

section \<open>Ending a retirement\<close>

lemma forgetRoleHealth_tables [simp]:
  "st_sessions (c_store (forgetRoleHealth commits key c)) = st_sessions (c_store c)"
  "st_teams (c_store (forgetRoleHealth commits key c)) = st_teams (c_store c)"
  by (auto simp: forgetRoleHealth_def DeleteRoleHealth_def same_tables_def persist_tables_fst split: prod.splits option.splits dest!: persist_tables)

lemma finishRoleRemoval_tables [simp]:
  "fst (finishRoleRemoval e role (t, f)) = t" "fseats (snd (finishRoleRemoval e role (t, f))) = fseats f"
  "fteams (snd (finishRoleRemoval e role (t, f))) = fteams f"
  by (simp_all add: finishRoleRemoval_def Let_def)

lemma UpdateTeam_ok:
  assumes "all_commit (te_commits e)" "fteams f k \<noteq> None"
  shows "snd (fl_UpdateTeam e k g f) = None"
proof -
  obtain t where t: "fteams f k = Some t" using assms(2) by blast
  let ?s = "(fl_store f)\<lparr>st_teams := AList.update k (g t) (st_teams (fl_store f))\<rparr>"
  obtain s' where "persistPutIfChanged (te_commits e) bucketTeams (team_key (g t)) True (VTeam (g t)) ?s = (s', None)"
    using persist_commits(2)[OF assms(1)] by (metis prod.collapse)
  then show ?thesis using t by (simp add: fl_UpdateTeam_def UpdateTeam_def Let_def)
qed

lemma UpdateTeam_commits:
  assumes "all_commit (te_commits e)"
  shows "case snd (fl_UpdateTeam e k g f) of None \<Rightarrow> True | Some (ErrNotFound _) \<Rightarrow> True | Some _ \<Rightarrow> False"
  using UpdateTeam_ok[OF assms, of f k g] by (cases "fteams f k") (simp_all add: fl_UpdateTeam_def UpdateTeam_def)

lemma dropRetirement_rows: "fseats (snd (dropRetirement e req (t, f))) = fseats f"
proof -
  let ?f0 = "f\<lparr>fl_retireSeen := fl_retireSeen f - {rq_Session req}, fl_retireEnded := (fl_retireEnded f)(rq_Session req := None)\<rparr>"
  let ?g = "\<lambda>live. live\<lparr>team_Retiring := AList.delete (rq_Session req) (team_Retiring live)\<rparr>"
  obtain f1 err where u: "fl_UpdateTeam e (team_key t) ?g ?f0 = (f1, err)" by fastforce
  then have "fseats f1 = fseats f" using fl_UpdateTeam_seats[of e "team_key t" ?g ?f0] by simp
  then show ?thesis by (simp add: dropRetirement_def Let_def u)
qed

lemma dropRetirement_ends:
  assumes "all_commit (te_commits e)"
  shows "fst (dropRetirement e req (t, f)) = t\<lparr>team_Retiring := AList.delete (rq_Session req) (team_Retiring t)\<rparr>"
    "fteams f (team_key t) = Some live \<Longrightarrow> fteams (snd (dropRetirement e req (t, f))) (team_key t) =
       Some (live\<lparr>team_Retiring := AList.delete (rq_Session req) (team_Retiring live)\<rparr>)"
proof -
  let ?f0 = "f\<lparr>fl_retireSeen := fl_retireSeen f - {rq_Session req}, fl_retireEnded := (fl_retireEnded f)(rq_Session req := None)\<rparr>"
  let ?g = "\<lambda>live. live\<lparr>team_Retiring := AList.delete (rq_Session req) (team_Retiring live)\<rparr>"
  obtain f1 err where u: "fl_UpdateTeam e (team_key t) ?g ?f0 = (f1, err)" by fastforce
  have c: "case err of None \<Rightarrow> True | Some (ErrNotFound _) \<Rightarrow> True | Some _ \<Rightarrow> False"
    using UpdateTeam_commits[OF assms, of "team_key t" ?g ?f0] u by simp
  have "fteams f1 = (case fteams f (team_key t) of None \<Rightarrow> fteams f | Some x \<Rightarrow> (fteams f)(team_key t \<mapsto> ?g x))"
    using fl_UpdateTeam_teams[of e "team_key t" ?g ?f0] u by (simp split: option.split)
  with c show "fst (dropRetirement e req (t, f)) = t\<lparr>team_Retiring := AList.delete (rq_Session req) (team_Retiring t)\<rparr>"
    "fteams f (team_key t) = Some live \<Longrightarrow> fteams (snd (dropRetirement e req (t, f))) (team_key t) =
       Some (live\<lparr>team_Retiring := AList.delete (rq_Session req) (team_Retiring live)\<rparr>)"
    by (simp_all add: dropRetirement_def Let_def u)
qed

lemma killRetired_rows:
  assumes "all_commit (te_commits e)" "kills_take (te_tx e)" "frows f (session_key sess) = Some sess"
  shows "frows (snd (killRetired e sess req (t, f))) = (frows f)(session_key sess := None)"
  using fl_Delete_ok(2)[of e "fl_emit KindSessionRetired t (sess_Role sess) (session_key sess) f" "session_key sess" sess] assms
  by (simp add: killRetired_def dropRetirement_rows DeleteAndReap_def GetSession_def)

section \<open>When a seat leaves\<close>

text \<open>The newest read of the seat's handoff file, and whether the seat is due to leave: its handoff is
  written, or its window is over and a read begun after it found no marker.\<close>

definition handoff_read :: "tick_env \<Rightarrow> RetireRequest \<Rightarrow> handoffProbeResult option" where
  "handoff_read e req = (if rq_Path req = [] then None else te_probe e (rq_Session req))"

definition leave_due :: "tick_env \<Rightarrow> RetireRequest \<Rightarrow> bool" where
  "leave_due e req \<longleftrightarrow> (\<exists>r. handoff_read e req = Some r \<and> pr_complete r) \<or>
     rq_RequestedAt req + rq_Window req \<le> te_now e \<and>
       (rq_Path req = [] \<or> (\<exists>r. handoff_read e req = Some r \<and> rq_RequestedAt req + rq_Window req \<le> pr_startedAt r))"

text \<open>
  A retiring seat leaves when it is due and not before. For a live seat that was asked to leave, one
  step of its retirement changes no session row and keeps the request unless the handoff is written
  or the window has passed and, where a handoff file is declared, a read of it that began after the
  window found no marker; and then, with kills that take and writes that commit, its row is gone, no
  other row is touched, and the retirement is closed in the copy and in the team's record.
\<close>

theorem retiring_seat_leaves_when_due:
  fixes e :: tick_env and t :: Team
  assumes "session_at (fl_store f) (rq_Session req) = Some sess" and "session_key sess = rq_Session req"
    and "sess_CreatedAt sess < rq_RequestedAt req" and "CountsAsAlive (sess_State sess)"
  defines "r \<equiv> advanceRetirement e req (t, f)"
  shows "if \<not> leave_due e req then fst r = t \<and> fl_store (snd r) = fl_store f
    else (\<forall>n. te_commits e n) \<and> kills_take (te_tx e) \<longrightarrow>
      session_at (fl_store (snd r)) = (session_at (fl_store f))(rq_Session req := None) \<and> \<not> isRetiring (fst r) (rq_Session req) \<and>
      (\<forall>live. team_at (fl_store f) (team_key t) = Some live \<longrightarrow>
         team_at (fl_store (snd r)) (team_key t) = Some (live\<lparr>team_Retiring := AList.delete (rq_Session req) (team_Retiring live)\<rparr>))"
proof -
  let ?f1 = "f\<lparr>fl_retireSeen := insert (rq_Session req) (fl_retireSeen f)\<rparr>"
  have step: "r = (if leave_due e req then killRetired e sess req (t, ?f1) else (t, ?f1))"
    using assms(1,3,4) unfolding r_def advanceRetirement_def leave_due_def handoff_read_def GetSession_def
    by (auto simp: Let_def split: option.split)
  show ?thesis
  proof (cases "leave_due e req \<and> (\<forall>n. te_commits e n) \<and> kills_take (te_tx e)")
    case False
    then show ?thesis using step by auto
  next
    case True
    then have c: "all_commit (te_commits e)" by (simp add: all_commit_def)
    let ?f2 = "DeleteAndReap e (session_key sess) (fl_emit KindSessionRetired t (sess_Role sess) (session_key sess) ?f1)"
    have k: "killRetired e sess req (t, ?f1) = dropRetirement e req (t, ?f2)" by (simp add: killRetired_def)
    have "fteams ?f2 = fteams f" by (simp add: DeleteAndReap_def split: sum.split)
    moreover have "frows (snd (killRetired e sess req (t, ?f1))) = (frows f)(rq_Session req := None)"
      using killRetired_rows[OF c, of ?f1 sess req t] True assms(1,2) by simp
    ultimately show ?thesis using True step dropRetirement_ends[OF c, where req = req and t = t and f = ?f2]
      by (simp add: k isRetiring_def delete_conv')
  qed
qed

definition example_request :: RetireRequest where
  "example_request = \<lparr>rq_Session = ''ws/squad-dev-g1-0'', rq_Role = ''dev'', rq_RequestedAt = 100, rq_Window = 5 * minute,
     rq_Path = [], rq_Marker = [], rq_NoticeUndelivered = []\<rparr>"

theorem retiring_seat_leaves_when_due_witness:
  "fl_store (snd (advanceRetirement (example_env 200) example_request (shifting_team ShiftNone, fleet_of (shifting_team ShiftNone) [old_dev])))
     = fl_store (fleet_of (shifting_team ShiftNone) [old_dev]) \<and>
   session_at (fl_store (snd (advanceRetirement (example_env (100 + 5 * minute)) example_request
     (shifting_team ShiftNone, fleet_of (shifting_team ShiftNone) [old_dev])))) = Map.empty"
proof -
  let ?f = "fleet_of (shifting_team ShiftNone) [old_dev]"
  have s: "session_at (fl_store ?f) (rq_Session example_request) = Some old_dev" "session_key old_dev = rq_Session example_request"
    "sess_CreatedAt old_dev < rq_RequestedAt example_request" "CountsAsAlive (sess_State old_dev)"
    by (simp_all add: example_request_def shifting_defs)
  have m: "session_at (fl_store ?f) = [rq_Session example_request \<mapsto> old_dev]" using s(2) by simp
  have d: "\<not> leave_due (example_env 200) example_request" "leave_due (example_env (100 + 5 * minute)) example_request"
    by (simp_all add: leave_due_def handoff_read_def example_request_def example_env_def time_simps)
  have "(\<forall>n. te_commits (example_env (100 + 5 * minute)) n) \<and> kills_take (te_tx (example_env (100 + 5 * minute)))"
    by (simp add: example_env_def kills_take_def both_gone_def)
  then show ?thesis using retiring_seat_leaves_when_due[OF s, of "example_env 200" "shifting_team ShiftNone"]
      retiring_seat_leaves_when_due[OF s, of "example_env (100 + 5 * minute)" "shifting_team ShiftNone"] d
    unfolding m by auto
qed

end
