(* ===== verification/Handoff.thy ===== *)
theory Handoff
  imports Shift
begin

text \<open>
  The automatic shift triggers: the conditions of a role's shift policy (\<open>internal/api/types.go\<close>), the
  request that asks a seat for its handoff and what becomes of it (\<open>internal/team/shift_handoff.go\<close>), and
  the walk over the roles (\<open>evaluateShiftTriggers\<close> of \<open>internal/team/controller.go\<close>).

  The handoff file and the notice are outside, as in \<open>Retirement\<close>. An escalated request is told to the
  supervisor until somebody decides: those messages and events, with the counters that pace them,
  leave no trace in what is modelled here.
\<close>

section \<open>Shift policies\<close>

definition ShiftTriggerContextPressure :: string where "ShiftTriggerContextPressure = ''context-pressure''"
definition ShiftTriggerMaxAge :: string where "ShiftTriggerMaxAge = ''max-age''"
definition HandoffCauseHibernate :: string where "HandoffCauseHibernate = ''hibernate''"
definition DefaultShiftAskPause :: duration where "DefaultShiftAskPause = 5 * minute"
definition DefaultShiftMaxDefer :: duration where "DefaultShiftMaxDefer = 30 * minute"
definition maxAutoShiftsPerTick :: int where "maxAutoShiftsPerTick = 1"

definition Conditions :: "ShiftPolicy option \<Rightarrow> ShiftCondition list" where
  "Conditions p =
     (case p of
        None \<Rightarrow> []
      | Some p \<Rightarrow>
          if shp_Any p \<noteq> [] then shp_Any p
          else if shp_On p = [] then []
          else [\<lparr>sc_On = shp_On p, sc_HeadroomTokens = shp_HeadroomTokens p, sc_MaxAge = 0, sc_QuietFor = 0, sc_MaxDefer = 0\<rparr>])"

definition hasCondition :: "ShiftCondition list \<Rightarrow> string \<Rightarrow> bool" where
  "hasCondition conds on \<longleftrightarrow> list_ex (\<lambda>c. sc_On c = on) conds"

section \<open>The two triggers\<close>

definition firstSessionOverRemainder :: "tick_env \<Rightarrow> Team \<Rightarrow> Role \<Rightarrow> int \<Rightarrow> Fleet \<Rightarrow> Session option" where
  "firstSessionOverRemainder e t role margin f =
     find (\<lambda>s. 0 < sess_ContextLimit s \<and> \<not> is_zero (sess_ContextAt s) \<and>
               time_sub (te_now e) (sess_ContextAt s) \<le> DefaultQuietWindow \<and> sess_ContextLimit s - margin < sess_ContextTokens s)
       (withoutRetiring t (aliveSessions (ListSessionsByTeamRole (fl_store f) (team_Workspace t) (team_Name t) (role_Name role))))"

definition lastWorked :: "Session \<Rightarrow> time" where
  "lastWorked s =
     (if sess_CreatedAt s < sess_TotalsChangedAt s then sess_TotalsChangedAt s
      else if is_zero (sess_TotalsChangedAt s) \<and> sess_CreatedAt s < sess_ContextAt s then sess_ContextAt s
      else sess_CreatedAt s)"

definition firstSessionOverAge :: "tick_env \<Rightarrow> Team \<Rightarrow> Role \<Rightarrow> ShiftCondition \<Rightarrow> Fleet \<Rightarrow> Session option" where
  "firstSessionOverAge e t role cond f =
     (let quietFor = (if sc_QuietFor cond \<le> 0 then DefaultShiftAskPause else sc_QuietFor cond);
          maxDefer = (if sc_MaxDefer cond \<le> 0 then DefaultShiftMaxDefer else sc_MaxDefer cond)
      in find (\<lambda>s. sess_State s = SessionRunning \<and> \<not> is_zero (sess_CreatedAt s) \<and> \<not> isRetiring t (session_key s) \<and>
                   sc_MaxAge cond \<le> AgeAt s (te_now e) \<and>
                   (quietFor \<le> time_sub (te_now e) (lastWorked s) \<or> sc_MaxAge cond + maxDefer \<le> AgeAt s (te_now e)))
           (ListSessionsByTeamRole (fl_store f) (team_Workspace t) (team_Name t) (role_Name role)))"

section \<open>Asking for a handoff\<close>

text \<open>The file a role declares for a seat; empty when it declares none or the path does not resolve.\<close>

definition handoff_file :: "tick_env \<Rightarrow> Role \<Rightarrow> Session \<Rightarrow> string" where
  "handoff_file e role sess =
     (case role_Shift role of None \<Rightarrow> [] | Some p \<Rightarrow> if shp_Handoff p = [] then [] else te_path e (shp_Handoff p) sess)"

definition new_request :: "tick_env \<Rightarrow> string \<Rightarrow> Session \<Rightarrow> ShiftRequest" where
  "new_request e cause sess =
     \<lparr>sr_Session = session_key sess, sr_RequestedAt = te_now e, sr_Cause = cause,
      sr_NoticeUndelivered = (case te_notify e sess of None \<Rightarrow> [] | Some why \<Rightarrow> why), sr_Escalated = False\<rparr>"

definition put_request :: "tick_env \<Rightarrow> string \<Rightarrow> ShiftRequest \<Rightarrow> Team \<times> Fleet \<Rightarrow> bool \<times> Team \<times> Fleet" where
  "put_request e role req = (\<lambda>(t, f).
     case fl_UpdateTeam e (team_key t) (\<lambda>live. live\<lparr>team_ShiftRequests := (team_ShiftRequests live)(role \<mapsto> req)\<rparr>) f of
       (f1, Some _) \<Rightarrow> (False, t, f1)
     | (f1, None) \<Rightarrow> (True, t\<lparr>team_ShiftRequests := (team_ShiftRequests t)(role \<mapsto> req)\<rparr>, f1))"

definition requestHandoff :: "tick_env \<Rightarrow> Role \<Rightarrow> string \<Rightarrow> Session \<Rightarrow> Team \<times> Fleet \<Rightarrow> Team \<times> Fleet" where
  "requestHandoff e role cause sess tf =
     (case put_request e (role_Name role) (new_request e cause sess) tf of
        (False, t, f) \<Rightarrow> (t, f)
      | (True, t, f) \<Rightarrow> (t, fl_emit KindShiftHandoffRequested t (role_Name role) (session_key sess) f))"

section \<open>What becomes of a request\<close>

text \<open>\<open>autoShift\<close> starts the shift in the store; the pass's copy of the team does not take part until the
  next tick. The flag says whether a shift started.\<close>

definition autoShift :: "tick_env \<Rightarrow> Role \<Rightarrow> string \<Rightarrow> Team \<times> Fleet \<Rightarrow> bool \<times> Team \<times> Fleet" where
  "autoShift e role sess = (\<lambda>(t, f).
     case initiateShiftLocked e (team_key t) (role_Name role) (fl_emit KindShiftAutoTriggered t (role_Name role) sess f) of
       (f1, Some _) \<Rightarrow> (False, t, f1)
     | (f1, None) \<Rightarrow> (True, t, f1\<lparr>fl_autoShifts := fl_autoShifts f1 + 1\<rparr>))"

definition advanceShiftRequest :: "tick_env \<Rightarrow> Role \<Rightarrow> ShiftRequest \<Rightarrow> Team \<times> Fleet \<Rightarrow> bool \<times> Team \<times> Fleet" where
  "advanceShiftRequest e role req = (\<lambda>(t, f).
     case GetSession (fl_store f) (sr_Session req) of
       Inl _ \<Rightarrow> (False, dropShiftRequest e (role_Name role) (t, f))
     | Inr sess \<Rightarrow>
     if \<not> CountsAsAlive (sess_State sess) \<or> \<not> sess_CreatedAt sess < sr_RequestedAt req
     then (False, dropShiftRequest e (role_Name role) (t, f))
     else if sr_Escalated req then (False, t, f)
     else
       let path = handoff_file e role sess;
           read = (if path = [] then None else te_probe e (session_key sess));
           window = HandoffWindowOrDefault (role_Shift role)
       in if (case read of Some r \<Rightarrow> pr_complete r | None \<Rightarrow> False)
          then if maxAutoShiftsPerTick \<le> fl_autoShifts f then (False, t, f) else autoShift e role (session_key sess) (t, f)
          else if time_sub (te_now e) (sr_RequestedAt req) < window then (False, t, f)
          else if path \<noteq> [] \<and> (case read of None \<Rightarrow> True | Some r \<Rightarrow> pr_startedAt r < sr_RequestedAt req + window) then (False, t, f)
          else (False, snd (put_request e (role_Name role) (req\<lparr>sr_Escalated := True\<rparr>) (t, f))))"

section \<open>The walk over the roles\<close>

text \<open>The first condition of the list that holds asks its seat; no later one is looked at.\<close>

fun trigger_conds :: "tick_env \<Rightarrow> Role \<Rightarrow> ShiftCondition list \<Rightarrow> Team \<times> Fleet \<Rightarrow> Team \<times> Fleet" where
  "trigger_conds e role [] tf = tf"
| "trigger_conds e role (cond # conds) tf =
     (let hit = (if sc_On cond = ShiftTriggerContextPressure
                 then case firstSessionOverRemainder e (fst tf) role (sc_HeadroomTokens cond) (snd tf) of
                        None \<Rightarrow> None
                      | Some s \<Rightarrow> (case GetSession (fl_store (snd tf)) (session_key s) of Inl _ \<Rightarrow> None | Inr sess \<Rightarrow> Some sess)
                 else if sc_On cond = ShiftTriggerMaxAge then firstSessionOverAge e (fst tf) role cond (snd tf) else None)
      in case hit of None \<Rightarrow> trigger_conds e role conds tf | Some sess \<Rightarrow> requestHandoff e role (sc_On cond) sess tf)"

fun trigger_roles :: "tick_env \<Rightarrow> Role list \<Rightarrow> Team \<times> Fleet \<Rightarrow> Team \<times> Fleet" where
  "trigger_roles e [] tf = tf"
| "trigger_roles e (role # roles) tf =
     (if Covers (team_Hibernate (fst tf)) (role_Name role) then trigger_roles e roles tf
      else
        let conds = Conditions (role_Shift role)
        in case team_ShiftRequests (fst tf) (role_Name role) of
             None \<Rightarrow> trigger_roles e roles (trigger_conds e role conds tf)
           | Some req \<Rightarrow>
               if \<not> hasCondition conds (sr_Cause req)
               then trigger_roles e roles (trigger_conds e role conds (dropShiftRequest e (role_Name role) tf))
               else case advanceShiftRequest e role req tf of
                 (True, tf1) \<Rightarrow> tf1
               | (False, tf1) \<Rightarrow>
                   if team_ShiftRequests (fst tf1) (role_Name role) = None
                   then trigger_roles e roles (trigger_conds e role conds tf1) else trigger_roles e roles tf1)"

definition evaluateShiftTriggers :: "tick_env \<Rightarrow> Team \<times> Fleet \<Rightarrow> Team \<times> Fleet" where
  "evaluateShiftTriggers e = (\<lambda>(t, f).
     if sh_Phase (team_Shift t) \<noteq> ShiftNone \<or> team_Pruning t \<noteq> None then (t, f) else trigger_roles e (team_Roles t) (t, f))"

end
