(* ===== verification/Prune.thy ===== *)
theory Prune
  imports Retirement
begin

text \<open>
  The prune of \<open>internal/api/prune_plan.go\<close> and \<open>internal/api/prune_apply.go\<close>: what \<open>marvel work --prune\<close> would
  delete for one manifest source, and the checks the prune runs again at the mark and at the delete.
  Of a manifest only the names and replica counts a plan reads are modelled; the wording of the
  handoff note is a datatype.
\<close>

section \<open>Data\<close>

record ManifestRole =
  mr_Name :: string
  mr_Replicas :: int

record ManifestTeam =
  mt_Name :: string
  mt_Roles :: "ManifestRole list"

datatype HandoffNote = NoNote | NoteDeclared duration | NoteNone | NoteSome

record PruneDelete =
  pd_Team :: string
  pd_Seats :: "(string \<times> SessionState) list"
  pd_Handoff :: HandoffNote

record PrunePlan =
  pp_Workspace :: string
  pp_Source :: string
  pp_WouldDelete :: "PruneDelete list"
  pp_KeptShared :: "(string \<times> (string \<times> time) list) list"
  pp_KeptUnclaimed :: "string list"
  pp_KeptRun :: "(string \<times> int) list"
  pp_Deferred :: "(string \<times> string) list"
  pp_Held :: "(string \<times> int) list"

section \<open>The rules\<close>

definition headless_seat :: "Team \<Rightarrow> Session \<Rightarrow> bool" where
  "headless_seat t s \<longleftrightarrow> (case find_role t (sess_Role s) of None \<Rightarrow> False | Some r \<Rightarrow> rt_Mode (role_Runtime r) = RuntimeModeHeadless)"

definition pruneVerdict :: "Team \<Rightarrow> Session list \<Rightarrow> int \<times> string" where
  "pruneVerdict t sessions =
     (let runs = count_if (\<lambda>s. sess_Generation s = 0) sessions;
          aliveHeadless = list_ex (\<lambda>s. alive s \<and> headless_seat t s) sessions
      in if 0 < runs then (runs, [])
         else if sh_Phase (team_Shift t) \<noteq> ShiftNone then (0, ''shift in progress; re-run the plan when it ends'')
         else if aliveHeadless then (0, ''live headless seat, left alone by operator ruling 2026-10-28'')
         else (0, []))"

definition PruneRecheck :: "string \<Rightarrow> Team \<Rightarrow> Session list \<Rightarrow> string" where
  "PruneRecheck source t sessions =
     (if (case team_Claims t of None \<Rightarrow> True | Some c \<Rightarrow> tc_Sources c \<noteq> [] \<or> tc_ReleasedBy c \<noteq> source)
      then ''kept: claimed since the preview''
      else case pruneVerdict t sessions of
        (runs, deferred) \<Rightarrow>
          if 0 < runs then ''kept: holds '' @ itoa runs @ '' marvel run session(s)''
          else if deferred \<noteq> [] then ''deferred: '' @ deferred else [])"

definition ReasonDraining :: string where "ReasonDraining = ''draining: seats are still leaving''"

definition PruneDeleteCheck :: "(Team \<Rightarrow> Session list \<Rightarrow> string) \<Rightarrow> Team \<Rightarrow> Session list \<Rightarrow> string" where
  "PruneDeleteCheck chk t sessions =
     (let reason = chk t sessions
      in if reason \<noteq> [] then reason
         else if team_Retiring t \<noteq> [] \<or> 0 < CountAlive sessions then ReasonDraining else [])"

section \<open>The plan\<close>

definition willSpawn :: "ManifestTeam \<Rightarrow> Session list \<Rightarrow> int" where
  "willSpawn mt sessions =
     foldl (\<lambda>n r. let live = count_if (\<lambda>s. sess_Role s = mr_Name r \<and> alive s) sessions
                  in if live < mr_Replicas r then n + (mr_Replicas r - live) else n) 0 (mt_Roles mt)"

text \<open>Of two roles with one name Go's \<open>roles\<close> map keeps the later.\<close>

definition pruneDelete :: "Team \<Rightarrow> Session list \<Rightarrow> PruneDelete" where
  "pruneDelete t sessions =
     (let role_named = (\<lambda>n. find (\<lambda>r. role_Name r = n) (rev (team_Roles t)));
          names = sort (remdups (map sess_Role (filter alive sessions)));
          inter = filter (\<lambda>n. \<not> (case role_named n of None \<Rightarrow> False | Some r \<Rightarrow> rt_Mode (role_Runtime r) = RuntimeModeHeadless)) names;
          decl = filter (\<lambda>n. case role_named n of None \<Rightarrow> False
                     | Some r \<Rightarrow> (case role_Shift r of None \<Rightarrow> False | Some p \<Rightarrow> shp_Handoff p \<noteq> [])) inter;
          window = foldl (\<lambda>w n. case role_named n of None \<Rightarrow> w | Some r \<Rightarrow> max w (HandoffWindowOrDefault (role_Shift r))) 0 decl
      in \<lparr>pd_Team = team_key t, pd_Seats = map (\<lambda>s. (session_key s, sess_State s)) sessions,
          pd_Handoff = (if inter = [] then NoNote else if length decl = length inter then NoteDeclared window
                        else if decl = [] then NoteNone else NoteSome)\<rparr>)"

text \<open>One team's round of \<open>PlanPrune\<close>. \<open>named\<close> is the manifest's teams by key; of two with one name the later
  is kept.\<close>

definition plan_team :: "(string \<rightharpoonup> ManifestTeam) \<Rightarrow> string \<Rightarrow> Store \<Rightarrow> PrunePlan \<Rightarrow> Team \<Rightarrow> PrunePlan" where
  "plan_team named source s plan t =
     (let key = team_key t; sessions = team_sessions_sorted s t
      in case named key of
           Some mt \<Rightarrow> if Posture t = PostureHold \<and> 0 < willSpawn mt sessions
                      then plan\<lparr>pp_Held := pp_Held plan @ [(key, willSpawn mt sessions)]\<rparr> else plan
         | None \<Rightarrow>
             (case team_Claims t of
                None \<Rightarrow> plan\<lparr>pp_KeptUnclaimed := pp_KeptUnclaimed plan @ [key]\<rparr>
              | Some c \<Rightarrow>
                  let mine = source \<in> fst ` set (tc_Sources c); others = filter (\<lambda>(x, _). x \<noteq> source) (tc_Sources c)
                  in if others \<noteq> [] then (if mine then plan\<lparr>pp_KeptShared := pp_KeptShared plan @ [(key, others)]\<rparr> else plan)
                     else if \<not> mine \<and> tc_ReleasedBy c \<noteq> source then plan
                     else case pruneVerdict t sessions of
                       (runs, deferred) \<Rightarrow>
                         if 0 < runs then plan\<lparr>pp_KeptRun := pp_KeptRun plan @ [(key, runs)]\<rparr>
                         else if deferred \<noteq> [] then plan\<lparr>pp_Deferred := pp_Deferred plan @ [(key, deferred)]\<rparr>
                         else plan\<lparr>pp_WouldDelete := pp_WouldDelete plan @ [pruneDelete t sessions]\<rparr>))"

definition manifest_key :: "string \<Rightarrow> ManifestTeam \<Rightarrow> string" where
  "manifest_key ws mt = ws @ ''/'' @ mt_Name mt"

definition named_teams :: "string \<Rightarrow> ManifestTeam list \<Rightarrow> string \<rightharpoonup> ManifestTeam" where
  "named_teams ws mteams = map_of (rev (map (\<lambda>mt. (manifest_key ws mt, mt)) mteams))"

definition PlanPrune :: "string \<Rightarrow> ManifestTeam list \<Rightarrow> string \<Rightarrow> Store \<Rightarrow> PrunePlan" where
  "PlanPrune ws mteams source s =
     (let named = named_teams ws mteams;
          plan = \<lparr>pp_Workspace = ws, pp_Source = source, pp_WouldDelete = [], pp_KeptShared = [], pp_KeptUnclaimed = [],
                  pp_KeptRun = [], pp_Deferred = [], pp_Held = []\<rparr>
      in foldl (plan_team named source s) plan (sort_by (\<lambda>a b. team_key a < team_key b) (ListTeams s)))"

section \<open>What a plan lists\<close>

text \<open>Every team has one entry at most, and its entry is decided by its own record and sessions.\<close>

definition may_prune :: "string \<Rightarrow> Team \<Rightarrow> bool" where
  "may_prune source t \<longleftrightarrow> (case team_Claims t of None \<Rightarrow> False
     | Some c \<Rightarrow> (\<forall>x\<in>fst ` set (tc_Sources c). x = source) \<and> (source \<in> fst ` set (tc_Sources c) \<or> tc_ReleasedBy c = source))"

definition prunable :: "string \<Rightarrow> ManifestTeam list \<Rightarrow> string \<Rightarrow> Store \<Rightarrow> Team \<Rightarrow> bool" where
  "prunable ws mteams source s t \<longleftrightarrow> team_key t \<notin> manifest_key ws ` set mteams \<and> may_prune source t \<and>
     pruneVerdict t (team_sessions_sorted s t) = (0, [])"

lemma pruneVerdict_cases:
  "pruneVerdict t ss = (0, []) \<longleftrightarrow> (\<forall>s\<in>set ss. sess_Generation s \<noteq> 0) \<and> sh_Phase (team_Shift t) = ShiftNone \<and>
     (\<forall>s\<in>set ss. alive s \<longrightarrow> \<not> headless_seat t s)"
  "0 \<le> fst (pruneVerdict t ss)"
  by (auto simp: pruneVerdict_def Let_def list_ex_iff filter_empty_conv)

lemma pruneDelete_team [simp]: "pd_Team (pruneDelete t ss) = team_key t"
  by (simp add: pruneDelete_def Let_def)

lemma named_none: "named_teams ws mteams k = None \<longleftrightarrow> k \<notin> manifest_key ws ` set mteams"
  by (simp add: named_teams_def map_of_eq_None_iff image_image)

lemma plan_team_delete:
  shows "pp_WouldDelete (plan_team (named_teams ws mteams) source s plan t) =
    pp_WouldDelete plan @ (if prunable ws mteams source s t then [pruneDelete t (team_sessions_sorted s t)] else [])"
proof (cases "named_teams ws mteams (team_key t)")
  case None
  then have n: "team_key t \<notin> manifest_key ws ` set mteams" using named_none by metis
  obtain runs deferred where v: "pruneVerdict t (team_sessions_sorted s t) = (runs, deferred)" by fastforce
  show ?thesis
  proof (cases "team_Claims t")
    case (Some c)
    have o: "filter (\<lambda>(x, _). x \<noteq> source) (tc_Sources c) = [] \<longleftrightarrow> (\<forall>x\<in>fst ` set (tc_Sources c). x = source)"
      by (auto simp: filter_empty_conv)
    show ?thesis using None n Some v pruneVerdict_cases(2)[of t "team_sessions_sorted s t"]
      by (auto simp: plan_team_def Let_def prunable_def may_prune_def o)
  qed (use None in \<open>simp add: plan_team_def Let_def prunable_def may_prune_def\<close>)
next
  case (Some mt)
  then have "team_key t \<in> manifest_key ws ` set mteams" using named_none by (metis option.distinct(1))
  with Some show ?thesis by (simp add: plan_team_def Let_def prunable_def)
qed

text \<open>
  A prune plan lists exactly the teams the source may delete, in key order: teams the manifest does
  not name, claimed by no other source and claimed or released by this one, that hold no session of
  \<open>marvel run\<close>, are not shifting and have no live headless seat.
\<close>

theorem prune_plan_exact:
  "map pd_Team (pp_WouldDelete (PlanPrune ws mteams source s)) =
     map team_key (filter (\<lambda>t. team_key t \<notin> manifest_key ws ` set mteams \<and> may_prune source t \<and>
        list_all (\<lambda>x. sess_Generation x \<noteq> 0 \<and> \<not> (alive x \<and> headless_seat t x)) (ListSessionsByTeam s (team_Workspace t) (team_Name t)) \<and>
        sh_Phase (team_Shift t) = ShiftNone)
      (sort_by (\<lambda>a b. team_key a < team_key b) (ListTeams s)))"
proof -
  have "pp_WouldDelete (foldl (plan_team (named_teams ws mteams) source s) plan ts) =
      pp_WouldDelete plan @ map (\<lambda>t. pruneDelete t (team_sessions_sorted s t)) (filter (prunable ws mteams source s) ts)" for plan ts
    by (induction ts arbitrary: plan) (simp_all add: plan_team_delete)
  moreover have "prunable ws mteams source s = (\<lambda>t. team_key t \<notin> manifest_key ws ` set mteams \<and> may_prune source t \<and>
      list_all (\<lambda>x. sess_Generation x \<noteq> 0 \<and> \<not> (alive x \<and> headless_seat t x)) (ListSessionsByTeam s (team_Workspace t) (team_Name t)) \<and>
      sh_Phase (team_Shift t) = ShiftNone)"
    unfolding prunable_def pruneVerdict_cases(1) by (rule ext) (auto simp: team_sessions_sorted_def list_all_iff)
  ultimately show ?thesis by (simp add: PlanPrune_def Let_def comp_def)
qed

end
