(* ===== verification/Reconcile.thy ===== *)
theory Reconcile
  imports Shift Firing Prune
begin

text \<open>
  The parts of a reconcile pass around the roles (\<open>internal/team/controller.go\<close>): the liveness refresh,
  the convergence posture, the drain of dropped roles and the plan report; the prune of marked teams
  (\<open>internal/team/prune.go\<close>); and the schedule clock's round over teams and roles
  (\<open>internal/team/schedule_clock.go\<close>). Errors are values; a step the clock would panic on is \<open>None\<close>.
\<close>

section \<open>Liveness and posture\<close>

definition RefreshLiveness :: "tick_env \<Rightarrow> Fleet \<Rightarrow> Fleet" where
  "RefreshLiveness e f =
     (case ReapDead (te_commits e) (te_tx e) (te_now e) (mgr_of f) of
        (m, reaped) \<Rightarrow> let f1 = put_mgr m f in f1\<lparr>fl_ctl := reapDeadLocked (te_commits e) (te_now e) reaped (fl_ctl f1)\<rparr>)"

definition presence :: "Store \<Rightarrow> Team \<Rightarrow> string" where
  "presence s t = (if 0 < CountAlive (ListSessionsByTeam s (team_Workspace t) (team_Name t)) then PostureConverge else PostureHold)"

fun posture_loop :: "tick_env \<Rightarrow> Team list \<Rightarrow> Fleet \<Rightarrow> Fleet \<times> StoreError option" where
  "posture_loop e [] f = (f, None)"
| "posture_loop e (t # ts) f =
     (let want = presence (fl_store f) t
      in if Posture t = want then posture_loop e ts f
         else case fl_UpdateTeam e (team_key t) (\<lambda>live. live\<lparr>team_ConvergencePosture := want\<rparr>) f of
                (f1, Some err) \<Rightarrow> (f1, Some err)
              | (f1, None) \<Rightarrow> posture_loop e ts f1)"

definition InitConvergencePosture :: "tick_env \<Rightarrow> Fleet \<Rightarrow> Fleet \<times> StoreError option" where
  "InitConvergencePosture e f = posture_loop e (ListTeams (fl_store f)) f"

datatype PostureError = PostureUnknown | PostureHibernated | PostureStore StoreError

definition hibernated :: "Team \<Rightarrow> bool" where
  "hibernated t \<longleftrightarrow> (case team_Hibernate t of None \<Rightarrow> False | Some m \<Rightarrow> hm_State m = HibernateHibernated)"

definition team_plans :: "tick_env \<Rightarrow> Fleet \<Rightarrow> Team \<Rightarrow> RolePlan list" where
  "team_plans e f t =
     (if sh_Phase (team_Shift t) \<noteq> ShiftNone then []
      else map (\<lambda>role. planRole (te_now e) (te_src e) (te_bus e) (fl_ctl f) t role (team_Generation t)) (team_Roles t))"

fun set_posture :: "tick_env \<Rightarrow> string \<Rightarrow> Team list \<Rightarrow> RolePlan list \<Rightarrow> Fleet \<Rightarrow> Fleet \<times> (PostureError + RolePlan list)" where
  "set_posture e posture [] plans f = (f, Inr plans)"
| "set_posture e posture (t # ts) plans f =
     (if hibernated t then set_posture e posture ts plans f
      else case fl_UpdateTeam e (team_key t) (\<lambda>live. live\<lparr>team_ConvergencePosture := posture\<rparr>) f of
             (f1, Some err) \<Rightarrow> (f1, Inl (PostureStore err))
           | (f1, None) \<Rightarrow>
               (case GetTeam (fl_store f1) (team_key t) of
                  Inl err \<Rightarrow> (f1, Inl (PostureStore err))
                | Inr t1 \<Rightarrow> set_posture e posture ts (plans @ team_plans e f1 t1) f1))"

definition SetConvergencePosture :: "tick_env \<Rightarrow> string \<Rightarrow> string \<Rightarrow> Fleet \<Rightarrow> Fleet \<times> (PostureError + RolePlan list)" where
  "SetConvergencePosture e teamKey posture f =
     (if posture \<noteq> PostureConverge \<and> posture \<noteq> PostureHold then (f, Inl PostureUnknown)
      else if teamKey = [] then set_posture e posture (ListTeams (fl_store f)) [] f
      else case GetTeam (fl_store f) teamKey of
             Inl err \<Rightarrow> (f, Inl (PostureStore err))
           | Inr t \<Rightarrow> if hibernated t then (f, Inl PostureHibernated) else set_posture e posture [t] [] f)"

definition PlanConvergence :: "tick_env \<Rightarrow> Fleet \<Rightarrow> RolePlan list" where
  "PlanConvergence e f = concat (map (team_plans e f) (ListTeams (fl_store f)))"

section \<open>Seats of a dropped role\<close>

text \<open>One session's round: the third component is the roles a seat was drained of. Go visits them in no
  fixed order; only the order of the \<open>role.removed\<close> events depends on it.\<close>

definition drain_orphan :: "tick_env \<Rightarrow> string list \<Rightarrow> (Team \<times> Fleet) \<times> string list \<Rightarrow> Session \<Rightarrow> (Team \<times> Fleet) \<times> string list" where
  "drain_orphan e known = (\<lambda>((t, f), dropped) sess.
     if sess_Role sess \<in> set known \<or> sess_Generation sess = 0 \<or> isRetiring t (session_key sess) then ((t, f), dropped)
     else let key = role_key (team_Workspace t) (team_Name t) (sess_Role sess);
              n = (case fl_roleDrained f key of Some n \<Rightarrow> n | None \<Rightarrow> 0);
              f1 = f\<lparr>fl_roleDrained := (fl_roleDrained f)(key \<mapsto> n + 1)\<rparr>
          in (retireSession e None sess (t, f1), List.insert (sess_Role sess) dropped))"

definition reconcileOrphanedSessions :: "tick_env \<Rightarrow> Team \<times> Fleet \<Rightarrow> Team \<times> Fleet" where
  "reconcileOrphanedSessions e = (\<lambda>(t, f).
     let (tf, dropped) = foldl (drain_orphan e (map role_Name (team_Roles t))) ((t, f), [])
                           (ListSessionsByTeam (fl_store f) (team_Workspace t) (team_Name t))
     in foldl (\<lambda>tf role. finishRoleRemoval e role tf) tf dropped)"

section \<open>Deleting and pruning teams\<close>

definition deleteSessionsLocked :: "tick_env \<Rightarrow> string list \<Rightarrow> Fleet \<Rightarrow> Fleet" where
  "deleteSessionsLocked e keys f = foldl (\<lambda>f k. DeleteAndReap e k f) f keys"

definition put_store :: "Store \<Rightarrow> Fleet \<Rightarrow> Fleet" where
  "put_store s f = f\<lparr>fl_ctl := (fl_ctl f)\<lparr>c_store := s\<rparr>\<rparr>"

definition deleteTeamLocked :: "tick_env \<Rightarrow> Team \<Rightarrow> Fleet \<Rightarrow> Fleet \<times> StoreError option" where
  "deleteTeamLocked e t f =
     (let f1 = deleteSessionsLocked e (map session_key (ListSessionsByTeam (fl_store f) (team_Workspace t) (team_Name t))) f
      in case DeleteTeam (te_commits e) (team_key t) (fl_store f1) of
           (s, err) \<Rightarrow> let f2 = put_store s f1
                       in (f2\<lparr>fl_ctl := clearRoleHealthForTeamLocked (te_commits e) (team_Workspace t) (team_Name t) (fl_ctl f2)\<rparr>, err))"

definition unmarkPruning :: "tick_env \<Rightarrow> string \<Rightarrow> Fleet \<Rightarrow> Fleet" where
  "unmarkPruning e key f = fst (fl_UpdateTeam e key (\<lambda>live. live\<lparr>team_Pruning := None\<rparr>) f)"

text \<open>\<open>strings.Cut(key, "/")\<close>: what stands before and after the first slash.\<close>

definition cut_key :: "string \<Rightarrow> string \<times> string" where
  "cut_key key = (takeWhile (\<lambda>c. c \<noteq> CHR ''/'') key, drop 1 (dropWhile (\<lambda>c. c \<noteq> CHR ''/'') key))"

definition finishPrunedTeamLocked :: "tick_env \<Rightarrow> string \<Rightarrow> string list \<Rightarrow> Fleet \<Rightarrow> Fleet" where
  "finishPrunedTeamLocked e key sessions f =
     (case cut_key key of
        (ws, name) \<Rightarrow>
          let f1 = deleteSessionsLocked e sessions f;
              c = clearRoleHealthForTeamLocked (te_commits e) ws name (fl_ctl f1)
          in f1\<lparr>fl_ctl := emit KindTeamPruned ws name [] [] c\<rparr>)"

text \<open>The reconcile's end of a prune. The pass also lists the team for the daemon, which revokes its
  broker user.\<close>

definition finishPrune :: "tick_env \<Rightarrow> Team \<Rightarrow> TeamPruning \<Rightarrow> Fleet \<Rightarrow> Fleet" where
  "finishPrune e t p f =
     (case DeleteTeamIf (te_commits e) (team_key t) (PruneDeleteCheck (PruneRecheck (tp_Source p))) (fl_store f) of
        (s, Inl _) \<Rightarrow> put_store s f
      | (s, Inr (reason, sessions)) \<Rightarrow>
          if reason = ReasonDraining then put_store s f
          else if reason \<noteq> [] then unmarkPruning e (team_key t) (put_store s f)
          else finishPrunedTeamLocked e (team_key t) sessions (put_store s f))"

datatype PruneReason = PruneError StoreError | PruneKept string

record prune_result =
  pr_deleted :: "string list"
  pr_draining :: "(string \<times> int) list"
  pr_skipped :: "(string \<times> PruneReason) list"

definition skip_team :: "string \<Rightarrow> PruneReason \<Rightarrow> prune_result \<Rightarrow> prune_result" where
  "skip_team key why r = r\<lparr>pr_skipped := pr_skipped r @ [(key, why)]\<rparr>"

definition prune_one :: "tick_env \<Rightarrow> TeamPruning \<Rightarrow> (Team \<Rightarrow> Session list \<Rightarrow> string) \<Rightarrow> Fleet \<times> prune_result \<Rightarrow> string \<Rightarrow>
    Fleet \<times> prune_result" where
  "prune_one e p chk = (\<lambda>(f, r) key.
     case MarkPruning (te_commits e) key p chk (fl_store f) of
       (s, Inl err) \<Rightarrow> (put_store s f, skip_team key (PruneError err) r)
     | (s, Inr reason) \<Rightarrow>
         if reason \<noteq> [] then (put_store s f, skip_team key (PruneKept reason) r)
         else case DeleteTeamIf (te_commits e) key (PruneDeleteCheck chk) s of
           (s1, Inl err) \<Rightarrow> (unmarkPruning e key (put_store s1 f), skip_team key (PruneError err) r)
         | (s1, Inr (why, sessions)) \<Rightarrow>
             if why = ReasonDraining
             then (case cut_key key of (ws, name) \<Rightarrow>
                     (put_store s1 f, r\<lparr>pr_draining := pr_draining r @ [(key, CountAlive (ListSessionsByTeam s1 ws name))]\<rparr>))
             else if why \<noteq> [] then (unmarkPruning e key (put_store s1 f), skip_team key (PruneKept why) r)
             else (finishPrunedTeamLocked e key sessions (put_store s1 f), r\<lparr>pr_deleted := pr_deleted r @ [key]\<rparr>))"

text \<open>The controller's method \<open>Prune\<close>.\<close>

definition PruneTeams :: "tick_env \<Rightarrow> string list \<Rightarrow> TeamPruning \<Rightarrow> (Team \<Rightarrow> Session list \<Rightarrow> string) \<Rightarrow> Fleet \<Rightarrow> Fleet \<times> prune_result" where
  "PruneTeams e keys p chk f =
     foldl (prune_one e p chk) (f, \<lparr>pr_deleted = [], pr_draining = [], pr_skipped = []\<rparr>) (sort keys)"

section \<open>The schedule clock's round\<close>

definition stepScheduleClock :: "zone_db \<Rightarrow> (duration \<Rightarrow> duration) \<Rightarrow> tick_env \<Rightarrow> Team \<Rightarrow> Role \<Rightarrow> SchedulePolicy \<Rightarrow> Fleet \<Rightarrow> Fleet option" where
  "stepScheduleClock tzdb jit e t role p f =
     (if hibernated t \<and> Covers (team_Hibernate t) (role_Name role) then Some f
      else
        let key = role_key (team_Workspace t) (team_Name t) (role_Name role);
            live = map session_key (filter alive (ListSessionsByTeamRole (fl_store f) (team_Workspace t) (team_Name t) (role_Name role)));
            withheld = postureWithholds (fl_ctl f) t;
            st0 = (case schedule_at (fl_store f) key of None \<Rightarrow> new_status key | Some x \<Rightarrow> x)
        in case advanceFiring tzdb jit t role p (te_now e) live withheld st0 of
             None \<Rightarrow> None
           | Some (st, changed, step) \<Rightarrow>
               (case UpdateScheduleStatus (te_commits e) key (\<lambda>_. (st, changed)) (fl_store f) of
                  (s, _, Some _) \<Rightarrow> Some (put_store s f)
                | (s, _, None) \<Rightarrow>
                    let f1 = foldl (\<lambda>f k. fst (fl_Delete e k f)) (put_store s f) (cl_kill step)
                    in Some (f1\<lparr>fl_ctl := (fl_ctl f1)\<lparr>c_events := c_events (fl_ctl f1) @ cl_events step\<rparr>\<rparr>)))"

definition killPastDeadline :: "tick_env \<Rightarrow> Team \<Rightarrow> Role \<Rightarrow> SchedulePolicy \<Rightarrow> Fleet \<Rightarrow> Fleet" where
  "killPastDeadline e t role p f =
     (if sp_ActiveDeadline p \<le> 0 \<or> rt_Name (role_Runtime role) = ''goose'' then f
      else foldl (\<lambda>f s. if \<not> alive s \<or> sess_Firing s = [] \<or> time_sub (te_now e) (sess_CreatedAt s) \<le> sp_ActiveDeadline p then f
                        else put_mgr (fst (KillPastDeadline (te_commits e) (te_tx e) (te_now e) (session_key s) (mgr_of f))) f)
             f (ListSessionsByTeamRole (fl_store f) (team_Workspace t) (team_Name t) (role_Name role)))"

fun clock_roles :: "zone_db \<Rightarrow> (duration \<Rightarrow> duration) \<Rightarrow> tick_env \<Rightarrow> Team \<Rightarrow> Role list \<Rightarrow> Fleet \<Rightarrow> Fleet option" where
  "clock_roles tzdb jit e t [] f = Some f"
| "clock_roles tzdb jit e t (role # roles) f =
     (case role_Schedule role of
        None \<Rightarrow> clock_roles tzdb jit e t roles f
      | Some p \<Rightarrow> (case stepScheduleClock tzdb jit e t role p f of
                    None \<Rightarrow> None
                  | Some f1 \<Rightarrow> clock_roles tzdb jit e t roles (killPastDeadline e t role p f1)))"

fun reconcileScheduleClock :: "zone_db \<Rightarrow> (duration \<Rightarrow> duration) \<Rightarrow> tick_env \<Rightarrow> Team list \<Rightarrow> Fleet \<Rightarrow> Fleet option" where
  "reconcileScheduleClock tzdb jit e [] f = Some f"
| "reconcileScheduleClock tzdb jit e (t # ts) f =
     (case clock_roles tzdb jit e t (team_Roles t) f of None \<Rightarrow> None | Some f1 \<Rightarrow> reconcileScheduleClock tzdb jit e ts f1)"

end
