(* ===== verification/Hibernate.thy ===== *)
theory Hibernate
  imports Handoff Reconcile
begin

text \<open>
  Hibernate and wake (\<open>internal/team/hibernate.go\<close>): a hibernate marks the team, so that nothing spawns for
  the roles it covers, and signs its seats off one tier at a time: workers are asked for their handoff,
  a seat whose handoff is read complete is ended, and the supervisors are asked once every worker has
  ended or been reported. A wake sets the posture and lets the planner bring the roles back.

  Who asked, through what and in which mode is not recorded here; the messages about a missing handoff
  are left out, as in \<open>Handoff\<close>.
\<close>

section \<open>The seats a hibernate asks\<close>

definition runningSeats :: "Team \<Rightarrow> Role \<Rightarrow> Fleet \<Rightarrow> Session list" where
  "runningSeats t role f =
     sort_by (\<lambda>a b. session_key a < session_key b)
       (filter (\<lambda>s. \<not> (sess_State s \<noteq> SessionRunning \<or> isRetiring t (session_key s) \<or> rt_Mode (role_Runtime role) = RuntimeModeHeadless))
         (ListSessionsByTeamRole (fl_store f) (team_Workspace t) (team_Name t) (role_Name role)))"

definition putHibernateRequest :: "tick_env \<Rightarrow> ShiftRequest \<Rightarrow> Team \<times> Fleet \<Rightarrow> bool \<times> Team \<times> Fleet" where
  "putHibernateRequest e req = (\<lambda>(t, f).
     let put = (\<lambda>x. x\<lparr>team_HibernateRequests := AList.update (sr_Session req) req (team_HibernateRequests x)\<rparr>)
     in case fl_UpdateTeam e (team_key t) put f of (f1, Some _) \<Rightarrow> (False, t, f1) | (f1, None) \<Rightarrow> (True, put t, f1))"

definition dropHibernateRequest :: "tick_env \<Rightarrow> string \<Rightarrow> Team \<times> Fleet \<Rightarrow> Team \<times> Fleet" where
  "dropHibernateRequest e session = (\<lambda>(t, f).
     let drop = (\<lambda>x. x\<lparr>team_HibernateRequests := AList.delete session (team_HibernateRequests x)\<rparr>)
     in case fl_UpdateTeam e (team_key t) drop f of
          (f1, err) \<Rightarrow> if (case err of None \<Rightarrow> True | Some (ErrNotFound _) \<Rightarrow> True | Some _ \<Rightarrow> False) then (drop t, f1) else (t, f1))"

text \<open>The pause a seat is left and how long it may defer: the last max-age condition that sets one.\<close>

definition ask_pause :: "Role \<Rightarrow> duration" where
  "ask_pause role = foldl (\<lambda>q c. if sc_On c = ShiftTriggerMaxAge \<and> 0 < sc_QuietFor c then sc_QuietFor c else q)
     DefaultShiftAskPause (Conditions (role_Shift role))"

definition ask_defer :: "Role \<Rightarrow> duration" where
  "ask_defer role = foldl (\<lambda>d c. if sc_On c = ShiftTriggerMaxAge \<and> 0 < sc_MaxDefer c then sc_MaxDefer c else d)
     DefaultShiftMaxDefer (Conditions (role_Shift role))"

definition mark_since :: "Team \<Rightarrow> time" where
  "mark_since t = (case team_Hibernate t of None \<Rightarrow> zero_time | Some m \<Rightarrow> hm_Since m)"

definition askHibernate :: "tick_env \<Rightarrow> Role \<Rightarrow> Session \<Rightarrow> Team \<times> Fleet \<Rightarrow> Team \<times> Fleet" where
  "askHibernate e role sess = (\<lambda>(t, f).
     if map_of (team_HibernateRequests t) (session_key sess) \<noteq> None then (t, f)
     else if time_sub (te_now e) (lastWorked sess) < ask_pause role \<and> time_sub (te_now e) (mark_since t) < ask_defer role then (t, f)
     else case putHibernateRequest e (new_request e HandoffCauseHibernate sess) (t, f) of
       (False, t1, f1) \<Rightarrow> (t1, f1)
     | (True, t1, f1) \<Rightarrow> (t1, fl_emit KindShiftHandoffRequested t1 (role_Name role) (session_key sess) f1))"

section \<open>Ending a seat\<close>

definition add_seat :: "string \<Rightarrow> Team \<Rightarrow> Team" where
  "add_seat key t =
     t\<lparr>team_Hibernate := map_option (\<lambda>m. if key \<in> set (hm_Seats m) then m else m\<lparr>hm_Seats := hm_Seats m @ [key]\<rparr>) (team_Hibernate t)\<rparr>"

definition recordHibernatedSeat :: "tick_env \<Rightarrow> string \<Rightarrow> Team \<times> Fleet \<Rightarrow> Team \<times> Fleet" where
  "recordHibernatedSeat e key = (\<lambda>(t, f).
     case fl_UpdateTeam e (team_key t) (add_seat key) f of
       (f1, err) \<Rightarrow> if (case err of None \<Rightarrow> True | Some (ErrNotFound _) \<Rightarrow> True | Some _ \<Rightarrow> False) then (add_seat key t, f1) else (t, f1))"

definition endHibernated :: "tick_env \<Rightarrow> Session \<Rightarrow> Team \<times> Fleet \<Rightarrow> Team \<times> Fleet" where
  "endHibernated e sess = (\<lambda>(t, f).
     recordHibernatedSeat e (session_key sess) (dropHibernateRequest e (session_key sess)
       (t, fst (fl_Delete e (session_key sess) (fl_emit KindSessionRetired t (sess_Role sess) (session_key sess) f)))))"

definition advanceHibernateRequest :: "tick_env \<Rightarrow> ShiftRequest \<Rightarrow> Team \<times> Fleet \<Rightarrow> Team \<times> Fleet" where
  "advanceHibernateRequest e req = (\<lambda>(t, f).
     case GetSession (fl_store f) (sr_Session req) of
       Inl _ \<Rightarrow> dropHibernateRequest e (sr_Session req) (t, f)
     | Inr sess \<Rightarrow>
     if \<not> CountsAsAlive (sess_State sess) \<or> \<not> sess_CreatedAt sess < sr_RequestedAt req then dropHibernateRequest e (sr_Session req) (t, f)
     else case find_role t (sess_Role sess) of
       None \<Rightarrow> dropHibernateRequest e (sr_Session req) (t, f)
     | Some role \<Rightarrow>
     if sr_Escalated req then (t, f)
     else
       let path = handoff_file e role sess;
           read = (if path = [] then None else te_probe e (session_key sess));
           window = HandoffWindowOrDefault (role_Shift role)
       in if (case read of Some r \<Rightarrow> pr_complete r | None \<Rightarrow> False) then endHibernated e sess (t, f)
          else if time_sub (te_now e) (sr_RequestedAt req) < window then (t, f)
          else if path \<noteq> [] \<and> (case read of None \<Rightarrow> True | Some r \<Rightarrow> pr_startedAt r < sr_RequestedAt req + window) then (t, f)
          else snd (putHibernateRequest e (req\<lparr>sr_Escalated := True\<rparr>) (t, f)))"

section \<open>The sign-off\<close>

definition workersSettled :: "Team \<Rightarrow> Role list \<Rightarrow> Fleet \<Rightarrow> bool" where
  "workersSettled t workers f \<longleftrightarrow>
     list_all (\<lambda>role. list_all (\<lambda>s. case map_of (team_HibernateRequests t) (session_key s) of None \<Rightarrow> False | Some req \<Rightarrow> sr_Escalated req)
       (runningSeats t role f)) workers"

definition ask_role :: "tick_env \<Rightarrow> Role \<Rightarrow> Team \<times> Fleet \<Rightarrow> Team \<times> Fleet" where
  "ask_role e role tf = foldl (\<lambda>tf s. askHibernate e role s tf) tf (runningSeats (fst tf) role (snd tf))"

definition noteHibernated :: "tick_env \<Rightarrow> Team \<times> Fleet \<Rightarrow> Team \<times> Fleet" where
  "noteHibernated e = (\<lambda>(t, f).
     if team_HibernateRequests t \<noteq> [] \<or>
        list_ex (\<lambda>role. Covers (team_Hibernate t) (role_Name role) \<and>
                        0 < CountAlive (ListSessionsByTeamRole (fl_store f) (team_Workspace t) (team_Name t) (role_Name role))) (team_Roles t) \<or>
        fl_hibernateSaid f (team_key t) = Some (mark_since t)
     then (t, f)
     else (t, fl_emit KindTeamHibernated t [] [] (f\<lparr>fl_hibernateSaid := (fl_hibernateSaid f)(team_key t \<mapsto> mark_since t)\<rparr>)))"

text \<open>A key whose request an earlier round dropped reads as the zero request.\<close>

definition no_request :: ShiftRequest where
  "no_request = \<lparr>sr_Session = [], sr_RequestedAt = zero_time, sr_Cause = [], sr_NoticeUndelivered = [], sr_Escalated = False\<rparr>"

definition advance_requests :: "tick_env \<Rightarrow> Team \<times> Fleet \<Rightarrow> Team \<times> Fleet" where
  "advance_requests e tf =
     foldl (\<lambda>tf k. advanceHibernateRequest e (case map_of (team_HibernateRequests (fst tf)) k of Some req \<Rightarrow> req | None \<Rightarrow> no_request) tf)
       tf (sort (map fst (team_HibernateRequests (fst tf))))"

definition advanceSignOff :: "tick_env \<Rightarrow> Team \<times> Fleet \<Rightarrow> Team \<times> Fleet" where
  "advanceSignOff e tf =
     (let tf1 = advance_requests e tf;
          (workers, supervisors) = coveredRoles (fst tf1);
          tf2 = foldl (\<lambda>tf role. ask_role e role tf) tf1 workers
      in if \<not> workersSettled (fst tf2) workers (snd tf2) then tf2
         else noteHibernated e (foldl (\<lambda>tf role. ask_role e role tf) tf2 supervisors))"

section \<open>Waking\<close>

definition advanceWake :: "tick_env \<Rightarrow> Team \<times> Fleet \<Rightarrow> Team \<times> Fleet" where
  "advanceWake e = (\<lambda>(t, f).
     if list_ex (\<lambda>role. Covers (team_Hibernate t) (role_Name role) \<and>
          CountAlive (ListSessionsByTeamRole (fl_store f) (team_Workspace t) (team_Name t) (role_Name role)) < DesiredReplicas t role) (team_Roles t)
     then (t, f)
     else case fl_UpdateTeam e (team_key t) (\<lambda>live. live\<lparr>team_Hibernate := None\<rparr>) f of
       (f1, Some _) \<Rightarrow> (t, f1)
     | (f1, None) \<Rightarrow> (t\<lparr>team_Hibernate := None\<rparr>,
                       fl_emit KindTeamWoken t [] [] (f1\<lparr>fl_hibernateSaid := (fl_hibernateSaid f1)(team_key t := None)\<rparr>)))"

definition advanceHibernate :: "tick_env \<Rightarrow> Team \<times> Fleet \<Rightarrow> Team \<times> Fleet" where
  "advanceHibernate e tf =
     (case team_Hibernate (fst tf) of
        None \<Rightarrow> tf
      | Some m \<Rightarrow> if hm_State m = HibernateWaking then advanceWake e tf else advanceSignOff e tf)"

section \<open>The operator's commands\<close>

datatype HibernateError = HibernateStore StoreError | HibernateMidShift | HibernatePruning | HibernateNoRole string | HibernateNotCovered
  | HibernateNotSeat | HibernateNotRunning | WakeNotHibernated

definition mark_hibernated :: "time \<Rightarrow> string list \<Rightarrow> Team \<Rightarrow> Team" where
  "mark_hibernated now roles live =
     (let after = HibernateRolesAfter (team_Hibernate live) roles;
          m = (case team_Hibernate live of
                 Some m \<Rightarrow> if hm_State m = HibernateHibernated then m
                           else \<lparr>hm_State = HibernateHibernated, hm_Since = now, hm_Roles = [], hm_Seats = hm_Seats m\<rparr>
               | None \<Rightarrow> \<lparr>hm_State = HibernateHibernated, hm_Since = now, hm_Roles = [], hm_Seats = []\<rparr>)
      in live\<lparr>team_Hibernate := Some (m\<lparr>hm_Roles := after\<rparr>)\<rparr>)"

definition drop_covered :: "tick_env \<Rightarrow> Team \<times> Fleet \<Rightarrow> Role \<Rightarrow> Team \<times> Fleet" where
  "drop_covered e tf role =
     (if Covers (team_Hibernate (fst tf)) (role_Name role) \<and> team_ShiftRequests (fst tf) (role_Name role) \<noteq> None
      then dropShiftRequest e (role_Name role) tf else tf)"

text \<open>\<open>Hibernate\<close>; the report is the covered roles and the seats to sign off.\<close>

definition HibernateTeam :: "tick_env \<Rightarrow> string \<Rightarrow> string list \<Rightarrow> Fleet \<Rightarrow> Fleet \<times> (HibernateError + string list \<times> int)" where
  "HibernateTeam e teamKey roles f =
     (case GetTeam (fl_store f) teamKey of
        Inl err \<Rightarrow> (f, Inl (HibernateStore err))
      | Inr t \<Rightarrow>
      if sh_Phase (team_Shift t) \<noteq> ShiftNone then (f, Inl HibernateMidShift)
      else if team_Pruning t \<noteq> None then (f, Inl HibernatePruning)
      else case find (\<lambda>name. find_role t name = None) roles of
        Some name \<Rightarrow> (f, Inl (HibernateNoRole name))
      | None \<Rightarrow>
      case fl_UpdateTeam e teamKey (mark_hibernated (te_now e) roles) f of
        (f1, Some err) \<Rightarrow> (f1, Inl (HibernateStore err))
      | (f1, None) \<Rightarrow>
      case GetTeam (fl_store f1) teamKey of
        Inl err \<Rightarrow> (f1, Inl (HibernateStore err))
      | Inr t1 \<Rightarrow>
          let covered = filter (\<lambda>r. Covers (team_Hibernate t1) (role_Name r)) (team_Roles t1)
          in (snd (foldl (drop_covered e) (t1, f1) (team_Roles t1)),
              Inr (map role_Name covered, sum_list (map (\<lambda>r. int (length (runningSeats t1 r f1))) covered))))"

definition HibernateEnd :: "tick_env \<Rightarrow> string \<Rightarrow> string \<Rightarrow> Fleet \<Rightarrow> Fleet \<times> HibernateError option" where
  "HibernateEnd e teamKey session f =
     (case GetTeam (fl_store f) teamKey of
        Inl err \<Rightarrow> (f, Some (HibernateStore err))
      | Inr t \<Rightarrow>
      case GetSession (fl_store f) session of
        Inl _ \<Rightarrow> (f, Some HibernateNotSeat)
      | Inr sess \<Rightarrow>
      if sess_Workspace sess \<noteq> team_Workspace t \<or> sess_Team sess \<noteq> team_Name t then (f, Some HibernateNotSeat)
      else if \<not> hibernated t \<or> \<not> Covers (team_Hibernate t) (sess_Role sess) then (f, Some HibernateNotCovered)
      else if \<not> CountsAsAlive (sess_State sess) then (f, Some HibernateNotRunning)
      else (snd (endHibernated e sess (t, f)), None))"

definition mark_waking :: "time \<Rightarrow> Team \<Rightarrow> Team" where
  "mark_waking now live =
     live\<lparr>team_ConvergencePosture := PostureConverge,
          team_Hibernate := map_option (\<lambda>m. m\<lparr>hm_State := HibernateWaking, hm_Since := now\<rparr>) (team_Hibernate live)\<rparr>"

definition Wake :: "tick_env \<Rightarrow> string \<Rightarrow> Fleet \<Rightarrow> Fleet \<times> HibernateError option" where
  "Wake e teamKey f =
     (case GetTeam (fl_store f) teamKey of
        Inl err \<Rightarrow> (f, Some (HibernateStore err))
      | Inr t \<Rightarrow>
      if team_Hibernate t = None then (f, Some WakeNotHibernated)
      else case fl_UpdateTeam e teamKey (mark_waking (te_now e)) f of
        (f1, Some err) \<Rightarrow> (f1, Some (HibernateStore err))
      | (f1, None) \<Rightarrow>
      case GetTeam (fl_store f1) teamKey of
        Inl err \<Rightarrow> (f1, Some (HibernateStore err))
      | Inr t1 \<Rightarrow>
          (fl_emit KindTeamWaking t1 [] []
             (snd (foldl (\<lambda>tf k. dropHibernateRequest e k tf) (t1, f1) (map fst (team_HibernateRequests t1)))), None))"

section \<open>The pass over one team\<close>

text \<open>\<open>reconcileTeam\<close>. Taking the handoff directories up again after a restart (\<open>resumeRetireDirs\<close>) and telling
  seats that their views moved (\<open>deliverViewNotices\<close>) change no record.\<close>

definition reconcileTeam :: "tick_env \<Rightarrow> Team \<times> Fleet \<Rightarrow> Team \<times> Fleet" where
  "reconcileTeam e tf =
     (let (t, f) = evaluateShiftTriggers e (reconcileAdmissionState e (reconcileOrphanedSessions e
                     (advanceHibernate e (advanceRetirements e tf))))
      in if sh_Phase (team_Shift t) \<noteq> ShiftNone then reconcileShift e (t, f)
         else case foldl (\<lambda>tf role. reconcileRole e role tf) (t, f) (team_Roles t) of
                (t1, f1) \<Rightarrow> (case team_Pruning t1 of None \<Rightarrow> (t1, f1) | Some p \<Rightarrow> (t1, finishPrune e t1 p f1)))"

end
