(* ===== verification/Reconcile_Properties.thy ===== *)
theory Reconcile_Properties
  imports Reconcile Retirement_Properties
begin

text \<open>
  The postures a starting daemon sets; the drain of dropped roles touches no other seat and kills
  no running one; a prune removes no live seat and no team that still has one.
\<close>

section \<open>The start line\<close>

definition teams_keyed :: "Store \<Rightarrow> bool" where
  "teams_keyed s \<longleftrightarrow> list_all (\<lambda>(k, t). k = team_key t) (st_teams s) \<and> distinct (map fst (st_teams s))"

lemma presence_cong:
  assumes "st_sessions s' = st_sessions s" "team_Workspace t' = team_Workspace t" "team_Name t' = team_Name t"
  shows "presence s' t' = presence s t"
  using assms by (simp add: presence_def ListSessionsByTeam_def ListSessions_def)

lemma presence_posture: "presence s t = PostureConverge \<or> presence s t = PostureHold"
  by (simp add: presence_def)

lemma Posture_set: "Posture (t\<lparr>team_ConvergencePosture := presence s u\<rparr>) = presence s u"
  by (auto simp: Posture_def presence_def PostureHold_def PostureConverge_def)

lemma posture_loop_sets:
  assumes "posture_loop e ts f = (f', None)" and "distinct (map team_key ts)" and "\<And>t. t \<in> set ts \<Longrightarrow> fteams f (team_key t) = Some t"
  shows "fseats f' = fseats f \<and> (\<forall>k. k \<notin> team_key ` set ts \<longrightarrow> fteams f' k = fteams f k) \<and>
    (\<forall>t\<in>set ts. \<exists>u. fteams f' (team_key t) = Some u \<and> team_Workspace u = team_Workspace t \<and> team_Name u = team_Name t \<and>
       Posture u = presence (fl_store f) t)"
  using assms
proof (induction ts arbitrary: f)
  case (Cons t ts)
  let ?g = "\<lambda>live. live\<lparr>team_ConvergencePosture := presence (fl_store f) t\<rparr>"
  obtain f1 where f1: "posture_loop e ts f1 = (f', None)" "fseats f1 = fseats f" "\<And>k. k \<noteq> team_key t \<Longrightarrow> fteams f1 k = fteams f k"
    "\<exists>u. fteams f1 (team_key t) = Some u \<and> team_Workspace u = team_Workspace t \<and> team_Name u = team_Name t \<and> Posture u = presence (fl_store f) t"
  proof (cases "Posture t = presence (fl_store f) t")
    case True
    with Cons.prems that[of f] show thesis by auto
  next
    case False
    obtain f1 err where u: "fl_UpdateTeam e (team_key t) ?g f = (f1, err)" by fastforce
    have "fseats f1 = fseats f" using fl_UpdateTeam_seats[of e "team_key t" ?g f] u by simp
    moreover have "fteams f1 = (fteams f)(team_key t \<mapsto> ?g t)"
      using fl_UpdateTeam_teams[of e "team_key t" ?g f] u Cons.prems(3)[of t] by simp
    ultimately show thesis using that[of f1] False u Cons.prems(1) by (auto simp: Let_def Posture_set split: option.splits)
  qed
  have nk: "team_key t \<notin> team_key ` set ts" using Cons.prems(2) by simp
  then have "\<And>x. x \<in> set ts \<Longrightarrow> fteams f1 (team_key x) = Some x"
    using f1(3) Cons.prems(3) by (metis image_eqI list.set_intros(2))
  from Cons.IH[OF f1(1) _ this] Cons.prems(2) have ih: "fseats f' = fseats f1" "\<And>k. k \<notin> team_key ` set ts \<Longrightarrow> fteams f' k = fteams f1 k"
    "\<And>x. x \<in> set ts \<Longrightarrow> \<exists>u. fteams f' (team_key x) = Some u \<and> team_Workspace u = team_Workspace x \<and> team_Name u = team_Name x \<and>
       Posture u = presence (fl_store f1) x" by simp_all
  have "presence (fl_store f1) x = presence (fl_store f) x" for x using presence_cong[OF f1(2)] by simp
  with ih f1(2-4) nk show ?case by auto
qed simp

lemma teams_keyed_listed:
  assumes "teams_keyed s"
  shows "distinct (map team_key (ListTeams s))" "t \<in> set (ListTeams s) \<Longrightarrow> team_at s (team_key t) = Some t"
    "team_at s k = Some t \<Longrightarrow> t \<in> set (ListTeams s) \<and> team_key t = k"
proof -
  have m: "map team_key (ListTeams s) = map fst (st_teams s)"
    using assms by (auto simp: ListTeams_def teams_keyed_def list_all_iff)
  with assms show "distinct (map team_key (ListTeams s))" by (simp add: teams_keyed_def)
  show "t \<in> set (ListTeams s) \<Longrightarrow> team_at s (team_key t) = Some t"
    using assms by (auto simp: ListTeams_def teams_keyed_def list_all_iff map_of_eq_Some_iff)
  show "team_at s k = Some t \<Longrightarrow> t \<in> set (ListTeams s) \<and> team_key t = k"
    using assms by (force simp: ListTeams_def teams_keyed_def list_all_iff dest!: map_of_SomeD)
qed

lemma fl_Delete_shrinks:
  assumes "keyed (fseats f)" "frows (fst (fl_Delete e k f)) j \<noteq> None"
  shows "frows f j \<noteq> None"
proof (cases "j = k")
  case True
  then show ?thesis using assms(2) by (cases "frows f k") (simp_all add: fl_call_store Delete_def deleteSession_def GetSession_def)
next
  case False
  then show ?thesis using fl_Delete_other[of j k f e] assms by simp
qed

lemma DeleteAndReap_other: "j \<noteq> k \<Longrightarrow> keyed (fseats f) \<Longrightarrow> frows (DeleteAndReap e k f) j = frows f j"
  by (simp add: DeleteAndReap_def fl_Delete_other split: sum.split)

lemma DeleteAndReap_keyed: "keyed (fseats f) \<Longrightarrow> keyed (fseats (DeleteAndReap e k f))"
  by (simp add: DeleteAndReap_def fl_Delete_keyed split: sum.split)

lemma DeleteAndReap_teams [simp]: "fteams (DeleteAndReap e k f) = fteams f"
  by (simp add: DeleteAndReap_def split: sum.split)

lemma DeleteAndReap_shrinks: "keyed (fseats f) \<Longrightarrow> frows (DeleteAndReap e k f) j \<noteq> None \<Longrightarrow> frows f j \<noteq> None"
  using fl_Delete_shrinks[of f e k j] by (auto simp: DeleteAndReap_def split: sum.splits)

lemma frame_empty:
  assumes "role_frame {} a b"
  shows "fseats (snd b) = fseats (snd a)"
proof -
  have "al' = al" if "seat_steps {} al al'" for al al'
    using that by (induction rule: rtranclp_induct) (auto elim: seat_stepE)
  then show ?thesis using assms by (simp add: role_frame_def)
qed

text \<open>A retirement asks a running seat and leaves its row; any other seat is deleted at once.\<close>

lemma retireSession_seats:
  obtains "fseats (snd (retireSession e role sess (t, f))) = fseats f"
  | g where "fl_store g = fl_store f" "fseats (snd (retireSession e role sess (t, f))) = fseats (DeleteAndReap e (session_key sess) g)"
      "\<not> (sess_State sess = SessionRunning \<and> role = None)" "\<not> isRetiring t (session_key sess)"
proof -
  have q: "fseats (snd (dropShiftRequest e r (t, f))) = fseats f" for r
    using frame_empty[OF dropShiftRequest_frame] by simp
  let ?headless = "case role of None \<Rightarrow> False | Some r \<Rightarrow> rt_Mode (role_Runtime r) = RuntimeModeHeadless"
  consider "isRetiring t (session_key sess)" | "\<not> isRetiring t (session_key sess)" "sess_State sess \<noteq> SessionRunning"
    | "\<not> isRetiring t (session_key sess)" "sess_State sess = SessionRunning" ?headless
    | "\<not> isRetiring t (session_key sess)" "sess_State sess = SessionRunning" "\<not> ?headless" by blast
  then show thesis
  proof cases
    case 1
    then show thesis by (intro that(1)) (simp add: retireSession_def)
  next
    case 2
    then show thesis by (intro that(2)[of "fl_emit KindSessionRetired t (sess_Role sess) (session_key sess) f"]) (simp_all add: retireSession_def)
  next
    case 3
    then show thesis by (intro that(2)[of f]) (simp_all add: retireSession_def split: option.splits)
  next
    case 4
    have "fseats (snd (retireSession e role sess (t, f))) = fseats f"
    proof -
      obtain t1 f1 where d: "(case team_ShiftRequests t (sess_Role sess) of
           Some req \<Rightarrow> if sr_Session req = session_key sess then dropShiftRequest e (sess_Role sess) (t, f) else (t, f)
         | None \<Rightarrow> (t, f)) = (t1, f1)" by fastforce
      then have f1: "fseats f1 = fseats f" using q[of "sess_Role sess"] by (auto split: option.splits if_splits)
      let ?g = "\<lambda>live. live\<lparr>team_Retiring := AList.update (session_key sess) (retire_request e role sess) (team_Retiring live)\<rparr>"
      obtain f2 err where u: "fl_UpdateTeam e (team_key t1) ?g f1 = (f2, err)" by fastforce
      have "fseats f2 = fseats f" using fl_UpdateTeam_seats[of e "team_key t1" ?g f1] u f1 by simp
      then show ?thesis using 4 d u by (simp add: retireSession_def Let_def split: option.split)
    qed
    then show thesis by (rule that(1))
  qed
qed

lemma retireSession_shrinks:
  assumes "keyed (fseats f)"
  shows "frows (snd (retireSession e role sess (t, f))) j \<noteq> None \<Longrightarrow> frows f j \<noteq> None"
    "keyed (fseats (snd (retireSession e role sess (t, f))))"
proof -
  show "frows (snd (retireSession e role sess (t, f))) j \<noteq> None \<Longrightarrow> frows f j \<noteq> None"
    by (rule retireSession_seats[of e role sess t f]) (use assms DeleteAndReap_shrinks in metis)+
  show "keyed (fseats (snd (retireSession e role sess (t, f))))"
    by (rule retireSession_seats[of e role sess t f]) (use assms DeleteAndReap_keyed in metis)+
qed

lemma retire_all_shrinks:
  assumes "keyed (fseats (snd tf))"
  shows "frows (snd (foldl (\<lambda>tf sess. retireSession e role sess tf) tf xs)) j \<noteq> None \<Longrightarrow> frows (snd tf) j \<noteq> None"
  using assms
proof (induction xs arbitrary: tf)
  case (Cons x xs)
  then show ?case using retireSession_shrinks[of "snd tf" e role x "fst tf"] by simp
qed simp

lemma planRole_no_spawn:
  "plan_Action (planRole now src bus c t role gen) \<noteq> RoleSpawn \<Longrightarrow> plan_Spawn (planRole now src bus c t role gen) = 0"
  using planRole_deficit[of t role c now src bus gen] planRole_satisfied(1)[of t role c now src bus gen]
  by (fastforce simp: deficit_plan_def)

lemma applyRolePlan_shrinks:
  assumes "keyed (fseats f)" and "plan_Spawn plan \<le> 0" and "frows (snd (applyRolePlan e role plan (t, f))) j \<noteq> None"
  shows "frows f j \<noteq> None"
proof -
  have k: "fseats (snd (apply_holds e plan (t, f))) = fseats f" using frame_empty[OF apply_holds_frame] by simp
  have "applyRolePlan e role plan (t, f) = foldl (\<lambda>tf sess. retireSession e (Some role) sess tf) (apply_holds e plan (t, f)) (plan_Delete plan)"
    using assms(2) by (simp add: applyRolePlan_def split: prod.split)
  then show ?thesis using retire_all_shrinks[of "apply_holds e plan (t, f)"] assms(1,3) k by simp
qed

lemma withheld_spawns_nothing:
  assumes "keyed (fseats f)" and "postureWithholds (fl_ctl f) t" and "frows (snd (reconcileRole e role (t, f))) j \<noteq> None"
  shows "frows f j \<noteq> None"
proof -
  let ?plan = "planRole (te_now e) (te_src e) (te_bus e) (fl_ctl f) t role (team_Generation t)"
  show ?thesis
  proof (cases "plan_Action ?plan = RoleSpawn")
    case True
    then show ?thesis using assms(2,3) by (simp add: reconcileRole_def reconcile_plan_def)
  next
    case False
    then have "reconcileRole e role (t, f) = applyRolePlan e role ?plan (t, f)" by (simp add: reconcileRole_def reconcile_plan_def)
    then show ?thesis using applyRolePlan_shrinks[OF assms(1), of ?plan e role t j] planRole_no_spawn[OF False] assms(3) by simp
  qed
qed

text \<open>After the daemon has set the postures at its start, every team with a live session converges and every
  other holds, whatever posture the file recorded.\<close>

lemma InitConvergencePosture_sets:
  assumes "keyed_sessions (fl_store f)" and "teams_keyed (fl_store f)" and "InitConvergencePosture e f = (f', None)"
    and "team_at (fl_store f') k = Some t"
  shows "fseats f' = fseats f" "Posture t = presence (fl_store f') t"
proof -
  note listed = teams_keyed_listed[OF assms(2)]
  have loop: "fseats f' = fseats f" "\<And>k. k \<notin> team_key ` set (ListTeams (fl_store f)) \<Longrightarrow> fteams f' k = fteams f k"
    "\<And>x. x \<in> set (ListTeams (fl_store f)) \<Longrightarrow> \<exists>u. fteams f' (team_key x) = Some u \<and> team_Workspace u = team_Workspace x \<and>
       team_Name u = team_Name x \<and> Posture u = presence (fl_store f) x"
    using posture_loop_sets[OF assms(3)[unfolded InitConvergencePosture_def] listed(1) listed(2)] by simp_all
  show "fseats f' = fseats f" by (rule loop(1))
  have "k \<in> team_key ` set (ListTeams (fl_store f))" using loop(2)[of k] assms(4) listed(3)[of k t] by (metis image_eqI)
  then obtain x where x: "x \<in> set (ListTeams (fl_store f))" "team_key x = k" by auto
  from loop(3)[OF x(1)] x(2) assms(4) have t: "team_Workspace t = team_Workspace x" "team_Name t = team_Name x"
    "Posture t = presence (fl_store f) x" by auto
  have "presence (fl_store f') t = presence (fl_store f) x" using presence_cong[OF loop(1) t(1,2)] .
  with t(3) show "Posture t = presence (fl_store f') t" by simp
qed

section \<open>Seats of a dropped role\<close>

definition orphan :: "Team \<Rightarrow> Session \<Rightarrow> bool" where
  "orphan t x \<longleftrightarrow> sess_Workspace x = team_Workspace t \<and> sess_Team x = team_Name t \<and>
     sess_Role x \<notin> role_Name ` set (team_Roles t) \<and> sess_Generation x \<noteq> 0"

lemma retireSession_mono: "isRetiring t k \<Longrightarrow> isRetiring (fst (retireSession e role sess (t, f))) k"
proof -
  assume k: "isRetiring t k"
  obtain t1 f1 where d: "(case team_ShiftRequests t (sess_Role sess) of
       Some req \<Rightarrow> if sr_Session req = session_key sess then dropShiftRequest e (sess_Role sess) (t, f) else (t, f)
     | None \<Rightarrow> (t, f)) = (t1, f1)" by fastforce
  have "team_Retiring t1 = team_Retiring t" if "dropShiftRequest e r (t, f) = (t1, f1)" for r t1 f1
    using that by (auto simp: dropShiftRequest_def split: prod.splits option.splits)
  with d have "team_Retiring t1 = team_Retiring t" by (auto split: option.splits if_splits)
  with k have k1: "isRetiring t1 k" by (simp add: isRetiring_def)
  then have "isRetiring (t1\<lparr>team_Retiring := AList.update q r (team_Retiring t1)\<rparr>) k" for q r by (simp add: isRetiring_def update_conv')
  with k k1 d show ?thesis by (simp add: retireSession_def Let_def split: prod.split option.split)
qed

lemma retireSession_core:
  assumes "keyed (fseats f)"
  shows "core (fst (retireSession e role sess (t, f))) = core t"
    "(fteams (snd (retireSession e role sess (t, f))) k = None) = (fteams f k = None)"
proof -
  have r: "role_frame UNIV (t, f) (retireSession e role sess (t, f))" by (rule retireSession_frame) (simp_all add: assms owned_def)
  then show "core (fst (retireSession e role sess (t, f))) = core t" using role_frame_core by fastforce
  from r have "map_option core (fteams (snd (retireSession e role sess (t, f))) k) = map_option core (fteams f k)"
    by (simp add: role_frame_def)
  then show "(fteams (snd (retireSession e role sess (t, f))) k = None) = (fteams f k = None)" by (metis option.map_disc_iff)
qed

text \<open>A running seat of a dropped role is asked to leave.\<close>

lemma retireSession_asks:
  assumes "all_commit (te_commits e)" "fteams f (team_key t) \<noteq> None" "sess_State sess = SessionRunning" "keyed (fseats f)"
  shows "isRetiring (fst (retireSession e None sess (t, f))) (session_key sess)"
proof (cases "isRetiring t (session_key sess)")
  case True
  then show ?thesis by (rule retireSession_mono)
next
  case False
  obtain t1 f1 where d: "(case team_ShiftRequests t (sess_Role sess) of
       Some req \<Rightarrow> if sr_Session req = session_key sess then dropShiftRequest e (sess_Role sess) (t, f) else (t, f)
     | None \<Rightarrow> (t, f)) = (t1, f1)" by fastforce
  have "role_frame UNIV (t, f) (t1, f1)"
    using d dropShiftRequest_frame[of UNIV t f e "sess_Role sess"] by (auto split: option.splits if_splits)
  then have c: "core t1 = core t" "map_option core (fteams f1 (team_key t)) = map_option core (fteams f (team_key t))"
    by (simp_all add: role_frame_def)
  then have "fteams f1 (team_key t1) \<noteq> None" using assms(2) coreD(6)[OF c(1)] by (metis option.map_disc_iff)
  from UpdateTeam_ok[OF assms(1) this] False d assms(3) show ?thesis
    by (auto simp: retireSession_def Let_def isRetiring_def update_conv' split: prod.split option.split dest: arg_cong[where f = snd])
qed

text \<open>What holds after the round has seen the sessions \<open>xs\<close>.\<close>

definition drain_inv :: "tick_env \<Rightarrow> Team \<Rightarrow> Fleet \<Rightarrow> Session list \<Rightarrow> Team \<times> Fleet \<Rightarrow> bool" where
  "drain_inv e t0 f0 xs = (\<lambda>(t, f). keyed (fseats f) \<and> core t = core t0 \<and> (\<forall>k. (fteams f k = None) = (fteams f0 k = None)) \<and>
     (\<forall>k. isRetiring t0 k \<longrightarrow> isRetiring t k) \<and>
     (\<forall>k x. frows f0 k = Some x \<and> frows f k \<noteq> Some x \<longrightarrow> orphan t0 x \<and> sess_State x \<noteq> SessionRunning \<and> \<not> isRetiring t0 k) \<and>
     (all_commit (te_commits e) \<and> fteams f0 (team_key t0) \<noteq> None \<longrightarrow>
       (\<forall>y\<in>set xs. orphan t0 y \<and> sess_State y = SessionRunning \<longrightarrow> isRetiring t (session_key y))))"

lemma drain_step:
  assumes inv: "drain_inv e t0 f0 xs (t, f)" and zr: "frows f0 (session_key z) = Some z" and o: "orphan t0 z"
    and z: "\<not> isRetiring t (session_key z)" and g: "fl_store g = fl_store f"
  shows "drain_inv e t0 f0 (xs @ [z]) (retireSession e None z (t, g))"
proof -
  from inv have ih: "keyed (fseats g)" "core t = core t0" "\<And>k. (fteams g k = None) = (fteams f0 k = None)"
    "\<And>k. isRetiring t0 k \<Longrightarrow> isRetiring t k"
    "\<And>k x. frows f0 k = Some x \<Longrightarrow> frows g k \<noteq> Some x \<Longrightarrow> orphan t0 x \<and> sess_State x \<noteq> SessionRunning \<and> \<not> isRetiring t0 k"
    and old: "all_commit (te_commits e) \<and> fteams f0 (team_key t0) \<noteq> None \<longrightarrow>
       (\<forall>y\<in>set xs. orphan t0 y \<and> sess_State y = SessionRunning \<longrightarrow> isRetiring t (session_key y))"
    using g by (simp_all add: drain_inv_def)
  let ?r = "retireSession e None z (t, g)"
  have rows: "frows (snd ?r) j = frows g j" if "j \<noteq> session_key z \<or> sess_State z = SessionRunning" for j
    by (rule retireSession_seats[of e None z t g]) (use that DeleteAndReap_other[of j "session_key z"] ih(1) in auto)
  have row: "orphan t0 x \<and> sess_State x \<noteq> SessionRunning \<and> \<not> isRetiring t0 j"
    if "frows f0 j = Some x" "frows (snd ?r) j \<noteq> Some x" for j x
  proof (cases "j \<noteq> session_key z \<or> sess_State z = SessionRunning")
    case True
    then show ?thesis using ih(5)[OF that(1)] rows that(2) by simp
  next
    case False
    then show ?thesis using zr o that(1) ih(4)[of j] z by auto
  qed
  have asks: "isRetiring (fst ?r) (session_key z)"
    if "all_commit (te_commits e)" "fteams f0 (team_key t0) \<noteq> None" "sess_State z = SessionRunning"
    by (rule retireSession_asks[OF that(1) _ that(3) ih(1)]) (use that(2) ih(3) coreD(6)[OF ih(2)] in simp)
  have "keyed (fseats (snd ?r))" "core (fst ?r) = core t0" "\<And>j. (fteams (snd ?r) j = None) = (fteams f0 j = None)"
    using retireSession_shrinks(2)[OF ih(1)] retireSession_core[OF ih(1)] ih(2,3) by auto
  then show ?thesis unfolding drain_inv_def case_prod_beta' using row asks ih(4) old retireSession_mono[of t _ e None z g] by auto
qed

lemma drain_fold:
  assumes "keyed (fseats f)" and "set xs \<subseteq> set (ListSessionsByTeam (fl_store f) (team_Workspace t) (team_Name t))"
  shows "drain_inv e t f xs (fst (foldl (drain_orphan e (map role_Name (team_Roles t))) ((t, f), []) xs))"
  using assms(2)
proof (induction xs rule: rev_induct)
  case (snoc z xs)
  let ?st = "foldl (drain_orphan e (map role_Name (team_Roles t))) ((t, f), []) xs"
  obtain u g dropped where st: "?st = ((u, g), dropped)" by (metis prod.collapse)
  from snoc st have inv: "drain_inv e t f xs (u, g)" by simp
  have z: "z \<in> set (ListSessions (fl_store f))" "sess_Workspace z = team_Workspace t" "sess_Team z = team_Name t"
    using snoc.prems by (auto simp: ListSessionsByTeam_def)
  show ?case
  proof (cases "sess_Role z \<in> role_Name ` set (team_Roles t) \<or> sess_Generation z = 0 \<or> isRetiring u (session_key z)")
    case True
    then have "orphan t z \<Longrightarrow> isRetiring u (session_key z)" by (auto simp: orphan_def)
    with True st inv show ?thesis by (auto simp: drain_orphan_def drain_inv_def)
  next
    case False
    then have "orphan t z" using z by (simp add: orphan_def)
    from drain_step[OF inv listed_row[OF assms(1) z(1)] this] False st show ?thesis by (simp add: drain_orphan_def Let_def)
  qed
qed (use assms(1) in \<open>simp add: drain_inv_def\<close>)

lemma finish_all:
  "fst (foldl (\<lambda>tf role. finishRoleRemoval e role tf) tf rs) = fst tf \<and>
   fseats (snd (foldl (\<lambda>tf role. finishRoleRemoval e role tf) tf rs)) = fseats (snd tf)"
proof (induction rs arbitrary: tf)
  case (Cons r rs)
  obtain t f where "tf = (t, f)" by fastforce
  then show ?case using Cons[of "finishRoleRemoval e r tf"] by simp
qed simp

text \<open>
  Dropping a role drains its seats and no others. The drain changes the rows of manifest seats of
  roles the team no longer declares, and of those only the ones that are not running: never a seat of
  a declared role or of another team, never a session of \<open>marvel run\<close>, never a running seat. Where the
  team's record can be written, every running seat of a dropped role has been asked to leave.
\<close>

theorem orphan_drain_spares_others:
  fixes e :: tick_env and t :: Team
  assumes "keyed_sessions (fl_store f)"
  defines "r \<equiv> reconcileOrphanedSessions e (t, f)"
  shows "\<forall>k x. session_at (fl_store f) k = Some x \<longrightarrow>
    (session_at (fl_store (snd r)) k \<noteq> Some x \<longrightarrow> orphan t x \<and> sess_State x \<noteq> SessionRunning) \<and>
    (orphan t x \<and> sess_State x = SessionRunning \<and> (\<forall>n. te_commits e n) \<and> team_at (fl_store f) (team_key t) \<noteq> None \<longrightarrow> isRetiring (fst r) k)"
proof -
  have k: "keyed (fseats f)" using assms(1) by (simp add: keyed_sessions_iff)
  let ?xs = "ListSessionsByTeam (fl_store f) (team_Workspace t) (team_Name t)"
  obtain u g dropped where st: "foldl (drain_orphan e (map role_Name (team_Roles t))) ((t, f), []) ?xs = ((u, g), dropped)"
    by (metis prod.collapse)
  have inv: "drain_inv e t f ?xs (u, g)" using drain_fold[OF k, of ?xs t e] st by simp
  have r: "fst r = u" "fseats (snd r) = fseats g"
    using finish_all[of e "(u, g)" dropped] st by (simp_all add: r_def reconcileOrphanedSessions_def)
  have "x \<in> set ?xs \<and> session_key x = q" if "frows f q = Some x" "orphan t x" for q x
  proof -
    have "(q, x) \<in> set (fseats f)" using map_of_SomeD[OF that(1)] .
    then have "x \<in> snd ` set (fseats f)" by (rule image_eqI[of x snd "(q, x)", rotated]) simp
    moreover have "session_key x = q" using bspec[OF k[unfolded keyed_def list_all_iff, THEN conjunct1] \<open>(q, x) \<in> set (fseats f)\<close>] by simp
    ultimately show ?thesis using that(2) by (simp add: ListSessionsByTeam_def ListSessions_def orphan_def)
  qed
  with inv r show ?thesis by (auto simp: drain_inv_def all_commit_def)
qed

definition qa_seat :: Session where "qa_seat = example_session ''squad-qa-g1-0'' ''qa'' 1 5"

theorem orphan_drain_spares_others_witness:
  "let r = reconcileOrphanedSessions (example_env 9) (shifting_team ShiftNone, fleet_of (shifting_team ShiftNone) [old_dev, qa_seat])
   in isRetiring (fst r) ''ws/squad-qa-g1-0'' \<and> session_at (fl_store (snd r)) ''ws/squad-qa-g1-0'' = Some qa_seat \<and>
      session_at (fl_store (snd r)) ''ws/squad-dev-g1-0'' = Some old_dev"
proof -
  let ?f = "fleet_of (shifting_team ShiftNone) [old_dev, qa_seat]" and ?t = "shifting_team ShiftNone"
  have k: "keyed_sessions (fl_store ?f)" by (rule fleet_of_keyed) (simp add: qa_seat_def shifting_defs)
  have r: "session_at (fl_store ?f) ''ws/squad-qa-g1-0'' = Some qa_seat" "session_at (fl_store ?f) ''ws/squad-dev-g1-0'' = Some old_dev"
    by (simp_all add: qa_seat_def shifting_defs)
  have o: "orphan ?t qa_seat" "\<not> orphan ?t old_dev" "sess_State qa_seat = SessionRunning" "\<forall>n. te_commits (example_env 9) n"
    by (simp_all add: orphan_def qa_seat_def shifting_defs example_env_def)
  show ?thesis using orphan_drain_spares_others[OF k, of "example_env 9" ?t] r o by (auto simp: Let_def)
qed

section \<open>The prune\<close>

definition unmarked :: "Team \<Rightarrow> Team" where
  "unmarked t = t\<lparr>team_Pruning := None\<rparr>"

text \<open>What the prune needs of a team's record, and of its sessions in the store, to delete it.\<close>

definition deletable :: "string \<Rightarrow> Store \<Rightarrow> Team \<Rightarrow> bool" where
  "deletable source s t \<longleftrightarrow> CountAlive (ListSessionsByTeam s (team_Workspace t) (team_Name t)) = 0 \<and> team_Retiring t = [] \<and>
     sh_Phase (team_Shift t) = ShiftNone \<and> (\<exists>c. team_Claims t = Some c \<and> tc_Sources c = [] \<and> tc_ReleasedBy c = source)"

lemma unmarked_simps [simp]: "unmarked (t\<lparr>team_Pruning := p\<rparr>) = unmarked t"
  by (simp add: unmarked_def)

lemma unmarkedD:
  assumes "unmarked t' = unmarked t"
  shows "team_Workspace t' = team_Workspace t" "team_Name t' = team_Name t" "deletable source s t' = deletable source s t"
proof -
  have "team_Workspace t' = team_Workspace t" "team_Name t' = team_Name t" "team_Retiring t' = team_Retiring t"
    "team_Shift t' = team_Shift t" "team_Claims t' = team_Claims t"
    using arg_cong[OF assms, of team_Workspace] arg_cong[OF assms, of team_Name] arg_cong[OF assms, of team_Retiring]
      arg_cong[OF assms, of team_Shift] arg_cong[OF assms, of team_Claims] by (simp_all add: unmarked_def)
  then show "team_Workspace t' = team_Workspace t" "team_Name t' = team_Name t" "deletable source s t' = deletable source s t"
    by (simp_all add: deletable_def)
qed

lemma recheck_deletable:
  assumes "PruneDeleteCheck (PruneRecheck source) t (team_sessions_sorted s t) = []"
  shows "deletable source s t"
proof -
  have c: "CountAlive (team_sessions_sorted s t) = CountAlive (ListSessionsByTeam s (team_Workspace t) (team_Name t))"
    using count_if_mset[of "team_sessions_sorted s t" "ListSessionsByTeam s (team_Workspace t) (team_Name t)"]
    by (simp add: slot_counts team_sessions_sorted_def)
  from assms show ?thesis
    using c by (auto simp: PruneDeleteCheck_def PruneRecheck_def pruneVerdict_def deletable_def ReasonDraining_def Let_def slot_counts
        split: if_splits option.splits prod.splits)
qed

lemma MarkPruning_effect:
  assumes "MarkPruning commits k p chk s = (s', res)"
  shows "st_sessions s' = st_sessions s" "map_option unmarked (team_at s' j) = map_option unmarked (team_at s j)"
    "j \<noteq> k \<Longrightarrow> team_at s' j = team_at s j"
  using assms by (auto simp: MarkPruning_def Let_def same_tables_def update_conv' split: option.splits prod.splits if_splits dest!: persist_tables)

lemma DeleteTeamIf_effect:
  assumes "DeleteTeamIf commits k chk s = (s', res)"
  shows "st_sessions s' = st_sessions s" "j \<noteq> k \<Longrightarrow> team_at s' j = team_at s j"
    "team_at s' k = team_at s k \<or> (\<exists>t. team_at s k = Some t \<and> chk t (team_sessions_sorted s t) = [] \<and> team_at s' k = None)"
    "res = Inr ([], keys) \<Longrightarrow> \<exists>t. team_at s k = Some t \<and> chk t (team_sessions_sorted s t) = [] \<and> keys = map session_key (team_sessions_sorted s t)"
  using assms by (auto simp: DeleteTeamIf_def Let_def same_tables_def delete_conv' split: option.splits prod.splits if_splits dest!: persist_tables)

lemma clearTeam_tables [simp]:
  "st_sessions (c_store (clearRoleHealthForTeamLocked commits ws tm c)) = st_sessions (c_store c)"
  "st_teams (c_store (clearRoleHealthForTeamLocked commits ws tm c)) = st_teams (c_store c)"
proof -
  let ?op = "\<lambda>pfx c k. if has_prefix k pfx then forgetRoleHealth commits k (c\<lparr>c_roleHealth := AList.delete k (c_roleHealth c)\<rparr>) else c"
  have "st_sessions (c_store (foldl (?op pfx) c ks)) = st_sessions (c_store c) \<and>
    st_teams (c_store (foldl (?op pfx) c ks)) = st_teams (c_store c)" for c ks pfx
    by (induction ks arbitrary: c) simp_all
  then show "st_sessions (c_store (clearRoleHealthForTeamLocked commits ws tm c)) = st_sessions (c_store c)"
    "st_teams (c_store (clearRoleHealthForTeamLocked commits ws tm c)) = st_teams (c_store c)"
    by (simp_all add: clearRoleHealthForTeamLocked_def clear_health_prefix_def dropAdmissionHolds_def Let_def)
qed

lemma deleteSessions_effect:
  assumes "keyed (fseats f)"
  shows "keyed (fseats (deleteSessionsLocked e keys f)) \<and> fteams (deleteSessionsLocked e keys f) = fteams f \<and>
    (\<forall>k. k \<notin> set keys \<longrightarrow> frows (deleteSessionsLocked e keys f) k = frows f k)"
  using assms by (induction keys arbitrary: f) (simp_all add: deleteSessionsLocked_def DeleteAndReap_keyed DeleteAndReap_other)

lemma finishPruned_effect:
  assumes "keyed (fseats f)"
  shows "keyed (fseats (finishPrunedTeamLocked e key keys f))" "fteams (finishPrunedTeamLocked e key keys f) = fteams f"
    "k \<notin> set keys \<Longrightarrow> frows (finishPrunedTeamLocked e key keys f) k = frows f k"
  using deleteSessions_effect[OF assms, of e keys]
  by (simp_all add: finishPrunedTeamLocked_def Let_def emit_def split: prod.split)

lemma put_store_sel [simp]: "fl_store (put_store s f) = s" "put_store s (put_store s' f) = put_store s f"
  by (simp_all add: put_store_def)

lemma unmarkPruning_effect:
  "fseats (unmarkPruning e key f) = fseats f" "map_option unmarked (fteams (unmarkPruning e key f) j) = map_option unmarked (fteams f j)"
  "j \<noteq> key \<Longrightarrow> fteams (unmarkPruning e key f) j = fteams f j"
  by (auto simp: unmarkPruning_def fl_UpdateTeam_teams split: option.split)

text \<open>Against the fleet \<open>f0\<close> the prune started from: every live row is there, and a team is there but for its
  mark, unless it was deletable.\<close>

definition prune_inv :: "string \<Rightarrow> string set \<Rightarrow> Fleet \<Rightarrow> Fleet \<Rightarrow> bool" where
  "prune_inv source K f0 f \<longleftrightarrow> keyed (fseats f) \<and> (\<forall>k x. frows f0 k = Some x \<and> alive x \<longrightarrow> frows f k = Some x) \<and>
     (\<forall>k. k \<notin> K \<longrightarrow> fteams f k = fteams f0 k) \<and>
     (\<forall>k t. fteams f0 k = Some t \<longrightarrow> (case fteams f k of Some u \<Rightarrow> unmarked u = unmarked t | None \<Rightarrow> deletable source (fl_store f0) t))"

lemma alive_count:
  assumes "CountAlive (ListSessionsByTeam s ws tm) = 0" "x \<in> set (ListSessions s)" "sess_Workspace x = ws" "sess_Team x = tm"
  shows "\<not> alive x"
  using assms by (auto simp: slot_counts ListSessionsByTeam_def filter_empty_conv)

lemma prune_invD:
  "prune_inv source K f0 f \<Longrightarrow> fteams f0 k = Some t \<Longrightarrow>
     (case fteams f k of Some u \<Rightarrow> unmarked u = unmarked t | None \<Rightarrow> deletable source (fl_store f0) t)"
  by (simp add: prune_inv_def)

lemma prune_inv_teams:
  assumes "prune_inv source K f0 f" "fseats g = fseats f" "\<And>j. map_option unmarked (fteams g j) = map_option unmarked (fteams f j)"
    "\<And>j. j \<notin> K \<Longrightarrow> fteams g j = fteams f j"
  shows "prune_inv source K f0 g"
proof -
  have "case fteams g k of Some u \<Rightarrow> unmarked u = unmarked t | None \<Rightarrow> deletable source (fl_store f0) t" if "fteams f0 k = Some t" for k t
    using prune_invD[OF assms(1) that] assms(3)[of k] by (cases "fteams f k"; cases "fteams g k") auto
  then show ?thesis using assms by (simp add: prune_inv_def)
qed

lemma deletable_back:
  assumes "keyed (fseats f0)" "\<And>k x. frows f0 k = Some x \<Longrightarrow> alive x \<Longrightarrow> session_at s k = Some x" "deletable source s t"
  shows "deletable source (fl_store f0) t"
proof -
  let ?xs = "ListSessionsByTeam (fl_store f0) (team_Workspace t) (team_Name t)"
  have "\<not> alive x" if "x \<in> set ?xs" for x
  proof
    assume a: "alive x"
    from that have x: "x \<in> set (ListSessions (fl_store f0))" "sess_Workspace x = team_Workspace t" "sess_Team x = team_Name t"
      by (auto simp: ListSessionsByTeam_def)
    from assms(2)[OF listed_row[OF assms(1) x(1)] a] have "x \<in> set (ListSessions s)"
      using image_eqI[of x snd] by (force simp: ListSessions_def dest: map_of_SomeD)
    with alive_count[of s "team_Workspace t" "team_Name t" x] x assms(3) a show False by (simp add: deletable_def)
  qed
  then have "filter alive ?xs = []" by (simp add: filter_empty_conv)
  with assms(3) show ?thesis by (simp add: deletable_def slot_counts)
qed

lemma prune_inv_delete:
  assumes inv: "prune_inv source K f0 f" and k0: "keyed (fseats f0)" and K: "key \<in> K"
    and d: "DeleteTeamIf commits key (PruneDeleteCheck (PruneRecheck source)) (fl_store f) = (s, res)"
  shows "prune_inv source K f0 (put_store s f)"
proof -
  note del = DeleteTeamIf_effect[OF d]
  have live: "frows f0 k = Some x \<Longrightarrow> alive x \<Longrightarrow> frows f k = Some x" for k x using inv by (simp add: prune_inv_def)
  have "case team_at s k of Some u \<Rightarrow> unmarked u = unmarked t | None \<Rightarrow> deletable source (fl_store f0) t" if t: "fteams f0 k = Some t" for k t
  proof (cases "team_at s k = fteams f k")
    case True
    then show ?thesis using prune_invD[OF inv t] by simp
  next
    case False
    then have "k = key" using del(2)[of k] by blast
    with False del(3) obtain u where u: "fteams f k = Some u" "PruneDeleteCheck (PruneRecheck source) u (team_sessions_sorted (fl_store f) u) = []"
      "team_at s k = None" by auto
    have "unmarked u = unmarked t" using prune_invD[OF inv t] u(1) by simp
    moreover have "deletable source (fl_store f0) u" using deletable_back[OF k0 live recheck_deletable[OF u(2)]] .
    ultimately show ?thesis using u(3) unmarkedD(3)[of u t] by simp
  qed
  moreover have "team_at s k = fteams f0 k" if "k \<notin> K" for k using that inv del(2)[of k] K by (auto simp: prune_inv_def)
  ultimately show ?thesis using inv del(1) by (simp add: prune_inv_def)
qed

lemma prune_inv_finish:
  assumes inv: "prune_inv source K f0 g" and st: "fseats g = st_sessions s" and t: "deletable source s t"
  shows "prune_inv source K f0 (finishPrunedTeamLocked e key (map session_key (team_sessions_sorted s t)) g)"
proof -
  have k: "keyed (fseats g)" using inv by (simp add: prune_inv_def)
  have "q \<notin> set (map session_key (team_sessions_sorted s t))" if "frows g q = Some x" "alive x" for q x
  proof
    assume "q \<in> set (map session_key (team_sessions_sorted s t))"
    then obtain y where y: "y \<in> set (ListSessions s)" "sess_Workspace y = team_Workspace t" "sess_Team y = team_Name t" "session_key y = q"
      by (auto simp: team_sessions_sorted_def ListSessionsByTeam_def)
    have "session_at s q = Some y" using listed_row[of s y] y k st by simp
    with that st have "y = x" by simp
    with that(2) alive_count[of s "team_Workspace t" "team_Name t" y] y t show False by (simp add: deletable_def)
  qed
  then have "frows (finishPrunedTeamLocked e key (map session_key (team_sessions_sorted s t)) g) q = Some x" if "frows g q = Some x" "alive x" for q x
    using that finishPruned_effect(3)[OF k] by metis
  then show ?thesis using inv finishPruned_effect(1,2)[OF k] by (simp add: prune_inv_def)
qed

lemma prune_inv_unmark: "prune_inv source K f0 f \<Longrightarrow> key \<in> K \<Longrightarrow> prune_inv source K f0 (unmarkPruning e key f)"
  by (erule prune_inv_teams) (simp_all add: unmarkPruning_effect(1,2), metis unmarkPruning_effect(3))

lemma prune_one_inv:
  assumes inv: "prune_inv source K f0 f" and k0: "keyed (fseats f0)" and K: "key \<in> K"
  shows "prune_inv source K f0 (fst (prune_one e p (PruneRecheck source) (f, r) key))"
proof -
  obtain s res where m: "MarkPruning (te_commits e) key p (PruneRecheck source) (fl_store f) = (s, res)" by fastforce
  obtain s1 res1 where d: "DeleteTeamIf (te_commits e) key (PruneDeleteCheck (PruneRecheck source)) s = (s1, res1)" by fastforce
  note mark = MarkPruning_effect[OF m]
  have 1: "prune_inv source K f0 (put_store s f)"
    by (rule prune_inv_teams[OF inv]) (simp_all add: mark(1,2), metis mark(3) K)
  have 2: "prune_inv source K f0 (put_store s1 f)"
    using prune_inv_delete[OF 1 k0 K, of "te_commits e" s1 res1] d by simp
  have 3: "prune_inv source K f0 (finishPrunedTeamLocked e key keys (put_store s1 f))" if res: "res1 = Inr ([], keys)" for keys
  proof -
    obtain t where t: "PruneDeleteCheck (PruneRecheck source) t (team_sessions_sorted s t) = []" "keys = map session_key (team_sessions_sorted s t)"
      using DeleteTeamIf_effect(4)[OF d res] by blast
    show ?thesis unfolding t(2) by (rule prune_inv_finish[OF 2 _ recheck_deletable[OF t(1)]]) (simp add: DeleteTeamIf_effect(1)[OF d])
  qed
  show ?thesis using 1 2 3 prune_inv_unmark[OF 2 K] m d
    by (auto simp: prune_one_def split: sum.split prod.split)
qed

text \<open>
  C16. A prune never takes a live seat. Whatever teams a prune is asked to delete, and whatever the file
  and tmux do, every live session row of the whole table is the same afterwards; a team that is gone
  had no live seat and no retirement pending, was not shifting, and was claimed by no source and
  released by this one; and teams the prune was not asked about are untouched.
\<close>

theorem prune_spares_live_seats:
  fixes e :: tick_env and p :: TeamPruning and keys :: "string list" and source :: string
  assumes "keyed_sessions (fl_store f)"
  defines "f' \<equiv> fst (PruneTeams e keys p (PruneRecheck source) f)"
  shows "(\<forall>k x. session_at (fl_store f) k = Some x \<and> alive x \<longrightarrow> session_at (fl_store f') k = Some x) \<and>
    (\<forall>k t. team_at (fl_store f) k = Some t \<and> team_at (fl_store f') k = None \<longrightarrow> deletable source (fl_store f) t) \<and>
    (\<forall>k. k \<notin> set keys \<longrightarrow> team_at (fl_store f') k = team_at (fl_store f) k)"
proof -
  have k: "keyed (fseats f)" using assms(1) by (simp add: keyed_sessions_iff)
  have "prune_inv source (set keys) f (fst (foldl (prune_one e p (PruneRecheck source)) (g, r) ks))"
    if "prune_inv source (set keys) f g" "set ks \<subseteq> set keys" for g r ks
    using that
  proof (induction ks arbitrary: g r)
    case (Cons key ks)
    then show ?case using prune_one_inv[OF Cons.prems(1) k, of key e p r] by (cases "prune_one e p (PruneRecheck source) (g, r) key") simp
  qed simp
  moreover have "prune_inv source (set keys) f f" using k by (simp add: prune_inv_def)
  ultimately have "prune_inv source (set keys) f f'" by (simp add: f'_def PruneTeams_def)
  then show ?thesis using prune_invD[of source "set keys" f f'] by (fastforce simp: prune_inv_def)
qed

theorem prune_spares_live_seats_witness:
  "let t = (shifting_team ShiftNone)\<lparr>team_Claims := Some \<lparr>tc_Sources = [], tc_ReleasedBy = ''m''\<rparr>\<rparr>;
       f = fst (PruneTeams (example_env 9) [''ws/squad''] \<lparr>tp_Source = ''m'', tp_At = 9\<rparr> (PruneRecheck ''m'') (fleet_of t [old_dev]))
   in session_at (fl_store f) ''ws/squad-dev-g1-0'' = Some old_dev \<and> team_at (fl_store f) ''ws/squad'' \<noteq> None"
proof -
  let ?t = "(shifting_team ShiftNone)\<lparr>team_Claims := Some \<lparr>tc_Sources = [], tc_ReleasedBy = ''m''\<rparr>\<rparr>"
  let ?f = "fleet_of ?t [old_dev]"
  have k: "keyed_sessions (fl_store ?f)" by (rule fleet_of_keyed) simp
  have r: "session_at (fl_store ?f) ''ws/squad-dev-g1-0'' = Some old_dev" "alive old_dev" "team_at (fl_store ?f) ''ws/squad'' = Some ?t"
    by (simp_all add: shifting_defs)
  have "\<not> deletable ''m'' (fl_store ?f) ?t"
    using r(2) by (simp add: deletable_def ListSessionsByTeam_def slot_counts) (simp add: shifting_defs)
  then show ?thesis using prune_spares_live_seats[OF k, of "example_env 9" "[''ws/squad'']" "\<lparr>tp_Source = ''m'', tp_At = 9\<rparr>" "''m''"] r
    by (fastforce simp: Let_def)
qed

end
