(* ===== verification/Handoff_Properties.thy ===== *)
theory Handoff_Properties
  imports Handoff Reconcile_Properties
begin

text \<open>
  No shift starts by itself: an automatic shift of a role follows a handoff the seat was asked for and
  wrote. The walk over the roles otherwise only opens and drops requests.
\<close>

section \<open>Requests change no shift\<close>

text \<open>The seat's handoff has been read complete: the role declares a file, and the newest read found the marker.\<close>

definition handoff_seen :: "tick_env \<Rightarrow> Role \<Rightarrow> Session \<Rightarrow> bool" where
  "handoff_seen e role x \<longleftrightarrow> handoff_file e role x \<noteq> [] \<and> (\<exists>r. te_probe e (session_key x) = Some r \<and> pr_complete r)"

text \<open>Only the request of role \<open>n\<close> may differ.\<close>

definition asks_only :: "string \<Rightarrow> Team \<times> Fleet \<Rightarrow> Team \<times> Fleet \<Rightarrow> bool" where
  "asks_only n a b \<longleftrightarrow> fseats (snd b) = fseats (snd a) \<and> fl_autoShifts (snd b) = fl_autoShifts (snd a) \<and> core (fst b) = core (fst a) \<and>
     (\<forall>k. map_option core (fteams (snd b) k) = map_option core (fteams (snd a) k)) \<and>
     (\<forall>k. k \<noteq> team_key (fst a) \<longrightarrow> fteams (snd b) k = fteams (snd a) k) \<and>
     (\<forall>m. m \<noteq> n \<longrightarrow> team_ShiftRequests (fst b) m = team_ShiftRequests (fst a) m)"

lemma asks_only_refl [simp]: "asks_only n a a"
  by (simp add: asks_only_def)

lemma asks_only_trans:
  assumes "asks_only n a b" "asks_only n b c"
  shows "asks_only n a c"
proof -
  have "core (fst b) = core (fst a)" using assms(1) by (simp add: asks_only_def)
  note coreD(6)[OF this]
  then show ?thesis using assms by (simp add: asks_only_def)
qed

lemma fl_UpdateTeam_autoShifts [simp]: "fl_autoShifts (fst (fl_UpdateTeam e k g f)) = fl_autoShifts f"
  by (simp add: fl_UpdateTeam_def split: prod.split)

lemma update_asks_only:
  assumes "\<And>x. core (g x) = core x" "core t' = core t" "\<And>m. m \<noteq> n \<Longrightarrow> team_ShiftRequests t' m = team_ShiftRequests t m"
  shows "asks_only n (t, f) (t', fst (fl_UpdateTeam e (team_key t) g f))"
  using assms by (auto simp: asks_only_def fl_UpdateTeam_teams split: option.split)

lemma dropShiftRequest_asks: "asks_only n tf (dropShiftRequest e n tf)"
proof (cases tf)
  case (Pair t f)
  let ?g = "\<lambda>x. x\<lparr>team_ShiftRequests := (team_ShiftRequests x)(n := None)\<rparr>"
  obtain f1 err where u: "fl_UpdateTeam e (team_key t) ?g f = (f1, err)" by fastforce
  have "asks_only n (t, f) (t, f1)" "asks_only n (t, f) (?g t, f1)"
    using update_asks_only[of ?g t t n f e] update_asks_only[of ?g "?g t" t n f e] u by simp_all
  then show ?thesis by (simp add: dropShiftRequest_def Pair u split: option.split)
qed

lemma put_request_asks: "asks_only n tf (snd (put_request e n req tf))"
proof (cases tf)
  case (Pair t f)
  let ?g = "\<lambda>x. x\<lparr>team_ShiftRequests := (team_ShiftRequests x)(n \<mapsto> req)\<rparr>"
  obtain f1 err where u: "fl_UpdateTeam e (team_key t) ?g f = (f1, err)" by fastforce
  have "asks_only n (t, f) (t, f1)" "asks_only n (t, f) (?g t, f1)"
    using update_asks_only[of ?g t t n f e] update_asks_only[of ?g "?g t" t n f e] u by simp_all
  then show ?thesis by (simp add: put_request_def Pair u split: option.split)
qed

lemma fl_emit_autoShifts [simp]: "fl_autoShifts (fl_emit k t r s f) = fl_autoShifts f"
  by (simp add: fl_emit_def)

lemma emit_asks: "asks_only n a (t, f) \<Longrightarrow> asks_only n a (t, fl_emit k t' r s f)"
  by (simp add: asks_only_def)

lemma requestHandoff_asks: "asks_only (role_Name role) tf (requestHandoff e role cause sess tf)"
  using put_request_asks[of "role_Name role" tf e "new_request e cause sess"]
  by (auto simp: requestHandoff_def emit_asks split: prod.split bool.split)

lemma trigger_conds_asks: "asks_only (role_Name role) tf (trigger_conds e role conds tf)"
  by (induction conds) (simp_all add: Let_def requestHandoff_asks split: option.split)

section \<open>A shift follows a handoff\<close>

text \<open>\<open>sess\<close> is the live seat that \<open>role\<close>'s pending request asked, and it has handed off.\<close>

definition answered :: "tick_env \<Rightarrow> Team \<times> Fleet \<Rightarrow> Role \<Rightarrow> bool" where
  "answered e a role \<longleftrightarrow> (\<exists>req sess. team_ShiftRequests (fst a) (role_Name role) = Some req \<and>
     frows (snd a) (sr_Session req) = Some sess \<and> alive sess \<and> sess_CreatedAt sess < sr_RequestedAt req \<and> handoff_seen e role sess \<and>
     hasCondition (Conditions (role_Shift role)) (sr_Cause req)) \<and>
     \<not> Covers (team_Hibernate (fst a)) (role_Name role) \<and> fl_autoShifts (snd a) < maxAutoShiftsPerTick"

text \<open>A shift of \<open>role\<close> starts: the team's record had none, and now has one over the roles of a shift of \<open>role\<close>.\<close>

definition shift_starts :: "Role \<Rightarrow> string \<Rightarrow> Fleet \<Rightarrow> Fleet \<Rightarrow> bool" where
  "shift_starts role k f g \<longleftrightarrow> (\<exists>x y. fteams f k = Some x \<and> fteams g k = Some y \<and> sh_Phase (team_Shift x) = ShiftNone \<and>
     sh_Phase (team_Shift y) = ShiftLaunching \<and> shift_roles x (role_Name role) = Some (sh_Roles (team_Shift y)))"

definition same_shift :: "string \<Rightarrow> Fleet \<Rightarrow> Fleet \<Rightarrow> bool" where
  "same_shift k f g \<longleftrightarrow> map_option team_Shift (fteams g k) = map_option team_Shift (fteams f k)"

definition shift_outcome :: "tick_env \<Rightarrow> Role list \<Rightarrow> Team \<times> Fleet \<Rightarrow> Team \<times> Fleet \<Rightarrow> bool" where
  "shift_outcome e roles a b \<longleftrightarrow> fseats (snd b) = fseats (snd a) \<and>
     (\<forall>k. same_shift k (snd a) (snd b) \<or> k = team_key (fst a) \<and> (\<exists>role\<in>set roles. answered e a role \<and> shift_starts role k (snd a) (snd b)))"

lemma same_shift_trans: "same_shift k f g \<Longrightarrow> same_shift k g h \<Longrightarrow> same_shift k f h"
  by (simp add: same_shift_def)

lemma shift_outcomeD:
  "shift_outcome e roles a b \<Longrightarrow>
     same_shift k (snd a) (snd b) \<or> k = team_key (fst a) \<and> (\<exists>role\<in>set roles. answered e a role \<and> shift_starts role k (snd a) (snd b))"
  by (simp add: shift_outcome_def)

lemma asks_only_coreD:
  assumes "asks_only n a b"
  shows "team_key (fst b) = team_key (fst a)" "team_Hibernate (fst b) = team_Hibernate (fst a)" "same_shift k (snd a) (snd b)"
proof -
  have c: "core (fst b) = core (fst a)" and m: "map_option core (fteams (snd b) k) = map_option core (fteams (snd a) k)"
    using assms by (simp_all add: asks_only_def)
  show "team_key (fst b) = team_key (fst a)" using coreD(6)[OF c] .
  show "team_Hibernate (fst b) = team_Hibernate (fst a)" using arg_cong[OF c, of team_Hibernate] by (simp add: core_def)
  have "map_option team_Shift (map_option core u) = map_option team_Shift u" for u
    by (cases u) (simp_all add: core_def)
  then show "same_shift k (snd a) (snd b)" using arg_cong[OF m, of "map_option team_Shift"] by (simp add: same_shift_def)
qed

lemma find_role_cong: "team_Roles t' = team_Roles t \<Longrightarrow> find_role t' n = find_role t n"
  by (simp add: find_role_def)

lemma shift_roles_cong: "team_Roles t' = team_Roles t \<Longrightarrow> shift_roles t' n = shift_roles t n"
  by (simp add: shift_roles_def find_role_cong[of t' t])

lemma asks_then_outcome:
  assumes "asks_only n a b" and "shift_outcome e roles b c" and "n \<notin> role_Name ` set roles"
  shows "shift_outcome e roles a c"
proof -
  note d = asks_only_coreD[OF assms(1)]
  have "answered e a role" if "role \<in> set roles" "answered e b role" for role
    using that assms(1,3) by (auto simp: answered_def asks_only_def d(2))
  moreover have "shift_starts role k (snd a) (snd c)" if "shift_starts role k (snd b) (snd c)" for role k
  proof -
    obtain x y where b: "fteams (snd b) k = Some x" and y: "fteams (snd c) k = Some y" "sh_Phase (team_Shift x) = ShiftNone"
      "sh_Phase (team_Shift y) = ShiftLaunching" "shift_roles x (role_Name role) = Some (sh_Roles (team_Shift y))"
      using \<open>shift_starts role k (snd b) (snd c)\<close> by (auto simp: shift_starts_def)
    from assms(1) b obtain z where z: "fteams (snd a) k = Some z" "core z = core x"
      by (auto simp: asks_only_def map_option_case split: option.splits dest!: spec[of _ k])
    then show ?thesis using y coreD(5)[OF z(2)] shift_roles_cong[OF coreD(3)[OF z(2)]] by (simp add: shift_starts_def)
  qed
  ultimately have "same_shift k (snd a) (snd c) \<or> k = team_key (fst a) \<and> (\<exists>role\<in>set roles. answered e a role \<and> shift_starts role k (snd a) (snd c))" for k
    using shift_outcomeD[OF assms(2), of k] d(1) same_shift_trans[OF d(3)] by metis
  moreover have "fseats (snd c) = fseats (snd a)" using assms(1,2) by (simp add: asks_only_def shift_outcome_def)
  ultimately show ?thesis by (simp add: shift_outcome_def)
qed

text \<open>Once a shift has started nothing more starts.\<close>

lemma start_then_outcome:
  assumes "fseats (snd b) = fseats (snd a)" and "fst b = fst a" and "answered e a role" and "shift_starts role (team_key (fst a)) (snd a) (snd b)"
    and "\<And>k. k \<noteq> team_key (fst a) \<Longrightarrow> same_shift k (snd a) (snd b)" and "shift_outcome e roles b c"
  shows "shift_outcome e (role # roles) a c"
proof -
  let ?k = "team_key (fst a)"
  have "same_shift ?k (snd b) (snd c)" using assms(4,6) by (auto simp: shift_outcome_def shift_starts_def)
  with assms(4) have "shift_starts role ?k (snd a) (snd c)" by (auto simp: shift_starts_def same_shift_def)
  moreover have "same_shift k (snd a) (snd c)" if "k \<noteq> ?k" for k
    using same_shift_trans[OF assms(5)[OF that]] shift_outcomeD[OF assms(6), of k] assms(2) that by simp
  ultimately have "same_shift k (snd a) (snd c) \<or> k = ?k \<and> (\<exists>r\<in>set (role # roles). answered e a r \<and> shift_starts r k (snd a) (snd c))" for k
    using assms(3) by (cases "k = ?k") auto
  with assms(1,6) show ?thesis by (simp add: shift_outcome_def)
qed

section \<open>Starting the shift\<close>

lemma UpdateTeam_seats_eq: "UpdateTeam commits k g s = (s', err) \<Longrightarrow> st_sessions s' = st_sessions s"
  by (auto simp: UpdateTeam_def Let_def persist_tables_fst split: prod.splits option.splits dest!: persist_tables simp: same_tables_def)

lemma UpdateTeam_look:
  assumes "UpdateTeam commits k g s = (s', err)" and "team_at s k = Some t"
  shows "team_at s' = (team_at s)(k \<mapsto> fst (g t))"
  using team_table.update_look[of s k t commits g] assms by simp

text \<open>What names a team.\<close>

definition team_id :: "Team \<Rightarrow> string \<times> string" where
  "team_id t = (team_Workspace t, team_Name t)"

lemma initiateShiftLocked_effect:
  assumes "initiateShiftLocked e k (role_Name role) f = (g, err)"
  shows "fseats g = fseats f \<and> fl_autoShifts g = fl_autoShifts f \<and> (\<forall>j. j \<noteq> k \<longrightarrow> fteams g j = fteams f j) \<and>
    map_option team_id (fteams g k) = map_option team_id (fteams f k) \<and>
    (fteams g = fteams f \<and> err \<noteq> None \<or> shift_starts role k f g)"
proof (cases "fteams f k")
  case None
  then show ?thesis using assms by (auto simp: initiateShiftLocked_def GetTeam_def)
next
  case (Some t)
  then have t: "GetTeam (fl_store f) k = Inr t" by (simp add: GetTeam_def)
  define s where "s roles = fst (UpdateTeam (te_commits e) k (start_shift (te_now e) roles (team_Generation t)) (fl_store f))" for roles
  define e1 where "e1 roles = snd (UpdateTeam (te_commits e) k (start_shift (te_now e) roles (team_Generation t)) (fl_store f))" for roles
  have u: "UpdateTeam (te_commits e) k (start_shift (te_now e) roles (team_Generation t)) (fl_store f) = (s roles, e1 roles)" for roles
    by (simp add: s_def e1_def)
  have st: "st_sessions (s roles) = fseats f" for roles using UpdateTeam_seats_eq[OF u] .
  have starts: "team_at (s roles) = (fteams f)(k \<mapsto> fst (start_shift (te_now e) roles (team_Generation t) t))" for roles
    using UpdateTeam_look[OF u Some] .
  show ?thesis using assms Some
    by (auto simp: initiateShiftLocked_def t u st starts start_shift_def shift_starts_def team_id_def split: if_splits option.splits)
qed

text \<open>A step of the walk: it asks or drops, or it starts the shift an answered request is for.\<close>

definition shift_begun :: "tick_env \<Rightarrow> Role \<Rightarrow> Team \<times> Fleet \<Rightarrow> Team \<times> Fleet \<Rightarrow> bool" where
  "shift_begun e role a b \<longleftrightarrow> answered e a role \<and> fst b = fst a \<and> fseats (snd b) = fseats (snd a) \<and>
     shift_starts role (team_key (fst a)) (snd a) (snd b) \<and> (\<forall>k. k \<noteq> team_key (fst a) \<longrightarrow> same_shift k (snd a) (snd b))"

lemma autoShift_effect:
  assumes "autoShift e role sess (t, f) = (started, b)" and "answered e (t, f) role"
  shows "shift_begun e role (t, f) b \<or> asks_only (role_Name role) (t, f) b \<and> \<not> started"
proof -
  let ?f = "fl_emit KindShiftAutoTriggered t (role_Name role) sess f"
  obtain g err where i: "initiateShiftLocked e (team_key t) (role_Name role) ?f = (g, err)" by fastforce
  note d = initiateShiftLocked_effect[OF i]
  show ?thesis using assms i d
    by (auto simp: autoShift_def shift_begun_def asks_only_def shift_starts_def same_shift_def split: option.splits)
qed

lemma advanceShiftRequest_effect:
  assumes "advanceShiftRequest e role req a = (started, b)" and "team_ShiftRequests (fst a) (role_Name role) = Some req"
    and "hasCondition (Conditions (role_Shift role)) (sr_Cause req)" and "\<not> Covers (team_Hibernate (fst a)) (role_Name role)"
  shows "shift_begun e role a b \<or> asks_only (role_Name role) a b \<and> \<not> started"
proof -
  obtain t f where a: "a = (t, f)" by fastforce
  have "answered e (t, f) role" if "GetSession (fl_store f) (sr_Session req) = Inr sess" "alive sess" "sess_CreatedAt sess < sr_RequestedAt req"
    "handoff_file e role sess \<noteq> []" "te_probe e (session_key sess) = Some r" "pr_complete r" "fl_autoShifts f < maxAutoShiftsPerTick" for sess r
    using that assms(2-4) a by (auto simp: answered_def handoff_seen_def GetSession_def split: option.splits)
  note run = autoShift_effect[OF _ this]
  have quiet: "asks_only (role_Name role) a (dropShiftRequest e (role_Name role) a)"
    "asks_only (role_Name role) a (snd (put_request e (role_Name role) q a))" for q
    by (rule dropShiftRequest_asks put_request_asks)+
  show ?thesis using assms(1) unfolding a advanceShiftRequest_def prod.case
    by (auto simp: Let_def not_le quiet[unfolded a] split: sum.splits if_splits option.splits dest!: run)
qed

lemma outcome_refl: "shift_outcome e roles a a"
  by (simp add: shift_outcome_def same_shift_def)

lemma outcome_mono: "shift_outcome e roles a b \<Longrightarrow> shift_outcome e (role # roles) a b"
  by (auto simp: shift_outcome_def)

lemma asks_outcome: "asks_only n a b \<Longrightarrow> shift_outcome e roles b c \<Longrightarrow> n \<notin> role_Name ` set roles \<Longrightarrow> shift_outcome e (role # roles) a c"
  by (rule outcome_mono) (rule asks_then_outcome)

lemma begun_outcome: "shift_begun e role a b \<Longrightarrow> shift_outcome e roles b c \<Longrightarrow> shift_outcome e (role # roles) a c"
  by (rule start_then_outcome[of b a e role roles c]) (simp_all add: shift_begun_def)

lemma step_outcome:
  assumes "shift_begun e role a b \<or> asks_only (role_Name role) a b" and "asks_only (role_Name role) b b'" and "shift_outcome e roles b' c"
    and "role_Name role \<notin> role_Name ` set roles"
  shows "shift_outcome e (role # roles) a c"
  using assms(1)
proof
  assume "shift_begun e role a b"
  then show ?thesis using begun_outcome asks_then_outcome[OF assms(2-4)] by blast
next
  assume "asks_only (role_Name role) a b"
  then show ?thesis using asks_outcome asks_only_trans[OF _ assms(2)] assms(3,4) by blast
qed

lemma trigger_roles_outcome:
  "distinct (map role_Name roles) \<Longrightarrow> shift_outcome e roles tf (trigger_roles e roles tf)"
proof (induction roles arbitrary: tf)
  case (Cons role roles)
  let ?n = "role_Name role" and ?conds = "Conditions (role_Shift role)"
  have n: "?n \<notin> role_Name ` set roles" using Cons.prems by simp
  have IH: "shift_outcome e roles a (trigger_roles e roles a)" for a using Cons by simp
  have rest: "shift_outcome e (role # roles) tf (trigger_roles e roles (trigger_conds e role ?conds a))" if "asks_only ?n tf a" for a
    by (rule step_outcome[OF disjI2[OF that] trigger_conds_asks IH n])
  consider "Covers (team_Hibernate (fst tf)) ?n" | "\<not> Covers (team_Hibernate (fst tf)) ?n" "team_ShiftRequests (fst tf) ?n = None"
    | req where "\<not> Covers (team_Hibernate (fst tf)) ?n" "team_ShiftRequests (fst tf) ?n = Some req" "\<not> hasCondition ?conds (sr_Cause req)"
    | req where "\<not> Covers (team_Hibernate (fst tf)) ?n" "team_ShiftRequests (fst tf) ?n = Some req" "hasCondition ?conds (sr_Cause req)"
    by blast
  then show ?case
  proof cases
    case 1
    then show ?thesis using outcome_mono[OF IH] by simp
  next
    case 2
    then show ?thesis using rest[OF asks_only_refl] by simp
  next
    case 3
    then show ?thesis using rest[OF dropShiftRequest_asks] by simp
  next
    case 4
    obtain started b where s: "advanceShiftRequest e role req tf = (started, b)" by (metis surj_pair)
    note eff = advanceShiftRequest_effect[OF s 4(2,3,1)]
    have "shift_outcome e (role # roles) tf (trigger_roles e roles b')" if "asks_only ?n b b'" for b'
      by (rule step_outcome[OF _ that IH n]) (use eff in blast)
    moreover have "shift_outcome e (role # roles) tf b" if started using begun_outcome[OF _ outcome_refl] eff that by blast
    ultimately show ?thesis using 4 s trigger_conds_asks[of role b e ?conds] by (auto split: bool.split)
  qed
qed (simp add: outcome_refl)

text \<open>C22. A shift starts by itself only on an observed handoff. Whatever the triggers find, the pass over a
  team's roles changes no session and no other team's shift; and if it changes the team's own shift,
  the team had none, its record now has a shift just launching over the roles a shift of some role
  \<open>role\<close> covers, and that role had a pending request, made for a cause its policy still declares, whose seat
  is alive, older than the request, and has a complete handoff; the role is not hibernated and the
  tick's budget of automatic shifts was not used up.\<close>

theorem auto_shift_needs_handoff:
  assumes "distinct (map role_Name (team_Roles t))" and "evaluateShiftTriggers e (t, f) = (t', f')"
  shows "st_sessions (fl_store f') = st_sessions (fl_store f) \<and>
    (\<forall>k x y. team_at (fl_store f) k = Some x \<and> team_at (fl_store f') k = Some y \<and> team_Shift y \<noteq> team_Shift x \<longrightarrow>
      k = team_key t \<and> sh_Phase (team_Shift x) = ShiftNone \<and> sh_Phase (team_Shift y) = ShiftLaunching \<and>
      fl_autoShifts f < maxAutoShiftsPerTick \<and>
      (\<exists>role\<in>set (team_Roles t). shift_roles x (role_Name role) = Some (sh_Roles (team_Shift y)) \<and>
         \<not> Covers (team_Hibernate t) (role_Name role) \<and>
         (\<exists>req sess. team_ShiftRequests t (role_Name role) = Some req \<and> hasCondition (Conditions (role_Shift role)) (sr_Cause req) \<and>
            session_at (fl_store f) (sr_Session req) = Some sess \<and> alive sess \<and> sess_CreatedAt sess < sr_RequestedAt req \<and>
            handoff_seen e role sess)))"
proof -
  have "shift_outcome e (team_Roles t) (t, f) (t', f')"
    using trigger_roles_outcome[OF assms(1), of e "(t, f)"] outcome_refl[of e "team_Roles t" "(t, f)"] assms(2)
    by (auto simp: evaluateShiftTriggers_def split: if_splits)
  note out = this
  show ?thesis
  proof (rule conjI, use out in \<open>simp add: shift_outcome_def\<close>, intro allI impI, goal_cases)
    case (1 k x y)
    then obtain role where "k = team_key t" "role \<in> set (team_Roles t)" "answered e (t, f) role" "shift_starts role k f f'"
      using shift_outcomeD[OF out, of k] by (auto simp: same_shift_def)
    with 1 show ?case by (auto simp: answered_def shift_starts_def)
  qed
qed

definition aged_role :: Role where
  "aged_role = (example_role ''dev'' 1)\<lparr>role_Shift := Some \<lparr>shp_On = [], shp_HeadroomTokens = 0,
     shp_Any = [\<lparr>sc_On = ShiftTriggerMaxAge, sc_HeadroomTokens = 0, sc_MaxAge = 1, sc_QuietFor = 0, sc_MaxDefer = 0\<rparr>],
     shp_Handoff = ''handoff'', shp_HandoffMarker = [], shp_HandoffWindow = 0\<rparr>\<rparr>"

definition asked_team :: Team where
  "asked_team = (shifting_team ShiftNone)\<lparr>team_Roles := [aged_role],
     team_ShiftRequests := [''dev'' \<mapsto> new_request (example_env 7) ShiftTriggerMaxAge old_dev]\<rparr>"

definition answered_env :: tick_env where
  "answered_env = (example_env 9)\<lparr>te_path := \<lambda>tmpl _. tmpl, te_probe := [session_key old_dev \<mapsto> \<lparr>pr_startedAt = 8, pr_complete = True\<rparr>]\<rparr>"

lemmas asked_defs = asked_team_def aged_role_def answered_env_def shifting_defs example_env_def new_request_def

lemma asked_team_shifts:
  defines "r \<equiv> evaluateShiftTriggers answered_env (asked_team, fleet_of asked_team [old_dev])"
  shows "\<exists>y. team_at (fl_store (snd r)) ''ws/squad'' = Some y \<and> sh_Phase (team_Shift y) = ShiftLaunching"
proof -
  let ?f = "fleet_of asked_team [old_dev]"
  obtain s err where u: "UpdateTeam (te_commits answered_env) ''ws/squad'' (start_shift (te_now answered_env) [''dev''] (team_Generation asked_team)) (fl_store ?f) = (s, err)"
    by fastforce
  have k: "team_key asked_team = ''ws/squad''" "role_Name aged_role = ''dev''" "fteams ?f ''ws/squad'' = Some asked_team"
    "sh_Phase (team_Shift asked_team) = ShiftNone" by (simp_all add: asked_defs)
  have s: "team_at s ''ws/squad'' = Some (fst (start_shift (te_now answered_env) [''dev''] (team_Generation asked_team) asked_team))"
    using UpdateTeam_look[OF u k(3)] by simp
  have free: "team_Pruning asked_team = None" "shift_roles asked_team ''dev'' = Some [''dev'']" "team_Hibernate asked_team = None"
    "\<not> Declared (team_Budget asked_team)" "team_Roles asked_team = [aged_role]"
    by (simp_all add: shift_roles_def find_role_def Declared_def asked_defs)
  have i: "\<exists>g e1. initiateShiftLocked answered_env ''ws/squad'' ''dev'' (fl_emit KindShiftAutoTriggered asked_team ''dev'' x ?f) = (g, e1) \<and> fl_store g = s" for x
    using u k free by (simp add: initiateShiftLocked_def GetTeam_def Covers_def split: option.split)
  have a: "\<exists>g flag. autoShift answered_env aged_role x (asked_team, ?f) = (flag, asked_team, g) \<and> fl_store g = s" for x
    using i[of x] k by (auto simp: autoShift_def split: option.split)
  let ?req = "new_request (example_env 7) ShiftTriggerMaxAge old_dev"
  have req: "team_ShiftRequests asked_team ''dev'' = Some ?req" "hasCondition (Conditions (role_Shift aged_role)) (sr_Cause ?req)"
    by (simp_all add: hasCondition_def Conditions_def asked_defs)
  have row: "GetSession (fl_store ?f) (sr_Session ?req) = Inr old_dev" by (simp add: GetSession_def new_request_def)
  have seat: "alive old_dev" "sess_CreatedAt old_dev < sr_RequestedAt ?req"
    "\<not> sr_Escalated ?req" "handoff_file answered_env aged_role old_dev \<noteq> []" "\<not> maxAutoShiftsPerTick \<le> fl_autoShifts ?f"
    "te_probe answered_env (session_key old_dev) = Some \<lparr>pr_startedAt = 8, pr_complete = True\<rparr>"
    by (simp_all add: handoff_file_def maxAutoShiftsPerTick_def fleet_of_def asked_defs)
  have "\<exists>g flag. advanceShiftRequest answered_env aged_role ?req (asked_team, ?f) = (flag, asked_team, g) \<and> fl_store g = s"
    using a[of "session_key old_dev"] row seat by (auto simp: advanceShiftRequest_def Let_def)
  then have "fl_store (snd r) = s"
    using k req free by (auto simp: r_def evaluateShiftTriggers_def Covers_def split: bool.split)
  then show ?thesis using s k by (simp add: start_shift_def)
qed

theorem auto_shift_needs_handoff_witness:
  "\<exists>t' f' y. evaluateShiftTriggers answered_env (asked_team, fleet_of asked_team [old_dev]) = (t', f') \<and>
     team_at (fl_store f') ''ws/squad'' = Some y \<and> sh_Phase (team_Shift y) = ShiftLaunching \<and>
     st_sessions (fl_store f') = [(''ws/squad-dev-g1-0'', old_dev)] \<and> handoff_seen answered_env aged_role old_dev"
proof -
  let ?f = "fleet_of asked_team [old_dev]"
  obtain t' f' where r: "evaluateShiftTriggers answered_env (asked_team, ?f) = (t', f')" by fastforce
  then obtain y where y: "team_at (fl_store f') ''ws/squad'' = Some y" "sh_Phase (team_Shift y) = ShiftLaunching"
    using asked_team_shifts by auto
  have x: "team_at (fl_store ?f) ''ws/squad'' = Some asked_team" "sh_Phase (team_Shift asked_team) = ShiftNone"
    "distinct (map role_Name (team_Roles asked_team))" by (simp_all add: asked_defs)
  then have ne: "team_Shift y \<noteq> team_Shift asked_team" using y by auto
  note need = auto_shift_needs_handoff[OF x(3) r]
  from need have f: "st_sessions (fl_store f') = st_sessions (fl_store ?f)" by (rule conjunct1)
  from conjunct2[OF need, rule_format, OF conjI[OF x(1) conjI[OF y(1) ne]]]
  obtain role sess and req :: ShiftRequest where "role \<in> set (team_Roles asked_team)" "session_at (fl_store ?f) (sr_Session req) = Some sess"
    "handoff_seen answered_env role sess" by blast
  moreover from this have "sess = old_dev" "role = aged_role" by (auto simp: asked_team_def split: if_splits)
  moreover have "session_key old_dev = ''ws/squad-dev-g1-0''" by (simp add: asked_defs)
  ultimately show ?thesis using r y f by simp
qed

end
