(* ===== verification/Hibernate_Properties.thy ===== *)
theory Hibernate_Properties
  imports Hibernate Handoff_Properties
begin

text \<open>
  The two promises of a hibernate: it ends no seat that has not handed off, and nothing spawns for a
  role it covers.
\<close>

section \<open>The sign-off\<close>

lemma dropHibernateRequest_effect:
  "fseats (snd (dropHibernateRequest e k (t, f))) = fseats f" "team_Roles (fst (dropHibernateRequest e k (t, f))) = team_Roles t"
  "set (team_HibernateRequests (fst (dropHibernateRequest e k (t, f)))) \<subseteq> set (team_HibernateRequests t)"
proof -
  let ?drop = "\<lambda>x. x\<lparr>team_HibernateRequests := AList.delete k (team_HibernateRequests x)\<rparr>"
  obtain f1 err where u: "fl_UpdateTeam e (team_key t) ?drop f = (f1, err)" by fastforce
  have "fseats f1 = fseats f" using fl_UpdateTeam_seats[of e "team_key t" ?drop f] u by simp
  then show "fseats (snd (dropHibernateRequest e k (t, f))) = fseats f"
    "team_Roles (fst (dropHibernateRequest e k (t, f))) = team_Roles t"
    "set (team_HibernateRequests (fst (dropHibernateRequest e k (t, f)))) \<subseteq> set (team_HibernateRequests t)"
    using u by (auto simp: dropHibernateRequest_def AList.delete_eq)
qed

lemma putHibernateRequest_effect:
  "fseats (snd (snd (putHibernateRequest e req (t, f)))) = fseats f" "team_Roles (fst (snd (putHibernateRequest e req (t, f)))) = team_Roles t"
  "set (team_HibernateRequests (fst (snd (putHibernateRequest e req (t, f))))) \<subseteq> insert (sr_Session req, req) (set (team_HibernateRequests t))"
proof -
  let ?put = "\<lambda>x. x\<lparr>team_HibernateRequests := AList.update (sr_Session req) req (team_HibernateRequests x)\<rparr>"
  obtain f1 err where u: "fl_UpdateTeam e (team_key t) ?put f = (f1, err)" by fastforce
  have "fseats f1 = fseats f" using fl_UpdateTeam_seats[of e "team_key t" ?put f] u by simp
  moreover have "set (AList.update k v al) \<subseteq> insert (k, v) (set al)" for k v and al :: "(string \<times> ShiftRequest) list"
    by (induction al) auto
  ultimately show "fseats (snd (snd (putHibernateRequest e req (t, f)))) = fseats f"
    "team_Roles (fst (snd (putHibernateRequest e req (t, f)))) = team_Roles t"
    "set (team_HibernateRequests (fst (snd (putHibernateRequest e req (t, f))))) \<subseteq> insert (sr_Session req, req) (set (team_HibernateRequests t))"
    using u by (auto simp: putHibernateRequest_def split: option.split)
qed

lemma recordHibernatedSeat_effect:
  "fseats (snd (recordHibernatedSeat e k (t, f))) = fseats f" "team_Roles (fst (recordHibernatedSeat e k (t, f))) = team_Roles t"
  "team_HibernateRequests (fst (recordHibernatedSeat e k (t, f))) = team_HibernateRequests t"
proof -
  obtain f1 err where u: "fl_UpdateTeam e (team_key t) (add_seat k) f = (f1, err)" by fastforce
  have "fseats f1 = fseats f" using fl_UpdateTeam_seats[of e "team_key t" "add_seat k" f] u by simp
  then show "fseats (snd (recordHibernatedSeat e k (t, f))) = fseats f" "team_Roles (fst (recordHibernatedSeat e k (t, f))) = team_Roles t"
    "team_HibernateRequests (fst (recordHibernatedSeat e k (t, f))) = team_HibernateRequests t"
    using u by (simp_all add: recordHibernatedSeat_def add_seat_def)
qed

text \<open>The seat has handed off: its role declares a file for it, and the newest read of it found the marker.\<close>

definition handed_off :: "tick_env \<Rightarrow> Team \<Rightarrow> Session \<Rightarrow> bool" where
  "handed_off e t x \<longleftrightarrow> (\<exists>role. find_role t (sess_Role x) = Some role \<and> handoff_seen e role x)"

lemma endHibernated_effect:
  assumes "keyed (fseats f)"
  shows "keyed (fseats (snd (endHibernated e sess (t, f))))" "team_Roles (fst (endHibernated e sess (t, f))) = team_Roles t"
    "k \<noteq> session_key sess \<Longrightarrow> frows (snd (endHibernated e sess (t, f))) k = frows f k"
proof -
  let ?g = "fst (fl_Delete e (session_key sess) (fl_emit KindSessionRetired t (sess_Role sess) (session_key sess) f))"
  obtain t1 f1 where d: "dropHibernateRequest e (session_key sess) (t, ?g) = (t1, f1)" by fastforce
  have g: "fseats f1 = fseats ?g" "team_Roles t1 = team_Roles t"
    using dropHibernateRequest_effect(1,2)[of e "session_key sess" t ?g] d by simp_all
  have "keyed (fseats ?g)" using fl_Delete_keyed assms by simp
  moreover have "k \<noteq> session_key sess \<Longrightarrow> frows ?g k = frows f k"
    using fl_Delete_other[of k "session_key sess" "fl_emit KindSessionRetired t (sess_Role sess) (session_key sess) f" e] assms by simp
  ultimately show "keyed (fseats (snd (endHibernated e sess (t, f))))" "team_Roles (fst (endHibernated e sess (t, f))) = team_Roles t"
    "k \<noteq> session_key sess \<Longrightarrow> frows (snd (endHibernated e sess (t, f))) k = frows f k"
    using g by (simp_all add: endHibernated_def d recordHibernatedSeat_effect)
qed

lemma handed_off_cong: "team_Roles t' = team_Roles t \<Longrightarrow> handed_off e t' x = handed_off e t x"
  by (simp add: handed_off_def find_role_cong[of t' t])

lemma advanceHibernateRequest_effect:
  fixes e :: tick_env and req :: ShiftRequest and t :: Team and f :: Fleet
  assumes "keyed (fseats f)"
  defines "r \<equiv> advanceHibernateRequest e req (t, f)"
  shows "keyed (fseats (snd r))" "team_Roles (fst r) = team_Roles t"
    "frows f k = Some x \<Longrightarrow> frows (snd r) k \<noteq> Some x \<Longrightarrow> handed_off e t x"
proof -
  have key: "session_key s = sr_Session req" if "GetSession (fl_store f) (sr_Session req) = Inr s" for s
    using that assms(1) by (auto simp: GetSession_def keyed_def list_all_iff split: option.splits dest!: map_of_SomeD)
  have "(fseats (snd r) = fseats f \<and> team_Roles (fst r) = team_Roles t) \<or>
    (\<exists>s. GetSession (fl_store f) (sr_Session req) = Inr s \<and> r = endHibernated e s (t, f) \<and> handed_off e t s)"
    unfolding r_def advanceHibernateRequest_def handed_off_def handoff_seen_def
    by (simp add: dropHibernateRequest_effect putHibernateRequest_effect Let_def split: sum.split option.split)
  then consider "fseats (snd r) = fseats f" "team_Roles (fst r) = team_Roles t"
    | s where "GetSession (fl_store f) (sr_Session req) = Inr s" "r = endHibernated e s (t, f)" "handed_off e t s" by blast
  then have "keyed (fseats (snd r)) \<and> team_Roles (fst r) = team_Roles t \<and>
    (frows f k = Some x \<and> frows (snd r) k \<noteq> Some x \<longrightarrow> handed_off e t x)"
  proof cases
    case 2
    have "frows f (session_key s) = Some s" using 2(1) key[OF 2(1)] by (auto simp: GetSession_def split: option.splits)
    with 2(2,3) endHibernated_effect[OF assms(1), where e = e and sess = s and t = t] show ?thesis
      by (cases "k = session_key s") auto
  qed (use assms(1) in auto)
  then show "keyed (fseats (snd r))" "team_Roles (fst r) = team_Roles t"
    "frows f k = Some x \<Longrightarrow> frows (snd r) k \<noteq> Some x \<Longrightarrow> handed_off e t x" by blast+
qed

lemma advance_requests_effect:
  fixes e :: tick_env and t :: Team and f :: Fleet
  assumes "keyed (fseats f)"
  defines "r \<equiv> advance_requests e (t, f)"
  shows "keyed (fseats (snd r))" "team_Roles (fst r) = team_Roles t"
    "frows f k = Some x \<Longrightarrow> frows (snd r) k \<noteq> Some x \<Longrightarrow> handed_off e t x"
proof -
  let ?op = "\<lambda>tf j. advanceHibernateRequest e (case map_of (team_HibernateRequests (fst tf)) j of Some req \<Rightarrow> req | None \<Rightarrow> no_request) tf"
  have "keyed (fseats (snd (foldl ?op (t, f) ks))) \<and> team_Roles (fst (foldl ?op (t, f) ks)) = team_Roles t \<and>
    (\<forall>j y. frows f j = Some y \<and> frows (snd (foldl ?op (t, f) ks)) j \<noteq> Some y \<longrightarrow> handed_off e t y)" for ks
  proof (induction ks rule: rev_induct)
    case (snoc j ks)
    obtain t1 f1 where b: "foldl ?op (t, f) ks = (t1, f1)" by fastforce
    note step = advanceHibernateRequest_effect[of f1, where e = e and t = t1]
    from snoc show ?case using step handed_off_cong[of t1 t e] by (simp add: b) blast
  qed (simp add: assms(1))
  then show "keyed (fseats (snd r))" "team_Roles (fst r) = team_Roles t"
    "frows f k = Some x \<Longrightarrow> frows (snd r) k \<noteq> Some x \<Longrightarrow> handed_off e t x"
    by (auto simp: r_def advance_requests_def)
qed

lemma askHibernate_seats: "fseats (snd (askHibernate e role s tf)) = fseats (snd tf)"
proof -
  obtain t f where tf: "tf = (t, f)" by fastforce
  obtain ok t1 f1 where p: "putHibernateRequest e (new_request e HandoffCauseHibernate s) (t, f) = (ok, t1, f1)" by (metis prod_cases3)
  have "fseats f1 = fseats f" using putHibernateRequest_effect(1)[of e "new_request e HandoffCauseHibernate s" t f] p by simp
  then show ?thesis by (simp add: askHibernate_def tf p split: bool.split)
qed

lemma ask_role_seats: "fseats (snd (ask_role e role tf)) = fseats (snd tf)"
proof -
  have "fseats (snd (foldl (\<lambda>tf s. askHibernate e role s tf) tf ss)) = fseats (snd tf)" for ss
    by (induction ss rule: rev_induct) (simp_all add: askHibernate_seats)
  then show ?thesis by (simp add: ask_role_def)
qed

lemma ask_roles_seats: "fseats (snd (foldl (\<lambda>tf role. ask_role e role tf) tf roles)) = fseats (snd tf)"
  by (induction roles rule: rev_induct) (simp_all add: ask_role_seats)

lemma noteHibernated_seats: "fseats (snd (noteHibernated e tf)) = fseats (snd tf)"
  by (simp add: noteHibernated_def split: prod.split)

lemma advanceSignOff_seats: "fseats (snd (advanceSignOff e tf)) = fseats (snd (advance_requests e tf))"
  by (simp add: advanceSignOff_def Let_def ask_roles_seats noteHibernated_seats split: prod.split)

text \<open>C23. The sign-off of a hibernate ends only seats that have handed off. Whatever a pass of it changes or
  removes of the session table is a row whose role declares a handoff file for the seat and whose newest
  read found the file complete: a seat that has not handed off, or cannot, is left running and reported.\<close>

theorem sign_off_ends_only_on_handoff:
  assumes "keyed (fseats f)" and "frows f k = Some x" and "\<not> handed_off e t x"
  shows "frows (snd (advanceSignOff e (t, f))) k = Some x"
  using advance_requests_effect(3)[OF assms(1,2), of e t] assms(3) by (auto simp: advanceSignOff_seats)

definition resting_team :: Team where
  "resting_team = shifting_team ShiftNone\<lparr>team_Hibernate := Some \<lparr>hm_State = HibernateHibernated, hm_Since = 6, hm_Roles = [], hm_Seats = []\<rparr>,
     team_HibernateRequests := [(session_key old_dev, new_request (example_env 7) HandoffCauseHibernate old_dev)]\<rparr>"

lemmas resting_defs = resting_team_def shifting_defs

theorem sign_off_ends_only_on_handoff_witness:
  "frows (snd (advanceSignOff (example_env 900000000000000) (resting_team, fleet_of resting_team [old_dev]))) ''ws/squad-dev-g1-0'' = Some old_dev"
  by (rule sign_off_ends_only_on_handoff) (simp_all add: keyed_def handed_off_def handoff_seen_def handoff_file_def find_role_def resting_defs)

section \<open>Nothing spawns for a covered role\<close>

lemma hibernated_plan_spawns_nothing:
  assumes "hibernated t" and "Covers (team_Hibernate t) (role_Name role)"
  shows "plan_Spawn (planRole now src bus c t role gen) = 0"
proof -
  have "hibernateBlocks (c_store c) now t role = (True, ''hibernated; run marvel wake'')"
    using assms by (auto simp: hibernateBlocks_def hibernated_def split: option.splits)
  then show ?thesis by (simp add: planRole_def plan_spawn_def plan_shed_def Let_def split: option.split)
qed

text \<open>C24. While a team is hibernated nothing starts for a role the hibernate covers: no reconcile of the role,
  at any generation, creates a session; a shift of the role is refused and changes nothing; and the
  schedule clock leaves the role's schedule, its sessions and everything else as they are.\<close>

theorem hibernated_role_starts_nothing:
  assumes "keyed (fseats f)" and "fteams f k = Some t" and "hibernated t" and "role \<in> set (team_Roles t)"
    and "Covers (team_Hibernate t) (role_Name role)"
  shows "(\<forall>gen j. frows (snd (reconcileRoleAt e role gen (t, f))) j \<noteq> None \<longrightarrow> frows f j \<noteq> None) \<and>
    (\<forall>j. frows (snd (reconcileRole e role (t, f))) j \<noteq> None \<longrightarrow> frows f j \<noteq> None) \<and>
    (\<exists>err. initiateShiftLocked e k (role_Name role) f = (f, Some err)) \<and>
    stepScheduleClock tzdb jit e t role p f = Some f"
proof (intro conjI allI impI)
  have shrinks: "frows f j \<noteq> None"
    if "frows (snd (applyRolePlan e role (planRole (te_now e) (te_src e) (te_bus e) (fl_ctl f) t role gen) (t, f))) j \<noteq> None" for gen j
    by (rule applyRolePlan_shrinks[OF assms(1) _ that]) (simp add: hibernated_plan_spawns_nothing[OF assms(3,5)])
  show "frows f j \<noteq> None" if "frows (snd (reconcileRoleAt e role gen (t, f))) j \<noteq> None" for gen j
    using shrinks[of gen j] that by (simp add: reconcileRoleAt_def)
  show "frows f j \<noteq> None" if "frows (snd (reconcileRole e role (t, f))) j \<noteq> None" for j
    using shrinks[of "team_Generation t" j] that by (auto simp: reconcileRole_def reconcile_plan_def Let_def split: if_splits)
  have "\<exists>n\<in>set roles. Covers (team_Hibernate t) n" if "shift_roles t (role_Name role) = Some roles" for roles
    using that assms(4,5) by (auto simp: shift_roles_def shiftOrder_def split: if_splits intro!: bexI[of _ role])
  then have "find (Covers (team_Hibernate t)) roles \<noteq> None" if "shift_roles t (role_Name role) = Some roles" for roles
    using that by (auto simp: find_None_iff)
  then show "\<exists>err. initiateShiftLocked e k (role_Name role) f = (f, Some err)"
    using assms(2) by (auto simp: initiateShiftLocked_def GetTeam_def split: option.split)
  show "stepScheduleClock tzdb jit e t role p f = Some f" using assms(3,5) by (simp add: stepScheduleClock_def)
qed

theorem hibernated_role_starts_nothing_witness:
  "(\<forall>j. frows (snd (reconcileRole (example_env 9) (example_role ''dev'' 1) (resting_team, fleet_of resting_team []))) j = None) \<and>
   (\<exists>err. initiateShiftLocked (example_env 9) ''ws/squad'' ''dev'' (fleet_of resting_team []) = (fleet_of resting_team [], Some err))"
  using hibernated_role_starts_nothing[of "fleet_of resting_team []" "''ws/squad''" resting_team "example_role ''dev'' 1" "example_env 9"]
  by (auto simp: keyed_def hibernated_def Covers_def resting_defs)

end
