(* ===== verification/Team_Pass.thy ===== *)
theory Team_Pass
  imports Hibernate_Properties
begin

text \<open>
  A reconcile pass over one team stays within the team. Each step of the pass is shown to change only
  rows of the team's own slots and no other team's record; the steps are then put together in the order
  of \<open>reconcileTeam\<close>.
\<close>

section \<open>Staying within the team\<close>

definition team_slots :: "Team \<Rightarrow> slot set" where
  "team_slots t = {(team_Workspace t, team_Name t, r) | r. True}"

definition stays :: "Team \<times> Fleet \<Rightarrow> Team \<times> Fleet \<Rightarrow> bool" where
  "stays a b \<longleftrightarrow> seat_steps (team_slots (fst a)) (fseats (snd a)) (fseats (snd b)) \<and> team_id (fst b) = team_id (fst a) \<and>
     map_option team_id (fteams (snd b) (team_key (fst a))) = map_option team_id (fteams (snd a) (team_key (fst a))) \<and>
     (\<forall>j. j \<noteq> team_key (fst a) \<longrightarrow> fteams (snd b) j = fteams (snd a) j)"

lemma stays_id:
  assumes "stays a b"
  shows "team_slots (fst b) = team_slots (fst a)" "team_key (fst b) = team_key (fst a)"
  using assms by (simp_all add: stays_def team_id_def team_slots_def team_key_def)

lemma stays_refl [simp]: "stays a a"
  by (simp add: stays_def)

lemma stays_trans [trans]:
  assumes "stays a b" "stays b c"
  shows "stays a c"
  using assms stays_id[OF assms(1)] by (auto simp: stays_def intro: rtranclp_trans)

lemma stays_keyed: "stays a b \<Longrightarrow> keyed (fseats (snd a)) \<Longrightarrow> keyed (fseats (snd b))"
  by (auto simp: stays_def intro: seat_steps_keyed)

lemma stays_owned: "stays a b \<Longrightarrow> owned (team_slots (fst a)) (fseats (snd a)) k \<Longrightarrow> owned (team_slots (fst a)) (fseats (snd b)) k"
  by (auto simp: stays_def intro: seat_steps_owned)

lemma stays_rows:
  assumes "stays a b" and "keyed (fseats (snd a))" and "slot_of x \<notin> team_slots (fst a)"
  shows "frows (snd b) k = Some x \<longleftrightarrow> frows (snd a) k = Some x"
  using seat_steps_row[of "team_slots (fst a)" "fseats (snd a)" "fseats (snd b)" x k] assms by (simp add: stays_def)

lemma core_id: "team_id (core t) = team_id t"
  by (simp add: core_def team_id_def)

lemma core_ids:
  "core t' = core t \<Longrightarrow> team_id t' = team_id t"
  "map_option core u' = map_option core u \<Longrightarrow> map_option team_id u' = map_option team_id u"
proof -
  show "core t' = core t \<Longrightarrow> team_id t' = team_id t" by (metis core_id)
  have "map_option team_id (map_option core u) = map_option team_id u" for u by (cases u) (simp_all add: core_id)
  then show "map_option core u' = map_option core u \<Longrightarrow> map_option team_id u' = map_option team_id u" by metis
qed

lemma frame_stays: "role_frame (team_slots (fst a)) a b \<Longrightarrow> stays a b"
  by (auto simp: role_frame_def stays_def intro: core_ids)

lemma role_slot [simp]: "(team_Workspace t, team_Name t, r) \<in> team_slots t"
  by (simp add: team_slots_def)

lemma update_stays:
  assumes "team_id t' = team_id t" "\<And>x. team_id (g x) = team_id x"
  shows "stays (t, f) (t', fst (fl_UpdateTeam e (team_key t) g f))"
  using assms by (auto simp: stays_def fl_UpdateTeam_teams split: option.split)

text \<open>A change of the fleet that leaves the tables of the store alone.\<close>

lemma stays_tables:
  assumes "stays a (t, f)" "fseats f' = fseats f" "fteams f' = fteams f"
  shows "stays a (t, f')"
  using assms by (simp add: stays_def)

lemma stays_from:
  assumes "stays (t, f') b" "fseats f' = fseats f" "fteams f' = fteams f"
  shows "stays (t, f) b"
  using assms by (simp add: stays_def)

text \<open>A round over a list keeps what each step keeps.\<close>

lemma stays_fold:
  assumes "\<And>x b. x \<in> set xs \<Longrightarrow> stays a b \<Longrightarrow> keyed (fseats (snd b)) \<Longrightarrow> P b \<Longrightarrow> stays b (op b x) \<and> P (op b x)"
    and "keyed (fseats (snd a))" and "P a"
  shows "stays a (foldl op a xs) \<and> P (foldl op a xs)"
  using assms(1)
proof (induction xs rule: rev_induct)
  case (snoc x xs)
  let ?b = "foldl op a xs"
  have ih: "stays a ?b" "P ?b" using snoc by simp_all
  with snoc(2)[of x ?b] stays_keyed[OF ih(1) assms(2)] have "stays ?b (op ?b x)" "P (op ?b x)" by simp_all
  with stays_trans[OF ih(1)] show ?case by simp
qed (simp add: assms(3))

section \<open>Retirements\<close>

lemma dropRetirement_stays:
  "stays (t, f) (dropRetirement e req (t, f)) \<and> set (team_Retiring (fst (dropRetirement e req (t, f)))) \<subseteq> set (team_Retiring t) \<and>
   team_HibernateRequests (fst (dropRetirement e req (t, f))) = team_HibernateRequests t"
proof -
  let ?f0 = "f\<lparr>fl_retireSeen := fl_retireSeen f - {rq_Session req}, fl_retireEnded := (fl_retireEnded f)(rq_Session req := None)\<rparr>"
  let ?g = "\<lambda>live. live\<lparr>team_Retiring := AList.delete (rq_Session req) (team_Retiring live)\<rparr>"
  obtain f1 err where u: "fl_UpdateTeam e (team_key t) ?g ?f0 = (f1, err)" by fastforce
  have s: "stays (t, f) (t', f1)" if "t' \<in> {t, ?g t}" for t'
    by (rule stays_from[of t ?f0]) (use that update_stays[of t' t ?g ?f0 e] u in \<open>auto simp: team_id_def\<close>)
  have "stays (t, f) (finishRoleRemoval e r (?g t, f1))" for r
    using stays_tables[OF s, of "?g t" "snd (finishRoleRemoval e r (?g t, f1))"] finishRoleRemoval_tables[of e r "?g t" f1]
    by (metis insertCI prod.collapse)
  moreover have "set (AList.delete k al) \<subseteq> set al" for k and al :: "(string \<times> RetireRequest) list"
    by (auto simp: AList.delete_eq)
  ultimately show ?thesis using s by (simp add: dropRetirement_def Let_def u)
qed

lemma killRetired_stays:
  assumes "keyed (fseats f)" and "owned (team_slots t) (fseats f) (session_key sess)"
  shows "stays (t, f) (killRetired e sess req (t, f)) \<and> set (team_Retiring (fst (killRetired e sess req (t, f)))) \<subseteq> set (team_Retiring t) \<and>
    team_HibernateRequests (fst (killRetired e sess req (t, f))) = team_HibernateRequests t"
proof -
  let ?f0 = "fl_emit KindSessionRetired t (sess_Role sess) (session_key sess) f"
  have "stays (t, ?f0) (t, DeleteAndReap e (session_key sess) ?f0)"
    using frame_stays[of "(t, ?f0)"] DeleteAndReap_frame[of ?f0 "team_slots t"] assms by simp
  then have "stays (t, f) (t, DeleteAndReap e (session_key sess) ?f0)" by (rule stays_from) simp_all
  with stays_trans[OF this] dropRetirement_stays show ?thesis by (auto simp: killRetired_def)
qed

text \<open>The open retirements and sign-off requests of a team name seats of the team, or seats that have gone.\<close>

definition own_requests :: "Team \<Rightarrow> Fleet \<Rightarrow> bool" where
  "own_requests t f \<longleftrightarrow> (\<forall>(k, q)\<in>set (team_Retiring t). owned (team_slots t) (fseats f) (rq_Session q)) \<and>
     (\<forall>(k, q)\<in>set (team_HibernateRequests t). owned (team_slots t) (fseats f) (sr_Session q))"

lemma no_key_owned: "keyed (fseats f) \<Longrightarrow> owned S (fseats f) []"
  by (auto simp: owned_def keyed_def list_all_iff session_key_def dest!: map_of_SomeD)

lemma GetSession_row:
  assumes "keyed (fseats f)" "GetSession (fl_store f) k = Inr x"
  shows "frows f k = Some x" "session_key x = k"
proof -
  show r: "frows f k = Some x" using assms(2) by (simp add: GetSession_def split: option.splits)
  then show "session_key x = k" using assms(1) by (auto simp: keyed_def list_all_iff dest!: map_of_SomeD)
qed

lemma advanceRetirement_cases:
  assumes "GetSession (fl_store f) (rq_Session req) = Inr sess"
  shows "\<exists>f'. fl_store f' = fl_store f \<and> advanceRetirement e req (t, f) \<in> {dropRetirement e req (t, f), (t, f'), killRetired e sess req (t, f')}"
proof -
  have settled: "fl_store f2 = fl_store f'" if "retireEndSettled e req read f' = (b, f2)" for read f' b f2
    using that by (auto simp: retireEndSettled_def Let_def split: if_splits)
  show ?thesis
    using assms unfolding advanceRetirement_def prod.case
    by (auto simp: Let_def split: prod.split dest!: settled intro: exI[of _ f] exI[of _ "f\<lparr>fl_retireSeen := insert (rq_Session req) (fl_retireSeen f)\<rparr>"])
qed

lemma advanceRetirement_stays:
  assumes "keyed (fseats f)" and "owned (team_slots t) (fseats f) (rq_Session req)"
  shows "stays (t, f) (advanceRetirement e req (t, f)) \<and> set (team_Retiring (fst (advanceRetirement e req (t, f)))) \<subseteq> set (team_Retiring t) \<and>
    team_HibernateRequests (fst (advanceRetirement e req (t, f))) = team_HibernateRequests t"
proof (cases "GetSession (fl_store f) (rq_Session req)")
  case (Inl err)
  then show ?thesis using dropRetirement_stays by (simp add: advanceRetirement_def)
next
  case (Inr sess)
  let ?ok = "\<lambda>r. stays (t, f) r \<and> set (team_Retiring (fst r)) \<subseteq> set (team_Retiring t) \<and> team_HibernateRequests (fst r) = team_HibernateRequests t"
  have same: "?ok (t, f')" if "fl_store f' = fl_store f" for f' using that by (simp add: stays_def)
  have kill: "?ok (killRetired e sess req (t, f'))" if "fl_store f' = fl_store f" for f'
    using killRetired_stays[of f' t sess e req] stays_from[of t f' _ f] assms GetSession_row(2)[OF assms(1) Inr] that by simp
  from advanceRetirement_cases[OF Inr, of e t]
  show ?thesis using dropRetirement_stays[of t f e req] same kill by (elim exE conjE insertE emptyE) simp_all
qed

lemma advanceRetirements_stays:
  assumes "keyed (fseats f)" and "own_requests t f"
  shows "stays (t, f) (advanceRetirements e (t, f))"
    and "team_HibernateRequests (fst (advanceRetirements e (t, f))) = team_HibernateRequests t"
proof -
  let ?op = "\<lambda>(t, f) key. advanceRetirement e (case map_of (team_Retiring t) key of Some req \<Rightarrow> req | None \<Rightarrow> zero_request) (t, f)"
  let ?P = "\<lambda>b. set (team_Retiring (fst b)) \<subseteq> set (team_Retiring t) \<and> team_HibernateRequests (fst b) = team_HibernateRequests t"
  have "stays b (?op b x) \<and> ?P (?op b x)" if b: "stays (t, f) b" "keyed (fseats (snd b))" "?P b" for b x
  proof -
    obtain t1 f1 where tf: "b = (t1, f1)" by fastforce
    let ?req = "case map_of (team_Retiring t1) x of Some req \<Rightarrow> req | None \<Rightarrow> zero_request"
    have "owned (team_slots t) (fseats f) (rq_Session ?req)"
    proof (cases "map_of (team_Retiring t1) x")
      case None
      then show ?thesis using no_key_owned[OF assms(1)] by (simp add: zero_request_def)
    next
      case (Some q)
      then have "(x, q) \<in> set (team_Retiring t)" using b(3) map_of_SomeD[OF Some] tf by auto
      then show ?thesis using assms(2) Some by (auto simp: own_requests_def)
    qed
    then have "owned (team_slots t1) (fseats f1) (rq_Session ?req)" using stays_owned[OF b(1)] stays_id(1)[OF b(1)] tf by simp
    from advanceRetirement_stays[OF _ this, of e] b(2,3) show ?thesis by (auto simp: tf)
  qed
  then have "stays (t, f) (foldl ?op (t, f) xs) \<and> ?P (foldl ?op (t, f) xs)" for xs
    using stays_fold[of xs "(t, f)" ?P ?op] assms(1) by simp
  then show "stays (t, f) (advanceRetirements e (t, f))" "team_HibernateRequests (fst (advanceRetirements e (t, f))) = team_HibernateRequests t"
    by (simp_all add: advanceRetirements_def)
qed

section \<open>The hibernate\<close>

lemma dropHibernateRequest_stays:
  "stays (t, f) (dropHibernateRequest e k (t, f)) \<and> set (team_HibernateRequests (fst (dropHibernateRequest e k (t, f)))) \<subseteq> set (team_HibernateRequests t)"
proof -
  let ?g = "\<lambda>x. x\<lparr>team_HibernateRequests := AList.delete k (team_HibernateRequests x)\<rparr>"
  obtain f1 err where u: "fl_UpdateTeam e (team_key t) ?g f = (f1, err)" by fastforce
  have "stays (t, f) (t', f1)" if "t' \<in> {t, ?g t}" for t' using that update_stays[of t' t ?g f e] u by (auto simp: team_id_def)
  then show ?thesis using dropHibernateRequest_effect(3)[of e k t f] by (simp add: dropHibernateRequest_def u)
qed

lemma putHibernateRequest_stays: "stays (t, f) (snd (putHibernateRequest e req (t, f)))"
proof -
  let ?g = "\<lambda>x. x\<lparr>team_HibernateRequests := AList.update (sr_Session req) req (team_HibernateRequests x)\<rparr>"
  obtain f1 err where u: "fl_UpdateTeam e (team_key t) ?g f = (f1, err)" by fastforce
  have "stays (t, f) (t', f1)" if "t' \<in> {t, ?g t}" for t' using that update_stays[of t' t ?g f e] u by (auto simp: team_id_def)
  then show ?thesis by (simp add: putHibernateRequest_def u split: option.split)
qed

lemma recordHibernatedSeat_stays: "stays (t, f) (recordHibernatedSeat e k (t, f))"
proof -
  obtain f1 err where u: "fl_UpdateTeam e (team_key t) (add_seat k) f = (f1, err)" by fastforce
  have "stays (t, f) (t', f1)" if "t' \<in> {t, add_seat k t}" for t'
    using that update_stays[of t' t "add_seat k" f e] u by (auto simp: add_seat_def team_id_def)
  then show ?thesis by (simp add: recordHibernatedSeat_def u)
qed

text \<open>The requests of the copy a step leaves are those it had, or name the seat it was given.\<close>

definition asks_within :: "string set \<Rightarrow> Team \<Rightarrow> Team \<Rightarrow> bool" where
  "asks_within K t t' \<longleftrightarrow> (\<forall>(k, q)\<in>set (team_HibernateRequests t'). (k, q) \<in> set (team_HibernateRequests t) \<or> sr_Session q \<in> K)"

lemma endHibernated_stays:
  assumes "keyed (fseats f)" and "owned (team_slots t) (fseats f) (session_key sess)"
  shows "stays (t, f) (endHibernated e sess (t, f)) \<and> asks_within {} t (fst (endHibernated e sess (t, f)))"
proof -
  let ?f0 = "fl_emit KindSessionRetired t (sess_Role sess) (session_key sess) f"
  let ?f1 = "fst (fl_Delete e (session_key sess) ?f0)"
  obtain t2 f2 where d: "dropHibernateRequest e (session_key sess) (t, ?f1) = (t2, f2)" by fastforce
  have "stays (t, ?f0) (t, ?f1)" using frame_stays[of "(t, ?f0)"] fl_Delete_frame[of ?f0 "team_slots t"] assms by simp
  then have "stays (t, f) (t, ?f1)" by (rule stays_from) simp_all
  also have "stays (t, ?f1) (t2, f2)" using dropHibernateRequest_stays[of t ?f1 e "session_key sess"] d by simp
  also have "stays (t2, f2) (recordHibernatedSeat e (session_key sess) (t2, f2))" by (rule recordHibernatedSeat_stays)
  finally show ?thesis using dropHibernateRequest_stays[of t ?f1 e "session_key sess"] d
    by (auto simp: endHibernated_def d recordHibernatedSeat_effect asks_within_def)
qed

lemma advanceHibernateRequest_cases:
  "\<exists>req'. sr_Session req' = sr_Session req \<and> (advanceHibernateRequest e req (t, f) \<in>
      {dropHibernateRequest e (sr_Session req) (t, f), (t, f), snd (putHibernateRequest e req' (t, f))} \<or>
    (\<exists>s. GetSession (fl_store f) (sr_Session req) = Inr s \<and> advanceHibernateRequest e req (t, f) = endHibernated e s (t, f)))"
  unfolding advanceHibernateRequest_def prod.case
  by (auto simp: Let_def split: sum.split option.split intro: exI[of _ req] exI[of _ "req\<lparr>sr_Escalated := True\<rparr>"])

lemma advanceHibernateRequest_stays:
  assumes "keyed (fseats f)" and "owned (team_slots t) (fseats f) (sr_Session req)"
  shows "stays (t, f) (advanceHibernateRequest e req (t, f)) \<and> asks_within {sr_Session req} t (fst (advanceHibernateRequest e req (t, f)))"
proof -
  let ?k = "sr_Session req"
  from advanceHibernateRequest_cases[of req e t f]
  obtain req' where k: "sr_Session req' = ?k" and c: "advanceHibernateRequest e req (t, f) \<in>
      {dropHibernateRequest e ?k (t, f), (t, f), snd (putHibernateRequest e req' (t, f))} \<or>
    (\<exists>s. GetSession (fl_store f) ?k = Inr s \<and> advanceHibernateRequest e req (t, f) = endHibernated e s (t, f))" by blast
  have "asks_within {?k} t (fst (snd (putHibernateRequest e req' (t, f))))"
    using putHibernateRequest_effect(3)[of e req' t f] k by (auto simp: asks_within_def)
  moreover have "stays (t, f) (endHibernated e s (t, f)) \<and> asks_within {?k} t (fst (endHibernated e s (t, f)))"
    if "GetSession (fl_store f) ?k = Inr s" for s
    using endHibernated_stays[OF assms(1), of t s e] assms(2) GetSession_row(2)[OF assms(1) that] by (auto simp: asks_within_def)
  moreover have "asks_within {?k} t (fst (dropHibernateRequest e ?k (t, f)))"
    using dropHibernateRequest_effect(3)[of e ?k t f] by (auto simp: asks_within_def)
  ultimately show ?thesis using c dropHibernateRequest_stays[of t f e ?k] putHibernateRequest_stays[of t f e req']
    by (auto simp: asks_within_def)
qed

lemma advance_requests_stays:
  assumes "keyed (fseats f)" and "\<And>k q. (k, q) \<in> set (team_HibernateRequests t) \<Longrightarrow> owned (team_slots t) (fseats f) (sr_Session q)"
  shows "stays (t, f) (advance_requests e (t, f))"
proof -
  let ?req = "\<lambda>tf k. case map_of (team_HibernateRequests (fst tf)) k of Some req \<Rightarrow> req | None \<Rightarrow> no_request"
  let ?op = "\<lambda>tf k. advanceHibernateRequest e (?req tf k) tf"
  let ?P = "\<lambda>b. \<forall>(k, q)\<in>set (team_HibernateRequests (fst b)). owned (team_slots t) (fseats f) (sr_Session q)"
  have "stays b (?op b k) \<and> ?P (?op b k)" if b: "stays (t, f) b" "keyed (fseats (snd b))" "?P b" for b k
  proof -
    obtain t1 f1 where tf: "b = (t1, f1)" by fastforce
    have o: "owned (team_slots t) (fseats f) (sr_Session (?req b k))"
      using b(3) no_key_owned[OF assms(1)] by (auto simp: no_request_def split: option.split dest!: map_of_SomeD)
    then have "owned (team_slots t1) (fseats f1) (sr_Session (?req b k))" using stays_owned[OF b(1)] stays_id(1)[OF b(1)] tf by simp
    from advanceHibernateRequest_stays[OF _ this, of e] b(2) tf
    have "stays b (?op b k)" "asks_within {sr_Session (?req b k)} t1 (fst (?op b k))" by simp_all
    with b(3) o tf show ?thesis by (fastforce simp: asks_within_def)
  qed
  note step = this
  have "stays (t, f) (foldl ?op (t, f) ks) \<and> ?P (foldl ?op (t, f) ks)" for ks
    by (rule stays_fold) (use step assms in auto)
  then show ?thesis by (simp add: advance_requests_def)
qed

lemma askHibernate_stays: "stays tf (askHibernate e role s tf)"
proof -
  obtain t f where tf: "tf = (t, f)" by fastforce
  obtain ok t1 f1 where p: "putHibernateRequest e (new_request e HandoffCauseHibernate s) (t, f) = (ok, t1, f1)" by (metis prod_cases3)
  have "stays (t, f) (t1, f1)" using putHibernateRequest_stays[of t f e "new_request e HandoffCauseHibernate s"] p by simp
  then show ?thesis using stays_tables[of "(t, f)" t1 f1] by (simp add: askHibernate_def tf p split: bool.split)
qed

lemma fold_stays: "(\<And>x b. stays b (op b x)) \<Longrightarrow> stays a (foldl op a xs)"
  by (induction xs rule: rev_induct) (simp, metis foldl_append foldl.simps stays_trans)

lemma ask_roles_stays: "stays tf (foldl (\<lambda>tf role. ask_role e role tf) tf roles)"
  by (rule fold_stays) (simp add: ask_role_def fold_stays askHibernate_stays)

lemma noteHibernated_stays: "stays tf (noteHibernated e tf)"
  by (auto simp: noteHibernated_def stays_def split: prod.split)

lemma advanceWake_stays: "stays tf (advanceWake e tf)"
proof -
  obtain t f where tf: "tf = (t, f)" by fastforce
  let ?g = "\<lambda>live. live\<lparr>team_Hibernate := None\<rparr>"
  obtain f1 err where u: "fl_UpdateTeam e (team_key t) ?g f = (f1, err)" by fastforce
  have "stays (t, f) (t', f1)" if "t' \<in> {t, ?g t}" for t' using that update_stays[of t' t ?g f e] u by (auto simp: team_id_def)
  then show ?thesis using stays_tables[of "(t, f)" "?g t" f1] by (simp add: advanceWake_def tf u split: option.split)
qed

lemma advanceHibernate_stays:
  assumes "keyed (fseats f)" and "\<And>k q. (k, q) \<in> set (team_HibernateRequests t) \<Longrightarrow> owned (team_slots t) (fseats f) (sr_Session q)"
  shows "stays (t, f) (advanceHibernate e (t, f))"
proof -
  note s = advance_requests_stays[OF assms, where e = e]
  have "stays (t, f) (advanceSignOff e (t, f))"
    using stays_trans[OF s ask_roles_stays] stays_trans[OF stays_trans[OF s stays_trans[OF ask_roles_stays ask_roles_stays]] noteHibernated_stays]
    by (simp add: advanceSignOff_def Let_def split: prod.split)
  then show ?thesis using advanceWake_stays by (simp add: advanceHibernate_def split: option.split)
qed

section \<open>Dropped roles, the admission state and the triggers\<close>

lemma finish_all_stays: "stays a tf \<Longrightarrow> stays a (foldl (\<lambda>tf role. finishRoleRemoval e role tf) tf rs)"
proof (induction rs arbitrary: tf)
  case (Cons r rs)
  obtain t f where tf: "tf = (t, f)" by fastforce
  have "stays a (finishRoleRemoval e r (t, f))"
    using stays_tables[of a t f "snd (finishRoleRemoval e r (t, f))"] Cons.prems finishRoleRemoval_tables[of e r t f] tf by (metis prod.collapse)
  then show ?case using Cons.IH tf by simp
qed simp

lemma orphans_stay:
  assumes "keyed (fseats f)"
  shows "stays (t, f) (reconcileOrphanedSessions e (t, f))"
proof -
  let ?ss = "ListSessionsByTeam (fl_store f) (team_Workspace t) (team_Name t)"
  let ?op = "drain_orphan e (map role_Name (team_Roles t))"
  have own: "owned (team_slots t) (fseats f) (session_key x)" if "x \<in> set ?ss" for x
    using listed_row[of "fl_store f" x] assms that by (auto simp: ListSessionsByTeam_def owned_def slot_of_def team_slots_def)
  have "stays (t, f) (fst (foldl ?op ((t, f), []) xs))" if "set xs \<subseteq> set ?ss" for xs
    using that
  proof (induction xs rule: rev_induct)
    case (snoc x xs)
    obtain t1 f1 d where b: "foldl ?op ((t, f), []) xs = ((t1, f1), d)" by (metis prod.collapse)
    have ih: "stays (t, f) (t1, f1)" using snoc b by simp
    let ?f2 = "\<lambda>v. f1\<lparr>fl_roleDrained := v\<rparr>"
    have k: "keyed (fseats f1)" using stays_keyed[OF ih] assms by simp
    have o: "owned (team_slots t1) (fseats f1) (session_key x)" using stays_owned[OF ih] stays_id(1)[OF ih] own[of x] snoc.prems by simp
    have "stays (t1, ?f2 v) (retireSession e None x (t1, ?f2 v))" for v
      by (rule frame_stays) (use retireSession_frame[of "?f2 v"] k o in simp)
    then have "stays (t1, f1) (retireSession e None x (t1, ?f2 v))" for v by (rule stays_from) simp_all
    from stays_trans[OF ih this] have "stays (t, f) (fst (?op ((t1, f1), d) x))" using ih by (simp add: drain_orphan_def Let_def)
    then show ?case by (simp add: b)
  qed simp
  then have "stays (t, f) (fst (foldl ?op ((t, f), []) ?ss))" by simp
  from finish_all_stays[OF this] show ?thesis by (simp add: reconcileOrphanedSessions_def case_prod_beta)
qed

lemma reconcileAdmissionState_stays: "stays tf (reconcileAdmissionState e tf)"
  using frame_stays[OF setAdmissionState_frame] by (cases tf) (simp add: reconcileAdmissionState_def)

lemma asks_stays: "asks_only n a b \<Longrightarrow> stays a b"
  by (auto simp: asks_only_def stays_def intro: core_ids)

lemma autoShift_stays: "stays (t, f) (snd (autoShift e role sess (t, f)))"
proof -
  let ?f = "fl_emit KindShiftAutoTriggered t (role_Name role) sess f"
  obtain g err where i: "initiateShiftLocked e (team_key t) (role_Name role) ?f = (g, err)" by fastforce
  show ?thesis using initiateShiftLocked_effect[OF i] by (simp add: autoShift_def i stays_def split: option.split)
qed

lemma advanceShiftRequest_stays: "stays a (snd (advanceShiftRequest e role req a))"
proof -
  obtain t f where a: "a = (t, f)" by fastforce
  have "stays a (dropShiftRequest e (role_Name role) a)" "stays a (snd (put_request e (role_Name role) q a))" for q
    by (rule asks_stays, rule dropShiftRequest_asks put_request_asks)+
  then show ?thesis using autoShift_stays[of t f e role] unfolding a advanceShiftRequest_def prod.case
    by (simp add: Let_def split: sum.split option.split)
qed

lemma trigger_roles_stays: "stays tf (trigger_roles e roles tf)"
proof (induction roles arbitrary: tf)
  case (Cons role roles)
  have c: "stays b (trigger_roles e roles (trigger_conds e role conds b))" for b conds
    using stays_trans[OF asks_stays[OF trigger_conds_asks] Cons.IH] .
  have d: "stays tf (trigger_roles e roles (trigger_conds e role conds (dropShiftRequest e n tf)))" for n conds
    using stays_trans[OF asks_stays[OF dropShiftRequest_asks] c] .
  obtain st b where r: "advanceShiftRequest e role req tf = (st req, b req)" for req
    by (rule that[of "\<lambda>r. fst (advanceShiftRequest e role r tf)" "\<lambda>r. snd (advanceShiftRequest e role r tf)"]) simp
  have b: "stays tf (b req)" for req using advanceShiftRequest_stays[of tf e role req] r by simp
  show ?case using c d Cons.IH b stays_trans[OF b Cons.IH] stays_trans[OF b c] by (simp add: r Let_def split: option.split bool.split)
qed simp

lemma evaluateShiftTriggers_stays: "stays tf (evaluateShiftTriggers e tf)"
  using trigger_roles_stays by (simp add: evaluateShiftTriggers_def split: prod.split)

section \<open>The roles and the shift\<close>

lemma reconcileRoleAt_stays: "keyed (fseats (snd tf)) \<Longrightarrow> stays tf (reconcileRoleAt e role gen tf)"
  by (cases tf) (simp add: frame_stays reconcileRoleAt_frame)

lemma reconcileRole_stays: "keyed (fseats (snd tf)) \<Longrightarrow> stays tf (reconcileRole e role tf)"
  by (cases tf) (simp add: frame_stays reconcileRole_frame)

lemma other_roles_stay: "keyed (fseats (snd tf)) \<Longrightarrow> stays tf (other_roles e tf)"
  unfolding other_roles_def
  by (rule conjunct1[OF stays_fold[where P = "\<lambda>_. True"]]) (auto simp: reconcileRoleAt_stays split: prod.split)

lemma launch_loop_stays:
  "keyed (fseats f) \<Longrightarrow> stays (t, f) (t, snd (launch_loop e t role preds i n f))"
proof (induction n arbitrary: i f)
  case (Suc n)
  define sess where "sess = (let sess0 = new_session t role (team_Generation t) f;
      sess1 = (if i < length preds then sess0\<lparr>sess_Predecessor := session_key (preds ! (length preds - 1 - i))\<rparr> else sess0)
    in case sh_HandoffRequests (team_Shift t) (role_Name role) of
         Some req \<Rightarrow> if i < length preds \<and> sr_Session req = sess_Predecessor sess1
                     then sess1\<lparr>sess_HandoffRequestedAt := sr_RequestedAt req\<rparr> else sess1
       | None \<Rightarrow> sess1)"
  obtain f1 err where c: "fl_Create e sess f = (f1, err)" by fastforce
  have "slot_of sess \<in> team_slots t" by (simp add: sess_def Let_def split: option.split)
  then have s: "stays (t, f) (t, f1)" using frame_stays[of "(t, f)"] fl_Create_frame[of f sess "team_slots t" t e] Suc.prems c by simp
  have "stays (t, f1) (t, snd (launch_loop e t role preds (Suc i) n f1))" using Suc.IH stays_keyed[OF s] Suc.prems by simp
  then have "stays (t, f) (t, snd (launch_loop e t role preds (Suc i) n f1))" using stays_trans[OF s] by blast
  moreover have "launch_loop e t role preds i (Suc n) f = (if \<not> te_views e sess then (False, f)
      else case fl_Create e sess f of (f1, Some _) \<Rightarrow> (False, f1) | (f1, None) \<Rightarrow> launch_loop e t role preds (Suc i) n f1)"
    by (simp add: sess_def Let_def)
  ultimately show ?case using s by (simp add: c split: option.split del: launch_loop.simps)
qed simp

lemma shift_ready_stays: "stays (t, f) (shift_ready e role (t, f))"
proof -
  let ?g = "\<lambda>live. live\<lparr>team_Shift := (team_Shift live)\<lparr>sh_Phase := ShiftDraining\<rparr>\<rparr>"
  obtain f1 err where u: "fl_UpdateTeam e (team_key t) ?g f = (f1, err)" by fastforce
  have "stays (t, f) (t', f1)" if "t' \<in> {t, ?g t}" for t' using that update_stays[of t' t ?g f e] u by (auto simp: team_id_def)
  then show ?thesis using stays_tables[of "(t, f)" "?g t" f1] by (simp add: shift_ready_def Let_def u split: option.split)
qed

lemma hold_store [simp]:
  "fl_store (latchExposureHold t r f) = fl_store f" "fl_store (clearExposureHold t r f) = fl_store f"
  by (simp_all add: latchExposureHold_def clearExposureHold_def Let_def)

lemma shiftLaunch_stays:
  assumes "keyed (fseats f)"
  shows "stays (t, f) (shiftLaunch e role (t, f))"
proof -
  let ?f1 = "clearExposureHold t (role_Name role) f"
  have loop: "stays (t, f) (t, snd (launch_loop e t role preds i n ?f1))" for preds i n
    using stays_from[OF launch_loop_stays[of ?f1 t e role preds i n], of f] assms by simp
  have "stays (t, f) (t, latchExposureHold t (role_Name role) f)" by (simp add: stays_def)
  then show ?thesis using loop stays_trans[OF loop shift_ready_stays] shift_ready_stays[of t f e role]
    unfolding shiftLaunch_def prod.case Let_def
    by (auto simp: case_prod_beta split: bool.split)
qed

lemma shiftDrain_stays:
  assumes "keyed (fseats f)"
  shows "stays (t, f) (shiftDrain e role (t, f))"
proof -
  let ?old = "old_seats f t role"
  have next_id: "team_id (next_role x) = team_id x" for x
    by (simp add: next_role_def Let_def team_id_def)
  have adv: "stays (t, f) (next_role t, fst (fl_UpdateTeam e (team_key t) next_role f'))" if "fl_store f' = fl_store f" for f'
    using stays_from[OF update_stays[OF next_id next_id, of t f' e], of f] that by simp
  have del: "stays (t, f) (t, fst (fl_Delete e (session_key (last (sortNewestFirst ?old))) f))" if "?old \<noteq> []"
  proof -
    have sorted: "set (sortNewestFirst ?old) = set ?old" by (simp add: sortNewestFirst_def)
    then have "sortNewestFirst ?old \<noteq> []" using that by (metis set_empty)
    then have "last (sortNewestFirst ?old) \<in> set ?old" using last_in_set sorted by metis
    then have "owned (team_slots t) (fseats f) (session_key (last (sortNewestFirst ?old)))"
      using role_row_owned[OF assms, of "last (sortNewestFirst ?old)" "team_Workspace t" "team_Name t" "role_Name role" "team_slots t"]
      by (auto simp: old_seats_def withoutRetiring_def sessionsOutsideGeneration_def)
    then show ?thesis using frame_stays[of "(t, f)"] fl_Delete_frame[OF assms, of "team_slots t"] by simp
  qed
  show ?thesis
  proof (cases "?old = []")
    case True
    then show ?thesis using adv[of f] adv[of "fl_emit KindShiftDrainedEmpty t (role_Name role) [] f"] by (simp add: shiftDrain_def)
  next
    case False
    obtain f1 err where d: "fl_Delete e (session_key (last (sortNewestFirst ?old))) f = (f1, err)" by fastforce
    have s: "stays (t, f) (t, f1)" using del[OF False] d by simp
    with stays_trans[OF s update_stays[OF refl]] show ?thesis using False d by (simp add: shiftDrain_def team_id_def split: option.split)
  qed
qed

lemma abortStuckShift_stays:
  assumes "keyed (fseats f)"
  shows "stays (t, f) (abortStuckShift e (t, f))"
proof -
  let ?f1 = "fl_emit KindShiftTimedOut t (shift_role t) [] f"
  let ?ss = "ListSessionsByTeamRoleGeneration (fl_store ?f1) (team_Workspace t) (team_Name t) (shift_role t) (team_Generation t)"
  let ?op = "\<lambda>tf s. (\<lambda>(t, f). (t, fst (fl_Delete e (session_key s) f))) tf"
  have "foldl ?op (t, g) ss = (t, foldl (\<lambda>f s. fst (fl_Delete e (session_key s) f)) g ss)" for g ss
    by (induction ss arbitrary: g) simp_all
  moreover have "role_frame (team_slots t) (t, ?f1) (foldl ?op (t, ?f1) ?ss)"
    by (rule delete_seat.pass_stays)
      (use assms listed_row[of "fl_store f"] in \<open>auto simp: ListSessionsByTeamRoleGeneration_def owned_def slot_of_def team_slots_def\<close>)
  ultimately have d: "stays (t, f) (t, foldl (\<lambda>f s. fst (fl_Delete e (session_key s) f)) ?f1 ?ss)"
    using stays_from[OF frame_stays[of "(t, ?f1)"], of "(t, foldl (\<lambda>f s. fst (fl_Delete e (session_key s) f)) ?f1 ?ss)" f] by simp
  have e: "stays (t, f) (t, ?f1)" by (simp add: stays_def)
  define f2 where "f2 = (if sh_Phase (team_Shift t) = ShiftLaunching \<and> shift_role t \<noteq> []
    then foldl (\<lambda>f s. fst (fl_Delete e (session_key s) f)) ?f1 ?ss else ?f1)"
  have f2: "stays (t, f) (t, f2)" using d e by (simp add: f2_def)
  have "abortStuckShift e (t, f) = (abort_team t t, fst (fl_UpdateTeam e (team_key t) (abort_team t) f2))"
    unfolding abortStuckShift_def prod.case Let_def f2_def abort_team_def ..
  moreover have "team_id (abort_team t x) = team_id x" for x by (simp add: abort_team_def team_id_def)
  ultimately show ?thesis using stays_trans[OF f2 update_stays] by simp
qed

lemma reconcileShift_stays:
  assumes "keyed (fseats f)"
  shows "stays (t, f) (reconcileShift e (t, f))"
proof -
  obtain t1 f1 where o: "other_roles e (t, f) = (t1, f1)" by fastforce
  have s: "stays (t, f) (t1, f1)" using other_roles_stay[of "(t, f)" e] assms o by simp
  have k: "keyed (fseats f1)" using stays_keyed[OF s] assms by simp
  let ?bump = "\<lambda>live. live\<lparr>team_Shift := (team_Shift live)\<lparr>sh_RoleIndex := sh_RoleIndex (team_Shift live) + 1\<rparr>\<rparr>"
  have bump: "stays (t, f) (?bump t1, fst (fl_UpdateTeam e (team_key t1) ?bump f1))"
    by (rule stays_trans[OF s update_stays]) (simp_all add: team_id_def)
  have over: "stays (t, f) (t\<lparr>team_Shift := no_shift\<rparr>,
      fst (fl_UpdateTeam e (team_key t) (\<lambda>live. live\<lparr>team_Shift := no_shift\<rparr>) (fl_emit KindShiftCompleted t [] [] f)))"
    by (rule stays_from[OF update_stays]) (simp_all add: team_id_def)
  have step: "stays (t, f) (shiftLaunch e role (t1, f1))" "stays (t, f) (shiftDrain e role (t1, f1))" for role
    using stays_trans[OF s shiftLaunch_stays[OF k]] stays_trans[OF s shiftDrain_stays[OF k]] .
  have "stays (t, f) (case find_role t1 (shift_role t1) of None \<Rightarrow> (?bump t1, fst (fl_UpdateTeam e (team_key t1) ?bump f1))
      | Some role \<Rightarrow> (case sh_Phase (team_Shift t1) of ShiftLaunching \<Rightarrow> shiftLaunch e role (t1, f1)
          | ShiftDraining \<Rightarrow> shiftDrain e role (t1, f1) | ShiftNone \<Rightarrow> (t1, f1)))"
    using bump step s by (simp split: option.split ShiftPhase.split)
  then show ?thesis using abortStuckShift_stays[OF assms, of t e] over o
    unfolding reconcileShift_def prod.case Let_def other_roles_def by simp
qed

lemma reconcileRoles_stay: "keyed (fseats (snd tf)) \<Longrightarrow> stays tf (foldl (\<lambda>tf role. reconcileRole e role tf) tf roles)"
  by (rule conjunct1[OF stays_fold[where P = "\<lambda>_. True"]]) (simp_all add: reconcileRole_stays)

section \<open>The end of a prune\<close>

interpretation reap_seat: seat_operation S "\<lambda>k (t, f). (t, DeleteAndReap e k f)" "\<lambda>k. k" for S e
  by unfold_locales (simp add: DeleteAndReap_frame)

lemma deleteSessions_steps:
  assumes "keyed (fseats f)" and "\<And>k. k \<in> set keys \<Longrightarrow> owned S (fseats f) k"
  shows "seat_steps S (fseats f) (fseats (deleteSessionsLocked e keys f))"
proof -
  let ?op = "\<lambda>tf k. (\<lambda>(t, f). (t, DeleteAndReap e k f)) tf"
  have "foldl ?op (t, g) ks = (t, deleteSessionsLocked e ks g)" for t :: Team and g ks
    by (induction ks arbitrary: g) (simp_all add: deleteSessionsLocked_def)
  then show ?thesis using reap_seat.pass_stays[of f keys S undefined e] assms by (simp add: role_frame_def)
qed

text \<open>The sessions a pruned team leaves are those of the team its record names.\<close>

lemma finishPrune_within:
  assumes "keyed (fseats f)" and "map_option team_id (fteams f (team_key t)) \<in> {None, Some (team_id t)}"
  shows "seat_steps (team_slots t) (fseats f) (fseats (finishPrune e t p f))"
    and "j \<noteq> team_key t \<Longrightarrow> fteams (finishPrune e t p f) j = fteams f j"
proof -
  let ?chk = "PruneDeleteCheck (PruneRecheck (tp_Source p))"
  obtain s res where d: "DeleteTeamIf (te_commits e) (team_key t) ?chk (fl_store f) = (s, res)" by fastforce
  note eff = DeleteTeamIf_effect[OF d]
  have k: "keyed (fseats (put_store s f))" using assms(1) eff(1) by simp
  have own: "owned (team_slots t) (fseats (put_store s f)) q" if r: "res = Inr ([], keys)" and q: "q \<in> set keys" for keys q
  proof -
    obtain u where u: "fteams f (team_key t) = Some u" "keys = map session_key (team_sessions_sorted (fl_store f) u)"
      using eff(4)[OF r] by blast
    then obtain x where x: "x \<in> set (ListSessionsByTeam (fl_store f) (team_Workspace t) (team_Name t))" "q = session_key x"
      using q assms(2) by (auto simp: team_sessions_sorted_def team_id_def)
    then have "frows f q = Some x" using listed_row[OF assms(1), of x] by (simp add: ListSessionsByTeam_def)
    then show ?thesis using x eff(1) by (auto simp: owned_def ListSessionsByTeam_def slot_of_def team_slots_def)
  qed
  have fin: "fseats (finishPrunedTeamLocked e key keys g) = fseats (deleteSessionsLocked e keys g)" for key keys g
    by (simp add: finishPrunedTeamLocked_def Let_def emit_def split: prod.split)
  show "seat_steps (team_slots t) (fseats f) (fseats (finishPrune e t p f))"
    using deleteSessions_steps[OF k, of _ "team_slots t" e] own eff(1)
    by (auto simp: finishPrune_def d fin unmarkPruning_effect split: sum.split)
  show "fteams (finishPrune e t p f) j = fteams f j" if "j \<noteq> team_key t"
    using eff(2)[OF that] finishPruned_effect(2)[OF k] unmarkPruning_effect(3)[OF that]
    by (auto simp: finishPrune_def d split: sum.split)
qed

section \<open>The pass\<close>

lemma orphans_stay': "keyed (fseats (snd tf)) \<Longrightarrow> stays tf (reconcileOrphanedSessions e tf)"
  using orphans_stay[of "snd tf" "fst tf" e] by simp

text \<open>The steps before the roles.\<close>

definition pass_prefix :: "tick_env \<Rightarrow> Team \<times> Fleet \<Rightarrow> Team \<times> Fleet" where
  "pass_prefix e tf = evaluateShiftTriggers e (reconcileAdmissionState e (reconcileOrphanedSessions e
     (advanceHibernate e (advanceRetirements e tf))))"

lemma pass_prefix_stays:
  assumes "keyed (fseats f)" and "own_requests t f"
  shows "stays (t, f) (pass_prefix e (t, f))"
proof -
  obtain t1 f1 where 1: "advanceRetirements e (t, f) = (t1, f1)" by fastforce
  have s1: "stays (t, f) (t1, f1)" and q1: "team_HibernateRequests t1 = team_HibernateRequests t"
    using advanceRetirements_stays[OF assms, of e] 1 by simp_all
  have own: "owned (team_slots t1) (fseats f1) (sr_Session q)" if "(j, q) \<in> set (team_HibernateRequests t1)" for j q
    using assms(2) that q1 stays_owned[OF s1] stays_id(1)[OF s1] by (auto simp: own_requests_def)
  have "stays (t1, f1) (advanceHibernate e (t1, f1))"
    by (rule advanceHibernate_stays) (use own stays_keyed[OF s1] assms(1) in auto)
  with s1 have s2: "stays (t, f) (advanceHibernate e (t1, f1))" by (rule stays_trans)
  also have "stays (advanceHibernate e (t1, f1)) (reconcileOrphanedSessions e (advanceHibernate e (t1, f1)))"
    by (rule orphans_stay') (use stays_keyed[OF s2] assms(1) in simp)
  finally show ?thesis
    unfolding pass_prefix_def 1 by (rule stays_trans[OF stays_trans[OF _ reconcileAdmissionState_stays] evaluateShiftTriggers_stays])
qed

text \<open>C3. A reconcile pass over one team touches no other team. Whatever the retirements, the hibernate, the
  dropped roles, the shift triggers, a shift, the roles' plans and a prune do, and whatever the file,
  tmux and the launches answer, the session rows of every other team and the records of every other
  team are the same after the pass. The pass trusts its bookkeeping for this: the team's open
  retirements and sign-off requests name seats of the team or seats that have gone, and the record
  stored under the team's key names the team.\<close>

theorem team_pass_spares_other_teams:
  assumes "keyed_sessions (fl_store f)" and "own_requests t f"
    and "map_option team_id (team_at (fl_store f) (team_key t)) \<in> {None, Some (team_id t)}"
    and "reconcileTeam e (t, f) = (t', f')"
  shows "(\<forall>k x. (sess_Workspace x, sess_Team x) \<noteq> team_id t \<longrightarrow> session_at (fl_store f') k = Some x \<longleftrightarrow> session_at (fl_store f) k = Some x) \<and>
    (\<forall>j. j \<noteq> team_key t \<longrightarrow> team_at (fl_store f') j = team_at (fl_store f) j)"
proof -
  have k: "keyed (fseats f)" using assms(1) by (simp add: keyed_sessions_iff)
  obtain t4 f4 where 4: "pass_prefix e (t, f) = (t4, f4)" by fastforce
  have s4: "stays (t, f) (t4, f4)" using pass_prefix_stays[OF k assms(2), of e] 4 by simp
  have k4: "keyed (fseats f4)" using stays_keyed[OF s4] k by simp
  obtain t5 f5 where 5: "foldl (\<lambda>tf role. reconcileRole e role tf) (t4, f4) (team_Roles t4) = (t5, f5)" by fastforce
  have s5: "stays (t, f) (t5, f5)" using stays_trans[OF s4 reconcileRoles_stay[of "(t4, f4)" e "team_Roles t4"]] k4 5 by simp
  have k5: "keyed (fseats f5)" using stays_keyed[OF s5] k by simp
  have id5: "team_slots t5 = team_slots t" "team_key t5 = team_key t" "team_id t5 = team_id t"
    using stays_id[OF s5] s5 by (simp_all add: stays_def)
  have rec5: "map_option team_id (fteams f5 (team_key t5)) \<in> {None, Some (team_id t5)}"
    using assms(3) s5 id5 by (simp add: stays_def)
  have within: "seat_steps (team_slots t) (fseats f) (fseats f') \<and> (\<forall>j. j \<noteq> team_key t \<longrightarrow> fteams f' j = fteams f j)"
  proof (cases "sh_Phase (team_Shift t4) \<noteq> ShiftNone")
    case True
    then have "stays (t, f) (t', f')" using assms(4) 4 stays_trans[OF s4 reconcileShift_stays[OF k4, of t4 e]]
      by (simp add: reconcileTeam_def pass_prefix_def)
    then show ?thesis by (simp add: stays_def)
  next
    case False
    then have f': "f' = (case team_Pruning t5 of None \<Rightarrow> f5 | Some p \<Rightarrow> finishPrune e t5 p f5)"
      using assms(4) 4 5 by (auto simp: reconcileTeam_def pass_prefix_def split: option.splits)
    have "seat_steps (team_slots t) (fseats f5) (fseats (finishPrune e t5 p f5))" "j \<noteq> team_key t \<Longrightarrow> fteams (finishPrune e t5 p f5) j = fteams f5 j" for p j
      using finishPrune_within[OF k5 rec5, where e = e and p = p] id5 by simp_all
    then show ?thesis using s5 by (auto simp: f' stays_def split: option.split intro: rtranclp_trans)
  qed
  have "frows f' j = Some x \<longleftrightarrow> frows f j = Some x" if "(sess_Workspace x, sess_Team x) \<noteq> team_id t" for j x
    by (rule seat_steps_row[OF conjunct1[OF within] k]) (use that in \<open>auto simp: slot_of_def team_slots_def team_id_def\<close>)
  with within show ?thesis by blast
qed

text \<open>Two teams on one daemon: the squad is in the middle of a shift and has a retirement open; the pack's seat
  stays.\<close>

definition pack_seat :: Session where
  "pack_seat = old_dev\<lparr>sess_Team := ''pack'', sess_Name := ''pack-dev-g1-0''\<rparr>"

definition busy_team :: Team where
  "busy_team = shifting_team ShiftDraining\<lparr>team_Retiring := [(session_key older_dev, retire_request (example_env 50) None older_dev)]\<rparr>"

theorem team_pass_spares_other_teams_witness:
  "session_at (fl_store (snd (reconcileTeam (example_env 200) (busy_team, fleet_of busy_team [old_dev, older_dev, new_dev, pack_seat]))))
     ''ws/pack-dev-g1-0'' = Some pack_seat"
proof -
  let ?f = "fleet_of busy_team [old_dev, older_dev, new_dev, pack_seat]"
  obtain t' f' where r: "reconcileTeam (example_env 200) (busy_team, ?f) = (t', f')" by fastforce
  have k: "keyed_sessions (fl_store ?f)" by (rule fleet_of_keyed) (simp add: pack_seat_def shifting_defs)
  have q: "own_requests busy_team ?f"
    by (auto simp: own_requests_def owned_def busy_team_def pack_seat_def retire_request_def team_slots_def shifting_defs split: if_splits)
  have i: "map_option team_id (team_at (fl_store ?f) (team_key busy_team)) \<in> {None, Some (team_id busy_team)}" by simp
  have "session_at (fl_store ?f) ''ws/pack-dev-g1-0'' = Some pack_seat" "(sess_Workspace pack_seat, sess_Team pack_seat) \<noteq> team_id busy_team"
    by (simp_all add: team_id_def busy_team_def pack_seat_def shifting_defs)
  then show ?thesis using team_pass_spares_other_teams[OF k q i r] r by simp
qed

end
