(* ===== verification/Cold_Start.thy ===== *)
theory Cold_Start
  imports Team_Pass
begin

text \<open>
  A daemon that starts cold spawns nothing. Every step of a reconcile pass but the spawns is shown to
  bring up no row and no life: a row there after it was there before, in the same slot, and is alive
  only if it was. A team that holds and has no live session is withheld from spawning, so the whole pass
  over it is such a step; a shift left over in the file is the exception.
\<close>

section \<open>Bringing up nothing\<close>

definition fades :: "seats \<Rightarrow> seats \<Rightarrow> bool" where
  "fades al al' \<longleftrightarrow> (\<forall>k x'. map_of al' k = Some x' \<longrightarrow> (\<exists>x. map_of al k = Some x \<and> slot_of x' = slot_of x \<and>
     (CountsAsAlive (sess_State x') \<longrightarrow> CountsAsAlive (sess_State x))))"

lemma fades_refl [simp]: "fades al al"
  by (simp add: fades_def)

lemma fades_trans: "fades a b \<Longrightarrow> fades b c \<Longrightarrow> fades a c"
  unfolding fades_def by metis

text \<open>What of the pass's copy of the team decides over a spawn.\<close>

definition face :: "Team \<Rightarrow> (string \<times> string) \<times> string \<times> ShiftPhase" where
  "face t = (team_id t, team_ConvergencePosture t, sh_Phase (team_Shift t))"

definition rests :: "Team \<times> Fleet \<Rightarrow> Team \<times> Fleet \<Rightarrow> bool" where
  "rests a b \<longleftrightarrow> (keyed (fseats (snd a)) \<longrightarrow> face (fst b) = face (fst a) \<and> keyed (fseats (snd b)) \<and> fades (fseats (snd a)) (fseats (snd b)))"

lemma rests_refl [simp]: "rests a a"
  by (simp add: rests_def)

lemma rests_trans [trans]: "rests a b \<Longrightarrow> rests b c \<Longrightarrow> rests a c"
  unfolding rests_def by (auto intro: fades_trans)

lemma rests_same: "fseats (snd b) = fseats (snd a) \<Longrightarrow> face (fst b) = face (fst a) \<Longrightarrow> rests a b"
  by (simp add: rests_def)

lemma rests_fold: "(\<And>x b. rests b (op b x)) \<Longrightarrow> rests a (foldl op a xs)"
  by (induction xs rule: rev_induct) (simp, metis foldl_append foldl.simps rests_trans)

lemma core_face: "core t' = core t \<Longrightarrow> face t' = face t"
proof -
  have "face (core x) = face x" for x by (simp add: face_def team_id_def core_def)
  then show "core t' = core t \<Longrightarrow> face t' = face t" by metis
qed

lemma frame_rests: "role_frame {} a b \<Longrightarrow> rests a b"
  by (intro rests_same frame_empty core_face) (simp_all add: role_frame_def)

lemma update_rests: "face t' = face t \<Longrightarrow> rests (t, f) (t', fst (fl_UpdateTeam e k g f))"
  by (simp add: rests_same)

section \<open>Deleting a seat\<close>

lemma Delete_row:
  assumes "keyed (mrows m)" and "rows (fst (Delete commits tx now k m)) k = Some x'"
  shows "\<exists>x. rows m k = Some x \<and> slot_of x' = slot_of x \<and> (CountsAsAlive (sess_State x') \<longrightarrow> CountsAsAlive (sess_State x))"
proof (cases "rows m k")
  case None
  then show ?thesis using assms(2) by (simp add: Delete_def deleteSession_def GetSession_def)
next
  case (Some x)
  then have key: "session_key x = k" using assms(1) by (auto simp: keyed_def list_all_iff dest!: map_of_SomeD)
  obtain m1 had tail kerr where r: "retireInstance commits tx k m = (m1, had, tail, kerr)" by (metis prod_cases4)
  have m1: "rows m1 k = Some (ended_row m x)"
    using instance_rows(1)[of commits tx k m] sessionEnded_rows[of commits k m] r Some by (simp add: ended_row_def)
  have keep: "rows (fst (keepAfterFailedKill commits x ke m1)) k =
      Some ((ended_row m x)\<lparr>sess_State := SessionFailed, sess_KillError := ke\<rparr>)" for ke
    using session_table.update_look[OF m1, of commits "\<lambda>live. (live\<lparr>sess_State := SessionFailed, sess_KillError := ke\<rparr>, None)"]
    by (simp add: keepAfterFailedKill_def key)
  have drop: "rows (fst (dropSession commits x (record_deleted commits tx now False x tail m1))) k \<in> {None, Some (ended_row m x)}"
    using session_table.delete_any[of commits k "mg_store (record_deleted commits tx now False x tail m1)"] m1
    by (auto simp: dropSession_def key split: prod.splits option.splits)
  have "x' = ended_row m x \<or> (\<exists>ke. x' = (ended_row m x)\<lparr>sess_State := SessionFailed, sess_KillError := ke\<rparr>)"
    using assms(2) keep drop Some by (auto simp: Delete_def deleteSession_def GetSession_def r Let_def split: option.splits)
  then show ?thesis using Some by (cases "mg_hook m") (auto simp: ended_row_def slot_of_def)
qed

lemma fl_Delete_rests: "rests (t, f) (t, fst (fl_Delete e k f))"
proof -
  have "\<exists>x. frows f j = Some x \<and> slot_of x' = slot_of x \<and> (CountsAsAlive (sess_State x') \<longrightarrow> CountsAsAlive (sess_State x))"
    if "keyed (fseats f)" "frows (fst (fl_Delete e k f)) j = Some x'" for j x'
  proof (cases "j = k")
    case True
    then show ?thesis using Delete_row[of "mgr_of f" "te_commits e" "te_tx e" "te_now e" k x'] that by (simp add: fl_call_store)
  next
    case False
    then have "frows f j = Some x'" using fl_Delete_other[OF False that(1), of e] that(2) by simp
    then show ?thesis by blast
  qed
  then show ?thesis by (simp add: rests_def fades_def fl_Delete_keyed)
qed

lemma DeleteAndReap_rests: "fseats f' = fseats f \<Longrightarrow> rests (t, f) (t, DeleteAndReap e k f')"
  using rests_trans[OF rests_same[of "(t, f')" "(t, f)"] fl_Delete_rests[of t f' e k]] by (auto simp: DeleteAndReap_def rests_same split: sum.split)

section \<open>The steps before the roles\<close>

lemma dropRetirement_rests: "rests (t, f) (dropRetirement e req (t, f))"
proof -
  let ?f0 = "f\<lparr>fl_retireSeen := fl_retireSeen f - {rq_Session req}, fl_retireEnded := (fl_retireEnded f)(rq_Session req := None)\<rparr>"
  let ?g = "\<lambda>live. live\<lparr>team_Retiring := AList.delete (rq_Session req) (team_Retiring live)\<rparr>"
  obtain f1 err where u: "fl_UpdateTeam e (team_key t) ?g ?f0 = (f1, err)" by fastforce
  have s: "fseats f1 = fseats f" using fl_UpdateTeam_seats[of e "team_key t" ?g ?f0] u by simp
  have "face (?g t) = face t" by (simp add: face_def team_id_def)
  with s show ?thesis by (intro rests_same) (simp_all add: dropRetirement_def Let_def u)
qed

lemma advanceRetirement_rests: "rests (t, f) (advanceRetirement e req (t, f))"
proof (cases "GetSession (fl_store f) (rq_Session req)")
  case (Inl err)
  then show ?thesis using dropRetirement_rests by (simp add: advanceRetirement_def)
next
  case (Inr sess)
  have kill: "rests (t, f) (killRetired e sess req (t, f'))" if "fl_store f' = fl_store f" for f'
    using rests_trans[OF DeleteAndReap_rests dropRetirement_rests] that by (simp add: killRetired_def)
  from advanceRetirement_cases[OF Inr, of e t] dropRetirement_rests[of t f e req] kill show ?thesis by (auto intro: rests_same)
qed

lemma advanceRetirements_rests: "rests tf (advanceRetirements e tf)"
proof -
  obtain t f where tf: "tf = (t, f)" by fastforce
  show ?thesis unfolding tf advanceRetirements_def prod.case
    by (rule rests_fold) (auto simp: advanceRetirement_rests split: prod.split)
qed

lemma dropHibernateRequest_rests: "rests (t, f) (dropHibernateRequest e k (t, f))"
  by (intro rests_same) (simp_all add: dropHibernateRequest_effect(1), simp add: dropHibernateRequest_def face_def team_id_def split: prod.split)

lemma putHibernateRequest_rests: "rests (t, f) (snd (putHibernateRequest e req (t, f)))"
  by (intro rests_same) (simp_all add: putHibernateRequest_effect(1),
    simp add: putHibernateRequest_def face_def team_id_def Let_def split: prod.split option.split)

lemma recordHibernatedSeat_rests: "rests (t, f) (recordHibernatedSeat e k (t, f))"
  by (intro rests_same) (simp_all add: recordHibernatedSeat_effect(1),
    simp add: recordHibernatedSeat_def add_seat_def face_def team_id_def split: prod.split)

lemma endHibernated_rests: "rests (t, f) (endHibernated e s (t, f))"
proof -
  let ?f0 = "fl_emit KindSessionRetired t (sess_Role s) (session_key s) f"
  obtain t1 f1 where d: "dropHibernateRequest e (session_key s) (t, fst (fl_Delete e (session_key s) ?f0)) = (t1, f1)" by fastforce
  have "rests (t, f) (t, ?f0)" by (simp add: rests_same)
  also have "rests (t, ?f0) (t, fst (fl_Delete e (session_key s) ?f0))" by (rule fl_Delete_rests)
  also have "rests (t, fst (fl_Delete e (session_key s) ?f0)) (t1, f1)" using dropHibernateRequest_rests d by metis
  also have "rests (t1, f1) (recordHibernatedSeat e (session_key s) (t1, f1))" by (rule recordHibernatedSeat_rests)
  finally show ?thesis by (simp add: endHibernated_def d)
qed

lemma advanceHibernateRequest_rests: "rests tf (advanceHibernateRequest e req tf)"
proof -
  obtain t f where tf: "tf = (t, f)" by fastforce
  from advanceHibernateRequest_cases[of req e t f] show ?thesis unfolding tf
    using dropHibernateRequest_rests[of t f e] putHibernateRequest_rests[of t f e] endHibernated_rests[of t f e] by fastforce
qed

lemma askHibernate_rests: "rests tf (askHibernate e role s tf)"
proof -
  obtain t f where tf: "tf = (t, f)" by fastforce
  obtain ok t1 f1 where p: "putHibernateRequest e (new_request e HandoffCauseHibernate s) (t, f) = (ok, t1, f1)" by (metis prod_cases3)
  have r: "rests (t, f) (t1, f1)" using putHibernateRequest_rests[of t f e "new_request e HandoffCauseHibernate s"] p by simp
  have "rests (t, f) (t1, fl_emit k t1 ro ss f1)" for k ro ss using rests_trans[OF r rests_same[of "(t1, fl_emit k t1 ro ss f1)" "(t1, f1)"]] by simp
  with r show ?thesis by (simp add: askHibernate_def tf p split: bool.split)
qed

lemma advanceHibernate_rests: "rests tf (advanceHibernate e tf)"
proof -
  have req: "rests b (advance_requests e b)" for b unfolding advance_requests_def by (rule rests_fold) (rule advanceHibernateRequest_rests)
  have asks: "rests b (foldl (\<lambda>tf role. ask_role e role tf) b roles)" for b roles
    by (rule rests_fold) (simp add: ask_role_def rests_fold askHibernate_rests)
  have note_: "rests b (noteHibernated e b)" for b by (intro rests_same) (auto simp: noteHibernated_def split: prod.split)
  have "rests tf (advanceSignOff e tf)"
    using rests_trans[OF req asks] rests_trans[OF rests_trans[OF req rests_trans[OF asks asks]] note_]
    by (simp add: advanceSignOff_def Let_def split: prod.split)
  moreover have "rests tf (advanceWake e tf)"
  proof -
    obtain t f where tf: "tf = (t, f)" by fastforce
    let ?g = "\<lambda>live. live\<lparr>team_Hibernate := None\<rparr>"
    obtain f1 err where u: "fl_UpdateTeam e (team_key t) ?g f = (f1, err)" by fastforce
    have "fseats f1 = fseats f" using fl_UpdateTeam_seats[of e "team_key t" ?g f] u by simp
    then show ?thesis by (intro rests_same) (simp_all add: advanceWake_def tf u face_def team_id_def split: option.split)
  qed
  ultimately show ?thesis by (simp add: advanceHibernate_def split: option.split)
qed

lemma retireSession_rests: "rests tf (retireSession e role sess tf)"
proof -
  obtain t f where tf: "tf = (t, f)" by fastforce
  show ?thesis
  proof (cases "keyed (fseats f)")
    case True
    have f: "face (fst (retireSession e role sess (t, f))) = face t" by (rule core_face) (rule retireSession_core(1)[OF True])
    show ?thesis
    proof (rule retireSession_seats[of e role sess t f])
      assume "fseats (snd (retireSession e role sess (t, f))) = fseats f"
      with f show ?thesis by (simp add: tf rests_same)
    next
      fix g assume g: "fl_store g = fl_store f" "fseats (snd (retireSession e role sess (t, f))) = fseats (DeleteAndReap e (session_key sess) g)"
      have "rests (t, f) (t, DeleteAndReap e (session_key sess) g)" using g(1) by (intro DeleteAndReap_rests) simp
      then show ?thesis using f g(2) by (simp add: tf rests_def)
    qed
  qed (simp add: tf rests_def)
qed

lemma orphans_rest: "rests tf (reconcileOrphanedSessions e tf)"
proof -
  obtain t f where tf: "tf = (t, f)" by fastforce
  have finish: "rests b (finishRoleRemoval e r b)" for b r by (cases b) (simp add: rests_same)
  have "rests a (fst (foldl (drain_orphan e known) (a, ds) ss))" for a known ds ss
  proof (induction ss arbitrary: a ds)
    case (Cons s ss)
    obtain t f where a: "a = (t, f)" by fastforce
    obtain b ds' where b: "drain_orphan e known (a, ds) s = (b, ds')" by fastforce
    have "rests (t, f) (retireSession e None s (t, f\<lparr>fl_roleDrained := v\<rparr>))" for v
      using rests_trans[OF rests_same[of "(t, f\<lparr>fl_roleDrained := v\<rparr>)" "(t, f)"] retireSession_rests] by simp
    then have "rests a b" using b by (auto simp: a drain_orphan_def Let_def split: if_splits)
    then show ?case using rests_trans[OF _ Cons.IH] by (simp add: b)
  qed simp
  then have "rests (t, f) (foldl (\<lambda>tf role. finishRoleRemoval e role tf) (fst (foldl (drain_orphan e known) ((t, f), []) ss)) ds)" for known ss ds
    by (rule rests_trans) (rule rests_fold, rule finish)
  then show ?thesis by (simp add: tf reconcileOrphanedSessions_def case_prod_beta)
qed

lemma asks_rests: "asks_only n a b \<Longrightarrow> rests a b"
  by (intro rests_same core_face) (simp_all add: asks_only_def)

lemma advanceShiftRequest_rests: "rests a (snd (advanceShiftRequest e role req a))"
proof -
  obtain t f where a: "a = (t, f)" by fastforce
  have "rests (t, f) (snd (autoShift e role sess (t, f)))" for sess
  proof -
    let ?f = "fl_emit KindShiftAutoTriggered t (role_Name role) sess f"
    obtain g err where i: "initiateShiftLocked e (team_key t) (role_Name role) ?f = (g, err)" by fastforce
    show ?thesis using initiateShiftLocked_effect[OF i] by (intro rests_same) (simp_all add: autoShift_def i split: option.split)
  qed
  moreover have "rests a (dropShiftRequest e (role_Name role) a)" "rests a (snd (put_request e (role_Name role) q a))" for q
    by (rule asks_rests, rule dropShiftRequest_asks put_request_asks)+
  ultimately show ?thesis unfolding a advanceShiftRequest_def prod.case
    by (simp add: Let_def split: sum.split option.split)
qed

lemma trigger_roles_rest: "rests tf (trigger_roles e roles tf)"
proof (induction roles arbitrary: tf)
  case (Cons role roles)
  have c: "rests b (trigger_roles e roles (trigger_conds e role conds b))" for b conds
    using rests_trans[OF asks_rests[OF trigger_conds_asks] Cons.IH] .
  have d: "rests tf (trigger_roles e roles (trigger_conds e role conds (dropShiftRequest e n tf)))" for n conds
    using rests_trans[OF asks_rests[OF dropShiftRequest_asks] c] .
  obtain st b where r: "advanceShiftRequest e role req tf = (st req, b req)" for req
    by (rule that[of "\<lambda>r. fst (advanceShiftRequest e role r tf)" "\<lambda>r. snd (advanceShiftRequest e role r tf)"]) simp
  have b: "rests tf (b req)" for req using advanceShiftRequest_rests[of tf e role req] r by simp
  show ?case using c d Cons.IH b rests_trans[OF b Cons.IH] rests_trans[OF b c] by (simp add: r Let_def split: option.split bool.split)
qed simp

lemma pass_prefix_rests: "rests tf (pass_prefix e tf)"
proof -
  have "rests b (evaluateShiftTriggers e b)" for b using trigger_roles_rest by (simp add: evaluateShiftTriggers_def split: prod.split)
  moreover have "rests b (reconcileAdmissionState e b)" for b
    using frame_rests[OF setAdmissionState_frame] by (cases b) (simp add: reconcileAdmissionState_def)
  ultimately show ?thesis unfolding pass_prefix_def
    using rests_trans[OF rests_trans[OF advanceRetirements_rests advanceHibernate_rests] orphans_rest] rests_trans by blast
qed

section \<open>A cold team\<close>

definition cold :: "Team \<times> Fleet \<Rightarrow> bool" where
  "cold a \<longleftrightarrow> keyed (fseats (snd a)) \<and> Posture (fst a) = PostureHold \<and>
     (\<forall>k x. frows (snd a) k = Some x \<and> (sess_Workspace x, sess_Team x) = team_id (fst a) \<longrightarrow> \<not> CountsAsAlive (sess_State x))"

lemma cold_withheld: "cold (t, f) \<Longrightarrow> postureWithholds (fl_ctl f) t"
proof -
  assume c: "cold (t, f)"
  have "\<not> CountsAsAlive (sess_State x)" if "x \<in> set (ListSessionsByTeam (fl_store f) (team_Workspace t) (team_Name t))" for x
    using that c listed_row[of "fl_store f" x] by (auto simp: cold_def ListSessionsByTeam_def team_id_def)
  then show ?thesis using c by (simp add: cold_def postureWithholds_def slot_counts filter_empty_conv)
qed

lemma cold_rests:
  assumes "cold a" "rests a b"
  shows "cold b"
proof -
  have k: "keyed (fseats (snd a))" using assms(1) by (simp add: cold_def)
  with assms(2) have f: "face (fst b) = face (fst a)" "keyed (fseats (snd b))" "fades (fseats (snd a)) (fseats (snd b))" by (simp_all add: rests_def)
  from f(1) have id: "team_id (fst b) = team_id (fst a)" "Posture (fst b) = Posture (fst a)" by (simp_all add: face_def Posture_def)
  have "\<not> CountsAsAlive (sess_State x')" if "frows (snd b) k = Some x'" "(sess_Workspace x', sess_Team x') = team_id (fst b)" for k x'
    using f(3) that assms(1) id unfolding fades_def cold_def by (metis Pair_inject slot_of_def)
  with f(2) id assms(1) show ?thesis unfolding cold_def by metis
qed

lemma cold_role_rests:
  assumes "cold tf"
  shows "rests tf (reconcileRole e role tf)"
proof -
  obtain t f where tf: "tf = (t, f)" by fastforce
  let ?plan = "planRole (te_now e) (te_src e) (te_bus e) (fl_ctl f) t role (team_Generation t)"
  note w = cold_withheld[OF assms[unfolded tf]]
  show ?thesis
  proof (cases "plan_Action ?plan = RoleSpawn")
    case True
    then show ?thesis using w by (simp add: tf reconcileRole_def reconcile_plan_def)
  next
    case False
    have "reconcileRole e role (t, f) = foldl (\<lambda>tf sess. retireSession e (Some role) sess tf) (apply_holds e ?plan (t, f)) (plan_Delete ?plan)"
      using False planRole_no_spawn[OF False] by (simp add: reconcileRole_def reconcile_plan_def applyRolePlan_def split: prod.split)
    then show ?thesis using rests_trans[OF frame_rests[OF apply_holds_frame] rests_fold[OF retireSession_rests]] by (simp add: tf)
  qed
qed

lemma cold_roles_rest: "cold tf \<Longrightarrow> rests tf (foldl (\<lambda>tf role. reconcileRole e role tf) tf roles)"
proof (induction roles rule: rev_induct)
  case (snoc role roles)
  then show ?case using rests_trans[OF _ cold_role_rests] cold_rests by simp
qed simp

lemma finishPrune_rests: "rests (t, f) (t, finishPrune e t p f)"
proof -
  let ?chk = "PruneDeleteCheck (PruneRecheck (tp_Source p))"
  obtain s res where d: "DeleteTeamIf (te_commits e) (team_key t) ?chk (fl_store f) = (s, res)" by fastforce
  have s: "fseats (put_store s f) = fseats f" using DeleteTeamIf_effect(1)[OF d] by simp
  have del: "rests (t, g) (t, deleteSessionsLocked e keys g)" for g keys
  proof -
    have "foldl (\<lambda>(t, f) k. (t, DeleteAndReap e k f)) (t, g) keys = (t, deleteSessionsLocked e keys g)"
      by (induction keys arbitrary: g) (simp_all add: deleteSessionsLocked_def)
    moreover have "rests (t, g) (foldl (\<lambda>(t, f) k. (t, DeleteAndReap e k f)) (t, g) keys)"
      by (rule rests_fold) (auto intro: DeleteAndReap_rests split: prod.split)
    ultimately show ?thesis by simp
  qed
  have fin: "rests (t, g) (t, finishPrunedTeamLocked e key keys g)" for key keys g
    by (rule rests_trans[OF del rests_same]) (simp_all add: finishPrunedTeamLocked_def Let_def emit_def split: prod.split)
  have "rests (t, f) (t, put_store s f)" "rests (t, f) (t, unmarkPruning e (team_key t) (put_store s f))"
    using s by (simp_all add: rests_same unmarkPruning_effect)
  with rests_trans[OF this(1) fin] show ?thesis
    by (auto simp: finishPrune_def d split: sum.split)
qed

lemma cold_pass_rests:
  assumes "cold (t, f)" "sh_Phase (team_Shift t) = ShiftNone"
  shows "rests (t, f) (reconcileTeam e (t, f))"
proof -
  obtain t1 f1 where p: "pass_prefix e (t, f) = (t1, f1)" by fastforce
  have r: "rests (t, f) (t1, f1)" using pass_prefix_rests[of "(t, f)" e] p by simp
  then have ph: "sh_Phase (team_Shift t1) = ShiftNone" using assms by (simp add: rests_def face_def cold_def)
  obtain t2 f2 where q: "foldl (\<lambda>tf role. reconcileRole e role tf) (t1, f1) (team_Roles t1) = (t2, f2)" by fastforce
  have "rests (t1, f1) (t2, f2)" using cold_roles_rest[OF cold_rests[OF assms(1) r], of e "team_Roles t1"] q by simp
  with r have r2: "rests (t, f) (t2, f2)" by (rule rests_trans)
  have "reconcileTeam e (t, f) = (case team_Pruning t2 of None \<Rightarrow> (t2, f2) | Some p \<Rightarrow> (t2, finishPrune e t2 p f2))"
    using p q ph by (simp add: reconcileTeam_def pass_prefix_def)
  then show ?thesis using r2 rests_trans[OF r2 finishPrune_rests] by (simp split: option.split)
qed

text \<open>C15. A cold daemon spawns nothing. After the daemon has set the postures at its start, every team that
  has a live session converges and every other team holds, whatever posture the file recorded. A
  reconcile pass over a team that holds so and is in no shift, with its retirements, hibernate, dropped
  roles, triggers, roles and prune, creates no session, at any later time and whatever the gates, tmux and
  the file do, and brings none back to life, as long as the records of the store are as the start left
  them.\<close>

theorem cold_start_spawns_nothing:
  assumes "keyed_sessions (fl_store f)" and "teams_keyed (fl_store f)" and "InitConvergencePosture e f = (f', None)"
    and "team_at (fl_store f') k = Some t"
  shows "if 0 < CountAlive (ListSessionsByTeam (fl_store f') (team_Workspace t) (team_Name t)) then Posture t = PostureConverge
    else Posture t = PostureHold \<and> (sh_Phase (team_Shift t) = ShiftNone \<longrightarrow>
      (\<forall>later j x'. session_at (fl_store (snd (reconcileTeam later (t, f')))) j = Some x' \<longrightarrow>
        (\<exists>x. session_at (fl_store f') j = Some x \<and> (CountsAsAlive (sess_State x') \<longrightarrow> CountsAsAlive (sess_State x)))))"
proof (cases "0 < CountAlive (ListSessionsByTeam (fl_store f') (team_Workspace t) (team_Name t))")
  case True
  then show ?thesis using InitConvergencePosture_sets(2)[OF assms] by (simp add: presence_def)
next
  case False
  have k: "keyed (fseats f')" using assms(1) InitConvergencePosture_sets(1)[OF assms] by (simp add: keyed_sessions_iff)
  have p: "Posture t = PostureHold" using InitConvergencePosture_sets(2)[OF assms] False by (simp add: presence_def)
  have "\<not> CountsAsAlive (sess_State x)" if x: "frows f' j = Some x" "(sess_Workspace x, sess_Team x) = team_id t" for j x
  proof
    assume "CountsAsAlive (sess_State x)"
    moreover have "x \<in> set (ListSessionsByTeam (fl_store f') (team_Workspace t) (team_Name t))"
      using x by (force simp: ListSessionsByTeam_def ListSessions_def team_id_def dest!: map_of_SomeD)
    ultimately show False using False by (auto simp: slot_counts filter_empty_conv)
  qed
  with k p have c: "cold (t, f')" unfolding cold_def fst_conv snd_conv by blast
  have "\<exists>x. frows f' j = Some x \<and> (alive x' \<longrightarrow> alive x)"
    if "sh_Phase (team_Shift t) = ShiftNone" "frows (snd (reconcileTeam later (t, f'))) j = Some x'" for later j x'
    using cold_pass_rests[OF c that(1), of later] k that(2) unfolding rests_def fades_def fst_conv snd_conv by blast
  then show ?thesis using p False by simp
qed

theorem cold_start_spawns_nothing_witness:
  "\<exists>f t. InitConvergencePosture (example_env 9) (fleet_of example_team []) = (f, None) \<and> team_at (fl_store f) ''ws/squad'' = Some t \<and>
     Posture example_team = PostureConverge \<and> Posture t = PostureHold \<and>
     (\<forall>later j. session_at (fl_store (snd (reconcileTeam later (t, f)))) j = None)"
proof -
  let ?f = "fleet_of example_team []" and ?g = "\<lambda>live. live\<lparr>team_ConvergencePosture := PostureHold\<rparr>"
  have k: "keyed_sessions (fl_store ?f)" by (simp add: fleet_of_keyed)
  have k2: "teams_keyed (fl_store ?f)" by (simp add: teams_keyed_def fleet_of_def NewController_def)
  obtain f err where u: "fl_UpdateTeam (example_env 9) (team_key example_team) ?g ?f = (f, err)" by fastforce
  have n: "err = None" using UpdateTeam_ok[of "example_env 9" ?f "team_key example_team" ?g] u by (simp add: example_env_def all_commit_def)
  have t: "team_at (fl_store f) ''ws/squad'' = Some (?g example_team)"
    using fl_UpdateTeam_teams[of "example_env 9" "team_key example_team" ?g ?f] u by (simp add: example_team_def team_key_def)
  have s: "fseats f = []" using fl_UpdateTeam_seats[of "example_env 9" "team_key example_team" ?g ?f] u by simp
  have l: "ListTeams (fl_store ?f) = [example_team]" by (simp add: fleet_of_def NewController_def ListTeams_def)
  have "presence (fl_store ?f) example_team = PostureHold" by (simp add: presence_def ListSessionsByTeam_def slot_counts)
  moreover have p: "Posture example_team = PostureConverge" by (simp add: Posture_def example_team_def)
  ultimately have i: "InitConvergencePosture (example_env 9) ?f = (f, None)"
    using u n by (simp add: InitConvergencePosture_def l PostureHold_def PostureConverge_def)
  have "Posture (?g example_team) = PostureHold" "sh_Phase (team_Shift (?g example_team)) = ShiftNone"
    by (simp_all add: Posture_def PostureHold_def PostureConverge_def example_team_def no_shift_def)
  then show ?thesis using cold_start_spawns_nothing[OF k k2 i t] i t p s
    by (auto simp: PostureHold_def PostureConverge_def split: if_splits)
qed

end
