(* ===== verification/Child_Proof.thy ===== *)
theory Child_Proof
  imports Marvel_Prelude
begin

text \<open>
  The one way to signal a managed process (\<open>internal/childproof/childproof.go\<close>): a pid is signalled only
  through a child whose identity was read from the kernel and matched, and the identity is read again
  before every signal.

  The kernel is outside. Every call a component makes of it is an entry of a log, and the answer to
  the next call is a function of how many calls there have been, so that a process may exit, and its
  pid name another one, between any two calls. A failed read may still show the start time. A prober
  here is the one \<open>New\<close> returns, with both seams set, and every child is one it proved.
\<close>

section \<open>The kernel\<close>

datatype Signal = SIGSTOP | SIGCONT | SIG0

record Identity =
  id_Start :: string
  id_Exe :: string
  id_Argv :: "string list"
  id_Pgid :: int
  id_Ppid :: int

datatype read_result = ReadOk Identity | ReadErr string

datatype kill_result = KillOk | KillESRCH | KillEPERM | KillErr

text \<open>\<open>Own\<close> is a call of the component itself.\<close>

datatype 'a action = Read int read_result | Kill int Signal kill_result | Own 'a

record host =
  ho_read :: "nat \<Rightarrow> int \<Rightarrow> read_result"
  ho_kill :: "nat \<Rightarrow> int \<Rightarrow> Signal \<Rightarrow> kill_result"

definition sys_read :: "'h host_scheme \<Rightarrow> int \<Rightarrow> 'a action list \<Rightarrow> read_result \<times> 'a action list" where
  "sys_read h pid log = (let r = ho_read h (length log) pid in (r, log @ [Read pid r]))"

definition sys_kill :: "'h host_scheme \<Rightarrow> int \<Rightarrow> Signal \<Rightarrow> 'a action list \<Rightarrow> kill_result \<times> 'a action list" where
  "sys_kill h target sig log = (let r = ho_kill h (length log) target sig in (r, log @ [Kill target sig r]))"

section \<open>Proving and signalling\<close>

record Child =
  ch_pid :: int
  ch_id :: Identity

datatype ProofError = BadPid | NoRecord | MismatchError string | ErrUnsignalable | KillFailed kill_result

definition CheckPid :: "int \<Rightarrow> bool" where
  "CheckPid pid \<longleftrightarrow> \<not> (pid \<le> 1 \<or> 2147483647 < pid)"

definition sameIdentity :: "Identity \<Rightarrow> Identity \<Rightarrow> bool" where
  "sameIdentity a b \<longleftrightarrow> id_Start a = id_Start b \<and> id_Exe a = id_Exe b \<and> id_Argv a = id_Argv b"

definition reasonOf :: "Identity \<Rightarrow> Identity \<Rightarrow> string" where
  "reasonOf live want = (if id_Start live \<noteq> id_Start want then ''start'' else if id_Exe live \<noteq> id_Exe want then ''exe'' else ''argv'')"

definition failed_read :: "string \<Rightarrow> string \<Rightarrow> ProofError" where
  "failed_read shown want = (if shown \<noteq> [] \<and> shown \<noteq> want then MismatchError ''start'' else MismatchError ''dead'')"

definition Identify :: "'h host_scheme \<Rightarrow> int \<Rightarrow> 'a action list \<Rightarrow> (ProofError + read_result) \<times> 'a action list" where
  "Identify h pid log =
     (if \<not> CheckPid pid then (Inl BadPid, log) else case sys_read h pid log of (r, log1) \<Rightarrow> (Inr r, log1))"

definition Prove :: "'h host_scheme \<Rightarrow> int \<Rightarrow> Identity \<Rightarrow> 'a action list \<Rightarrow> (ProofError + Child) \<times> 'a action list" where
  "Prove h pid want log =
     (if \<not> CheckPid pid then (Inl BadPid, log)
      else if id_Start want = [] then (Inl NoRecord, log)
      else case sys_read h pid log of
        (ReadErr shown, log1) \<Rightarrow> (Inl (failed_read shown (id_Start want)), log1)
      | (ReadOk live, log1) \<Rightarrow>
          if id_Start live \<noteq> id_Start want then (Inl (MismatchError ''start''), log1)
          else if id_Exe live \<noteq> id_Exe want then (Inl (MismatchError ''exe''), log1)
          else if id_Argv live \<noteq> id_Argv want then (Inl (MismatchError ''argv''), log1)
          else (Inr \<lparr>ch_pid = pid, ch_id = live\<rparr>, log1))"

definition ProveStart :: "'h host_scheme \<Rightarrow> int \<Rightarrow> string \<Rightarrow> string \<Rightarrow> 'a action list \<Rightarrow> (ProofError + Child) \<times> 'a action list" where
  "ProveStart h pid wantStart arg log =
     (if \<not> CheckPid pid then (Inl BadPid, log)
      else if wantStart = [] \<or> arg = [] then (Inl NoRecord, log)
      else case sys_read h pid log of
        (ReadErr shown, log1) \<Rightarrow> (Inl (failed_read shown wantStart), log1)
      | (ReadOk live, log1) \<Rightarrow>
          if id_Start live \<noteq> wantStart then (Inl (MismatchError ''start''), log1)
          else if arg \<notin> set (id_Argv live) then (Inl (MismatchError ''argv''), log1)
          else (Inr \<lparr>ch_pid = pid, ch_id = live\<rparr>, log1))"

definition Same :: "'h host_scheme \<Rightarrow> Child \<Rightarrow> 'a action list \<Rightarrow> bool \<times> 'a action list" where
  "Same h c log =
     (if \<not> CheckPid (ch_pid c) then (False, log)
      else case sys_read h (ch_pid c) log of
        (ReadErr _, log1) \<Rightarrow> (False, log1)
      | (ReadOk live, log1) \<Rightarrow> (sameIdentity live (ch_id c), log1))"

definition SignalChild :: "'h host_scheme \<Rightarrow> Child \<Rightarrow> Signal \<Rightarrow> bool \<Rightarrow> 'a action list \<Rightarrow> ProofError option \<times> 'a action list" where
  "SignalChild h c sig grp log =
     (if \<not> CheckPid (ch_pid c) then (Some ErrUnsignalable, log)
      else case sys_read h (ch_pid c) log of
        (ReadErr _, log1) \<Rightarrow> (Some (MismatchError ''dead''), log1)
      | (ReadOk live, log1) \<Rightarrow>
          if \<not> sameIdentity live (ch_id c) then (Some (MismatchError (reasonOf live (ch_id c))), log1)
          else let target = (if grp \<and> id_Pgid live = ch_pid c then - ch_pid c else ch_pid c)
               in case sys_kill h target sig log1 of
                    (KillOk, log2) \<Rightarrow> (None, log2)
                  | (k, log2) \<Rightarrow> (Some (KillFailed k), log2))"

definition Exists :: "'h host_scheme \<Rightarrow> int \<Rightarrow> 'a action list \<Rightarrow> (ProofError + bool) \<times> 'a action list" where
  "Exists h pid log =
     (if \<not> CheckPid pid then (Inl BadPid, log)
      else case sys_kill h pid SIG0 log of
        (KillOk, log1) \<Rightarrow> (Inr True, log1)
      | (KillEPERM, log1) \<Rightarrow> (Inr True, log1)
      | (KillESRCH, log1) \<Rightarrow> (Inr False, log1)
      | (KillErr, log1) \<Rightarrow> (Inl (KillFailed KillErr), log1))"

section \<open>A signal follows a matching read\<close>

text \<open>A component's own calls move a state, such as the record it keeps on disk.\<close>

fun after :: "('s \<Rightarrow> 'a \<Rightarrow> 's) \<Rightarrow> 's \<Rightarrow> 'a action list \<Rightarrow> 's" where
  "after f s [] = s"
| "after f s (Own a # rest) = after f (f s a) rest"
| "after f s (_ # rest) = after f s rest"

lemma after_append [simp]: "after f s (xs @ ys) = after f (after f s xs) ys"
  by (induction f s xs rule: after.induct) auto

lemma after_last: "last log = Own a \<Longrightarrow> log \<noteq> [] \<Longrightarrow> after f s log = f (after f s (butlast log)) a"
  by (cases log rule: rev_cases) auto

text \<open>In a guarded log a real signal goes to one process, right after a read that showed the identity the
  process was recorded with: \<open>I s pid id\<close> says that \<open>id\<close> is what the state \<open>s\<close> holds of \<open>pid\<close>.\<close>

fun guarded :: "('s \<Rightarrow> 'a \<Rightarrow> 's) \<Rightarrow> ('s \<Rightarrow> int \<Rightarrow> Identity \<Rightarrow> bool) \<Rightarrow> 's \<Rightarrow> 'a action list \<Rightarrow> bool" where
  "guarded f I s [] \<longleftrightarrow> True"
| "guarded f I s (Read p r # Kill q sig k # rest) \<longleftrightarrow>
     (sig = SIG0 \<or> q = p \<and> CheckPid p \<and> (\<exists>live. r = ReadOk live \<and> I s p live)) \<and> guarded f I s rest"
| "guarded f I s (Kill q sig k # rest) \<longleftrightarrow> sig = SIG0 \<and> guarded f I s rest"
| "guarded f I s (Own a # rest) \<longleftrightarrow> guarded f I (f s a) rest"
| "guarded f I s (Read p r # rest) \<longleftrightarrow> guarded f I s rest"

lemma guarded_Read: "guarded f I s ys \<Longrightarrow> guarded f I s (Read p r # ys)"
  by (cases "(f, I, s, ys)" rule: guarded.cases) auto

lemma guarded_append: "guarded f I s xs \<Longrightarrow> guarded f I (after f s xs) ys \<Longrightarrow> guarded f I s (xs @ ys)"
  by (induction f I s xs rule: guarded.induct) (auto simp: guarded_Read)

text \<open>A stretch without signals is guarded.\<close>

lemma guarded_silent: "\<forall>p sig k. Kill p sig k \<notin> set xs \<Longrightarrow> guarded f I s xs"
proof (induction f I s xs rule: guarded.induct)
  case (2 f I s p r q sig k rest)
  then have "Kill q sig k \<notin> set (Read p r # Kill q sig k # rest)" by blast
  then show ?case by simp
qed auto

text \<open>What a guarded log says of a signal in it.\<close>

lemma guardedD:
  assumes "guarded f I s log" and "log = pre @ Kill q sig k # post" and "sig \<noteq> SIG0"
  shows "\<exists>pre' live. pre = pre' @ [Read q (ReadOk live)] \<and> CheckPid q \<and> I (after f s pre) q live"
  using assms
proof (induction f I s log arbitrary: pre rule: guarded.induct)
  case (2 f I s p r q' sig' k' rest)
  consider "pre = [Read p r]" "q' = q" "sig' = sig" | as where "pre = Read p r # Kill q' sig' k' # as" "rest = as @ Kill q sig k # post"
    using "2.prems"(2) by (cases pre; cases "tl pre") auto
  then show ?case
  proof cases
    case 1
    with "2.prems" show ?thesis by auto
  next
    case (2 as)
    with "2.prems" have "\<exists>pre' live. as = pre' @ [Read q (ReadOk live)] \<and> CheckPid q \<and> I (after f s as) q live"
      by (intro "2.IH") auto
    with 2(1) show ?thesis by auto
  qed
qed (fastforce simp: Cons_eq_append_conv)+

section \<open>The calls\<close>

text \<open>A proof is a read at most, and a proved child has the recorded identity.\<close>

lemma Prove_log:
  assumes "Prove h pid want log = (r, log')"
  shows "log' = log \<or> log' = log @ [Read pid (ho_read h (length log) pid)]"
  using assms by (auto simp: Prove_def sys_read_def Let_def split: if_splits read_result.splits)

lemma Prove_sound:
  assumes "Prove h pid want log = (Inr c, log')"
  shows "CheckPid pid" "ch_pid c = pid" "sameIdentity (ch_id c) want"
  using assms by (auto simp: Prove_def sys_read_def sameIdentity_def Let_def split: if_splits read_result.splits)

lemma Same_log:
  assumes "Same h c log = (b, log')"
  shows "log' = log \<or> log' = log @ [Read (ch_pid c) (ho_read h (length log) (ch_pid c))]"
  using assms by (auto simp: Same_def sys_read_def Let_def split: if_splits read_result.splits)

text \<open>A signal: nothing, a read that shows no match, or a read that matches and the signal.\<close>

lemma SignalChild_log:
  assumes "SignalChild h c sig False log = (r, log')"
  obtains "r = Some ErrUnsignalable" "\<not> CheckPid (ch_pid c)" "log' = log"
  | x m where "r = Some (MismatchError m)" "log' = log @ [Read (ch_pid c) x]"
  | live k where "CheckPid (ch_pid c)" "sameIdentity live (ch_id c)" "log' = log @ [Read (ch_pid c) (ReadOk live), Kill (ch_pid c) sig k]"
      "r = (if k = KillOk then None else Some (KillFailed k))"
  using assms
  by (auto simp: SignalChild_def sys_read_def sys_kill_def Let_def split: if_splits read_result.splits kill_result.splits)

section \<open>A client that signals\<close>

text \<open>The log grew by a guarded stretch, and the client's state went from \<open>s\<close> to \<open>t\<close>.\<close>

definition grows :: "('s \<Rightarrow> 'a \<Rightarrow> 's) \<Rightarrow> ('s \<Rightarrow> int \<Rightarrow> Identity \<Rightarrow> bool) \<Rightarrow> 's \<Rightarrow> 'a action list \<Rightarrow> 'a action list \<Rightarrow> 's \<Rightarrow> bool" where
  "grows f I s log log' t \<longleftrightarrow> (\<exists>seg. log' = log @ seg \<and> guarded f I s seg \<and> after f s seg = t)"

lemma grows_refl [simp]: "grows f I s log log s"
  by (simp add: grows_def)

lemma grows_trans: "grows f I s log log1 t \<Longrightarrow> grows f I t log1 log2 u \<Longrightarrow> grows f I s log log2 u"
  unfolding grows_def by (metis append.assoc guarded_append after_append)

lemma grows_Own: "grows f I s log (log @ [Own a]) (f s a)"
  unfolding grows_def by (rule exI[of _ "[Own a]"]) simp

text \<open>A client that keeps, in a state its own calls move, the identities it may signal: what it knows of a pid is
  known of every identity with the same start time, executable and arguments. Then its proofs, checks
  and signals keep the log guarded, a signal provided the child is one it knows.\<close>

locale signal_client =
  fixes f :: "'s \<Rightarrow> 'a \<Rightarrow> 's" and I :: "'s \<Rightarrow> int \<Rightarrow> Identity \<Rightarrow> bool"
  assumes known_same: "I s pid known \<Longrightarrow> sameIdentity live known \<Longrightarrow> I s pid live"
begin

lemma grows_Prove: "Prove h pid want log = (r, log') \<Longrightarrow> grows f I s log log' s"
  by (drule Prove_log) (fastforce simp: grows_def)

lemma grows_Same: "Same h c log = (b, log') \<Longrightarrow> grows f I s log log' s"
  by (drule Same_log) (fastforce simp: grows_def)

lemma grows_SignalChild:
  assumes "SignalChild h c sig False log = (r, log')" and "I s (ch_pid c) (ch_id c)"
  shows "grows f I s log log' s"
  using assms(1)
proof (cases rule: SignalChild_log)
  case (3 live k)
  then have "guarded f I s [Read (ch_pid c) (ReadOk live), Kill (ch_pid c) sig k]"
    using known_same[OF assms(2)] by simp
  with 3 show ?thesis by (auto simp: grows_def)
qed (auto simp: grows_def)

end

section \<open>A steady child\<close>

text \<open>A child whose every read matches, and whose signals are delivered, is proved and signalled.\<close>

lemma Prove_steady:
  assumes "CheckPid pid" "id_Start want \<noteq> []" "ho_read h (length log) pid = ReadOk live" "sameIdentity live want"
  shows "Prove h pid want log = (Inr \<lparr>ch_pid = pid, ch_id = live\<rparr>, log @ [Read pid (ReadOk live)])"
  using assms by (simp add: Prove_def sys_read_def sameIdentity_def Let_def)

lemma Same_steady:
  assumes "CheckPid (ch_pid c)" "ho_read h (length log) (ch_pid c) = ReadOk live" "sameIdentity live (ch_id c)"
  shows "Same h c log = (True, log @ [Read (ch_pid c) (ReadOk live)])"
  using assms by (simp add: Same_def sys_read_def Let_def)

lemma SignalChild_steady:
  assumes "CheckPid (ch_pid c)" "ho_read h (length log) (ch_pid c) = ReadOk live" "sameIdentity live (ch_id c)"
    and "ho_kill h (Suc (length log)) (ch_pid c) sig = KillOk"
  shows "SignalChild h c sig False log = (None, log @ [Read (ch_pid c) (ReadOk live), Kill (ch_pid c) sig KillOk])"
  using assms by (simp add: SignalChild_def sys_read_def sys_kill_def Let_def)

lemma sameIdentity_trans: "sameIdentity a b \<Longrightarrow> sameIdentity b c \<Longrightarrow> sameIdentity a c"
  by (simp add: sameIdentity_def)

end
