(* ===== verification/Suspend.thy ===== *)
theory Suspend
  imports Child_Proof
begin

text \<open>
  The fleet suspend (\<open>internal/suspend/suspend.go\<close>): every process of the fleet is stopped in place and
  later resumed. The record is saved before the first signal; the tmux server is stopped first, because
  it resumes a pane that stops while it runs, and every seat after it; a process counts as frozen when
  its stop state has been read twice; what does not stop rolls everything back. A thaw resumes the
  seats, then the server, and clears the record last.

  The calls are logged as in \<open>Child_Proof\<close>; beside the kernel, the stop-state reader, the store of the
  record, the re-walk of the process tree and the hook of a thaw are outside. The pause between two
  reads has no place in the log. The texts of errors are left out; \<open>RolledBack\<close> carries the pids whose
  resume failed and whether the record was cleared, which Go joins to the cause.
\<close>

section \<open>Records\<close>

text \<open>\<open>StateNew\<close> is Go's empty string, \<open>StateOther\<close> any string that is none of the named ones.\<close>

datatype SuspendState = StateNew | StateOther string | StateSuspending | StateSuspended | StateResuming

record Proc =
  px_Pid :: int
  px_Identity :: Identity

record SuspendRecord =
  su_State :: SuspendState
  su_Actor :: string
  su_Source :: string
  su_Since :: time
  su_Server :: Proc
  su_Seats :: "Proc list"

record SuspendResult =
  sx_Gone :: "int list"
  sx_StillStopped :: "int list"

text \<open>A save or a clear may return an error with its work done: the daemon's store writes the record and then a
  copy of it beside the socket, and an error of the copy is an error of the call.\<close>

datatype store_result = Stored | StoredErr | NotStored

datatype own_call = StopRead int "bool option" | Save SuspendRecord store_result | Clear store_result | Rewalked "Proc list option" | Hook bool

type_synonym slog = "own_call action list"

record freezer = host +
  ho_stopped :: "nat \<Rightarrow> int \<Rightarrow> bool option"
  ho_save :: "nat \<Rightarrow> SuspendRecord \<Rightarrow> store_result"
  ho_clear :: "nat \<Rightarrow> store_result"
  ho_rewalk :: "nat \<Rightarrow> SuspendRecord \<Rightarrow> Proc list option"
  ho_hook :: "nat \<Rightarrow> SuspendRecord \<Rightarrow> bool"

datatype SuspendError = ErrSuspendState | ErrPid | ErrServerNotRecorded ProofError | ErrSaveSuspending | FreezeError int
  | ErrRewalk | ErrSaveRewalked | RolledBack SuspendError "int list" bool | ErrSaveSuspended | ErrSaveResuming | ErrResume "int list"
  | ErrHook | ErrClear | ErrServerUnreadable | ErrServerProof ProofError

definition store_Save :: "freezer \<Rightarrow> SuspendRecord \<Rightarrow> slog \<Rightarrow> bool \<times> slog" where
  "store_Save h rec log = (let r = ho_save h (length log) rec in (r = Stored, log @ [Own (Save rec r)]))"

definition store_Clear :: "freezer \<Rightarrow> slog \<Rightarrow> bool \<times> slog" where
  "store_Clear h log = (let r = ho_clear h (length log) in (r = Stored, log @ [Own (Clear r)]))"

definition read_stopped :: "freezer \<Rightarrow> int \<Rightarrow> slog \<Rightarrow> bool option \<times> slog" where
  "read_stopped h pid log = (let r = ho_stopped h (length log) pid in (r, log @ [Own (StopRead pid r)]))"

definition checkPids :: "SuspendRecord \<Rightarrow> bool" where
  "checkPids rec \<longleftrightarrow> CheckPid (px_Pid (su_Server rec)) \<and> list_all (\<lambda>s. CheckPid (px_Pid s)) (su_Seats rec)"

section \<open>Freezing\<close>

definition isStopped :: "freezer \<Rightarrow> Child \<Rightarrow> slog \<Rightarrow> bool \<times> slog" where
  "isStopped h c log = (case read_stopped h (ch_pid c) log of (r, log1) \<Rightarrow> (r = Some True, log1))"

text \<open>The resume of the stopped seats; the pids whose resume failed.\<close>

fun resume_all :: "freezer \<Rightarrow> Child list \<Rightarrow> slog \<Rightarrow> int list \<times> slog" where
  "resume_all h [] log = ([], log)"
| "resume_all h (c # cs) log =
     (case SignalChild h c SIGCONT False log of
        (e, log1) \<Rightarrow> (case resume_all h cs log1 of (failed, log2) \<Rightarrow> ((if e = None then failed else ch_pid c # failed), log2)))"

definition rollback :: "freezer \<Rightarrow> Child \<Rightarrow> Child list \<Rightarrow> SuspendError \<Rightarrow> slog \<Rightarrow> SuspendError \<times> slog" where
  "rollback h server seats cause log =
     (case resume_all h (seats @ [server]) log of
        (failed, log1) \<Rightarrow> (case store_Clear h log1 of (ok, log2) \<Rightarrow> (RolledBack cause failed ok, log2)))"

text \<open>The proved children, the records kept and the pids that have gone.\<close>

fun prove_all :: "freezer \<Rightarrow> Proc list \<Rightarrow> slog \<Rightarrow> (Child list \<times> Proc list \<times> int list) \<times> slog" where
  "prove_all h [] log = (([], [], []), log)"
| "prove_all h (s # ss) log =
     (case Prove h (px_Pid s) (px_Identity s) log of
        (Inl _, log1) \<Rightarrow> (case prove_all h ss log1 of ((cs, ps, gone), log2) \<Rightarrow> ((cs, ps, px_Pid s # gone), log2))
      | (Inr c, log1) \<Rightarrow> (case prove_all h ss log1 of ((cs, ps, gone), log2) \<Rightarrow> ((c # cs, s # ps, gone), log2)))"

text \<open>The re-walked processes: the loop stops at a pid that names no single process.\<close>

fun prove_fresh :: "freezer \<Rightarrow> Proc list \<Rightarrow> slog \<Rightarrow> (bool \<times> Child list \<times> Proc list \<times> int list) \<times> slog" where
  "prove_fresh h [] log = ((True, [], [], []), log)"
| "prove_fresh h (p # ps) log =
     (if \<not> CheckPid (px_Pid p) then ((False, [], [], []), log)
      else case Prove h (px_Pid p) (px_Identity p) log of
        (Inl _, log1) \<Rightarrow> (case prove_fresh h ps log1 of ((ok, cs, qs, gone), log2) \<Rightarrow> ((ok, cs, qs, px_Pid p # gone), log2))
      | (Inr c, log1) \<Rightarrow> (case prove_fresh h ps log1 of ((ok, cs, qs, gone), log2) \<Rightarrow> ((ok, c # cs, p # qs, gone), log2)))"

text \<open>The stop of the seats: the first process that cannot be signalled ends it.\<close>

fun stop_all :: "freezer \<Rightarrow> Child list \<Rightarrow> slog \<Rightarrow> (int option \<times> Child list \<times> int list) \<times> slog" where
  "stop_all h [] log = ((None, [], []), log)"
| "stop_all h (c # cs) log =
     (case SignalChild h c SIGSTOP False log of
        (None, log1) \<Rightarrow> (case stop_all h cs log1 of ((bad, live, gone), log2) \<Rightarrow> ((bad, c # live, gone), log2))
      | (Some (MismatchError _), log1) \<Rightarrow> (case stop_all h cs log1 of ((bad, live, gone), log2) \<Rightarrow> ((bad, live, ch_pid c # gone), log2))
      | (Some _, log1) \<Rightarrow> ((Some (ch_pid c), [], []), log1))"

text \<open>One of the two reads: the seats that read stopped and the ones that have gone, or the pid that does not
  read stopped.\<close>

fun read_seats :: "freezer \<Rightarrow> Child list \<Rightarrow> slog \<Rightarrow> (int option \<times> Child list \<times> int list) \<times> slog" where
  "read_seats h [] log = ((None, [], []), log)"
| "read_seats h (c # cs) log =
     (case Same h c log of
        (False, log1) \<Rightarrow> (case read_seats h cs log1 of ((bad, still, gone), log2) \<Rightarrow> ((bad, still, ch_pid c # gone), log2))
      | (True, log1) \<Rightarrow>
          (case isStopped h c log1 of
             (False, log2) \<Rightarrow> ((Some (ch_pid c), [], []), log2)
           | (True, log2) \<Rightarrow> (case read_seats h cs log2 of ((bad, still, gone), log3) \<Rightarrow> ((bad, c # still, gone), log3))))"

definition read_round :: "freezer \<Rightarrow> Child \<Rightarrow> Child list \<Rightarrow> slog \<Rightarrow> (int option \<times> Child list \<times> int list) \<times> slog" where
  "read_round h server live log =
     (case Same h server log of
        (False, log1) \<Rightarrow> ((Some (ch_pid server), [], []), log1)
      | (True, log1) \<Rightarrow>
          (case isStopped h server log1 of
             (False, log2) \<Rightarrow> ((Some (ch_pid server), [], []), log2)
           | (True, log2) \<Rightarrow> read_seats h live log2))"

definition keepOnly :: "Proc list \<Rightarrow> Child list \<Rightarrow> Proc list" where
  "keepOnly procs children = filter (\<lambda>p. px_Pid p \<in> ch_pid ` set children) procs"

definition gone_only :: "int list \<Rightarrow> SuspendResult" where
  "gone_only gone = \<lparr>sx_Gone = gone, sx_StillStopped = []\<rparr>"

text \<open>From the stop of the seats on; \<open>rec\<close> reads suspending and \<open>server\<close> is stopped.\<close>

definition freeze_seats :: "freezer \<Rightarrow> SuspendRecord \<Rightarrow> Child \<Rightarrow> Child list \<Rightarrow> int list \<Rightarrow> slog \<Rightarrow>
    (SuspendRecord \<times> SuspendResult \<times> SuspendError option) \<times> slog" where
  "freeze_seats h rec server seats gone log =
     (case stop_all h seats log of
        ((Some pid, signalled, gone1), log1) \<Rightarrow>
          (case rollback h server signalled (FreezeError pid) log1 of (e, log2) \<Rightarrow> ((rec, gone_only (gone @ gone1), Some e), log2))
      | ((None, signalled, gone1), log1) \<Rightarrow>
      case read_round h server signalled log1 of
        ((Some pid, _, gone2), log2) \<Rightarrow>
          (case rollback h server signalled (FreezeError pid) log2 of (e, log3) \<Rightarrow> ((rec, gone_only (gone @ gone1 @ gone2), Some e), log3))
      | ((None, live1, gone2), log2) \<Rightarrow>
      case read_round h server live1 log2 of
        ((Some pid, _, gone3), log3) \<Rightarrow>
          (case rollback h server signalled (FreezeError pid) log3 of
             (e, log4) \<Rightarrow> ((rec, gone_only (gone @ gone1 @ gone2 @ gone3), Some e), log4))
      | ((None, live2, gone3), log3) \<Rightarrow>
          let rec1 = rec\<lparr>su_Seats := keepOnly (su_Seats rec) live2, su_State := StateSuspended\<rparr>
          in case store_Save h rec1 log3 of
               (ok, log4) \<Rightarrow> ((rec1, gone_only (gone @ gone1 @ gone2 @ gone3), if ok then None else Some ErrSaveSuspended), log4))"

text \<open>The re-walk, between the stop of the server and the stop of the seats.\<close>

definition freeze_fresh :: "freezer \<Rightarrow> SuspendRecord \<Rightarrow> Child \<Rightarrow> Child list \<Rightarrow> int list \<Rightarrow> slog \<Rightarrow>
    (SuspendRecord \<times> SuspendResult \<times> SuspendError option) \<times> slog" where
  "freeze_fresh h rec server seats gone log =
     (let walked = ho_rewalk h (length log) rec; log1 = log @ [Own (Rewalked walked)]
      in case walked of
        None \<Rightarrow> (case rollback h server [] ErrRewalk log1 of (e, log2) \<Rightarrow> ((rec, gone_only gone, Some e), log2))
      | Some fresh \<Rightarrow>
      case prove_fresh h fresh log1 of
        ((ok, added, procs, gone1), log2) \<Rightarrow>
      let rec1 = rec\<lparr>su_Seats := su_Seats rec @ procs\<rparr>; gone2 = gone @ gone1
      in if \<not> ok then (case rollback h server [] ErrRewalk log2 of (e, log3) \<Rightarrow> ((rec1, gone_only gone2, Some e), log3))
         else if procs = [] then freeze_seats h rec1 server (seats @ added) gone2 log2
         else case store_Save h rec1 log2 of
           (False, log3) \<Rightarrow> (case rollback h server [] ErrSaveRewalked log3 of (e, log4) \<Rightarrow> ((rec1, gone_only gone2, Some e), log4))
         | (True, log3) \<Rightarrow> freeze_seats h rec1 server (seats @ added) gone2 log3)"

text \<open>From the stop of the server on; \<open>rec\<close> is saved and reads suspending.\<close>

definition freeze_server :: "freezer \<Rightarrow> bool \<Rightarrow> SuspendRecord \<Rightarrow> Child \<Rightarrow> Child list \<Rightarrow> int list \<Rightarrow> slog \<Rightarrow>
    (SuspendRecord \<times> SuspendResult \<times> SuspendError option) \<times> slog" where
  "freeze_server h rewalk rec server seats gone log =
     (case SignalChild h server SIGSTOP False log of
        (Some _, log1) \<Rightarrow>
          (case rollback h server [] (FreezeError (ch_pid server)) log1 of (e, log2) \<Rightarrow> ((rec, gone_only gone, Some e), log2))
      | (None, log1) \<Rightarrow>
          if rewalk then freeze_fresh h rec server seats gone log1 else freeze_seats h rec server seats gone log1)"

definition FreezeWith :: "freezer \<Rightarrow> bool \<Rightarrow> SuspendRecord \<Rightarrow> slog \<Rightarrow> (SuspendRecord \<times> SuspendResult \<times> SuspendError option) \<times> slog" where
  "FreezeWith h rewalk rec log =
     (if su_State rec \<noteq> StateNew then ((rec, gone_only [], Some ErrSuspendState), log)
      else if \<not> checkPids rec then ((rec, gone_only [], Some ErrPid), log)
      else case Prove h (px_Pid (su_Server rec)) (px_Identity (su_Server rec)) log of
        (Inl e, log1) \<Rightarrow> ((rec, gone_only [], Some (ErrServerNotRecorded e)), log1)
      | (Inr server, log1) \<Rightarrow>
      case prove_all h (su_Seats rec) log1 of
        ((seats, kept, gone), log2) \<Rightarrow>
      let rec1 = rec\<lparr>su_Seats := kept, su_State := StateSuspending\<rparr>
      in case store_Save h rec1 log2 of
        (False, log3) \<Rightarrow> ((rec1, gone_only gone, Some ErrSaveSuspending), log3)
      | (True, log3) \<Rightarrow> freeze_server h rewalk rec1 server seats gone log3)"

definition Freeze :: "freezer \<Rightarrow> SuspendRecord \<Rightarrow> slog \<Rightarrow> (SuspendRecord \<times> SuspendResult \<times> SuspendError option) \<times> slog" where
  "Freeze h rec = FreezeWith h False rec"

section \<open>Thawing\<close>

text \<open>Proving and resuming one recorded process.\<close>

datatype resume_outcome = Resumed Child | Gone | ResumeFailed

definition resume_seat :: "freezer \<Rightarrow> Proc \<Rightarrow> slog \<Rightarrow> resume_outcome \<times> slog" where
  "resume_seat h s log =
     (case Prove h (px_Pid s) (px_Identity s) log of
        (Inl _, log1) \<Rightarrow> (Gone, log1)
      | (Inr c, log1) \<Rightarrow>
          (case SignalChild h c SIGCONT False log1 of
             (None, log2) \<Rightarrow> (Resumed c, log2)
           | (Some (MismatchError _), log2) \<Rightarrow> (Gone, log2)
           | (Some _, log2) \<Rightarrow> (ResumeFailed, log2)))"

text \<open>The server's resume has no case for a changed process: a mismatch is an error like any other.\<close>

definition resume_server :: "freezer \<Rightarrow> Proc \<Rightarrow> slog \<Rightarrow> resume_outcome \<times> slog" where
  "resume_server h s log =
     (case Prove h (px_Pid s) (px_Identity s) log of
        (Inl _, log1) \<Rightarrow> (Gone, log1)
      | (Inr c, log1) \<Rightarrow> (case SignalChild h c SIGCONT False log1 of (None, log2) \<Rightarrow> (Resumed c, log2) | (Some _, log2) \<Rightarrow> (ResumeFailed, log2)))"

fun resume_seats :: "freezer \<Rightarrow> Proc list \<Rightarrow> slog \<Rightarrow> (Proc \<times> resume_outcome) list \<times> slog" where
  "resume_seats h [] log = ([], log)"
| "resume_seats h (s # ss) log =
     (case resume_seat h s log of (r, log1) \<Rightarrow> (case resume_seats h ss log1 of (rs, log2) \<Rightarrow> ((s, r) # rs, log2)))"

fun read_still :: "freezer \<Rightarrow> Child list \<Rightarrow> slog \<Rightarrow> int list \<times> slog" where
  "read_still h [] log = ([], log)"
| "read_still h (c # cs) log =
     (case read_stopped h (ch_pid c) log of
        (r, log1) \<Rightarrow> (case read_still h cs log1 of (still, log2) \<Rightarrow> ((if r = Some True then ch_pid c # still else still), log2)))"

definition resumed_children :: "(Proc \<times> resume_outcome) list \<Rightarrow> Child list" where
  "resumed_children rs = concat (map (\<lambda>(_, r). case r of Resumed c \<Rightarrow> [c] | _ \<Rightarrow> []) rs)"

definition failures :: "(Proc \<times> resume_outcome) list \<Rightarrow> int list" where
  "failures rs = map (px_Pid \<circ> fst) (filter (\<lambda>(_, r). r = ResumeFailed) rs)"

definition thaw_result :: "(Proc \<times> resume_outcome) list \<Rightarrow> int list \<Rightarrow> SuspendResult" where
  "thaw_result rs still = \<lparr>sx_Gone = map (px_Pid \<circ> fst) (filter (\<lambda>(_, r). r = Gone) rs), sx_StillStopped = still\<rparr>"

text \<open>After the resumes: their errors, the hook and the end of the record.\<close>

definition thaw_end :: "freezer \<Rightarrow> bool \<Rightarrow> SuspendRecord \<Rightarrow> int list \<Rightarrow> SuspendResult \<Rightarrow> slog \<Rightarrow> (SuspendResult \<times> SuspendError option) \<times> slog" where
  "thaw_end h hook rec failed res log =
     (if failed \<noteq> [] then ((res, Some (ErrResume failed)), log)
      else
        let ran = (\<not> hook \<or> ho_hook h (length log) rec);
            log1 = (if hook then log @ [Own (Hook ran)] else log)
        in if \<not> ran then ((res, Some ErrHook), log1)
           else case store_Clear h log1 of (ok, log2) \<Rightarrow> ((res, if ok then None else Some ErrClear), log2))"

definition ThawWith :: "freezer \<Rightarrow> bool \<Rightarrow> SuspendRecord \<Rightarrow> slog \<Rightarrow> (SuspendResult \<times> SuspendError option) \<times> slog" where
  "ThawWith h hook rec log =
     (if su_State rec \<notin> {StateSuspended, StateSuspending, StateResuming} then ((gone_only [], Some ErrSuspendState), log)
      else if \<not> checkPids rec then ((gone_only [], Some ErrPid), log)
      else
        let rec1 = rec\<lparr>su_State := StateResuming\<rparr>
        in case store_Save h rec1 log of
          (False, log1) \<Rightarrow> ((gone_only [], Some ErrSaveResuming), log1)
        | (True, log1) \<Rightarrow>
        case resume_seats h (su_Seats rec) log1 of
          (rs, log2) \<Rightarrow>
        case resume_server h (su_Server rec) log2 of
          (r, log3) \<Rightarrow>
        let all = rs @ [(su_Server rec, r)]
        in case read_still h (resumed_children all) log3 of
             (still, log4) \<Rightarrow> thaw_end h hook rec1 (failures all) (thaw_result all still) log4)"

definition Thaw :: "freezer \<Rightarrow> SuspendRecord \<Rightarrow> slog \<Rightarrow> (SuspendResult \<times> SuspendError option) \<times> slog" where
  "Thaw h rec = ThawWith h False rec"

definition ServerGone :: "freezer \<Rightarrow> SuspendRecord \<Rightarrow> slog \<Rightarrow> (SuspendError + bool) \<times> slog" where
  "ServerGone h rec log =
     (let pid = px_Pid (su_Server rec)
      in case Prove h pid (px_Identity (su_Server rec)) log of
           (Inr _, log1) \<Rightarrow> (Inr False, log1)
         | (Inl (MismatchError reason), log1) \<Rightarrow>
             if reason \<noteq> ''dead'' then (Inr True, log1)
             else (case Exists h pid log1 of
                     (Inl e, log2) \<Rightarrow> (Inl (ErrServerProof e), log2)
                   | (Inr True, log2) \<Rightarrow> (Inl ErrServerUnreadable, log2)
                   | (Inr False, log2) \<Rightarrow> (Inr True, log2))
         | (Inl e, log1) \<Rightarrow> (Inl (ErrServerProof e), log1))"

end
