(* ===== verification/Suspend_Properties.thy ===== *)
theory Suspend_Properties
  imports Suspend
begin

text \<open>
  What a suspend and a resume promise, whatever the kernel, the store and the processes do in between:
  no process is signalled unless the record on disk names it and the read before the signal showed it
  (\<open>freeze_signals_what_is_recorded\<close>, \<open>thaw_signals_what_is_recorded\<close>); a freeze stops everything or
  resumes what it stopped (\<open>freeze_all_or_nothing\<close>); a thaw clears the record only when nothing
  recorded is left behind (\<open>thaw_clears_when_resumed\<close>).
\<close>

section \<open>The loops\<close>

text \<open>A client whose state a read of a stop state leaves alone: the loops keep its log guarded, those that signal
  when it knows every child they are given.\<close>

locale suspend_client = signal_client f I for f :: "'s \<Rightarrow> own_call \<Rightarrow> 's" and I +
  assumes stop_read: "f s (StopRead pid r) = s"
begin

lemma grows_read_stopped: "read_stopped h pid log = (r, log') \<Longrightarrow> grows f I s log log' s"
  using grows_Own[of f I s log "StopRead pid r"] by (auto simp: read_stopped_def stop_read Let_def)

lemma grows_isStopped: "isStopped h c log = (b, log') \<Longrightarrow> grows f I s log log' s"
  by (auto simp: isStopped_def intro: grows_read_stopped split: prod.splits)

lemma grows_resume_all:
  "resume_all h cs log = (failed, log') \<Longrightarrow> \<forall>c\<in>set cs. I s (ch_pid c) (ch_id c) \<Longrightarrow> grows f I s log log' s"
proof (induction h cs log arbitrary: failed log' rule: resume_all.induct)
  case (2 h c cs log)
  then show ?case by (fastforce intro: grows_trans grows_SignalChild split: prod.splits)
qed simp

lemma grows_prove_all:
  "prove_all h ss log = ((cs, kept, gone), log') \<Longrightarrow> grows f I s log log' s"
proof (induction h ss log arbitrary: cs kept gone log' rule: prove_all.induct)
  case (2 h p ss log)
  then show ?case by (fastforce intro: grows_trans grows_Prove split: prod.splits sum.splits)
qed simp

lemma grows_prove_fresh:
  "prove_fresh h ss log = ((ok, cs, kept, gone), log') \<Longrightarrow> grows f I s log log' s"
proof (induction h ss log arbitrary: ok cs kept gone log' rule: prove_fresh.induct)
  case (2 h p ss log)
  then show ?case by (fastforce intro: grows_trans grows_Prove split: prod.splits sum.splits if_splits)
qed simp

lemma grows_stop_all:
  "stop_all h cs log = ((bad, live, gone), log') \<Longrightarrow> \<forall>c\<in>set cs. I s (ch_pid c) (ch_id c) \<Longrightarrow> grows f I s log log' s"
proof (induction h cs log arbitrary: bad live gone log' rule: stop_all.induct)
  case (2 h c cs log)
  then show ?case by (fastforce intro: grows_trans grows_SignalChild split: prod.splits option.splits ProofError.splits)
qed simp

lemma grows_read_seats:
  "read_seats h cs log = ((bad, still, gone), log') \<Longrightarrow> grows f I s log log' s"
proof (induction h cs log arbitrary: bad still gone log' rule: read_seats.induct)
  case (2 h c cs log)
  then show ?case by (fastforce intro: grows_trans grows_Same grows_isStopped split: prod.splits bool.splits)
qed simp

lemma grows_read_round:
  "read_round h server cs log = ((bad, still, gone), log') \<Longrightarrow> grows f I s log log' s"
  unfolding read_round_def
  by (auto intro: grows_Same split: prod.splits bool.splits)
     (meson grows_trans grows_Same grows_isStopped grows_read_seats)+

end

section \<open>The record on disk\<close>

definition on_disk :: "SuspendRecord option \<Rightarrow> own_call \<Rightarrow> SuspendRecord option" where
  "on_disk d a = (case a of Save rec r \<Rightarrow> (if r = NotStored then d else Some rec) | Clear r \<Rightarrow> (if r = NotStored then d else None) | _ \<Rightarrow> d)"

definition procs :: "SuspendRecord \<Rightarrow> Proc list" where
  "procs rec = su_Server rec # su_Seats rec"

definition recorded :: "SuspendRecord option \<Rightarrow> int \<Rightarrow> Identity \<Rightarrow> bool" where
  "recorded d pid live \<longleftrightarrow>
     (case d of None \<Rightarrow> False | Some rec \<Rightarrow> list_ex (\<lambda>p. px_Pid p = pid \<and> sameIdentity live (px_Identity p)) (procs rec))"

lemma recorded_same: "recorded d pid known \<Longrightarrow> sameIdentity live known \<Longrightarrow> recorded d pid live"
  by (auto simp: recorded_def list_ex_iff intro: sameIdentity_trans split: option.splits)

interpretation disk: suspend_client on_disk recorded
  by unfold_locales (auto simp: on_disk_def intro: recorded_same)

text \<open>\<open>runs d log log' d'\<close>: the log grew by a guarded stretch, and the record on disk went from \<open>d\<close> to \<open>d'\<close>.\<close>

abbreviation runs :: "SuspendRecord option \<Rightarrow> slog \<Rightarrow> slog \<Rightarrow> SuspendRecord option \<Rightarrow> bool" where
  "runs \<equiv> grows on_disk recorded"

text \<open>A child the record on disk names.\<close>

definition named :: "SuspendRecord option \<Rightarrow> Child \<Rightarrow> bool" where
  "named d c \<longleftrightarrow> recorded d (ch_pid c) (ch_id c)"

lemmas runs_trans [trans] = grows_trans[of on_disk recorded]
  and runs_Own = grows_Own[of on_disk recorded]
  and runs_Prove = disk.grows_Prove
  and runs_read_stopped = disk.grows_read_stopped
  and runs_SignalChild = disk.grows_SignalChild[folded named_def]
  and runs_resume_all = disk.grows_resume_all[folded named_def]
  and runs_prove_all = disk.grows_prove_all
  and runs_prove_fresh = disk.grows_prove_fresh
  and runs_stop_all = disk.grows_stop_all[folded named_def]
  and runs_read_round = disk.grows_read_round

lemma runs_store_Save:
  assumes "store_Save h rec log = (ok, log')"
  obtains d' where "runs d log log' d'" "d' = Some rec \<or> \<not> ok \<and> d' = d"
  using assms that[of "on_disk d (Save rec (ho_save h (length log) rec))"] runs_Own[of d log "Save rec (ho_save h (length log) rec)"]
  by (auto simp: store_Save_def on_disk_def Let_def split: if_splits)

lemma runs_saved: "store_Save h rec log = (True, log') \<Longrightarrow> runs d log log' (Some rec)"
  by (erule runs_store_Save[where d = d]) simp

lemma runs_store_Clear:
  assumes "store_Clear h log = (ok, log')"
  obtains d' where "runs d log log' d'" "d' = None \<or> \<not> ok \<and> d' = d"
  using assms that[of "on_disk d (Clear (ho_clear h (length log)))"] runs_Own[of d log "Clear (ho_clear h (length log))"]
  by (auto simp: store_Clear_def on_disk_def Let_def split: if_splits)

lemma named_Prove: "Prove h (px_Pid p) (px_Identity p) log = (Inr c, log') \<Longrightarrow> p \<in> set (procs rec) \<Longrightarrow> named (Some rec) c"
  using Prove_sound[of h "px_Pid p" "px_Identity p" log c log'] by (auto simp: named_def recorded_def list_ex_iff)

section \<open>Silent stretches\<close>

text \<open>\<open>quiet log log'\<close>: the log grew by a stretch in which nothing is signalled.\<close>

definition quiet :: "slog \<Rightarrow> slog \<Rightarrow> bool" where
  "quiet log log' \<longleftrightarrow> (\<exists>seg. log' = log @ seg \<and> (\<forall>p sig k. Kill p sig k \<notin> set seg))"

lemma quiet_refl [simp]: "quiet log log"
  by (simp add: quiet_def)

lemma quiet_trans [trans]: "quiet log log1 \<Longrightarrow> quiet log1 log2 \<Longrightarrow> quiet log log2"
  by (fastforce simp: quiet_def)

lemma quiet_Own: "quiet log (log @ [Own a])"
  by (simp add: quiet_def)

lemma quiet_Prove: "Prove h pid want log = (r, log') \<Longrightarrow> quiet log log'"
  by (drule Prove_log) (auto simp: quiet_def)

lemma quiet_Same: "Same h c log = (b, log') \<Longrightarrow> quiet log log'"
  by (drule Same_log) (auto simp: quiet_def)

lemma quiet_read_stopped: "read_stopped h pid log = (r, log') \<Longrightarrow> quiet log log'"
  by (auto simp: read_stopped_def Let_def quiet_Own)

lemma quiet_store_Save: "store_Save h rec log = (ok, log') \<Longrightarrow> quiet log log'"
  by (auto simp: store_Save_def Let_def quiet_Own)

lemma quiet_prove_all: "prove_all h ss log = ((cs, kept, gone), log') \<Longrightarrow> quiet log log'"
proof (induction h ss log arbitrary: cs kept gone log' rule: prove_all.induct)
  case (2 h s ss log)
  then show ?case by (fastforce intro: quiet_trans quiet_Prove split: prod.splits sum.splits)
qed simp

lemma quiet_prove_fresh: "prove_fresh h ss log = ((ok, cs, kept, gone), log') \<Longrightarrow> quiet log log'"
proof (induction h ss log arbitrary: ok cs kept gone log' rule: prove_fresh.induct)
  case (2 h s ss log)
  then show ?case by (fastforce intro: quiet_trans quiet_Prove split: prod.splits sum.splits if_splits)
qed simp

lemma quiet_read_seats: "read_seats h cs log = ((bad, still, gone), log') \<Longrightarrow> quiet log log'"
proof (induction h cs log arbitrary: bad still gone log' rule: read_seats.induct)
  case (2 h c cs log)
  then show ?case by (fastforce simp: isStopped_def intro: quiet_trans quiet_Same quiet_read_stopped split: prod.splits bool.splits)
qed simp

lemma quiet_isStopped: "isStopped h c log = (b, log') \<Longrightarrow> quiet log log'"
  by (auto simp: isStopped_def intro: quiet_read_stopped split: prod.splits)

lemma quiet_read_round: "read_round h server cs log = ((bad, still, gone), log') \<Longrightarrow> quiet log log'"
  unfolding read_round_def
  by (auto intro: quiet_Same split: prod.splits bool.splits)
     (meson quiet_trans quiet_Same quiet_isStopped quiet_read_seats)+

text \<open>What the loops keep.\<close>

definition proved :: "Child \<Rightarrow> Proc \<Rightarrow> bool" where
  "proved c p \<longleftrightarrow> ch_pid c = px_Pid p \<and> sameIdentity (ch_id c) (px_Identity p)"

lemma Prove_proved: "Prove h (px_Pid p) (px_Identity p) log = (Inr c, log') \<Longrightarrow> proved c p"
  using Prove_sound[of h "px_Pid p" "px_Identity p" log c log'] by (simp add: proved_def)

lemma prove_all_kept:
  "prove_all h ss log = ((cs, kept, gone), log') \<Longrightarrow> list_all2 proved cs kept \<and> set kept \<subseteq> set ss"
proof (induction h ss log arbitrary: cs kept gone log' rule: prove_all.induct)
  case (2 h s ss log)
  then show ?case by (fastforce intro: Prove_proved split: prod.splits sum.splits)
qed simp

lemma prove_fresh_kept:
  "prove_fresh h ss log = ((ok, cs, kept, gone), log') \<Longrightarrow> list_all2 proved cs kept"
proof (induction h ss log arbitrary: ok cs kept gone log' rule: prove_fresh.induct)
  case (2 h s ss log)
  then show ?case by (fastforce intro: Prove_proved split: prod.splits sum.splits if_splits)
qed simp

lemma prove_fresh_sub: "prove_fresh h ss log = ((ok, cs, kept, gone), log') \<Longrightarrow> set kept \<subseteq> set ss"
proof (induction h ss log arbitrary: ok cs kept gone log' rule: prove_fresh.induct)
  case (2 h s ss log)
  then show ?case by (fastforce split: prod.splits sum.splits if_splits)
qed simp

lemma proved_named: "list_all2 proved cs kept \<Longrightarrow> set kept \<subseteq> set (procs rec) \<Longrightarrow> c \<in> set cs \<Longrightarrow> named (Some rec) c"
  by (force simp: list_all2_conv_all_nth in_set_conv_nth proved_def named_def recorded_def list_ex_iff)

lemma stop_all_live: "stop_all h cs log = ((bad, live, gone), log') \<Longrightarrow> set live \<subseteq> set cs"
proof (induction h cs log arbitrary: bad live gone log' rule: stop_all.induct)
  case (2 h c cs log)
  then show ?case by (fastforce split: prod.splits option.splits ProofError.splits)
qed simp

lemma read_seats_still: "read_seats h cs log = ((bad, still, gone), log') \<Longrightarrow> set still \<subseteq> set cs"
proof (induction h cs log arbitrary: bad still gone log' rule: read_seats.induct)
  case (2 h c cs log)
  then show ?case by (fastforce split: prod.splits bool.splits)
qed simp

section \<open>A freeze\<close>

lemma runs_rollback:
  assumes "rollback h server seats cause log = (e, log')" and "named d server" and "\<forall>c\<in>set seats. named d c"
  shows "\<exists>d'. runs d log log' d'"
proof -
  obtain failed log1 ok where *: "resume_all h (seats @ [server]) log = (failed, log1)" "store_Clear h log1 = (ok, log')"
    using assms(1) by (auto simp: rollback_def split: prod.splits)
  obtain d' where "runs d log1 log' d'" using *(2) by (rule runs_store_Clear)
  with runs_resume_all[OF *(1)] assms(2,3) show ?thesis by (auto intro: runs_trans)
qed

lemma runs_freeze_seats:
  assumes "freeze_seats h rec server seats gone log = (r, log')" and "named d server" and "\<forall>c\<in>set seats. named d c"
  shows "\<exists>d'. runs d log log' d'"
proof -
  obtain bad live gone1 log1 where stop: "stop_all h seats log = ((bad, live, gone1), log1)" by (metis prod_cases3 surj_pair)
  have r1: "runs d log log1 d" and n1: "\<forall>c\<in>set live. named d c"
    using runs_stop_all[OF stop assms(3)] stop_all_live[OF stop] assms(3) by auto
  note undo = runs_rollback[where d = d and server = server and seats = live, OF _ assms(2) n1]
  obtain bad2 live2 gone2 log2 where round1: "read_round h server live log1 = ((bad2, live2, gone2), log2)" by (metis prod_cases3 surj_pair)
  obtain bad3 live3 gone3 log3 where round2: "read_round h server live2 log2 = ((bad3, live3, gone3), log3)" by (metis prod_cases3 surj_pair)
  have r2: "runs d log log2 d" by (rule runs_trans[OF r1 runs_read_round[OF round1]])
  have r3: "runs d log log3 d" by (rule runs_trans[OF r2 runs_read_round[OF round2]])
  consider log0 cause e where "runs d log log0 d" "rollback h server live cause log0 = (e, log')"
    | rec1 ok where "store_Save h rec1 log3 = (ok, log')"
    using assms(1) r1 r2 r3 by (auto simp: freeze_seats_def stop round1 round2 Let_def split: option.splits prod.splits)
  then show ?thesis
    by cases (meson undo runs_trans, metis r3 runs_store_Save runs_trans)
qed

text \<open>A re-walk ends in a rollback, with at most the server stopped, or in the stop of the seats with the record
  on disk naming every one of them.\<close>

lemma freeze_fresh_cases:
  assumes "freeze_fresh h rec server seats gone log = (r, log')"
  obtains (undone) log1 cause e rec1 gone1 rec2 where "rollback h server [] cause log1 = (e, log')" "r = (rec1, gone_only gone1, Some e)"
      "runs (Some rec) log log1 (Some rec2)" "su_Server rec2 = su_Server rec" "quiet log log1"
  | (stopping) log1 rec1 added new gone1 fresh where "freeze_seats h rec1 server (seats @ added) gone1 log1 = (r, log')"
      "rec1 = rec\<lparr>su_Seats := su_Seats rec @ new\<rparr>" "list_all2 proved added new" "set gone \<subseteq> set gone1"
      "runs (Some rec) log log1 (Some rec1)" "quiet log log1" "ho_rewalk h (length log) rec = Some fresh" "set new \<subseteq> set fresh"
proof -
  define walked where "walked = ho_rewalk h (length log) rec"
  define log1 where "log1 = log @ [Own (Rewalked walked)]"
  have r1: "runs (Some rec) log log1 (Some rec)"
    using runs_Own[of "Some rec" log "Rewalked walked"] by (simp add: log1_def on_disk_def)
  show thesis
  proof (cases walked)
    case None
    then show thesis
      using assms r1 by (auto simp: freeze_fresh_def Let_def walked_def[symmetric] log1_def quiet_Own split: prod.splits intro!: undone)
  next
    case (Some fresh)
    obtain ok added new gone1 log2 where pf: "prove_fresh h fresh log1 = ((ok, added, new, gone1), log2)" by (metis prod_cases3 surj_pair)
    define rec1 where "rec1 = rec\<lparr>su_Seats := su_Seats rec @ new\<rparr>"
    obtain k log3 where sv: "store_Save h rec1 log2 = (k, log3)" by (metis surj_pair)
    have r2: "runs (Some rec) log log2 (Some rec)" by (rule runs_trans[OF r1 runs_prove_fresh[OF pf]])
    obtain rec2 where r3: "runs (Some rec) log log3 (Some rec2)" "su_Server rec2 = su_Server rec" "k \<Longrightarrow> rec2 = rec1"
    proof -
      obtain d' where d': "runs (Some rec) log2 log3 d'" "d' = Some rec1 \<or> \<not> k \<and> d' = Some rec" using sv by (rule runs_store_Save)
      from runs_trans[OF r2 d'(1)] d'(2) that show thesis by (auto simp: rec1_def)
    qed
    have s1: "quiet log log1" by (simp add: log1_def quiet_Own)
    have s2: "quiet log log2" by (rule quiet_trans[OF s1 quiet_prove_fresh[OF pf]])
    have s3: "quiet log log3" by (rule quiet_trans[OF s2 quiet_store_Save[OF sv]])
    have eq: "freeze_fresh h rec server seats gone log =
      (if \<not> ok then (case rollback h server [] ErrRewalk log2 of (e, log3) \<Rightarrow> ((rec1, gone_only (gone @ gone1), Some e), log3))
       else if new = [] then freeze_seats h rec1 server (seats @ added) (gone @ gone1) log2
       else if k then freeze_seats h rec1 server (seats @ added) (gone @ gone1) log3
       else (case rollback h server [] ErrSaveRewalked log3 of (e, log4) \<Rightarrow> ((rec1, gone_only (gone @ gone1), Some e), log4)))"
      using pf sv Some by (simp add: freeze_fresh_def Let_def walked_def[symmetric] log1_def rec1_def)
    show thesis
    proof (cases "ok \<and> (new = [] \<or> k)")
      case False
      then show thesis using assms r2 r3 s2 s3 unfolding eq by (auto split: if_splits prod.splits intro: undone)
    next
      case True
      define log0 where "log0 = (if new = [] then log2 else log3)"
      have f: "freeze_seats h rec1 server (seats @ added) (gone @ gone1) log0 = (r, log')"
        using assms True unfolding eq by (auto simp: log0_def)
      have r0: "runs (Some rec) log log0 (Some rec1)" using r2 r3(1) r3(3) True by (cases "new = []") (auto simp: log0_def rec1_def)
      have s0: "quiet log log0" using s2 s3 by (simp add: log0_def)
      have w: "ho_rewalk h (length log) rec = Some fresh" using Some by (simp add: walked_def)
      show thesis by (rule stopping[OF f rec1_def prove_fresh_kept[OF pf] _ r0 s0 w prove_fresh_sub[OF pf]]) simp
    qed
  qed
qed

lemma runs_freeze_fresh:
  assumes "freeze_fresh h rec server seats gone log = (r, log')"
    and server: "proved server (su_Server rec)" and seats: "list_all2 proved seats (su_Seats rec)"
  shows "\<exists>d'. runs (Some rec) log log' d'"
  using assms(1)
proof (cases rule: freeze_fresh_cases)
  case (undone log1 cause e rec1 gone1 rec2)
  have "named (Some rec2) server" using server undone(4) by (simp add: named_def recorded_def proved_def procs_def)
  from runs_rollback[OF undone(1) this] undone(3) show ?thesis by (auto intro: runs_trans)
next
  case (stopping log1 rec1 added new)
  have "named (Some rec1) server" using server stopping(2) by (simp add: named_def recorded_def proved_def procs_def)
  moreover have all: "list_all2 proved (seats @ added) (su_Seats rec1)" using seats stopping(2,3) by (auto intro: list_all2_appendI)
  have "\<forall>c\<in>set (seats @ added). named (Some rec1) c" using proved_named[OF all, of rec1] by (auto simp: procs_def)
  ultimately show ?thesis using runs_freeze_seats[OF stopping(1)] stopping(5) by (meson runs_trans)
qed

lemma runs_freeze_server:
  assumes "freeze_server h rewalk rec server seats gone log = (r, log')"
    and server: "proved server (su_Server rec)" and seats: "list_all2 proved seats (su_Seats rec)"
  shows "\<exists>d'. runs (Some rec) log log' d'"
proof -
  have n: "named (Some rec) server" "\<forall>c\<in>set seats. named (Some rec) c"
    using proved_named[OF seats, of rec] server by (auto simp: procs_def named_def recorded_def proved_def)
  obtain e log1 where sig: "SignalChild h server SIGSTOP False log = (e, log1)" by (metis surj_pair)
  have r1: "runs (Some rec) log log1 (Some rec)" by (rule runs_SignalChild[OF sig n(1)])
  consider cause er where "rollback h server [] cause log1 = (er, log')"
    | "freeze_fresh h rec server seats gone log1 = (r, log')" | "freeze_seats h rec server seats gone log1 = (r, log')"
    using assms(1) by (auto simp: freeze_server_def sig split: option.splits prod.splits if_splits)
  then have "\<exists>d'. runs (Some rec) log1 log' d'"
  proof cases
    case 1
    then show ?thesis by (rule runs_rollback[OF _ n(1)]) simp
  qed (use runs_freeze_fresh[OF _ server seats] runs_freeze_seats[OF _ n] in blast)+
  then show ?thesis using r1 by (auto intro: runs_trans)
qed

text \<open>Up to the first save nothing is signalled.\<close>

lemma FreezeWith_cases:
  assumes "FreezeWith h rewalk rec log = ((rec', res, e), log')"
  obtains (refused) "log' = log" "e = Some ErrSuspendState \<or> e = Some ErrPid"
  | (unproved) er where "Prove h (px_Pid (su_Server rec)) (px_Identity (su_Server rec)) log = (Inl er, log')" "e = Some (ErrServerNotRecorded er)"
  | (proved) server log1 seats kept gone log2 log3 ok rec1 where
      "Prove h (px_Pid (su_Server rec)) (px_Identity (su_Server rec)) log = (Inr server, log1)"
      "prove_all h (su_Seats rec) log1 = ((seats, kept, gone), log2)"
      "rec1 = rec\<lparr>su_Seats := kept, su_State := StateSuspending\<rparr>" "store_Save h rec1 log2 = (ok, log3)"
      "proved server (su_Server rec1)" "list_all2 proved seats (su_Seats rec1)" "set kept \<subseteq> set (su_Seats rec)"
      "ok \<Longrightarrow> freeze_server h rewalk rec1 server seats gone log3 = ((rec', res, e), log')"
      "\<not> ok \<Longrightarrow> log' = log3 \<and> e = Some ErrSaveSuspending"
proof (cases "su_State rec \<noteq> StateNew \<or> \<not> checkPids rec")
  case True
  with assms refused show thesis by (auto simp: FreezeWith_def split: if_splits)
next
  case ok: False
  obtain p log1 where p: "Prove h (px_Pid (su_Server rec)) (px_Identity (su_Server rec)) log = (p, log1)" by (metis surj_pair)
  show thesis
  proof (cases p)
    case (Inl er)
    with assms p ok unproved show thesis by (auto simp: FreezeWith_def)
  next
    case (Inr server)
    obtain seats kept gone log2 where ps: "prove_all h (su_Seats rec) log1 = ((seats, kept, gone), log2)" by (metis prod_cases3 surj_pair)
    define rec1 where "rec1 = rec\<lparr>su_Seats := kept, su_State := StateSuspending\<rparr>"
    obtain k log3 where sv: "store_Save h rec1 log2 = (k, log3)" by (metis surj_pair)
    show thesis
    proof (rule proved[OF p[unfolded Inr] ps rec1_def sv])
      show "proved server (su_Server rec1)" using Prove_proved[OF p[unfolded Inr]] by (simp add: rec1_def)
      show "list_all2 proved seats (su_Seats rec1)" "set kept \<subseteq> set (su_Seats rec)" using prove_all_kept[OF ps] by (auto simp: rec1_def)
      show "freeze_server h rewalk rec1 server seats gone log3 = ((rec', res, e), log')" if k
        using assms ok p Inr ps sv that by (simp add: FreezeWith_def Let_def rec1_def[symmetric])
      show "log' = log3 \<and> e = Some ErrSaveSuspending" if "\<not> k"
        using assms ok p Inr ps sv that by (simp add: FreezeWith_def Let_def rec1_def[symmetric])
    qed
  qed
qed

lemma runs_FreezeWith:
  assumes "FreezeWith h rewalk rec log = ((rec', res, e), log')"
  shows "\<exists>d'. runs d log log' d'"
  using assms
proof (cases rule: FreezeWith_cases)
  case (proved server log1 seats kept gone log2 log3 ok rec1)
  obtain d' where d': "runs d log2 log3 d'" "d' = Some rec1 \<or> \<not> ok \<and> d' = d" using proved(4) by (rule runs_store_Save)
  have r: "runs d log log3 d'"
    by (rule runs_trans[OF runs_trans[OF runs_Prove[OF proved(1)] runs_prove_all[OF proved(2)]] d'(1)])
  show ?thesis
  proof (cases ok)
    case True
    with r d'(2) runs_freeze_server[OF proved(8)[OF True] proved(5,6)] show ?thesis by (auto intro: runs_trans)
  qed (use r proved(9) in auto)
qed (auto intro: runs_Prove exI[of _ d])

section \<open>A thaw\<close>

lemma runs_resume_seats:
  "resume_seats h ss log = (rs, log') \<Longrightarrow> set ss \<subseteq> set (procs rec) \<Longrightarrow> runs (Some rec) log log' (Some rec)"
proof (induction h ss log arbitrary: rs log' rule: resume_seats.induct)
  case (2 h s ss log)
  have "runs (Some rec) log log1 (Some rec)" if "resume_seat h s log = (r, log1)" for r log1
    using that "2.prems"(2) unfolding resume_seat_def
    by (auto split: prod.splits sum.splits option.splits ProofError.splits
        intro: runs_Prove runs_trans[OF runs_Prove runs_SignalChild[OF _ named_Prove]])
  with 2 show ?case by (fastforce intro: runs_trans split: prod.splits)
qed simp

lemma runs_resume_server:
  "resume_server h s log = (r, log') \<Longrightarrow> s \<in> set (procs rec) \<Longrightarrow> runs (Some rec) log log' (Some rec)"
  unfolding resume_server_def
  by (auto split: prod.splits sum.splits option.splits
      intro: runs_Prove runs_trans[OF runs_Prove runs_SignalChild[OF _ named_Prove]])

lemma runs_read_still: "read_still h cs log = (still, log') \<Longrightarrow> runs d log log' d"
proof (induction h cs log arbitrary: still log' rule: read_still.induct)
  case (2 h c cs log)
  then show ?case by (fastforce intro: runs_trans runs_read_stopped split: prod.splits)
qed simp

text \<open>A thaw is refused, or fails to save, or resumes every recorded process in turn and then ends.\<close>

lemma ThawWith_cases:
  assumes "ThawWith h hook rec log = ((res, e), log')"
  obtains (refused) "log' = log" "e = Some ErrSuspendState \<or> e = Some ErrPid" "res = gone_only []"
  | (unsaved) "store_Save h (rec\<lparr>su_State := StateResuming\<rparr>) log = (False, log')" "e = Some ErrSaveResuming" "res = gone_only []"
  | (resumed) log1 rs log2 r log3 still log4 all where
      "store_Save h (rec\<lparr>su_State := StateResuming\<rparr>) log = (True, log1)"
      "resume_seats h (su_Seats rec) log1 = (rs, log2)" "resume_server h (su_Server rec) log2 = (r, log3)"
      "all = rs @ [(su_Server rec, r)]" "read_still h (resumed_children all) log3 = (still, log4)"
      "thaw_end h hook (rec\<lparr>su_State := StateResuming\<rparr>) (failures all) (thaw_result all still) log4 = ((res, e), log')"
proof (cases "su_State rec \<notin> {StateSuspended, StateSuspending, StateResuming} \<or> \<not> checkPids rec")
  case True
  with assms refused show thesis by (auto simp: ThawWith_def split: if_splits)
next
  case ok: False
  obtain k log1 where sv: "store_Save h (rec\<lparr>su_State := StateResuming\<rparr>) log = (k, log1)" by (metis surj_pair)
  obtain rs log2 where rs: "resume_seats h (su_Seats rec) log1 = (rs, log2)" by (metis surj_pair)
  obtain r log3 where r: "resume_server h (su_Server rec) log2 = (r, log3)" by (metis surj_pair)
  define all where "all = rs @ [(su_Server rec, r)]"
  obtain still log4 where st: "read_still h (resumed_children all) log3 = (still, log4)" by (metis surj_pair)
  show thesis
  proof (cases k)
    case False
    with assms ok sv show thesis by (auto simp: ThawWith_def Let_def intro: unsaved)
  next
    case True
    with assms ok sv rs r st show thesis
      by (intro resumed[OF sv[unfolded True[THEN eqTrueI]] rs r all_def st]) (auto simp: ThawWith_def Let_def all_def)
  qed
qed

lemma thaw_end_cases:
  assumes "thaw_end h hook rec failed res0 log = ((res, e), log')"
  obtains (failed) "failed \<noteq> []" "e = Some (ErrResume failed)" "log' = log" "res = res0"
  | (hooked) "failed = []" "e = Some ErrHook" "log' = log @ [Own (Hook False)]" "res = res0"
  | (cleared) x mid where "failed = []" "e = (if x = Stored then None else Some ErrClear)" "log' = log @ mid @ [Own (Clear x)]"
      "set mid \<subseteq> {Own (Hook True)}" "res = res0"
proof (cases hook)
  case True
  then show thesis
    using assms failed hooked cleared[of "ho_clear h (Suc (length log))" "[Own (Hook True)]"]
    by (cases "ho_hook h (length log) rec") (auto simp: thaw_end_def store_Clear_def Let_def split: if_splits)
next
  case False
  with assms failed cleared[of "ho_clear h (length log)" "[]"] show thesis by (auto simp: thaw_end_def store_Clear_def Let_def split: if_splits)
qed

lemma runs_Owns: "set mid \<subseteq> range (Own \<circ> Hook) \<Longrightarrow> runs d log (log @ mid) d"
proof (induction mid arbitrary: log)
  case (Cons a mid)
  then obtain b where a: "a = Own (Hook b)" by auto
  from runs_Own[of d log "Hook b"] have "runs d log (log @ [a]) d" by (simp add: a on_disk_def)
  with Cons.IH[of "log @ [a]"] Cons.prems show ?case using runs_trans by fastforce
qed simp

lemma runs_thaw_end:
  assumes "thaw_end h hook rec failed res0 log = ((res, e), log')"
  obtains d' where "runs d log log' d'" "e = None \<Longrightarrow> d' = None" "d' = d \<or> d' = None \<and> e \<in> {None, Some ErrClear}"
  using assms
proof (cases rule: thaw_end_cases)
  case (cleared x mid)
  have "runs d log (log @ mid) d" using cleared(4) by (intro runs_Owns) auto
  from runs_trans[OF this runs_Own[of d "log @ mid" "Clear x"]] cleared(2,3) that[of "on_disk d (Clear x)"] show thesis
    by (cases x) (auto simp: on_disk_def)
qed (use runs_Own[of d log "Hook False"] that[of d] in \<open>auto simp: on_disk_def\<close>)

text \<open>The record on disk reads resuming from the save on, and goes only when nothing but the clear is left.\<close>

lemma runs_ThawWith:
  assumes "ThawWith h hook rec log = ((res, e), log')"
  obtains d' where "runs d log log' d'" "e = None \<Longrightarrow> d' = None"
    "d' \<in> {d, Some (rec\<lparr>su_State := StateResuming\<rparr>)} \<or> d' = None \<and> e \<in> {None, Some ErrClear}"
  using assms
proof (cases rule: ThawWith_cases)
  case refused
  then show thesis using that[of d] by auto
next
  case unsaved
  from unsaved(1) obtain d' where "runs d log log' d'" "d' = Some (rec\<lparr>su_State := StateResuming\<rparr>) \<or> \<not> False \<and> d' = d" by (rule runs_store_Save)
  with that[of d'] unsaved(2) show thesis by auto
next
  case (resumed log1 rs log2 r log3 still log4 all)
  let ?d = "Some (rec\<lparr>su_State := StateResuming\<rparr>)"
  from resumed(1) have "runs d log log1 ?d" by (rule runs_saved)
  also have "runs ?d log1 log2 ?d" using resumed(2) by (rule runs_resume_seats) (auto simp: procs_def)
  also have "runs ?d log2 log3 ?d" using resumed(3) by (rule runs_resume_server) (auto simp: procs_def)
  also have "runs ?d log3 log4 ?d" using resumed(5) by (rule runs_read_still)
  finally have r: "runs d log log4 ?d" .
  from resumed(6) obtain d' where "runs ?d log4 log' d'" "e = None \<Longrightarrow> d' = None" "d' = ?d \<or> d' = None \<and> e \<in> {None, Some ErrClear}"
    by (rule runs_thaw_end[where d = ?d]) auto
  with runs_trans[OF r] that show thesis by blast
qed

section \<open>What was stopped and resumed\<close>

text \<open>A signal was delivered, and how often a pid read stopped.\<close>

definition sent :: "Signal \<Rightarrow> slog \<Rightarrow> int \<Rightarrow> bool" where
  "sent sig log pid \<longleftrightarrow> Kill pid sig KillOk \<in> set log"

definition stop_reads :: "slog \<Rightarrow> int \<Rightarrow> nat" where
  "stop_reads log pid = length (filter (\<lambda>a. a = Own (StopRead pid (Some True))) log)"

lemma sent_append [simp]: "sent sig (log @ seg) pid \<longleftrightarrow> sent sig log pid \<or> sent sig seg pid"
  by (auto simp: sent_def)

lemma sent_Nil [simp]: "\<not> sent sig [] pid"
  by (simp add: sent_def)

lemma sent_Cons [simp]: "sent sig (a # log) pid \<longleftrightarrow> a = Kill pid sig KillOk \<or> sent sig log pid"
  by (auto simp: sent_def)

lemma quiet_sent: "quiet log log' \<Longrightarrow> sent sig log' = sent sig log"
  by (fastforce simp: quiet_def sent_def)

lemma quiet_stop_reads: "quiet log log' \<Longrightarrow> stop_reads log pid \<le> stop_reads log' pid"
  by (auto simp: quiet_def stop_reads_def)

lemma isStopped_reads: "isStopped h c log = (True, log') \<Longrightarrow> stop_reads log' (ch_pid c) = Suc (stop_reads log (ch_pid c))"
  by (auto simp: isStopped_def read_stopped_def stop_reads_def Let_def)

lemma SignalChild_sent:
  assumes "SignalChild h c sig False log = (r, log')"
  shows "\<exists>seg. log' = log @ seg \<and> (\<forall>s pid. sent s seg pid \<longleftrightarrow> r = None \<and> s = sig \<and> pid = ch_pid c)"
  using assms by (cases rule: SignalChild_log) (auto simp: exI[of _ "[]"])

lemma stop_all_sent:
  "stop_all h cs log = ((bad, live, gone), log') \<Longrightarrow>
   sent sig log' pid \<longleftrightarrow> sent sig log pid \<or> sig = SIGSTOP \<and> pid \<in> ch_pid ` set live"
proof (induction h cs log arbitrary: bad live gone log' rule: stop_all.induct)
  case (2 h c cs log)
  obtain r log1 where sg: "SignalChild h c SIGSTOP False log = (r, log1)" by (metis surj_pair)
  obtain bad1 live1 gone1 log2 where rec: "stop_all h cs log1 = ((bad1, live1, gone1), log2)" by (metis prod_cases3 surj_pair)
  have s1: "sent sig log1 pid \<longleftrightarrow> sent sig log pid \<or> r = None \<and> sig = SIGSTOP \<and> pid = ch_pid c"
    using SignalChild_sent[OF sg] by auto
  consider "r = None" | m where "r = Some (MismatchError m)" | "bad = Some (ch_pid c)" "live = []" "log' = log1" "r \<noteq> None"
    using "2.prems" sg by (auto split: option.splits ProofError.splits)
  then show ?case
    using "2.prems" "2.IH"(1)[OF sg[symmetric] _ rec] "2.IH"(2)[OF sg[symmetric] _ _ rec] s1 sg rec by cases auto
qed simp

lemma resume_all_sent:
  "resume_all h cs log = (failed, log') \<Longrightarrow>
   \<exists>seg. log' = log @ seg \<and> (\<forall>pid. \<not> sent SIGSTOP seg pid) \<and> (\<forall>c\<in>set cs. sent SIGCONT seg (ch_pid c) \<or> ch_pid c \<in> set failed)"
proof (induction h cs log arbitrary: failed log' rule: resume_all.induct)
  case (2 h c cs log)
  obtain r log1 where sg: "SignalChild h c SIGCONT False log = (r, log1)" by (metis surj_pair)
  obtain failed1 where rec: "resume_all h cs log1 = (failed1, log')" and f: "failed = (if r = None then failed1 else ch_pid c # failed1)"
    using "2.prems" sg by (auto split: prod.splits)
  obtain seg where s1: "log1 = log @ seg" "\<forall>s pid. sent s seg pid \<longleftrightarrow> r = None \<and> s = SIGCONT \<and> pid = ch_pid c"
    using SignalChild_sent[OF sg] by auto
  obtain seg2 where s2: "log' = log1 @ seg2" "\<forall>pid. \<not> sent SIGSTOP seg2 pid" "\<forall>c\<in>set cs. sent SIGCONT seg2 (ch_pid c) \<or> ch_pid c \<in> set failed1"
    using "2.IH"[OF sg[symmetric] rec] by auto
  show ?case by (rule exI[of _ "seg @ seg2"]) (use s1 s2 f in auto)
qed simp

text \<open>A rollback resumes whatever was stopped, or names it.\<close>

definition undone :: "int list \<Rightarrow> bool \<Rightarrow> slog \<Rightarrow> bool" where
  "undone failed ok log \<longleftrightarrow> (\<exists>work undo. (\<exists>x. log = work @ undo @ [Own (Clear x)] \<and> (x = Stored \<longleftrightarrow> ok)) \<and> (\<forall>pid. \<not> sent SIGSTOP undo pid) \<and>
     (\<forall>pid. sent SIGSTOP work pid \<longrightarrow> sent SIGCONT undo pid \<or> pid \<in> set failed))"

lemma rollback_undone:
  assumes "rollback h server seats cause log = (e, log')" and "\<forall>pid. sent SIGSTOP log pid \<longrightarrow> pid \<in> ch_pid ` set (server # seats)"
  obtains failed ok where "e = RolledBack cause failed ok" "undone failed ok log'"
proof -
  obtain failed log1 ok where *: "resume_all h (seats @ [server]) log = (failed, log1)" "store_Clear h log1 = (ok, log')" "e = RolledBack cause failed ok"
    using assms(1) by (auto simp: rollback_def split: prod.splits)
  obtain seg where seg: "log1 = log @ seg" "\<forall>pid. \<not> sent SIGSTOP seg pid" "\<forall>c\<in>set (seats @ [server]). sent SIGCONT seg (ch_pid c) \<or> ch_pid c \<in> set failed"
    using resume_all_sent[OF *(1)] by auto
  have "\<exists>x. log' = log @ seg @ [Own (Clear x)] \<and> (x = Stored \<longleftrightarrow> ok)" using *(2) seg(1) by (auto simp: store_Clear_def Let_def)
  then have "undone failed ok log'" unfolding undone_def
    using seg(2,3) assms(2) by (intro exI[of _ log] exI[of _ seg]) auto
  then show thesis using that *(3) by blast
qed

text \<open>Every seat that reads stopped is read once more; one that does not is gone.\<close>

lemma read_seats_reads:
  "read_seats h cs log = ((None, still, gone), log') \<Longrightarrow>
   (\<forall>c\<in>set still. stop_reads log (ch_pid c) < stop_reads log' (ch_pid c)) \<and> ch_pid ` set cs \<subseteq> ch_pid ` set still \<union> set gone"
proof (induction h cs log arbitrary: still gone log' rule: read_seats.induct)
  case (2 h c cs log)
  obtain b log1 where sm: "Same h c log = (b, log1)" by (metis surj_pair)
  have q1: "stop_reads log p \<le> stop_reads log1 p" for p by (rule quiet_stop_reads[OF quiet_Same[OF sm]])
  show ?case
  proof (cases b)
    case False
    with "2.prems" sm obtain gone1 where "read_seats h cs log1 = ((None, still, gone1), log')" "gone = ch_pid c # gone1"
      by (auto split: prod.splits)
    with "2.IH"(2)[OF sm[symmetric]] False q1 show ?thesis by (auto dest: order.strict_trans1[OF q1])
  next
    case True
    with "2.prems" sm obtain log2 still1 where *: "isStopped h c log1 = (True, log2)" "read_seats h cs log2 = ((None, still1, gone), log')" "still = c # still1"
      by (auto split: prod.splits bool.splits)
    have q2: "stop_reads log p \<le> stop_reads log2 p" for p
      by (rule order.trans[OF q1 quiet_stop_reads[OF quiet_isStopped[OF *(1)]]])
    have q3: "stop_reads log2 p \<le> stop_reads log' p" for p by (rule quiet_stop_reads[OF quiet_read_seats[OF *(2)]])
    have "stop_reads log (ch_pid c) < stop_reads log' (ch_pid c)"
      using isStopped_reads[OF *(1)] q1[of "ch_pid c"] q3[of "ch_pid c"] by linarith
    moreover have "(\<forall>c\<in>set still1. stop_reads log2 (ch_pid c) < stop_reads log' (ch_pid c)) \<and> ch_pid ` set cs \<subseteq> ch_pid ` set still1 \<union> set gone"
      using "2.IH"(1)[OF sm[symmetric]] True *(1,2) by simp
    ultimately show ?thesis using *(3) by (auto dest: order.strict_trans1[OF q2])
  qed
qed simp

lemma read_round_reads:
  assumes "read_round h server cs log = ((None, still, gone), log')"
  shows "\<forall>c\<in>set (server # still). stop_reads log (ch_pid c) < stop_reads log' (ch_pid c)"
    and "ch_pid ` set cs \<subseteq> ch_pid ` set still \<union> set gone" and "set still \<subseteq> set cs"
proof -
  obtain log1 log2 where *: "Same h server log = (True, log1)" "isStopped h server log1 = (True, log2)" "read_seats h cs log2 = ((None, still, gone), log')"
    using assms by (auto simp: read_round_def split: prod.splits bool.splits)
  have q: "stop_reads log p \<le> stop_reads log2 p" "stop_reads log p \<le> stop_reads log1 p" "stop_reads log2 p \<le> stop_reads log' p" for p
    using quiet_stop_reads[OF quiet_Same[OF *(1)], of p] quiet_stop_reads[OF quiet_isStopped[OF *(2)], of p]
      quiet_stop_reads[OF quiet_read_seats[OF *(3)], of p] by auto
  have "stop_reads log (ch_pid server) < stop_reads log' (ch_pid server)"
    using isStopped_reads[OF *(2)] q[of "ch_pid server"] by linarith
  then show "\<forall>c\<in>set (server # still). stop_reads log (ch_pid c) < stop_reads log' (ch_pid c)"
    using read_seats_reads[OF *(3)] by (auto dest: order.strict_trans1[OF q(1)])
  show "ch_pid ` set cs \<subseteq> ch_pid ` set still \<union> set gone" "set still \<subseteq> set cs"
    using read_seats_reads[OF *(3)] read_seats_still[OF *(3)] by auto
qed

section \<open>All or nothing\<close>

definition pids :: "SuspendRecord \<Rightarrow> int set" where
  "pids rec = px_Pid ` set (procs rec)"

text \<open>Everything in the record was stopped and read stopped twice, nothing was resumed, and what was stopped
  beside it has gone.\<close>

definition frozen :: "SuspendRecord \<Rightarrow> SuspendResult \<Rightarrow> slog \<Rightarrow> bool" where
  "frozen rec res log \<longleftrightarrow> su_State rec = StateSuspended \<and> (\<forall>pid. \<not> sent SIGCONT log pid) \<and>
     (\<forall>pid\<in>pids rec. sent SIGSTOP log pid \<and> 2 \<le> stop_reads log pid) \<and>
     (\<forall>pid. sent SIGSTOP log pid \<longrightarrow> pid \<in> pids rec \<or> pid \<in> set (sx_Gone res))"

definition outcome :: "int set \<Rightarrow> SuspendRecord \<Rightarrow> SuspendResult \<Rightarrow> SuspendError option \<Rightarrow> slog \<Rightarrow> bool" where
  "outcome known rec res e log \<longleftrightarrow>
     (case e of
        None \<Rightarrow> frozen rec res log \<and> known \<subseteq> pids rec \<union> set (sx_Gone res) \<and> last log = Own (Save rec Stored)
      | Some ErrSaveSuspended \<Rightarrow> frozen rec res log \<and> known \<subseteq> pids rec \<union> set (sx_Gone res) \<and> last log \<in> {Own (Save rec StoredErr), Own (Save rec NotStored)}
      | Some (RolledBack _ failed ok) \<Rightarrow> undone failed ok log
      | Some _ \<Rightarrow> \<forall>sig pid. \<not> sent sig log pid)"

lemma stop_all_gone: "stop_all h cs log = ((None, live, gone), log') \<Longrightarrow> ch_pid ` set cs \<subseteq> ch_pid ` set live \<union> set gone"
proof (induction h cs log arbitrary: live gone log' rule: stop_all.induct)
  case (2 h c cs log)
  then show ?case by (fastforce split: prod.splits option.splits ProofError.splits)
qed simp

lemma prove_all_gone: "prove_all h ss log = ((cs, kept, gone), log') \<Longrightarrow> px_Pid ` set ss \<subseteq> px_Pid ` set kept \<union> set gone"
proof (induction h ss log arbitrary: cs kept gone log' rule: prove_all.induct)
  case (2 h s ss log)
  then show ?case by (fastforce split: prod.splits sum.splits)
qed simp

lemma proved_pids: "list_all2 proved cs ps \<Longrightarrow> ch_pid ` set cs = px_Pid ` set ps"
  by (induction rule: list_all2_induct) (auto simp: proved_def)

lemma keepOnly_pids: "px_Pid ` set (keepOnly ps cs) = px_Pid ` set ps \<inter> ch_pid ` set cs"
  by (auto simp: keepOnly_def)

lemma rollback_outcome:
  assumes "rollback h server seats cause log = (er, log')" and "\<forall>pid. sent SIGSTOP log pid \<longrightarrow> pid \<in> ch_pid ` set (server # seats)"
  shows "outcome known rec res (Some er) log'"
  using assms by (auto elim!: rollback_undone simp: outcome_def)

text \<open>The stop of the seats: the server is all that was stopped before it.\<close>

lemma freeze_seats_outcome:
  assumes "freeze_seats h rec server seats gone log = ((rec', res, e), log')"
    and server: "proved server (su_Server rec)" and seats: "list_all2 proved seats (su_Seats rec)"
    and before: "\<forall>pid. sent SIGSTOP log pid \<longleftrightarrow> pid = ch_pid server" "\<forall>pid. \<not> sent SIGCONT log pid"
  shows "outcome (pids rec \<union> set gone) rec' res e log'"
proof -
  obtain bad live gone1 log1 where stop: "stop_all h seats log = ((bad, live, gone1), log1)" by (metis prod_cases3 surj_pair)
  obtain bad2 live2 gone2 log2 where round1: "read_round h server live log1 = ((bad2, live2, gone2), log2)" by (metis prod_cases3 surj_pair)
  obtain bad3 live3 gone3 log3 where round2: "read_round h server live2 log2 = ((bad3, live3, gone3), log3)" by (metis prod_cases3 surj_pair)
  have s1: "sent sig log1 pid \<longleftrightarrow> sent sig log pid \<or> sig = SIGSTOP \<and> pid \<in> ch_pid ` set live" for sig pid by (rule stop_all_sent[OF stop])
  have eqs: "sent sig log2 = sent sig log1" "sent sig log3 = sent sig log1" for sig
    using quiet_sent[OF quiet_read_round[OF round1]] quiet_sent[OF quiet_read_round[OF round2]] by auto
  have s2: "sent sig log2 pid \<longleftrightarrow> sig = SIGSTOP \<and> pid \<in> ch_pid ` set (server # live) \<or> sig = SIG0 \<and> sent sig log pid"
    and s3: "sent sig log3 pid \<longleftrightarrow> sig = SIGSTOP \<and> pid \<in> ch_pid ` set (server # live) \<or> sig = SIG0 \<and> sent sig log pid" for sig pid
    using s1[of sig pid] before eqs by (cases sig; auto)+
  consider (rolled) log0 cause er where "rollback h server live cause log0 = (er, log')" "e = Some er" "log0 \<in> {log1, log2, log3}"
    | (kept) rec1 ok where "bad = None" "bad2 = None" "bad3 = None" "rec1 = rec\<lparr>su_Seats := keepOnly (su_Seats rec) live3, su_State := StateSuspended\<rparr>"
        "store_Save h rec1 log3 = (ok, log')" "rec' = rec1" "res = gone_only (gone @ gone1 @ gone2 @ gone3)" "e = (if ok then None else Some ErrSaveSuspended)"
    using assms(1) by (auto simp: freeze_seats_def stop round1 round2 Let_def split: option.splits prod.splits)
  then show ?thesis
  proof cases
    case rolled
    have "\<forall>pid. sent SIGSTOP log0 pid \<longrightarrow> pid \<in> ch_pid ` set (server # live)" using rolled(3) s1 s2 s3 before by auto
    from rollback_outcome[OF rolled(1) this] rolled(2) show ?thesis by simp
  next
    case kept
    note r1 = read_round_reads[OF round1[unfolded kept(2)]] and r2 = read_round_reads[OF round2[unfolded kept(3)]]
    obtain x where log': "log' = log3 @ [Own (Save rec1 x)]" "x = Stored \<longleftrightarrow> ok" using kept(5) by (auto simp: store_Save_def Let_def)
    have sp: "ch_pid server = px_Pid (su_Server rec)" using server by (simp add: proved_def)
    have sub: "ch_pid ` set live3 \<subseteq> px_Pid ` set (su_Seats rec)"
      using r1(3) r2(3) stop_all_live[OF stop] proved_pids[OF seats] by (metis image_mono order.trans)
    have p: "pids rec1 = ch_pid ` set (server # live3)"
      using Int_absorb1[OF sub] by (simp add: pids_def procs_def kept(4) keepOnly_pids sp)
    have reads: "2 \<le> stop_reads log' pid" if "pid \<in> pids rec1" for pid
    proof -
      from that obtain c where c: "c \<in> set (server # live3)" "pid = ch_pid c" unfolding p by blast
      with r1(1) r2(1,3) have "stop_reads log1 pid < stop_reads log2 pid" "stop_reads log2 pid < stop_reads log3 pid" by auto
      then show ?thesis by (simp add: log'(1) stop_reads_def)
    qed
    have live: "ch_pid ` set live \<subseteq> ch_pid ` set live3 \<union> set (sx_Gone res)" using r1(2) r2(2) by (auto simp: kept(7) gone_only_def)
    have "frozen rec1 res log'"
      using reads r1(3) r2(3) live p s3 by (auto simp: frozen_def log'(1) kept(4))
    moreover have "pids rec \<union> set gone \<subseteq> pids rec1 \<union> set (sx_Gone res)"
    proof -
      have "px_Pid ` set (su_Seats rec) \<subseteq> ch_pid ` set live \<union> set (sx_Gone res)"
        using stop_all_gone[OF stop[unfolded kept(1)]] proved_pids[OF seats] by (auto simp: kept(7) gone_only_def)
      with live have "px_Pid ` set (su_Seats rec) \<subseteq> ch_pid ` set live3 \<union> set (sx_Gone res)" by blast
      then show ?thesis unfolding p by (auto simp: pids_def procs_def sp kept(7) gone_only_def)
    qed
    ultimately show ?thesis using kept(6,8) log' by (cases x) (auto simp: outcome_def)
  qed
qed

lemma freeze_outcome_mono: "outcome known rec res e log \<Longrightarrow> known' \<subseteq> known \<Longrightarrow> outcome known' rec res e log"
  by (auto simp: outcome_def split: option.splits SuspendError.splits)

lemma freeze_fresh_outcome:
  assumes "freeze_fresh h rec server seats gone log = ((rec', res, e), log')"
    and server: "proved server (su_Server rec)" and seats: "list_all2 proved seats (su_Seats rec)"
    and before: "\<forall>pid. sent SIGSTOP log pid \<longleftrightarrow> pid = ch_pid server" "\<forall>pid. \<not> sent SIGCONT log pid"
  shows "outcome (pids rec \<union> set gone) rec' res e log'"
  using assms(1)
proof (cases rule: freeze_fresh_cases)
  case (undone log1 cause er)
  have "\<forall>pid. sent SIGSTOP log1 pid \<longrightarrow> pid \<in> ch_pid ` set (server # [])" using before quiet_sent[OF undone(5)] by simp
  from rollback_outcome[OF undone(1) this] undone(2) show ?thesis by simp
next
  case (stopping log1 rec1 added new gone1)
  have "list_all2 proved (seats @ added) (su_Seats rec1)" "proved server (su_Server rec1)"
    using seats stopping(2,3) server by (auto intro: list_all2_appendI)
  moreover have "\<forall>pid. sent SIGSTOP log1 pid \<longleftrightarrow> pid = ch_pid server" "\<forall>pid. \<not> sent SIGCONT log1 pid"
    using before quiet_sent[OF stopping(6)] by auto
  ultimately have "outcome (pids rec1 \<union> set gone1) rec' res e log'" by (intro freeze_seats_outcome[OF stopping(1)])
  then show ?thesis by (rule freeze_outcome_mono) (use stopping(2,4) in \<open>auto simp: pids_def procs_def\<close>)
qed

lemma freeze_server_outcome:
  assumes "freeze_server h rewalk rec server seats gone log = ((rec', res, e), log')"
    and server: "proved server (su_Server rec)" and seats: "list_all2 proved seats (su_Seats rec)"
    and before: "\<forall>sig pid. \<not> sent sig log pid"
  shows "outcome (pids rec \<union> set gone) rec' res e log'"
proof -
  obtain r log1 where sg: "SignalChild h server SIGSTOP False log = (r, log1)" by (metis surj_pair)
  have s1: "sent sig log1 pid \<longleftrightarrow> r = None \<and> sig = SIGSTOP \<and> pid = ch_pid server" for sig pid
    using SignalChild_sent[OF sg] before by auto
  show ?thesis
  proof (cases r)
    case (Some x)
    with assms(1) sg obtain er where "rollback h server [] (FreezeError (ch_pid server)) log1 = (er, log')" "e = Some er"
      by (auto simp: freeze_server_def split: prod.splits)
    then show ?thesis using s1 by (auto intro: rollback_outcome)
  next
    case None
    have "\<forall>pid. sent SIGSTOP log1 pid \<longleftrightarrow> pid = ch_pid server" "\<forall>pid. \<not> sent SIGCONT log1 pid" using s1 None by auto
    with assms(1) sg None show ?thesis
      by (auto simp: freeze_server_def split: if_splits
          intro: freeze_fresh_outcome[OF _ server seats] freeze_seats_outcome[OF _ server seats])
  qed
qed

section \<open>What a thaw leaves\<close>

text \<open>A recorded process is resumed, has gone or is a failure.\<close>

definition resumes :: "slog \<Rightarrow> slog \<Rightarrow> Proc \<Rightarrow> resume_outcome \<Rightarrow> bool" where
  "resumes log log' s r \<longleftrightarrow> (\<exists>seg. log' = log @ seg \<and> (\<forall>pid. \<not> sent SIGSTOP seg pid) \<and> (\<forall>pid. sent SIGCONT seg pid \<longrightarrow> pid = px_Pid s) \<and>
     (\<forall>c. r = Resumed c \<longrightarrow> ch_pid c = px_Pid s \<and> sent SIGCONT seg (px_Pid s)))"

lemma resume_signal:
  assumes "Prove h (px_Pid s) (px_Identity s) log = (Inr c, log1)" and "SignalChild h c SIGCONT False log1 = (x, log2)"
    and "\<And>c'. r = Resumed c' \<Longrightarrow> c' = c \<and> x = None"
  shows "resumes log log2 s r"
proof -
  obtain seg where "log2 = log1 @ seg" "\<forall>sg pid. sent sg seg pid \<longleftrightarrow> x = None \<and> sg = SIGCONT \<and> pid = ch_pid c"
    using SignalChild_sent[OF assms(2)] by auto
  moreover obtain seg1 where "log1 = log @ seg1" "\<forall>p sig k. Kill p sig k \<notin> set seg1"
    using quiet_Prove[OF assms(1)] by (auto simp: quiet_def)
  ultimately show ?thesis unfolding resumes_def
    using assms(3) Prove_sound(2)[OF assms(1)] by (intro exI[of _ "seg1 @ seg"]) (auto simp: sent_def)
qed

lemma resume_gone: "Prove h pid want log = (p, log') \<Longrightarrow> resumes log log' s Gone"
  using quiet_Prove[of h pid want log p log'] by (auto simp: quiet_def resumes_def sent_def)

lemma resume_seat_resumes: "resume_seat h s log = (r, log') \<Longrightarrow> resumes log log' s r"
  unfolding resume_seat_def
  by (auto split: prod.splits sum.splits option.splits ProofError.splits intro: resume_gone resume_signal)

lemma resume_server_resumes: "resume_server h s log = (r, log') \<Longrightarrow> resumes log log' s r"
  unfolding resume_server_def
  by (auto split: prod.splits sum.splits option.splits intro: resume_gone resume_signal)

lemma resume_seats_resumes:
  "resume_seats h ss log = (rs, log') \<Longrightarrow> map fst rs = ss \<and>
   (\<exists>seg. log' = log @ seg \<and> (\<forall>pid. \<not> sent SIGSTOP seg pid) \<and> (\<forall>pid. sent SIGCONT seg pid \<longrightarrow> pid \<in> px_Pid ` set ss) \<and>
     (\<forall>s c. (s, Resumed c) \<in> set rs \<longrightarrow> ch_pid c = px_Pid s \<and> sent SIGCONT seg (px_Pid s)))"
proof (induction h ss log arbitrary: rs log' rule: resume_seats.induct)
  case (2 h s ss log)
  obtain r log1 where r: "resume_seat h s log = (r, log1)" by (metis surj_pair)
  obtain rs1 where rs: "resume_seats h ss log1 = (rs1, log')" "rs = (s, r) # rs1" using "2.prems" r by (auto split: prod.splits)
  obtain seg where s1: "log1 = log @ seg" "\<forall>pid. \<not> sent SIGSTOP seg pid" "\<forall>pid. sent SIGCONT seg pid \<longrightarrow> pid = px_Pid s" "\<forall>c. r = Resumed c \<longrightarrow> ch_pid c = px_Pid s \<and> sent SIGCONT seg (px_Pid s)"
    using resume_seat_resumes[OF r] by (auto simp: resumes_def)
  obtain seg2 where s2: "map fst rs1 = ss" "log' = log1 @ seg2" "\<forall>pid. \<not> sent SIGSTOP seg2 pid" "\<forall>pid. sent SIGCONT seg2 pid \<longrightarrow> pid \<in> px_Pid ` set ss"
    "\<forall>s c. (s, Resumed c) \<in> set rs1 \<longrightarrow> ch_pid c = px_Pid s \<and> sent SIGCONT seg2 (px_Pid s)"
    using "2.IH"[OF r[symmetric] rs(1)] by auto
  have "\<exists>seg. log' = log @ seg \<and> (\<forall>pid. \<not> sent SIGSTOP seg pid) \<and> (\<forall>pid. sent SIGCONT seg pid \<longrightarrow> pid \<in> px_Pid ` set (s # ss)) \<and>
     (\<forall>s c. (s, Resumed c) \<in> set rs \<longrightarrow> ch_pid c = px_Pid s \<and> sent SIGCONT seg (px_Pid s))"
    by (rule exI[of _ "seg @ seg2"]) (use s1 s2 rs(2) in auto)
  then show ?case using s2(1) rs(2) by simp
qed auto

lemma read_still_resumed:
  "read_still h cs log = (still, log') \<Longrightarrow> quiet log log' \<and> set still \<subseteq> ch_pid ` set cs"
proof (induction h cs log arbitrary: still log' rule: read_still.induct)
  case (2 h c cs log)
  then show ?case by (fastforce intro: quiet_trans quiet_read_stopped split: prod.splits if_splits)
qed simp

text \<open>The resumes account for every recorded process.\<close>

lemma resumes_account:
  assumes seats: "resume_seats h (su_Seats rec) log1 = (rs, log2)" and server: "resume_server h (su_Server rec) log2 = (r, log3)"
    and all: "all = rs @ [(su_Server rec, r)]" and still: "read_still h (resumed_children all) log3 = (still, log4)"
  shows "\<forall>pid\<in>pids rec. sent SIGCONT log4 pid \<or> pid \<in> set (sx_Gone (thaw_result all still)) \<or> pid \<in> set (failures all)"
    and "\<forall>pid. sent SIGSTOP log4 pid \<longrightarrow> sent SIGSTOP log1 pid" and "\<forall>pid\<in>set still. sent SIGCONT log4 pid"
    and "\<forall>pid. sent SIGCONT log4 pid \<longrightarrow> sent SIGCONT log1 pid \<or> pid \<in> pids rec"
proof -
  obtain seg where s1: "map fst rs = su_Seats rec" "log2 = log1 @ seg" "\<forall>pid. \<not> sent SIGSTOP seg pid" "\<forall>pid. sent SIGCONT seg pid \<longrightarrow> pid \<in> px_Pid ` set (su_Seats rec)"
    "\<forall>s c. (s, Resumed c) \<in> set rs \<longrightarrow> ch_pid c = px_Pid s \<and> sent SIGCONT seg (px_Pid s)"
    using resume_seats_resumes[OF seats] by auto
  obtain seg2 where s2: "log3 = log2 @ seg2" "\<forall>pid. \<not> sent SIGSTOP seg2 pid" "\<forall>pid. sent SIGCONT seg2 pid \<longrightarrow> pid = px_Pid (su_Server rec)"
    "\<forall>c. r = Resumed c \<longrightarrow> ch_pid c = px_Pid (su_Server rec) \<and> sent SIGCONT seg2 (px_Pid (su_Server rec))"
    using resume_server_resumes[OF server] by (auto simp: resumes_def)
  have log4: "sent sig log4 = sent sig log3" for sig using read_still_resumed[OF still] quiet_sent by blast
  have done_: "ch_pid c = px_Pid s \<and> sent SIGCONT log4 (px_Pid s)" if "(s, Resumed c) \<in> set all" for s c
    using that s1 s2 by (auto simp: all log4)
  have recs: "map fst all = su_Seats rec @ [su_Server rec]" using s1(1) by (simp add: all)
  show "\<forall>pid\<in>pids rec. sent SIGCONT log4 pid \<or> pid \<in> set (sx_Gone (thaw_result all still)) \<or> pid \<in> set (failures all)"
  proof
    fix pid assume "pid \<in> pids rec"
    then have "pid \<in> px_Pid ` set (map fst all)" unfolding recs by (auto simp: pids_def procs_def)
    then obtain s x where "(s, x) \<in> set all" "pid = px_Pid s" by auto
    then show "sent SIGCONT log4 pid \<or> pid \<in> set (sx_Gone (thaw_result all still)) \<or> pid \<in> set (failures all)"
      using done_ by (cases x) (force simp: thaw_result_def failures_def)+
  qed
  show "\<forall>pid. sent SIGSTOP log4 pid \<longrightarrow> sent SIGSTOP log1 pid" using s1(2,3) s2(1,2) by (simp add: log4)
  show "\<forall>pid. sent SIGCONT log4 pid \<longrightarrow> sent SIGCONT log1 pid \<or> pid \<in> pids rec"
    using s1(2,4) s2(1,3) by (auto simp: log4 pids_def procs_def)
  have "set still \<subseteq> ch_pid ` set (resumed_children all)" using read_still_resumed[OF still] by simp
  then show "\<forall>pid\<in>set still. sent SIGCONT log4 pid"
    using done_ by (fastforce simp: resumed_children_def split: resume_outcome.splits)
qed

lemma thaw_end_sent: "thaw_end h hook rec failed res0 log = ((res, e), log') \<Longrightarrow> sent sig log' pid = sent sig log pid \<and> res = res0"
  by (erule thaw_end_cases) (auto simp: sent_def)

lemma FreezeWith_outcome:
  assumes "FreezeWith h rewalk rec [] = ((rec', res, e), log)"
  shows "outcome (pids rec) rec' res e log"
  using assms
proof (cases rule: FreezeWith_cases)
  case (unproved er)
  have "\<forall>sig pid. \<not> sent sig log pid" using quiet_sent[OF quiet_Prove[OF unproved(1)]] by simp
  with unproved(2) show ?thesis by (simp add: outcome_def)
next
  case (proved server log1 seats kept gone log2 log3 ok rec1)
  have q: "quiet [] log3"
    by (rule quiet_trans[OF quiet_trans[OF quiet_Prove[OF proved(1)] quiet_prove_all[OF proved(2)]] quiet_store_Save[OF proved(4)]])
  then have none: "\<forall>sig pid. \<not> sent sig log3 pid" using quiet_sent by fastforce
  show ?thesis
  proof (cases ok)
    case True
    from freeze_server_outcome[OF proved(8)[OF True] proved(5,6) none] show ?thesis
      by (rule freeze_outcome_mono) (use prove_all_gone[OF proved(2)] proved(3) in \<open>auto simp: pids_def procs_def\<close>)
  qed (use none proved(9) in \<open>simp add: outcome_def\<close>)
qed (auto simp: outcome_def)

lemma early_error:
  assumes "FreezeWith h rewalk rec [] = ((rec', res, Some er), log)"
  shows "er \<in> {ErrSuspendState, ErrPid, ErrSaveSuspending, ErrSaveSuspended} \<or> (\<exists>why. er = ErrServerNotRecorded why) \<or> (\<exists>cause failed ok. er = RolledBack cause failed ok)"
  using assms
  by (auto simp: FreezeWith_def freeze_server_def freeze_fresh_def freeze_seats_def rollback_def Let_def
      split: if_splits sum.splits prod.splits option.splits bool.splits)

lemma ThawWith_accounts:
  assumes "ThawWith h hook rec [] = ((res, e), log)"
  shows "(e = None \<longrightarrow> after on_disk (Some rec) log = None \<and> (\<forall>pid\<in>pids rec. sent SIGCONT log pid \<or> pid \<in> set (sx_Gone res))) \<and>
    (e \<notin> {None, Some ErrClear} \<longrightarrow> after on_disk (Some rec) log \<in> {Some rec, Some (rec\<lparr>su_State := StateResuming\<rparr>)}) \<and>
    (e = Some ErrClear \<longrightarrow> (\<forall>pid\<in>pids rec. sent SIGCONT log pid \<or> pid \<in> set (sx_Gone res))) \<and>
    (\<forall>failed. e = Some (ErrResume failed) \<longrightarrow> failed \<noteq> [] \<and> (\<forall>pid\<in>pids rec. sent SIGCONT log pid \<or> pid \<in> set (sx_Gone res) \<union> set failed)) \<and>
    (\<forall>pid. \<not> sent SIGSTOP log pid) \<and> (\<forall>pid. sent SIGCONT log pid \<longrightarrow> pid \<in> pids rec) \<and> (\<forall>pid\<in>set (sx_StillStopped res). sent SIGCONT log pid)"
proof -
  have disk: "e = None \<longrightarrow> after on_disk (Some rec) log = None"
    "after on_disk (Some rec) log \<in> {Some rec, Some (rec\<lparr>su_State := StateResuming\<rparr>)} \<or> e \<in> {None, Some ErrClear}"
    using assms by (auto elim!: runs_ThawWith[where d = "Some rec"] simp: grows_def)
  show ?thesis
    using assms
  proof (cases rule: ThawWith_cases)
    case refused
    with disk show ?thesis by (auto simp: gone_only_def)
  next
    case unsaved
    have "\<forall>sig pid. \<not> sent sig log pid" using quiet_sent[OF quiet_store_Save[OF unsaved(1)]] by simp
    with unsaved disk show ?thesis by (auto simp: gone_only_def)
  next
    case (resumed log1 rs log2 r log3 still log4 all)
    have log1: "sent sig log1 pid \<longleftrightarrow> False" for sig pid using quiet_sent[OF quiet_store_Save[OF resumed(1)]] by simp
    note accounts = resumes_account[OF resumed(2,3,4,5)]
    have eqs: "sent sig log pid = sent sig log4 pid" "res = thaw_result all still" for sig pid
      using thaw_end_sent[OF resumed(6)] by auto
    have "e = None \<and> failures all = [] \<or> e = Some (ErrResume (failures all)) \<and> failures all \<noteq> [] \<or> e = Some ErrHook \<or> e = Some ErrClear \<and> failures all = []"
      using resumed(6) by (auto elim!: thaw_end_cases split: if_splits)
    with accounts disk show ?thesis unfolding eqs by (auto simp: log1 thaw_result_def)
  qed
qed

lemma ThawWith_clear:
  assumes "ThawWith h hook rec [] = ((res, e), log)" and "e = Some ErrClear"
  shows "after on_disk d log = (if last log = Own (Clear StoredErr) then None else Some (rec\<lparr>su_State := StateResuming\<rparr>))"
  using assms(1)
proof (cases rule: ThawWith_cases)
  case (resumed log1 rs log2 r log3 still log4 all)
  let ?d = "Some (rec\<lparr>su_State := StateResuming\<rparr>)"
  from resumed(1) have "runs d [] log1 ?d" by (rule runs_saved)
  also have "runs ?d log1 log2 ?d" using resumed(2) by (rule runs_resume_seats) (auto simp: procs_def)
  also have "runs ?d log2 log3 ?d" using resumed(3) by (rule runs_resume_server) (auto simp: procs_def)
  also have "runs ?d log3 log4 ?d" using resumed(5) by (rule runs_read_still)
  finally have r: "runs d [] log4 ?d" .
  from resumed(6) show ?thesis
  proof (cases rule: thaw_end_cases)
    case (cleared x mid)
    have "runs ?d log4 (log4 @ mid) ?d" using cleared(4) by (intro runs_Owns) auto
    from runs_trans[OF runs_trans[OF r this] runs_Own[of ?d "log4 @ mid" "Clear x"]]
    have "runs d [] log (on_disk ?d (Clear x))" by (simp add: cleared(3))
    then show ?thesis using cleared(2,3) assms(2) by (cases x) (auto simp: grows_def on_disk_def)
  qed (use assms(2) in auto)
qed (use assms(2) in auto)

section \<open>Processes that cannot be read\<close>

text \<open>A resume needs a read that shows the process.\<close>

definition readable :: "freezer \<Rightarrow> int \<Rightarrow> bool" where
  "readable h pid \<longleftrightarrow> (\<exists>n live. ho_read h n pid = ReadOk live)"

lemma SignalChild_readable:
  "SignalChild h c sig False log = (r, log') \<Longrightarrow> sent s log' pid \<Longrightarrow> sent s log pid \<or> readable h pid"
  by (auto simp: SignalChild_def sys_read_def sys_kill_def readable_def Let_def split: if_splits read_result.splits kill_result.splits)

lemma Prove_sent: "Prove h p want log = (r, log') \<Longrightarrow> sent s log' pid \<longleftrightarrow> sent s log pid"
  using quiet_sent[OF quiet_Prove] by metis

lemma resume_seat_readable: "resume_seat h p log = (r, log') \<Longrightarrow> sent s log' pid \<Longrightarrow> sent s log pid \<or> readable h pid"
  unfolding resume_seat_def
  by (auto split: prod.splits sum.splits option.splits ProofError.splits simp: Prove_sent dest: SignalChild_readable)

lemma resume_server_readable: "resume_server h p log = (r, log') \<Longrightarrow> sent s log' pid \<Longrightarrow> sent s log pid \<or> readable h pid"
  unfolding resume_server_def
  by (auto split: prod.splits sum.splits option.splits simp: Prove_sent dest: SignalChild_readable)

lemma resume_seats_readable: "resume_seats h ss log = (rs, log') \<Longrightarrow> sent s log' pid \<Longrightarrow> sent s log pid \<or> readable h pid"
proof (induction h ss log arbitrary: rs log' rule: resume_seats.induct)
  case (2 h p ss log)
  then show ?case by (fastforce split: prod.splits dest: resume_seat_readable)
qed simp

lemma ThawWith_readable:
  assumes "ThawWith h hook rec [] = ((res, e), log)" and "sent sig log pid"
  shows "readable h pid"
  using assms(1)
proof (cases rule: ThawWith_cases)
  case (resumed log1 rs log2 r log3 still log4 all)
  have "\<not> sent sig log1 pid" using quiet_sent[OF quiet_store_Save[OF resumed(1)]] by simp
  moreover have "sent sig log3 pid" using assms(2) thaw_end_sent[OF resumed(6)] read_still_resumed[OF resumed(5)] quiet_sent by metis
  ultimately show ?thesis using resume_seats_readable[OF resumed(2)] resume_server_readable[OF resumed(3)] by blast
qed (use assms(2) in \<open>auto simp: store_Save_def Let_def\<close>)

text \<open>\<open>ServerGone\<close> says gone only when a read showed another process or the pid names none.\<close>

lemma ServerGone_sound:
  assumes "ServerGone h rec log = (Inr True, log')"
  shows "case ho_read h (length log) (px_Pid (su_Server rec)) of
      ReadOk live \<Rightarrow> \<not> sameIdentity live (px_Identity (su_Server rec))
    | ReadErr shown \<Rightarrow> shown \<notin> {[], id_Start (px_Identity (su_Server rec))} \<or>
        ho_kill h (Suc (length log)) (px_Pid (su_Server rec)) SIG0 = KillESRCH"
  using assms
  by (auto simp: ServerGone_def Prove_def Exists_def sys_read_def sys_kill_def failed_read_def sameIdentity_def Let_def
      split: if_splits read_result.splits sum.splits prod.splits bool.splits kill_result.splits ProofError.splits)

section \<open>A steady host\<close>

text \<open>Every read of a recorded process shows it, every signal to it is delivered, and the store works.\<close>

definition steady :: "freezer \<Rightarrow> SuspendRecord \<Rightarrow> bool" where
  "steady h rec \<longleftrightarrow>
     (\<forall>p\<in>set (procs rec). id_Start (px_Identity p) \<noteq> [] \<and> (\<forall>n. ho_read h n (px_Pid p) = ReadOk (px_Identity p)) \<and>
        (\<forall>n sig. ho_kill h n (px_Pid p) sig = KillOk)) \<and>
     (\<forall>n r. ho_save h n r = Stored) \<and> (\<forall>n. ho_clear h n = Stored) \<and> (\<forall>n r. ho_hook h n r)"

definition child :: "Proc \<Rightarrow> Child" where
  "child p = \<lparr>ch_pid = px_Pid p, ch_id = px_Identity p\<rparr>"

definition good :: "freezer \<Rightarrow> Proc \<Rightarrow> bool" where
  "good h p \<longleftrightarrow> CheckPid (px_Pid p) \<and> id_Start (px_Identity p) \<noteq> [] \<and> (\<forall>n. ho_read h n (px_Pid p) = ReadOk (px_Identity p)) \<and>
     (\<forall>n sig. ho_kill h n (px_Pid p) sig = KillOk)"

lemma good_calls:
  assumes "good h p"
  shows "\<exists>log'. Prove h (px_Pid p) (px_Identity p) log = (Inr (child p), log')"
    "\<exists>log'. SignalChild h (child p) sig False log = (None, log')" "\<exists>log'. Same h (child p) log = (True, log')"
  using assms
  by (auto simp: good_def child_def sameIdentity_def Prove_steady[of _ _ _ _ "px_Identity p"]
      SignalChild_steady[of _ _ _ "px_Identity p"] Same_steady[of _ _ _ "px_Identity p"])

lemma good_prove_all: "\<forall>p\<in>set ss. good h p \<Longrightarrow> \<exists>log'. prove_all h ss log = ((map child ss, ss, []), log')"
proof (induction ss arbitrary: log)
  case (Cons s ss)
  from good_calls(1)[of h s log] Cons.prems obtain log1 where "Prove h (px_Pid s) (px_Identity s) log = (Inr (child s), log1)" by auto
  with Cons.IH[of log1] Cons.prems show ?case by auto
qed simp

lemma good_stop_all: "\<forall>p\<in>set ss. good h p \<Longrightarrow> \<exists>log'. stop_all h (map child ss) log = ((None, map child ss, []), log')"
proof (induction ss arbitrary: log)
  case (Cons s ss)
  from good_calls(2)[of h s SIGSTOP log] Cons.prems obtain log1 where "SignalChild h (child s) SIGSTOP False log = (None, log1)" by auto
  with Cons.IH[of log1] Cons.prems show ?case by auto
qed simp

lemma stopped_isStopped: "\<forall>n. ho_stopped h n (px_Pid p) = Some True \<Longrightarrow> \<exists>log'. isStopped h (child p) log = (True, log')"
  by (simp add: isStopped_def read_stopped_def child_def Let_def)

lemma good_read_seats:
  "\<forall>p\<in>set ss. good h p \<and> (\<forall>n. ho_stopped h n (px_Pid p) = Some True) \<Longrightarrow>
   \<exists>log'. read_seats h (map child ss) log = ((None, map child ss, []), log')"
proof (induction ss arbitrary: log)
  case (Cons s ss)
  from good_calls(3)[of h s log] Cons.prems obtain log1 where "Same h (child s) log = (True, log1)" by auto
  moreover from stopped_isStopped[of h s log1] Cons.prems obtain log2 where "isStopped h (child s) log1 = (True, log2)" by auto
  ultimately show ?case using Cons.IH[of log2] Cons.prems by auto
qed simp

lemma good_read_round:
  assumes "\<forall>p\<in>set (server # ss). good h p \<and> (\<forall>n. ho_stopped h n (px_Pid p) = Some True)"
  shows "\<exists>log'. read_round h (child server) (map child ss) log = ((None, map child ss, []), log')"
proof -
  from good_calls(3)[of h server log] assms obtain log1 where "Same h (child server) log = (True, log1)" by auto
  moreover from stopped_isStopped[of h server log1] assms obtain log2 where "isStopped h (child server) log1 = (True, log2)" by auto
  ultimately show ?thesis using good_read_seats[of ss h log2] assms by (auto simp: read_round_def)
qed

lemma keepOnly_all: "keepOnly ss (map child ss) = ss"
  by (auto simp: keepOnly_def child_def image_image intro!: filter_True)

lemma steady_freeze:
  assumes "steady h rec" "su_State rec = StateNew" "checkPids rec" and stop: "\<forall>pid\<in>pids rec. \<forall>n. ho_stopped h n pid = Some True"
  shows "\<exists>log. FreezeWith h False rec [] = ((rec\<lparr>su_State := StateSuspended\<rparr>, gone_only [], None), log)"
proof -
  have good: "\<forall>p\<in>set (su_Server rec # su_Seats rec). good h p \<and> (\<forall>n. ho_stopped h n (px_Pid p) = Some True)"
    using assms by (auto simp: steady_def good_def procs_def checkPids_def list_all_iff pids_def)
  then have g: "good h (su_Server rec)" "\<forall>p\<in>set (su_Seats rec). good h p" by auto
  let ?rec1 = "rec\<lparr>su_State := StateSuspending\<rparr>"
  have saves: "store_Save h r log = (True, log @ [Own (Save r Stored)])" for r log using assms(1) by (simp add: steady_def store_Save_def Let_def)
  obtain log1 :: slog where 1: "Prove h (px_Pid (su_Server rec)) (px_Identity (su_Server rec)) [] = (Inr (child (su_Server rec)), log1)" using good_calls(1)[OF g(1)] by blast
  obtain log2 where 2: "prove_all h (su_Seats rec) log1 = ((map child (su_Seats rec), su_Seats rec, []), log2)" using good_prove_all[OF g(2)] by blast
  define log3 where "log3 = log2 @ [Own (Save ?rec1 Stored)]"
  obtain log4 where 4: "SignalChild h (child (su_Server rec)) SIGSTOP False log3 = (None, log4)" using good_calls(2)[OF g(1)] by blast
  obtain log5 where 5: "stop_all h (map child (su_Seats rec)) log4 = ((None, map child (su_Seats rec), []), log5)" using good_stop_all[OF g(2)] by blast
  obtain log6 where 6: "read_round h (child (su_Server rec)) (map child (su_Seats rec)) log5 = ((None, map child (su_Seats rec), []), log6)" using good_read_round[OF good] by blast
  obtain log7 where 7: "read_round h (child (su_Server rec)) (map child (su_Seats rec)) log6 = ((None, map child (su_Seats rec), []), log7)" using good_read_round[OF good] by blast
  have "freeze_server h False ?rec1 (child (su_Server rec)) (map child (su_Seats rec)) [] log3
    = ((rec\<lparr>su_State := StateSuspended\<rparr>, gone_only [], None), log7 @ [Own (Save (rec\<lparr>su_State := StateSuspended\<rparr>) Stored)])"
    using 4 5 6 7 by (simp add: freeze_server_def freeze_seats_def saves keepOnly_all Let_def)
  then show ?thesis using 1 2 assms(2,3) by (simp add: FreezeWith_def saves log3_def)
qed

lemma good_resume_seats:
  "\<forall>p\<in>set ss. good h p \<Longrightarrow> \<exists>log'. resume_seats h ss log = (map (\<lambda>s. (s, Resumed (child s))) ss, log')"
proof (induction ss arbitrary: log)
  case (Cons s ss)
  from good_calls(1)[of h s log] Cons.prems obtain log1 where 1: "Prove h (px_Pid s) (px_Identity s) log = (Inr (child s), log1)" by auto
  from good_calls(2)[of h s SIGCONT log1] Cons.prems obtain log2 where "SignalChild h (child s) SIGCONT False log1 = (None, log2)" by auto
  with 1 have "resume_seat h s log = (Resumed (child s), log2)" by (simp add: resume_seat_def)
  with Cons.IH[of log2] Cons.prems show ?case by auto
qed simp

lemma steady_thaw:
  assumes "steady h rec" "su_State rec = StateSuspended" "checkPids rec"
  shows "\<exists>still log. ThawWith h hook rec [] = ((\<lparr>sx_Gone = [], sx_StillStopped = still\<rparr>, None), log) \<and> set still \<subseteq> pids rec"
proof -
  have g: "good h (su_Server rec)" "\<forall>p\<in>set (su_Seats rec). good h p"
    using assms by (auto simp: steady_def good_def procs_def checkPids_def list_all_iff)
  define log1 where "log1 = [Own (Save (rec\<lparr>su_State := StateResuming\<rparr>) Stored)]"
  have 1: "store_Save h (rec\<lparr>su_State := StateResuming\<rparr>) [] = (True, log1)" using assms(1) by (simp add: steady_def store_Save_def log1_def Let_def)
  define rs where "rs = map (\<lambda>s. (s, Resumed (child s))) (su_Seats rec @ [su_Server rec])"
  obtain log2 where 2: "resume_seats h (su_Seats rec) log1 = (map (\<lambda>s. (s, Resumed (child s))) (su_Seats rec), log2)" using good_resume_seats[OF g(2)] by blast
  obtain log3 where 3: "resume_server h (su_Server rec) log2 = (Resumed (child (su_Server rec)), log3)"
  proof -
    obtain l where "Prove h (px_Pid (su_Server rec)) (px_Identity (su_Server rec)) log2 = (Inr (child (su_Server rec)), l)" using good_calls(1)[OF g(1)] by blast
    moreover obtain l' where "SignalChild h (child (su_Server rec)) SIGCONT False l = (None, l')" using good_calls(2)[OF g(1)] by blast
    ultimately show thesis using that by (simp add: resume_server_def)
  qed
  obtain still log4 where 4: "read_still h (resumed_children rs) log3 = (still, log4)" by (metis surj_pair)
  have end_: "failures rs = []" "thaw_result rs still = \<lparr>sx_Gone = [], sx_StillStopped = still\<rparr>"
    by (simp_all add: failures_def thaw_result_def rs_def filter_map comp_def)
  have kids: "set (resumed_children rs) = child ` set (procs rec)" by (auto simp: resumed_children_def rs_def procs_def)
  obtain log5 where 5: "thaw_end h hook (rec\<lparr>su_State := StateResuming\<rparr>) [] \<lparr>sx_Gone = [], sx_StillStopped = still\<rparr> log4
    = ((\<lparr>sx_Gone = [], sx_StillStopped = still\<rparr>, None), log5)"
    using assms(1) by (cases hook) (auto simp: steady_def thaw_end_def store_Clear_def Let_def)
  have "ThawWith h hook rec [] = ((\<lparr>sx_Gone = [], sx_StillStopped = still\<rparr>, None), log5)"
    using assms(2,3) 1 2 3 4 5 end_ by (simp add: ThawWith_def rs_def)
  moreover have "set still \<subseteq> pids rec" using read_still_resumed[OF 4] unfolding kids by (auto simp: pids_def child_def)
  ultimately show ?thesis by blast
qed

text \<open>A process none of whose reads succeeds is taken for gone; the others of the record are resumed.\<close>

definition unreadable :: "freezer \<Rightarrow> int \<Rightarrow> bool" where
  "unreadable h pid \<longleftrightarrow> (\<forall>n. \<exists>shown. ho_read h n pid = ReadErr shown)"

lemma unreadable_iff: "unreadable h pid \<longleftrightarrow> \<not> readable h pid"
  unfolding unreadable_def readable_def by (metis read_result.distinct(1) read_result.exhaust)

lemma unreadable_Prove:
  assumes "unreadable h (px_Pid p)"
  shows "\<exists>er log'. Prove h (px_Pid p) (px_Identity p) log = (Inl er, log')"
proof -
  obtain shown where "ho_read h (length log) (px_Pid p) = ReadErr shown" using assms by (auto simp: unreadable_def)
  then show ?thesis by (simp add: Prove_def sys_read_def Let_def)
qed

definition expected :: "freezer \<Rightarrow> Proc \<Rightarrow> resume_outcome" where
  "expected h p = (if unreadable h (px_Pid p) then Gone else Resumed (child p))"

lemma mixed_resume:
  assumes "good h p \<or> unreadable h (px_Pid p)"
  shows "\<exists>log'. resume_seat h p log = (expected h p, log')" "\<exists>log'. resume_server h p log = (expected h p, log')"
proof -
  have "(\<exists>log'. resume_seat h p log = (expected h p, log')) \<and> (\<exists>log'. resume_server h p log = (expected h p, log'))"
  proof (cases "unreadable h (px_Pid p)")
    case True
    from unreadable_Prove[OF this, of log] True show ?thesis by (auto simp: resume_seat_def resume_server_def expected_def)
  next
    case False
    with assms have g: "good h p" by simp
    from good_calls(1)[OF g, of log] obtain log1 where 1: "Prove h (px_Pid p) (px_Identity p) log = (Inr (child p), log1)" by blast
    from good_calls(2)[OF g, of SIGCONT log1] obtain log2 where "SignalChild h (child p) SIGCONT False log1 = (None, log2)" by blast
    with 1 False show ?thesis by (simp add: resume_seat_def resume_server_def expected_def)
  qed
  then show "\<exists>log'. resume_seat h p log = (expected h p, log')" "\<exists>log'. resume_server h p log = (expected h p, log')" by blast+
qed

lemma mixed_resume_seats:
  "\<forall>p\<in>set ss. good h p \<or> unreadable h (px_Pid p) \<Longrightarrow> \<exists>log'. resume_seats h ss log = (map (\<lambda>s. (s, expected h s)) ss, log')"
proof (induction ss arbitrary: log)
  case (Cons s ss)
  from mixed_resume(1)[of h s log] Cons.prems obtain log1 where "resume_seat h s log = (expected h s, log1)" by auto
  with Cons.IH[of log1] Cons.prems show ?case by auto
qed simp

definition store_works :: "freezer \<Rightarrow> bool" where
  "store_works h \<longleftrightarrow> (\<forall>n r. ho_save h n r = Stored) \<and> (\<forall>n. ho_clear h n = Stored) \<and> (\<forall>n r. ho_hook h n r)"

lemma mixed_thaw:
  assumes "store_works h" "su_State rec = StateSuspended" "checkPids rec"
    and mixed: "\<forall>p\<in>set (su_Seats rec @ [su_Server rec]). good h p \<or> unreadable h (px_Pid p)"
  shows "\<exists>still log. ThawWith h hook rec [] =
    ((\<lparr>sx_Gone = filter (unreadable h) (map px_Pid (su_Seats rec @ [su_Server rec])), sx_StillStopped = still\<rparr>, None), log)"
proof -
  define log1 where "log1 = [Own (Save (rec\<lparr>su_State := StateResuming\<rparr>) Stored)]"
  have 1: "store_Save h (rec\<lparr>su_State := StateResuming\<rparr>) [] = (True, log1)" using assms(1) by (simp add: store_works_def store_Save_def log1_def Let_def)
  define rs where "rs = map (\<lambda>s. (s, expected h s)) (su_Seats rec @ [su_Server rec])"
  obtain log2 where 2: "resume_seats h (su_Seats rec) log1 = (map (\<lambda>s. (s, expected h s)) (su_Seats rec), log2)"
    using mixed_resume_seats[of "su_Seats rec" h log1] mixed by auto
  obtain log3 where 3: "resume_server h (su_Server rec) log2 = (expected h (su_Server rec), log3)" using mixed_resume(2)[of h "su_Server rec" log2] mixed by auto
  obtain still log4 where 4: "read_still h (resumed_children rs) log3 = (still, log4)" by (metis surj_pair)
  let ?res = "\<lparr>sx_Gone = filter (unreadable h) (map px_Pid (su_Seats rec @ [su_Server rec])), sx_StillStopped = still\<rparr>"
  have "failures rs = []" by (auto simp: failures_def rs_def expected_def filter_empty_conv)
  moreover have "expected h s = Gone \<longleftrightarrow> unreadable h (px_Pid s)" for s by (simp add: expected_def)
  then have "thaw_result rs still = ?res" by (simp add: thaw_result_def rs_def filter_map comp_def)
  moreover obtain log5 where "thaw_end h hook (rec\<lparr>su_State := StateResuming\<rparr>) [] ?res log4 = ((?res, None), log5)"
    using assms(1) by (cases hook) (auto simp: store_works_def thaw_end_def store_Clear_def Let_def)
  ultimately have "ThawWith h hook rec [] = ((?res, None), log5)"
    using assms(2,3) 1 2 3 4 by (simp add: ThawWith_def rs_def)
  then show ?thesis by blast
qed

section \<open>Properties\<close>

text \<open>C5. No process is signalled on trust. Whatever the kernel answers and whenever a process exits, every signal
  of a freeze, its rollback or a thaw goes to one pid (never 0, 1 or a group), right after a read of that
  pid whose start time, executable and arguments are those of a process named in the record that is
  on disk at that moment. So a process whose pid was reused is not touched, and a daemon that stops
  between any two calls finds every process it stopped in the record.\<close>

theorem suspend_signals_what_is_recorded:
  assumes "FreezeWith h rewalk rec [] = (r, log) \<or> ThawWith h hook rec [] = (t, log)"
    and "log = before @ Kill pid sig k # later" and "sig \<noteq> SIG0"
  shows "\<exists>before' live disk p. before = before' @ [Read pid (ReadOk live)] \<and> 1 < pid \<and> pid \<le> 2147483647 \<and>
    after on_disk d before = Some disk \<and> p \<in> set (su_Server disk # su_Seats disk) \<and> px_Pid p = pid \<and> sameIdentity live (px_Identity p)"
proof -
  obtain d' where "runs d [] log d'"
    using assms(1) runs_FreezeWith runs_ThawWith by (metis prod_cases3 surj_pair)
  then have "guarded on_disk recorded d log" by (auto simp: grows_def)
  from guardedD[OF this assms(2,3)] obtain before' live
    where *: "before = before' @ [Read pid (ReadOk live)]" "CheckPid pid" "recorded (after on_disk d before) pid live" by blast
  then obtain disk p where "after on_disk d before = Some disk" "p \<in> set (procs disk)" "px_Pid p = pid" "sameIdentity live (px_Identity p)"
    by (auto simp: recorded_def list_ex_iff split: option.splits)
  with * show ?thesis by (auto simp: procs_def CheckPid_def)
qed

text \<open>C6. A freeze takes everything or nothing. When it succeeds the record on disk reads suspended, every
  process in it was sent a stop and read stopped at least twice, nothing was resumed, and every process
  of the record it was given is in the new one or reported as gone; when only the last save fails all of
  that holds but for the record on disk. When it rolls back, every process that was sent a stop is
  afterwards sent a resume, or the error names the pid whose resume failed; its last call is the clear,
  and the error says whether it worked: if it did, no record is left. The only other errors are those
  before the first signal, a refusal, a server that is not the recorded one and a failed first save, and
  nothing was signalled.\<close>

theorem freeze_all_or_nothing:
  assumes "FreezeWith h rewalk rec [] = ((rec', res, e), log)"
  shows "case e of
      None \<Rightarrow> frozen rec' res log \<and> pids rec \<subseteq> pids rec' \<union> set (sx_Gone res) \<and> last log = Own (Save rec' Stored) \<and> after on_disk d log = Some rec'
    | Some ErrSaveSuspended \<Rightarrow> frozen rec' res log \<and> pids rec \<subseteq> pids rec' \<union> set (sx_Gone res) \<and> last log \<in> {Own (Save rec' StoredErr), Own (Save rec' NotStored)}
    | Some (RolledBack _ failed ok) \<Rightarrow>
        (\<exists>work undo. (\<exists>x. log = work @ undo @ [Own (Clear x)] \<and> (x = Stored \<longleftrightarrow> ok)) \<and> (\<forall>pid. \<not> sent SIGSTOP undo pid) \<and>
          (\<forall>pid. sent SIGSTOP work pid \<longrightarrow> sent SIGCONT undo pid \<or> pid \<in> set failed)) \<and>
        (ok \<longrightarrow> after on_disk d log = None)
    | Some er \<Rightarrow> (er \<in> {ErrSuspendState, ErrPid, ErrSaveSuspending} \<or> (\<exists>why. er = ErrServerNotRecorded why)) \<and> (\<forall>sig pid. \<not> sent sig log pid)"
proof -
  have o: "outcome (pids rec) rec' res e log" using assms by (rule FreezeWith_outcome)
  have none: "log \<noteq> []" if "frozen rec' res log"
    using that by (auto simp: frozen_def pids_def procs_def)
  have saved: "after on_disk d log = Some rec'" if "e = None"
    using o that none after_last[of log "Save rec' Stored" on_disk d] by (auto simp: outcome_def on_disk_def)
  have cleared: "after on_disk d log = None" if "undone failed True log" for failed
  proof -
    from that obtain work undo where l: "log = work @ undo @ [Own (Clear Stored)]" by (auto simp: undone_def)
    then show ?thesis using after_last[of log "Clear Stored" on_disk d] by (simp add: on_disk_def)
  qed
  have "er \<in> {ErrSuspendState, ErrPid, ErrSaveSuspending, ErrSaveSuspended} \<or> (\<exists>why. er = ErrServerNotRecorded why) \<or>
      (\<exists>cause failed ok. er = RolledBack cause failed ok)" if "e = Some er" for er
    using assms unfolding that by (rule early_error)
  with o saved cleared show ?thesis
    by (auto simp: outcome_def undone_def split: option.splits SuspendError.splits)
qed

text \<open>C7. A thaw leaves no one behind silently. When a thaw returns without an error the record is gone, and
  every recorded process, the seats and the server, was sent a resume or is reported as gone. When it
  fails before the clear the record is still there, as it was or as resuming, which a thaw accepts; when
  a resume failed, every recorded process was sent one, or is reported as gone, or is named by the
  error. When it is the clear that fails, every process was resumed or found gone, and the record is
  still there as resuming unless the clear did its work before it returned the error. A thaw stops
  nothing, resumes recorded processes only, and reports as still stopped only what it resumed.\<close>

theorem thaw_leaves_no_one_behind:
  assumes "ThawWith h hook rec [] = ((res, e), log)"
  shows "(e = None \<longrightarrow> after on_disk (Some rec) log = None \<and> (\<forall>pid\<in>pids rec. sent SIGCONT log pid \<or> pid \<in> set (sx_Gone res))) \<and>
    (e \<notin> {None, Some ErrClear} \<longrightarrow> after on_disk (Some rec) log \<in> {Some rec, Some (rec\<lparr>su_State := StateResuming\<rparr>)}) \<and>
    (e = Some ErrClear \<longrightarrow> (\<forall>pid\<in>pids rec. sent SIGCONT log pid \<or> pid \<in> set (sx_Gone res)) \<and>
      after on_disk (Some rec) log = (if last log = Own (Clear StoredErr) then None else Some (rec\<lparr>su_State := StateResuming\<rparr>))) \<and>
    (\<forall>failed. e = Some (ErrResume failed) \<longrightarrow> failed \<noteq> [] \<and> (\<forall>pid\<in>pids rec. sent SIGCONT log pid \<or> pid \<in> set (sx_Gone res) \<union> set failed)) \<and>
    (\<forall>pid. \<not> sent SIGSTOP log pid) \<and> (\<forall>pid. sent SIGCONT log pid \<longrightarrow> pid \<in> pids rec) \<and> (\<forall>pid\<in>set (sx_StillStopped res). sent SIGCONT log pid)"
  using ThawWith_accounts[OF assms] ThawWith_clear[OF assms] by blast

text \<open>C8. A suspend and a resume are inverse on a steady host. When every read of a recorded process shows it,
  its signals are delivered and it reads stopped, and the store works, a freeze of a new record succeeds,
  drops no process, and sends a stop to exactly the recorded ones; the thaw of the record it saved succeeds
  on a host as steady, sends a resume to exactly the same processes, and leaves no record.\<close>

theorem freeze_then_thaw:
  assumes "steady h rec" "steady g rec" "su_State rec = StateNew" "checkPids rec"
    and "\<forall>pid\<in>pids rec. \<forall>n. ho_stopped h n pid = Some True"
  shows "\<exists>log res log'. Freeze h rec [] = ((rec\<lparr>su_State := StateSuspended\<rparr>, gone_only [], None), log) \<and>
    ThawWith g hook (rec\<lparr>su_State := StateSuspended\<rparr>) [] = ((res, None), log') \<and> sx_Gone res = [] \<and>
    (\<forall>pid. (sent SIGSTOP log pid \<longleftrightarrow> pid \<in> pids rec) \<and> \<not> sent SIGCONT log pid \<and> (sent SIGCONT log' pid \<longleftrightarrow> pid \<in> pids rec) \<and> \<not> sent SIGSTOP log' pid) \<and>
    after on_disk None log = Some (rec\<lparr>su_State := StateSuspended\<rparr>) \<and> after on_disk None (log @ log') = None"
proof -
  let ?rec = "rec\<lparr>su_State := StateSuspended\<rparr>"
  have p: "pids ?rec = pids rec" by (simp add: pids_def procs_def)
  obtain log where f: "FreezeWith h False rec [] = ((?rec, gone_only [], None), log)" using steady_freeze[OF assms(1,3-5)] by blast
  obtain still log' where t: "ThawWith g hook ?rec [] = ((\<lparr>sx_Gone = [], sx_StillStopped = still\<rparr>, None), log')"
    using steady_thaw[of g ?rec hook] assms(2,4) by (auto simp: steady_def procs_def checkPids_def)
  have fo: "frozen ?rec (gone_only []) log" and l: "last log = Own (Save ?rec Stored)" using FreezeWith_outcome[OF f] by (auto simp: outcome_def)
  have s: "(sent SIGSTOP log pid \<longleftrightarrow> pid \<in> pids rec) \<and> \<not> sent SIGCONT log pid" for pid
    using fo p by (auto simp: frozen_def gone_only_def)
  have "pids rec \<noteq> {}" by (simp add: pids_def procs_def)
  with s have "log \<noteq> []" by (metis all_not_in_conv sent_Nil)
  then have d: "after on_disk None log = Some ?rec" by (simp add: after_last[OF l] on_disk_def)
  have "after on_disk (Some ?rec) log' = None" "\<forall>pid\<in>pids rec. sent SIGCONT log' pid"
    and "\<forall>pid. \<not> sent SIGSTOP log' pid" "\<forall>pid. sent SIGCONT log' pid \<longrightarrow> pid \<in> pids rec"
    using ThawWith_accounts[OF t] p by auto
  with f t s d show ?thesis by (auto simp: Freeze_def)
qed

text \<open>C40. A process that cannot be read is taken for gone. On a host where every recorded process either answers
  every read and takes its signals, or answers no read at all (alive or not), and the store works, a thaw
  succeeds and clears the record: it reports as gone exactly the pids it could not read and sends a
  resume to exactly the others. So a live stopped process that cannot be read stays stopped, with
  nothing left that names it. (\<open>ServerGone\<close>, on the same failed read, asks whether the pid exists and keeps
  the record.)\<close>

theorem unreadable_seat_is_left_stopped:
  assumes "store_works h" "su_State rec = StateSuspended" "checkPids rec"
    and "\<forall>p\<in>set (su_Seats rec @ [su_Server rec]). good h p \<or> unreadable h (px_Pid p)"
  shows "\<exists>res log. ThawWith h hook rec [] = ((res, None), log) \<and> after on_disk (Some rec) log = None \<and>
    sx_Gone res = filter (unreadable h) (map px_Pid (su_Seats rec @ [su_Server rec])) \<and>
    (\<forall>pid\<in>pids rec. sent SIGCONT log pid \<longleftrightarrow> \<not> unreadable h pid)"
proof -
  obtain still log where t: "ThawWith h hook rec [] =
      ((\<lparr>sx_Gone = filter (unreadable h) (map px_Pid (su_Seats rec @ [su_Server rec])), sx_StillStopped = still\<rparr>, None), log)"
    using mixed_thaw[OF assms] by blast
  have "\<forall>pid\<in>pids rec. sent SIGCONT log pid \<longleftrightarrow> \<not> unreadable h pid"
    using ThawWith_accounts[OF t] ThawWith_readable[OF t] by (auto simp: unreadable_iff split: if_splits)
  with t ThawWith_accounts[OF t] show ?thesis by auto
qed

section \<open>A small fleet\<close>

text \<open>The server 10 and the seats 20 and 30; in the second host the pid 30 cannot be read.\<close>

definition fleet_id :: "int \<Rightarrow> Identity" where
  "fleet_id pid = \<lparr>id_Start = ''t1'', id_Exe = ''agent'', id_Argv = [''agent''], id_Pgid = pid, id_Ppid = 10\<rparr>"

definition fleet_rec :: SuspendRecord where
  "fleet_rec = \<lparr>su_State = StateNew, su_Actor = ''op'', su_Source = ''cli'', su_Since = 0,
     su_Server = \<lparr>px_Pid = 10, px_Identity = fleet_id 10\<rparr>,
     su_Seats = [\<lparr>px_Pid = 20, px_Identity = fleet_id 20\<rparr>, \<lparr>px_Pid = 30, px_Identity = fleet_id 30\<rparr>]\<rparr>"

definition fleet_host :: "(int \<Rightarrow> read_result) \<Rightarrow> freezer" where
  "fleet_host rd = \<lparr>ho_read = (\<lambda>_. rd), ho_kill = (\<lambda>_ _ _. KillOk), ho_stopped = (\<lambda>_ _. Some True), ho_save = (\<lambda>_ _. Stored),
     ho_clear = (\<lambda>_. Stored), ho_rewalk = (\<lambda>_ _. Some []), ho_hook = (\<lambda>_ _. True)\<rparr>"

definition fleet_ok :: freezer where
  "fleet_ok = fleet_host (\<lambda>pid. ReadOk (fleet_id pid))"

definition fleet_30_unreadable :: freezer where
  "fleet_30_unreadable = fleet_host (\<lambda>pid. if pid = 30 then ReadErr [] else ReadOk (fleet_id pid))"

definition fleet_log :: slog where
  "fleet_log = snd (FreezeWith fleet_ok True fleet_rec [])"

theorem suspend_signals_what_is_recorded_witness:
  "\<exists>before' live disk p. take 5 fleet_log = before' @ [Read 10 (ReadOk live)] \<and> 1 < (10::int) \<and> 10 \<le> (2147483647::int) \<and>
    after on_disk None (take 5 fleet_log) = Some disk \<and> p \<in> set (su_Server disk # su_Seats disk) \<and> px_Pid p = 10 \<and> sameIdentity live (px_Identity p)"
proof -
  have split: "fleet_log = take 5 fleet_log @ Kill 10 SIGSTOP KillOk # drop 6 fleet_log" by code_simp
  have run: "FreezeWith fleet_ok True fleet_rec [] = (fst (FreezeWith fleet_ok True fleet_rec []), fleet_log)" by (simp add: fleet_log_def)
  show ?thesis by (rule suspend_signals_what_is_recorded[OF disjI1[OF run] split]) simp
qed

theorem freeze_all_or_nothing_witness:
  "frozen (fleet_rec\<lparr>su_State := StateSuspended\<rparr>) (gone_only []) fleet_log \<and> last fleet_log = Own (Save (fleet_rec\<lparr>su_State := StateSuspended\<rparr>) Stored)"
proof -
  have "FreezeWith fleet_ok True fleet_rec [] = ((fleet_rec\<lparr>su_State := StateSuspended\<rparr>, gone_only [], None), fleet_log)" by code_simp
  from freeze_all_or_nothing[OF this] show ?thesis by simp
qed

theorem thaw_leaves_no_one_behind_witness:
  "\<exists>log. ThawWith fleet_ok True (fleet_rec\<lparr>su_State := StateSuspended\<rparr>) [] = ((\<lparr>sx_Gone = [], sx_StillStopped = [20, 30, 10]\<rparr>, None), log) \<and>
    sent SIGCONT log 10 \<and> sent SIGCONT log 20 \<and> sent SIGCONT log 30 \<and> \<not> sent SIGCONT log 40"
proof -
  define log where "log = snd (ThawWith fleet_ok True (fleet_rec\<lparr>su_State := StateSuspended\<rparr>) [])"
  have run: "ThawWith fleet_ok True (fleet_rec\<lparr>su_State := StateSuspended\<rparr>) [] = ((\<lparr>sx_Gone = [], sx_StillStopped = [20, 30, 10]\<rparr>, None), log)"
    unfolding log_def by code_simp
  have "pids (fleet_rec\<lparr>su_State := StateSuspended\<rparr>) = {10, 20, 30}" by (auto simp: pids_def procs_def fleet_rec_def)
  with thaw_leaves_no_one_behind[OF run] have "sent SIGCONT log 10 \<and> sent SIGCONT log 20 \<and> sent SIGCONT log 30 \<and> \<not> sent SIGCONT log 40" by auto
  with run show ?thesis by blast
qed

theorem freeze_then_thaw_witness:
  "\<exists>log res log'. Freeze fleet_ok fleet_rec [] = ((fleet_rec\<lparr>su_State := StateSuspended\<rparr>, gone_only [], None), log) \<and>
    ThawWith fleet_ok True (fleet_rec\<lparr>su_State := StateSuspended\<rparr>) [] = ((res, None), log') \<and> sx_Gone res = []"
  using freeze_then_thaw[of fleet_ok fleet_rec fleet_ok True]
  by (auto simp: steady_def fleet_ok_def fleet_host_def fleet_rec_def procs_def checkPids_def CheckPid_def fleet_id_def)

theorem unreadable_seat_is_left_stopped_witness:
  "\<exists>res log. ThawWith fleet_30_unreadable True (fleet_rec\<lparr>su_State := StateSuspended\<rparr>) [] = ((res, None), log) \<and> sx_Gone res = [30] \<and>
    \<not> sent SIGCONT log 30 \<and> sent SIGCONT log 20 \<and> after on_disk (Some (fleet_rec\<lparr>su_State := StateSuspended\<rparr>)) log = None"
proof -
  let ?rec = "fleet_rec\<lparr>su_State := StateSuspended\<rparr>" and ?h = fleet_30_unreadable
  have u: "unreadable ?h pid \<longleftrightarrow> pid = 30" for pid by (simp add: unreadable_def fleet_30_unreadable_def fleet_host_def)
  have "store_works ?h" "su_State ?rec = StateSuspended" "checkPids ?rec"
    by (simp_all add: store_works_def fleet_30_unreadable_def fleet_host_def fleet_rec_def checkPids_def CheckPid_def)
  moreover have "\<forall>p\<in>set (su_Seats ?rec @ [su_Server ?rec]). good ?h p \<or> unreadable ?h (px_Pid p)"
    unfolding u by (simp add: good_def fleet_rec_def fleet_30_unreadable_def fleet_host_def CheckPid_def fleet_id_def)
  moreover have "pids ?rec = {10, 20, 30}" by (auto simp: pids_def procs_def fleet_rec_def)
  moreover have "filter (unreadable ?h) (map px_Pid (su_Seats ?rec @ [su_Server ?rec])) = [30]" by (simp add: u fleet_rec_def)
  ultimately show ?thesis using unreadable_seat_is_left_stopped[of ?h ?rec True] u by auto
qed

end
