(* ===== verification/Collect.thy ===== *)
theory Collect
  imports Suspend_Properties
begin

text \<open>
  The processes a suspend records (\<open>internal/suspend/collect.go\<close>): every pane process with its descendants,
  minus the tmux server, the daemon with its ancestors and everything it started, and the command
  line that asked with its ancestors.

  What tmux, the process table and the identity reader answer is passed in, anew for the walk and the
  re-walk. \<open>ParseTable\<close>, which splits the output of \<open>ps\<close>, is left out. The two searches are one function here:
  a list of processes still to visit, taken from the front. The daemon's subtree is read as a set only,
  so that its stack is emptied from the other end makes no difference.
\<close>

section \<open>The process table\<close>

record Row =
  ro_Pid :: int
  ro_Ppid :: int

record Collector =
  co_Daemon :: int
  co_CLI :: int
  co_SeatPids :: "int list"
  co_roots :: "int list"

datatype CollectError = ErrNoServer | ErrPanes | ErrTable | ErrCallerIsASeat | ErrSeatInDaemonSubtree | ErrNoRoots

text \<open>A later row of a pid wins, and an unknown pid has parent 0.\<close>

definition parent_of :: "Row list \<Rightarrow> int \<Rightarrow> int" where
  "parent_of rows pid = (case find (\<lambda>r. ro_Pid r = pid) (rev rows) of Some r \<Rightarrow> ro_Ppid r | None \<Rightarrow> 0)"

definition kids_of :: "Row list \<Rightarrow> int \<Rightarrow> int list" where
  "kids_of rows pid = map ro_Pid (filter (\<lambda>r. ro_Ppid r = pid) rows)"

text \<open>The loop over the ancestors, bounded by the number of rows plus one.\<close>

fun ancestor_loop :: "Row list \<Rightarrow> nat \<Rightarrow> int \<Rightarrow> int list" where
  "ancestor_loop rows 0 pid = []"
| "ancestor_loop rows (Suc n) pid = (if pid \<le> 1 then [] else pid # ancestor_loop rows n (parent_of rows pid))"

definition ancestors :: "Row list \<Rightarrow> int \<Rightarrow> int list" where
  "ancestors rows pid = ancestor_loop rows (length rows + 1) pid"

section \<open>The search\<close>

lemma kids_known: "set (kids_of rows p) \<subseteq> ro_Pid ` set rows"
  by (auto simp: kids_of_def)

function visit :: "Row list \<Rightarrow> int list \<Rightarrow> int list \<Rightarrow> int list" where
  "visit rows seen [] = []"
| "visit rows seen (p # todo) =
     (if p \<in> set seen then visit rows seen todo else p # visit rows (p # seen) (kids_of rows p @ todo))"
  by pat_completeness auto

termination
proof (relation "measures [\<lambda>(rows, seen, todo). card ((ro_Pid ` set rows \<union> set todo) - set seen), \<lambda>(_, _, todo). length todo]")
  fix rows :: "Row list" and seen todo :: "int list" and p
  assume p: "p \<notin> set seen"
  have sub: "(ro_Pid ` set rows \<union> set (kids_of rows p @ todo)) - set (p # seen) \<subset> (ro_Pid ` set rows \<union> set (p # todo)) - set seen"
    using p kids_known[of rows p] by auto
  then show "((rows, p # seen, kids_of rows p @ todo), rows, seen, p # todo)
      \<in> measures [\<lambda>(rows, seen, todo). card ((ro_Pid ` set rows \<union> set todo) - set seen), \<lambda>(_, _, todo). length todo]"
    using psubset_card_mono[OF _ sub] by simp
next
  fix rows :: "Row list" and seen todo :: "int list" and p
  assume p: "p \<in> set seen"
  then have "(ro_Pid ` set rows \<union> set (p # todo)) - set seen = (ro_Pid ` set rows \<union> set todo) - set seen" by auto
  then show "((rows, seen, todo), rows, seen, p # todo)
      \<in> measures [\<lambda>(rows, seen, todo). card ((ro_Pid ` set rows \<union> set todo) - set seen), \<lambda>(_, _, todo). length todo]"
    by simp
qed simp

section \<open>The walk\<close>

definition daemon_subtree :: "Collector \<Rightarrow> Row list \<Rightarrow> int list" where
  "daemon_subtree c rows = (if 1 < co_Daemon c then visit rows [] [co_Daemon c] else [])"

text \<open>What is never recorded.\<close>

definition skipped :: "Collector \<Rightarrow> Row list \<Rightarrow> int \<Rightarrow> int list" where
  "skipped c rows serverPid =
     serverPid # (if 1 < co_Daemon c then ancestors rows (co_Daemon c) else []) @ daemon_subtree c rows
     @ (if 1 < co_CLI c then ancestors rows (co_CLI c) else [])"

fun identify_all :: "(int \<Rightarrow> Identity option) \<Rightarrow> int list \<Rightarrow> Proc list" where
  "identify_all idf [] = []"
| "identify_all idf (p # ps) =
     (case idf p of None \<Rightarrow> identify_all idf ps | Some i \<Rightarrow> \<lparr>px_Pid = p, px_Identity = i\<rparr> # identify_all idf ps)"

definition walk :: "Collector \<Rightarrow> Row list option \<Rightarrow> (int \<Rightarrow> Identity option) \<Rightarrow> int \<Rightarrow> int list \<Rightarrow> bool \<Rightarrow> CollectError + Proc \<times> Proc list" where
  "walk c table idf serverPid panes checkCaller =
     (case table of
        None \<Rightarrow> Inl ErrTable
      | Some rows \<Rightarrow>
          let subtree = daemon_subtree c rows; skip = skipped c rows serverPid
          in if 1 < co_CLI c \<and> checkCaller \<and> co_SeatPids c \<noteq> [] \<and> list_ex (\<lambda>p. p \<in> set (co_SeatPids c)) (ancestors rows (co_CLI c))
             then Inl ErrCallerIsASeat
             else if serverPid \<in> set subtree then Inl ErrSeatInDaemonSubtree
             else if list_ex (\<lambda>p. p \<in> set subtree) panes then Inl ErrSeatInDaemonSubtree
             else case idf serverPid of
               None \<Rightarrow> Inl ErrNoServer
             | Some i \<Rightarrow> Inr (\<lparr>px_Pid = serverPid, px_Identity = i\<rparr>,
                              identify_all idf (filter (\<lambda>p. p \<notin> set skip) (visit rows [] panes))))"

text \<open>The time 0 is the zero time: the caller sets it, with the actor and the source.\<close>

definition CollectProcs :: "Collector \<Rightarrow> int option \<Rightarrow> int list option \<Rightarrow> Row list option \<Rightarrow> (int \<Rightarrow> Identity option) \<Rightarrow>
    (CollectError + SuspendRecord) \<times> Collector" where
  "CollectProcs c server panes table idf =
     (case server of
        None \<Rightarrow> (Inl ErrNoServer, c)
      | Some serverPid \<Rightarrow>
      case panes of
        None \<Rightarrow> (Inl ErrPanes, c)
      | Some ps \<Rightarrow>
      case walk c table idf serverPid ps True of
        Inl e \<Rightarrow> (Inl e, c)
      | Inr (srv, seats) \<Rightarrow>
          (Inr \<lparr>su_State = StateNew, su_Actor = [], su_Source = [], su_Since = 0, su_Server = srv, su_Seats = seats\<rparr>, c\<lparr>co_roots := ps\<rparr>))"

text \<open>tmux lists no pane as a nil slice, so an empty list here is the nil the code tests.\<close>

definition Rewalk :: "Collector \<Rightarrow> Row list option \<Rightarrow> (int \<Rightarrow> Identity option) \<Rightarrow> SuspendRecord \<Rightarrow> CollectError + Proc list" where
  "Rewalk c table idf rec =
     (if co_roots c = [] then Inl ErrNoRoots
      else case walk c table idf (px_Pid (su_Server rec)) (co_roots c) False of
        Inl e \<Rightarrow> Inl e
      | Inr (_, seats) \<Rightarrow> Inr (filter (\<lambda>s. px_Pid s \<noteq> px_Pid (su_Server rec) \<and> px_Pid s \<notin> px_Pid ` set (su_Seats rec)) seats))"

section \<open>The search finds the descendants\<close>

definition child_of :: "Row list \<Rightarrow> (int \<times> int) set" where
  "child_of rows = {(p, k). k \<in> set (kids_of rows p)}"

text \<open>Nothing is visited twice, and everything visited comes from the list.\<close>

lemma visit_distinct: "distinct (visit rows seen todo) \<and> set (visit rows seen todo) \<inter> set seen = {}"
  by (induction rows seen todo rule: visit.induct) auto

lemma visit_sound: "q \<in> set (visit rows seen todo) \<Longrightarrow> \<exists>p\<in>set todo. (p, q) \<in> (child_of rows)\<^sup>*"
proof (induction rows seen todo rule: visit.induct)
  case (2 rows seen p todo)
  show ?case
  proof (cases "p \<in> set seen \<or> q = p")
    case False
    with 2 obtain r where r: "r \<in> set (kids_of rows p) \<union> set todo" "(r, q) \<in> (child_of rows)\<^sup>*" by auto
    show ?thesis
    proof (cases "r \<in> set todo")
      case False
      with r(1) have "(p, r) \<in> child_of rows" by (simp add: child_of_def)
      then have "(p, q) \<in> (child_of rows)\<^sup>*" using r(2) by (rule converse_rtrancl_into_rtrancl)
      then show ?thesis by simp
    qed (use r in auto)
  qed (use 2 in auto)
qed simp

text \<open>What is visited, with what was seen, is closed under children, when the children of what was seen are
  still on the list.\<close>

lemma visit_closed:
  assumes "\<forall>p\<in>set seen. \<forall>k. (p, k) \<in> child_of rows \<longrightarrow> k \<in> set seen \<union> set todo"
  shows "set todo \<subseteq> set seen \<union> set (visit rows seen todo) \<and>
    (\<forall>p\<in>set seen \<union> set (visit rows seen todo). \<forall>k. (p, k) \<in> child_of rows \<longrightarrow> k \<in> set seen \<union> set (visit rows seen todo))"
  using assms
proof (induction rows seen todo rule: visit.induct)
  case (2 rows seen p todo)
  show ?case
  proof (cases "p \<in> set seen")
    case True
    with 2 show ?thesis by auto
  next
    case False
    have "\<forall>x\<in>set (p # seen). \<forall>k. (x, k) \<in> child_of rows \<longrightarrow> k \<in> set (p # seen) \<union> set (kids_of rows p @ todo)"
      using "2.prems" by (auto simp: child_of_def)
    from "2.IH"(2)[OF False this] False show ?thesis by auto
  qed
qed auto

lemma visit_exact: "set (visit rows [] todo) = {q. \<exists>p\<in>set todo. (p, q) \<in> (child_of rows)\<^sup>*}"
proof
  show "set (visit rows [] todo) \<subseteq> {q. \<exists>p\<in>set todo. (p, q) \<in> (child_of rows)\<^sup>*}" using visit_sound by blast
  have start: "set todo \<subseteq> set (visit rows [] todo)"
    and step: "\<And>p k. p \<in> set (visit rows [] todo) \<Longrightarrow> (p, k) \<in> child_of rows \<Longrightarrow> k \<in> set (visit rows [] todo)"
    using visit_closed[of "[]" rows todo] by auto
  have "q \<in> set (visit rows [] todo)" if "(p, q) \<in> (child_of rows)\<^sup>*" "p \<in> set todo" for p q
    using that by (induction rule: rtrancl_induct) (use start step in auto)
  then show "{q. \<exists>p\<in>set todo. (p, q) \<in> (child_of rows)\<^sup>*} \<subseteq> set (visit rows [] todo)" by auto
qed

end
