(* ===== verification/Collect_Properties.thy ===== *)
theory Collect_Properties
  imports Collect
begin

text \<open>
  A collection records exactly the descendants of the panes that are not excluded, and the bound of the
  ancestor loop loses none (\<open>collect_records_exactly\<close>); so a suspend signals neither the daemon nor what
  it started (\<open>suspend_spares_daemon\<close>).
\<close>

section \<open>Ancestors\<close>

definition is_ancestor :: "Row list \<Rightarrow> int \<Rightarrow> int \<Rightarrow> bool" where
  "is_ancestor rows pid q \<longleftrightarrow> (\<exists>i. (parent_of rows ^^ i) pid = q \<and> (\<forall>j\<le>i. 1 < (parent_of rows ^^ j) pid))"

lemma all_le_Suc: "(\<forall>j\<le>Suc i. Q j) \<longleftrightarrow> Q 0 \<and> (\<forall>j\<le>i. Q (Suc j))"
  by (metis Suc_le_mono le0 not0_implies_Suc)

lemma ancestor_loop_iff:
  "q \<in> set (ancestor_loop rows n pid) \<longleftrightarrow> (\<exists>i<n. (parent_of rows ^^ i) pid = q \<and> (\<forall>j\<le>i. 1 < (parent_of rows ^^ j) pid))"
proof (induction n arbitrary: pid)
  case (Suc n)
  show ?case unfolding Ex_less_Suc2 all_le_Suc funpow_Suc_right comp_def by (auto simp: Suc.IH)
qed simp

lemma parent_known: "parent_of rows p \<noteq> 0 \<Longrightarrow> p \<in> ro_Pid ` set rows"
  by (auto simp: parent_of_def find_Some_iff split: option.splits) (metis nth_mem image_eqI set_rev length_rev)

text \<open>As many steps as rows, and one, are enough: the way to an ancestor need not repeat a process, and every process
  on it but the last has a row.\<close>

lemma ancestors_iff: "q \<in> set (ancestors rows pid) \<longleftrightarrow> is_ancestor rows pid q"
proof
  let ?f = "parent_of rows"
  let ?P = "\<lambda>i. (?f ^^ i) pid = q \<and> (\<forall>j\<le>i. 1 < (?f ^^ j) pid)"
  assume "is_ancestor rows pid q"
  then have ex: "\<exists>i. ?P i" by (simp add: is_ancestor_def)
  define i where "i = (LEAST i. ?P i)"
  have P: "?P i" unfolding i_def by (rule LeastI_ex[OF ex])
  have least: "i \<le> k" if "?P k" for k unfolding i_def using that by (rule Least_le)
  have inj: "inj_on (\<lambda>j. (?f ^^ j) pid) {..<i}"
  proof (rule linorder_inj_onI')
    fix j k assume jk: "j \<in> {..<i}" "k \<in> {..<i}" "j < k"
    show "(?f ^^ j) pid \<noteq> (?f ^^ k) pid"
    proof
      assume eq: "(?f ^^ j) pid = (?f ^^ k) pid"
      have "(?f ^^ (i - k + j)) pid = (?f ^^ (i - k)) ((?f ^^ k) pid)" by (simp add: funpow_add eq)
      also have "\<dots> = (?f ^^ i) pid" using jk by (metis comp_apply funpow_add le_add_diff_inverse2 lessThan_iff less_imp_le)
      finally have "?P (i - k + j)" using P jk by auto
      from least[OF this] jk show False by auto
    qed
  qed
  have "(\<lambda>j. (?f ^^ j) pid) ` {..<i} \<subseteq> ro_Pid ` set rows"
  proof
    fix x assume "x \<in> (\<lambda>j. (?f ^^ j) pid) ` {..<i}"
    then obtain j where j: "j < i" "x = (?f ^^ j) pid" by auto
    with P have "1 < ?f x" by (metis Suc_leI comp_apply funpow.simps(2))
    then show "x \<in> ro_Pid ` set rows" by (intro parent_known) auto
  qed
  then have "i \<le> card (ro_Pid ` set rows)" using card_inj_on_le[OF inj] by auto
  also have "\<dots> \<le> length rows" by (metis card_image_le card_length finite_set le_trans)
  finally have "i < length rows + 1" by simp
  with P show "q \<in> set (ancestors rows pid)" unfolding ancestors_def ancestor_loop_iff by blast
qed (use ancestor_loop_iff[of q rows "length rows + 1" pid] in \<open>auto simp: ancestors_def is_ancestor_def\<close>)

section \<open>What is recorded\<close>

lemma identify_all_pids: "map px_Pid (identify_all idf ps) = filter (\<lambda>p. idf p \<noteq> None) ps"
  by (induction ps) (auto split: option.splits)

lemma identify_all_ids: "p \<in> set (identify_all idf ps) \<Longrightarrow> idf (px_Pid p) = Some (px_Identity p)"
  by (induction ps) (auto split: option.splits)

text \<open>The daemon with its ancestors and everything it started, and the caller with its ancestors.\<close>

definition excluded :: "Collector \<Rightarrow> Row list \<Rightarrow> int \<Rightarrow> bool" where
  "excluded c rows q \<longleftrightarrow>
     1 < co_Daemon c \<and> (is_ancestor rows (co_Daemon c) q \<or> (co_Daemon c, q) \<in> (child_of rows)\<^sup>*) \<or>
     1 < co_CLI c \<and> is_ancestor rows (co_CLI c) q"

lemma daemon_subtree_iff: "q \<in> set (daemon_subtree c rows) \<longleftrightarrow> 1 < co_Daemon c \<and> (co_Daemon c, q) \<in> (child_of rows)\<^sup>*"
  using visit_exact[of rows "[co_Daemon c]"] by (auto simp: daemon_subtree_def simp del: visit.simps)

lemma skipped_iff: "q \<in> set (skipped c rows serverPid) \<longleftrightarrow> q = serverPid \<or> excluded c rows q"
  by (auto simp: skipped_def excluded_def daemon_subtree_iff ancestors_iff)

lemma walk_exact:
  assumes "walk c table idf serverPid panes checkCaller = Inr (srv, seats)"
  obtains rows where "table = Some rows" "px_Pid srv = serverPid" "idf serverPid = Some (px_Identity srv)" "serverPid \<notin> set (daemon_subtree c rows)"
    "distinct (map px_Pid seats)" "\<forall>p\<in>set seats. idf (px_Pid p) = Some (px_Identity p)"
    "px_Pid ` set seats = {q. (\<exists>p\<in>set panes. (p, q) \<in> (child_of rows)\<^sup>*) \<and> q \<noteq> serverPid \<and> \<not> excluded c rows q \<and> idf q \<noteq> None}"
proof -
  obtain rows i where w: "table = Some rows" "idf serverPid = Some i" "srv = \<lparr>px_Pid = serverPid, px_Identity = i\<rparr>" "serverPid \<notin> set (daemon_subtree c rows)"
    "seats = identify_all idf (filter (\<lambda>p. p \<notin> set (skipped c rows serverPid)) (visit rows [] panes))"
    using assms by (auto simp: walk_def Let_def split: option.splits if_splits)
  have "distinct (map px_Pid seats)" unfolding w(5) identify_all_pids using visit_distinct[of rows "[]" panes] by simp
  moreover have "px_Pid ` set seats = set (map px_Pid seats)" by simp
  then have "px_Pid ` set seats = {q. (\<exists>p\<in>set panes. (p, q) \<in> (child_of rows)\<^sup>*) \<and> q \<noteq> serverPid \<and> \<not> excluded c rows q \<and> idf q \<noteq> None}"
    unfolding w(5) identify_all_pids using visit_exact[of rows panes] by (auto simp: skipped_iff)
  moreover have "\<forall>p\<in>set seats. idf (px_Pid p) = Some (px_Identity p)" using w(5) identify_all_ids by auto
  ultimately show thesis using that w by simp
qed

section \<open>What a freeze may signal\<close>

text \<open>\<open>aims S log log'\<close>: every signal in the stretch goes to a pid of \<open>S\<close>.\<close>

definition keep :: "int set \<Rightarrow> own_call \<Rightarrow> int set" where
  "keep S a = S"

definition aimed :: "int set \<Rightarrow> int \<Rightarrow> Identity \<Rightarrow> bool" where
  "aimed S pid live \<longleftrightarrow> pid \<in> S"

interpretation target: suspend_client keep aimed
  by unfold_locales (auto simp: keep_def aimed_def)

abbreviation aims :: "int set \<Rightarrow> slog \<Rightarrow> slog \<Rightarrow> bool" where
  "aims S log log' \<equiv> grows keep aimed S log log' S"

lemmas aims_trans [trans] = grows_trans[of keep aimed S _ _ S _ S for S]
  and aims_SignalChild = target.grows_SignalChild
  and aims_resume_all = target.grows_resume_all
  and aims_stop_all = target.grows_stop_all

lemma after_keep [simp]: "after keep S log = S"
  by (induction keep S log rule: after.induct) (auto simp: keep_def)

lemma aims_Own: "aims S log (log @ [Own a])"
  using grows_Own[of keep aimed S log a] by (simp add: keep_def)

lemma aims_Save: "store_Save h rec log = (ok, log') \<Longrightarrow> aims S log log'"
  by (auto simp: store_Save_def Let_def intro: aims_Own)

lemma aims_rollback:
  assumes "rollback h server seats cause log = (e, log')" and "ch_pid ` set (server # seats) \<subseteq> S"
  shows "aims S log log'"
proof -
  obtain failed log1 ok where *: "resume_all h (seats @ [server]) log = (failed, log1)" "store_Clear h log1 = (ok, log')"
    using assms(1) by (auto simp: rollback_def split: prod.splits)
  have "aims S log1 log'" using *(2) by (auto simp: store_Clear_def Let_def intro: aims_Own)
  with aims_resume_all[OF *(1)] assms(2) show ?thesis by (auto simp: aimed_def intro: aims_trans)
qed

lemma aims_freeze_seats:
  assumes "freeze_seats h rec server seats gone log = (r, log')" and S: "ch_pid ` set (server # seats) \<subseteq> S"
  shows "aims S log log'"
proof -
  obtain bad live gone1 log1 where stop: "stop_all h seats log = ((bad, live, gone1), log1)" by (metis prod_cases3 surj_pair)
  obtain bad2 live2 gone2 log2 where round1: "read_round h server live log1 = ((bad2, live2, gone2), log2)" by (metis prod_cases3 surj_pair)
  obtain bad3 live3 gone3 log3 where round2: "read_round h server live2 log2 = ((bad3, live3, gone3), log3)" by (metis prod_cases3 surj_pair)
  have r1: "aims S log log1" using aims_stop_all[OF stop] S by (auto simp: aimed_def)
  have r2: "aims S log log2" by (rule aims_trans[OF r1 target.grows_read_round[OF round1]])
  have r3: "aims S log log3" by (rule aims_trans[OF r2 target.grows_read_round[OF round2]])
  have undo: "aims S log log'" if "aims S log log0" "rollback h server live cause log0 = (e, log')" for log0 cause e
    using aims_trans[OF that(1) aims_rollback[OF that(2)]] stop_all_live[OF stop] S by auto
  consider log0 cause e where "aims S log log0" "rollback h server live cause log0 = (e, log')"
    | rec1 ok where "store_Save h rec1 log3 = (ok, log')"
    using assms(1) r1 r2 r3 by (auto simp: freeze_seats_def stop round1 round2 Let_def split: option.splits prod.splits)
  then show ?thesis by cases (auto intro: undo aims_trans[OF r3 aims_Save])
qed

lemma quiet_aims:
  assumes "quiet log log'"
  shows "aims S log log'"
proof -
  obtain seg where "log' = log @ seg" "\<forall>p sig k. Kill p sig k \<notin> set seg" using assms by (auto simp: quiet_def)
  then show ?thesis by (auto simp: grows_def guarded_silent)
qed

text \<open>The processes a re-walk may answer with.\<close>

definition rewalks :: "freezer \<Rightarrow> int set" where
  "rewalks h = {px_Pid p | p ps n rec. ho_rewalk h n rec = Some ps \<and> p \<in> set ps}"

lemma aims_freeze_fresh:
  assumes "freeze_fresh h rec server seats gone log = (r, log')" and S: "ch_pid ` set (server # seats) \<union> rewalks h \<subseteq> S"
  shows "aims S log log'"
  using assms(1)
proof (cases rule: freeze_fresh_cases)
  case (undone log1 cause e)
  show ?thesis by (rule aims_trans[OF quiet_aims[OF undone(5)] aims_rollback[OF undone(1)]]) (use S in auto)
next
  case (stopping log1 rec1 added new gone1 fresh)
  have "ch_pid ` set added = px_Pid ` set new" using stopping(3) by (rule proved_pids)
  also have "\<dots> \<subseteq> rewalks h" using stopping(7,8) by (force simp: rewalks_def)
  finally show ?thesis by (intro aims_trans[OF quiet_aims[OF stopping(6)] aims_freeze_seats[OF stopping(1)]]) (use S in auto)
qed

lemma aims_freeze_server:
  assumes "freeze_server h rewalk rec server seats gone log = (r, log')" and S: "ch_pid ` set (server # seats) \<union> rewalks h \<subseteq> S"
  shows "aims S log log'"
proof -
  obtain e log1 where sg: "SignalChild h server SIGSTOP False log = (e, log1)" by (metis surj_pair)
  have "aims S log log1" using aims_SignalChild[OF sg] S by (auto simp: aimed_def)
  moreover consider cause er where "rollback h server [] cause log1 = (er, log')"
    | "freeze_fresh h rec server seats gone log1 = (r, log')" | "freeze_seats h rec server seats gone log1 = (r, log')"
    using assms(1) by (auto simp: freeze_server_def sg split: option.splits prod.splits if_splits)
  then have "aims S log1 log'"
  proof cases
    case 1
    then show ?thesis by (rule aims_rollback) (use S in auto)
  next
    case 2
    then show ?thesis using S by (rule aims_freeze_fresh)
  next
    case 3
    then show ?thesis by (rule aims_freeze_seats) (use S in auto)
  qed
  ultimately show ?thesis by (rule aims_trans)
qed

lemma aims_FreezeWith:
  assumes "FreezeWith h rewalk rec log = ((rec', res, e), log')"
  shows "aims (pids rec \<union> rewalks h) log log'"
  using assms
proof (cases rule: FreezeWith_cases)
  case (proved server log1 seats kept gone log2 log3 ok rec1)
  have q: "quiet log log3"
    by (rule quiet_trans[OF quiet_trans[OF quiet_Prove[OF proved(1)] quiet_prove_all[OF proved(2)]] quiet_store_Save[OF proved(4)]])
  have "ch_pid ` set (server # seats) \<subseteq> pids rec"
    using proved(5) proved_pids[OF proved(6)] proved(3,7) by (auto simp: pids_def procs_def proved_def)
  then have "aims (pids rec \<union> rewalks h) log3 log'" if ok
    using aims_freeze_server[OF proved(8)[OF that]] by auto
  then show ?thesis using aims_trans[OF quiet_aims[OF q]] quiet_aims[OF q] proved(9) by (cases ok) auto
qed (auto intro: target.grows_Prove)

lemma aims_signal:
  assumes "aims S [] log" and "Kill pid sig k \<in> set log" and "sig \<noteq> SIG0"
  shows "pid \<in> S"
proof -
  obtain pre post where "log = pre @ Kill pid sig k # post" using split_list[OF assms(2)] by blast
  moreover have "guarded keep aimed S log" using assms(1) by (simp add: grows_def)
  ultimately show ?thesis using guardedD[of keep aimed S log pre pid sig k post] assms(3) by (auto simp: aimed_def)
qed

section \<open>Properties\<close>

text \<open>C10. A collection is exact. The record it returns holds the tmux server and, once each and with the identity just
  read, exactly the processes that descend from a pane (a pane process included), are not the server, are
  neither the daemon, its ancestors or its descendants nor the caller or its ancestors, and could be
  identified. The walk to an ancestor is bounded by the number of rows plus one, and the bound loses none,
  even in a table with a cycle.\<close>

theorem collect_records_exactly:
  assumes "CollectProcs c server panes table idf = (Inr rec, c')"
  shows "\<exists>ps rows. panes = Some ps \<and> table = Some rows \<and> server = Some (px_Pid (su_Server rec)) \<and> su_State rec = StateNew \<and> c' = c\<lparr>co_roots := ps\<rparr> \<and>
    distinct (map px_Pid (su_Seats rec)) \<and> (\<forall>p\<in>set (su_Server rec # su_Seats rec). idf (px_Pid p) = Some (px_Identity p)) \<and>
    px_Pid ` set (su_Seats rec) = {q. (\<exists>p\<in>set ps. (p, q) \<in> (child_of rows)\<^sup>*) \<and> q \<noteq> px_Pid (su_Server rec) \<and>
      \<not> (1 < co_Daemon c \<and> (is_ancestor rows (co_Daemon c) q \<or> (co_Daemon c, q) \<in> (child_of rows)\<^sup>*)) \<and>
      \<not> (1 < co_CLI c \<and> is_ancestor rows (co_CLI c) q) \<and> idf q \<noteq> None}"
proof -
  obtain s ps srv seats where w: "server = Some s" "panes = Some ps" "walk c table idf s ps True = Inr (srv, seats)" "c' = c\<lparr>co_roots := ps\<rparr>"
    "rec = \<lparr>su_State = StateNew, su_Actor = [], su_Source = [], su_Since = 0, su_Server = srv, su_Seats = seats\<rparr>"
    using assms by (auto simp: CollectProcs_def split: option.splits sum.splits prod.splits)
  from w(3) show ?thesis by (rule walk_exact) (use w in \<open>auto simp: excluded_def\<close>)
qed

text \<open>C9. A suspend never signals the daemon that must answer the resume. Whatever process tables the collection and
  the re-walk read, a freeze of the collected record sends no signal to the daemon's own pid, and none to
  a process that both tables show as started by the daemon.\<close>

theorem suspend_spares_daemon:
  assumes "CollectProcs c server panes (Some rows) idf = (Inr rec, c')" and "1 < co_Daemon c"
    and rewalk: "\<forall>n r ps. ho_rewalk h n r = Some ps \<longrightarrow> Rewalk c' (Some (tables n)) (idfs n) r = Inr ps"
    and "FreezeWith h True (rec\<lparr>su_Actor := actor, su_Source := source, su_Since := since\<rparr>) [] = (r, log)"
    and "(co_Daemon c, q) \<in> (child_of rows)\<^sup>*" and "\<forall>n. (co_Daemon c, q) \<in> (child_of (tables n))\<^sup>*"
  shows "Kill q sig k \<in> set log \<longrightarrow> sig = SIG0"
proof (rule ccontr)
  assume "\<not> ?thesis"
  then have kill: "Kill q sig k \<in> set log" "sig \<noteq> SIG0" by auto
  obtain s ps srv seats where w: "server = Some s" "walk c (Some rows) idf s ps True = Inr (srv, seats)" "c' = c\<lparr>co_roots := ps\<rparr>"
    "su_Server rec = srv" "su_Seats rec = seats"
    using assms(1) by (auto simp: CollectProcs_def split: option.splits sum.splits prod.splits)
  obtain rec' res e where "r = (rec', res, e)" by (cases r)
  with assms(4) have "aims (pids (rec\<lparr>su_Actor := actor, su_Source := source, su_Since := since\<rparr>) \<union> rewalks h) [] log"
    by (auto intro: aims_FreezeWith)
  from aims_signal[OF this kill] consider "q \<in> pids rec" | "q \<in> rewalks h" by (auto simp: pids_def procs_def)
  then show False
  proof cases
    case 1
    from w(2) show False
      by (rule walk_exact) (use 1 w(4,5) assms(2,5) in \<open>auto simp: pids_def procs_def excluded_def daemon_subtree_iff\<close>)
  next
    case 2
    then obtain p ps' n r' where p: "q = px_Pid p" "ho_rewalk h n r' = Some ps'" "p \<in> set ps'" by (auto simp: rewalks_def)
    with rewalk have "Rewalk c' (Some (tables n)) (idfs n) r' = Inr ps'" by blast
    then obtain srv' seats' where v: "walk c' (Some (tables n)) (idfs n) (px_Pid (su_Server r')) (co_roots c') False = Inr (srv', seats')" "p \<in> set seats'"
      using p(3) by (auto simp: Rewalk_def split: sum.splits if_splits)
    from v(1) show False
      by (rule walk_exact) (use v(2) p(1) w(3) assms(2,6) in \<open>auto simp: excluded_def\<close>)
  qed
qed

section \<open>A small host\<close>

text \<open>The server 10 has the panes 20 and 30; the daemon 50 started 60; the caller is 71, in the shell 70.\<close>

definition host_rows :: "Row list" where
  "host_rows = map (\<lambda>(p, q). \<lparr>ro_Pid = p, ro_Ppid = q\<rparr>) [(10, 1), (20, 10), (30, 10), (31, 30), (50, 1), (60, 50), (70, 1), (71, 70)]"

definition host_collector :: Collector where
  "host_collector = \<lparr>co_Daemon = 50, co_CLI = 71, co_SeatPids = [20, 30], co_roots = []\<rparr>"

definition host_rec :: SuspendRecord where
  "host_rec = fleet_rec\<lparr>su_Actor := [], su_Source := [],
     su_Seats := map (\<lambda>p. \<lparr>px_Pid = p, px_Identity = fleet_id p\<rparr>) [20, 30, 31]\<rparr>"

lemma host_collect:
  "CollectProcs host_collector (Some 10) (Some [20, 30]) (Some host_rows) (\<lambda>p. Some (fleet_id p)) = (Inr host_rec, host_collector\<lparr>co_roots := [20, 30]\<rparr>)"
  by code_simp

definition host_freezer :: freezer where
  "host_freezer = fleet_ok\<lparr>ho_rewalk := (\<lambda>n r. case Rewalk (host_collector\<lparr>co_roots := [20, 30]\<rparr>) (Some host_rows) (\<lambda>p. Some (fleet_id p)) r of
     Inr ps \<Rightarrow> Some ps | Inl _ \<Rightarrow> None)\<rparr>"

theorem collect_records_exactly_witness:
  "31 \<in> px_Pid ` set (su_Seats host_rec) \<and> 60 \<notin> px_Pid ` set (su_Seats host_rec) \<and> \<not> is_ancestor host_rows 50 31 \<and> (50, 31) \<notin> (child_of host_rows)\<^sup>*"
proof -
  have seats: "px_Pid ` set (su_Seats host_rec) = {20, 30, 31}" by (auto simp: host_rec_def)
  have "31 \<in> px_Pid ` set (su_Seats host_rec)" by (simp add: seats)
  then have "\<not> is_ancestor host_rows 50 31 \<and> (50, 31) \<notin> (child_of host_rows)\<^sup>*"
    using collect_records_exactly[OF host_collect] by (auto simp: host_collector_def)
  then show ?thesis by (simp add: seats)
qed

theorem suspend_spares_daemon_witness:
  "Kill 60 SIGSTOP KillOk \<notin> set (snd (FreezeWith host_freezer True (host_rec\<lparr>su_Actor := ''op'', su_Source := ''cli'', su_Since := 0\<rparr>) []))"
proof -
  define run where "run = FreezeWith host_freezer True (host_rec\<lparr>su_Actor := ''op'', su_Source := ''cli'', su_Since := 0\<rparr>) []"
  have edge: "(50, 60) \<in> child_of host_rows" by (simp add: child_of_def kids_of_def host_rows_def)
  have "Kill 60 SIGSTOP KillOk \<in> set (snd run) \<longrightarrow> SIGSTOP = SIG0"
  proof (rule suspend_spares_daemon[OF host_collect, where r = "fst run" and h = host_freezer and tables = "\<lambda>_. host_rows" and idfs = "\<lambda>_ p. Some (fleet_id p)"])
    show "\<forall>n r ps. ho_rewalk host_freezer n r = Some ps \<longrightarrow> Rewalk (host_collector\<lparr>co_roots := [20, 30]\<rparr>) (Some host_rows) (\<lambda>p. Some (fleet_id p)) r = Inr ps"
      by (auto simp: host_freezer_def split: sum.splits)
    show "FreezeWith host_freezer True (host_rec\<lparr>su_Actor := ''op'', su_Source := ''cli'', su_Since := 0\<rparr>) [] = (fst run, snd run)" by (simp add: run_def)
  qed (use edge in \<open>auto simp: host_collector_def\<close>)
  then show ?thesis by (simp add: run_def)
qed

end
