(* ===== verification/Pause.thy ===== *)
theory Pause
  imports Health Suspend
begin

text \<open>
  What a resume does to the timers (\<open>internal/suspend/heartbeat.go\<close>, \<open>internal/team/pause.go\<close>,
  \<open>internal/team/tickring.go\<close> and \<open>applyPause\<close> of \<open>internal/daemon/suspend.go\<close>): every stamp a pause would
  trip moves forward by the length of the pause.

  The state is the controller with the two parts of it only these operations touch: the tick rings, in
  memory, one per session, and the span of the last suspend. The store of the daemon is the
  controller's store. The errors of the hook are the keys that could not be written.
\<close>

section \<open>Shifting a stamp\<close>

definition PauseOf :: "SuspendRecord \<Rightarrow> time \<Rightarrow> duration" where
  "PauseOf rec now = time_sub now (su_Since rec)"

definition ShiftedHeartbeat :: "time \<Rightarrow> duration \<Rightarrow> time \<Rightarrow> time" where
  "ShiftedHeartbeat seen pause now =
     (if is_zero seen \<or> pause \<le> 0 \<or> now < seen then seen
      else let shifted = seen + pause in if now < shifted then now else shifted)"

definition ShiftedDeadline :: "time \<Rightarrow> time \<Rightarrow> duration \<Rightarrow> time" where
  "ShiftedDeadline d since pause = (if is_zero d \<or> pause \<le> 0 \<or> \<not> since < d then d else d + pause)"

section \<open>Tick rings\<close>

definition TickRingWindow :: duration where "TickRingWindow = 15 * minute"

record tickSample =
  tk_at :: time
  tk_contextAt :: time

record TickRing =
  tr_samples :: "tickSample list"
  tr_since :: time

definition new_ring :: TickRing where
  "new_ring = \<lparr>tr_samples = [], tr_since = zero_time\<rparr>"

definition ring_Record :: "time \<Rightarrow> time \<Rightarrow> TickRing \<Rightarrow> TickRing" where
  "ring_Record at contextAt r =
     \<lparr>tr_samples = dropWhile (\<lambda>s. TickRingWindow \<le> time_sub at (tk_at s)) (tr_samples r @ [\<lparr>tk_at = at, tk_contextAt = contextAt\<rparr>]),
      tr_since = (if is_zero (tr_since r) then at else tr_since r)\<rparr>"

text \<open>The quiet test reads a session's \<open>ContextAt\<close> and nothing else.\<close>

definition sample_quiet :: "duration \<Rightarrow> tickSample \<Rightarrow> bool" where
  "sample_quiet window s \<longleftrightarrow> is_zero (tk_contextAt s) \<or> window < time_sub (tk_at s) (tk_contextAt s)"

definition ring_Counts :: "duration \<Rightarrow> time \<Rightarrow> TickRing \<Rightarrow> int \<times> int \<times> bool" where
  "ring_Counts window now r =
     (let recent = filter (\<lambda>s. \<not> TickRingWindow \<le> time_sub now (tk_at s)) (tr_samples r)
      in (int (length (filter (\<lambda>s. \<not> sample_quiet window s) recent)), int (length recent),
          \<not> is_zero (tr_since r) \<and> TickRingWindow \<le> time_sub now (tr_since r)))"

definition ring_Shift :: "duration \<Rightarrow> time \<Rightarrow> TickRing \<Rightarrow> TickRing" where
  "ring_Shift pause now r =
     \<lparr>tr_samples = map (\<lambda>s. \<lparr>tk_at = ShiftedHeartbeat (tk_at s) pause now, tk_contextAt = ShiftedHeartbeat (tk_contextAt s) pause now\<rparr>) (tr_samples r),
      tr_since = ShiftedHeartbeat (tr_since r) pause now\<rparr>"

section \<open>The controller's timers\<close>

record suspendWindow =
  sw_since :: time
  sw_end :: time
  sw_consumed :: "string set"

record Timers =
  tm_ctl :: Controller
  tm_rings :: "string \<rightharpoonup> TickRing"
  tm_clusterWindow :: duration
  tm_suspended :: suspendWindow

record ActiveTicks =
  at_Active :: int
  at_Total :: int
  at_Window :: duration
  at_Observable :: bool
  at_Full :: bool
  at_At :: time

definition recordTick :: "string \<Rightarrow> time \<Rightarrow> time \<Rightarrow> Timers \<Rightarrow> Timers" where
  "recordTick key at contextAt tm =
     (let r = (case tm_rings tm key of None \<Rightarrow> new_ring | Some r \<Rightarrow> r)
      in tm\<lparr>tm_rings := (tm_rings tm)(key \<mapsto> ring_Record at contextAt r)\<rparr>)"

definition dropRingsExcept :: "string set \<Rightarrow> Timers \<Rightarrow> Timers" where
  "dropRingsExcept seen tm = tm\<lparr>tm_rings := (tm_rings tm) |` seen\<rparr>"

definition ActiveTicksOf :: "string \<Rightarrow> duration \<Rightarrow> time \<Rightarrow> Timers \<Rightarrow> int \<times> int \<times> bool" where
  "ActiveTicksOf key window now tm = (case tm_rings tm key of None \<Rightarrow> (0, 0, False) | Some r \<Rightarrow> ring_Counts window now r)"

definition SetClusterQuietWindow :: "duration \<Rightarrow> Timers \<Rightarrow> Timers" where
  "SetClusterQuietWindow d tm = tm\<lparr>tm_clusterWindow := d\<rparr>"

definition ActivityOf :: "Session \<Rightarrow> time \<Rightarrow> Timers \<Rightarrow> ActiveTicks" where
  "ActivityOf sess now tm =
     (let role = (case GetTeam (c_store (tm_ctl tm)) (sess_Workspace sess @ ''/'' @ sess_Team sess) of
                    Inl _ \<Rightarrow> None
                  | Inr t \<Rightarrow> find_role t (sess_Role sess));
          window = QuietWindow role (tm_clusterWindow tm);
          out = \<lparr>at_Active = 0, at_Total = 0, at_Window = window, at_Observable = activityObservable sess role, at_Full = False, at_At = zero_time\<rparr>
      in case tm_rings tm (session_key sess) of
           None \<Rightarrow> out
         | Some r \<Rightarrow>
             let (active, total, full) = ring_Counts window now r
             in out\<lparr>at_Active := active, at_Total := total, at_Full := full,
                    at_At := (if tr_samples r = [] then zero_time else tk_at (last (tr_samples r)))\<rparr>)"

definition window_set :: "time \<Rightarrow> time \<Rightarrow> suspendWindow" where
  "window_set since until = \<lparr>sw_since = since, sw_end = until, sw_consumed = {}\<rparr>"

definition window_take :: "string \<Rightarrow> suspendWindow \<Rightarrow> (time \<times> time) option \<times> suspendWindow" where
  "window_take key w =
     (if is_zero (sw_since w) \<or> key \<in> sw_consumed w then (None, w)
      else (Some (sw_since w, sw_end w), w\<lparr>sw_consumed := insert key (sw_consumed w)\<rparr>))"

section \<open>The pause\<close>

definition ListScheduleStatus :: "Store \<Rightarrow> ScheduleStatus list" where
  "ListScheduleStatus s = map snd (st_scheduleStatus s)"

definition pause_status :: "duration \<Rightarrow> time \<Rightarrow> ScheduleStatus \<Rightarrow> ScheduleStatus \<times> bool" where
  "pause_status pause since st =
     (if ss_PauseAppliedSince st = since then (st, False)
      else (st\<lparr>ss_PausedSinceAnchor := ss_PausedSinceAnchor st + pause, ss_PauseAppliedSince := since,
               ss_RetryAfter := ShiftedDeadline (ss_RetryAfter st) since pause\<rparr>, True))"

fun status_step :: "commit_oracle \<Rightarrow> duration \<Rightarrow> time \<Rightarrow> Store \<times> string list \<Rightarrow> ScheduleStatus \<Rightarrow> Store \<times> string list" where
  "status_step commits pause since (s, errs) st =
     (case UpdateScheduleStatus commits (ss_Key st) (pause_status pause since) s of
        (s', _, None) \<Rightarrow> (s', errs)
      | (s', _, Some _) \<Rightarrow> (s', errs @ [ss_Key st]))"

definition shiftScheduleStatuses :: "commit_oracle \<Rightarrow> duration \<Rightarrow> time \<Rightarrow> Store \<Rightarrow> Store \<times> string list" where
  "shiftScheduleStatuses commits pause since store = foldl (status_step commits pause since) (store, []) (ListScheduleStatus store)"

definition pause_health :: "duration \<Rightarrow> time \<Rightarrow> time \<Rightarrow> RoleHealth \<Rightarrow> RoleHealth" where
  "pause_health pause since now rh =
     rh\<lparr>rh_BackoffUntil := (if rh_BackoffUntil rh = saturationFreezeUntil then rh_BackoffUntil rh else ShiftedDeadline (rh_BackoffUntil rh) since pause),
        rh_HealthySince := ShiftedHeartbeat (rh_HealthySince rh) pause now\<rparr>"

definition health_step :: "commit_oracle \<Rightarrow> duration \<Rightarrow> time \<Rightarrow> time \<Rightarrow> Controller \<Rightarrow> string \<times> RoleHealth \<Rightarrow> Controller" where
  "health_step commits pause since now c x =
     (let rh = pause_health pause since now (snd x) in persistRoleHealth commits (fst x) rh (set_health (fst x) rh c))"

definition shift_role_health :: "commit_oracle \<Rightarrow> duration \<Rightarrow> time \<Rightarrow> time \<Rightarrow> Controller \<Rightarrow> Controller" where
  "shift_role_health commits pause since now c = foldl (health_step commits pause since now) c (c_roleHealth c)"

definition ShiftForPause :: "commit_oracle \<Rightarrow> duration \<Rightarrow> time \<Rightarrow> time \<Rightarrow> Timers \<Rightarrow> Timers \<times> string list" where
  "ShiftForPause commits pause since now tm =
     (if pause \<le> 0 then (tm, [])
      else
        let c = shift_role_health commits pause since now (tm_ctl tm);
            (store, errs) = shiftScheduleStatuses commits pause since (c_store c)
        in (tm\<lparr>tm_suspended := window_set since now, tm_rings := map_option (ring_Shift pause now) \<circ> tm_rings tm, tm_ctl := c\<lparr>c_store := store\<rparr>\<rparr>, errs))"

definition pause_session :: "time \<Rightarrow> duration \<Rightarrow> time \<Rightarrow> Session \<Rightarrow> Session" where
  "pause_session since pause now s =
     (let s1 = s\<lparr>sess_LastHeartbeat := ShiftedHeartbeat (sess_LastHeartbeat s) pause now,
                 sess_ContextAt := ShiftedHeartbeat (sess_ContextAt s) pause now, sess_FailureCount := 0\<rparr>
      in if 0 < pause \<and> sess_PauseAppliedSince s1 \<noteq> since
         then s1\<lparr>sess_PausedTotal := sess_PausedTotal s1 + pause, sess_PauseAppliedSince := since\<rparr> else s1)"

fun session_step :: "commit_oracle \<Rightarrow> time \<Rightarrow> duration \<Rightarrow> time \<Rightarrow> Store \<times> string list \<Rightarrow> Session \<Rightarrow> Store \<times> string list" where
  "session_step commits since pause now (s, errs) sess =
     (if sess_State sess \<noteq> SessionRunning then (s, errs)
      else case UpdateSession commits (session_key sess) (\<lambda>x. (pause_session since pause now x, None)) s of
             (s', None) \<Rightarrow> (s', errs)
           | (s', Some _) \<Rightarrow> (s', errs @ [session_key sess]))"

definition pause_sessions :: "commit_oracle \<Rightarrow> time \<Rightarrow> duration \<Rightarrow> time \<Rightarrow> Store \<Rightarrow> Store \<times> string list" where
  "pause_sessions commits since pause now store = foldl (session_step commits since pause now) (store, []) (ListSessions store)"

definition applyPause :: "commit_oracle \<Rightarrow> SuspendRecord \<Rightarrow> time \<Rightarrow> Timers \<Rightarrow> Timers \<times> string list" where
  "applyPause commits rec now tm =
     (let pause = PauseOf rec now;
          (store, errs) = pause_sessions commits (su_Since rec) pause now (c_store (tm_ctl tm));
          (tm', errs') = ShiftForPause commits pause (su_Since rec) now (tm\<lparr>tm_ctl := (tm_ctl tm)\<lparr>c_store := store\<rparr>\<rparr>)
      in (tm', errs @ errs'))"

end
