(* ===== verification/Pause_Properties.thy ===== *)
theory Pause_Properties
  imports Pause Health_Properties
begin

text \<open>
  A pause trips nothing: after \<open>applyPause\<close> a health tick reads every running seat as one at the moment of
  the suspend would have (\<open>pause_trips_no_health_check\<close>), a role in backoff has as much of it left and a
  schedule is as stale as it was (\<open>pause_keeps_role_timers\<close>, \<open>pause_keeps_schedules\<close>), and a tick ring counts
  the same (\<open>pause_keeps_tick_ring\<close>).
\<close>

section \<open>Stamps\<close>

text \<open>A stamp from before the suspend moves by the whole pause; a zero stamp stays.\<close>

lemma ShiftedHeartbeat_before:
  "0 < pause \<Longrightarrow> seen \<le> since \<Longrightarrow> now = since + pause \<Longrightarrow> ShiftedHeartbeat seen pause now = (if seen = 0 then 0 else seen + pause)"
  by (auto simp: ShiftedHeartbeat_def Let_def is_zero_def)

lemma time_sub_shift: "time_sub (a + d) (b + d) = time_sub a b"
  by (simp add: time_sub_def)

section \<open>Sessions\<close>

lemma pause_session_key [simp]: "session_key (pause_session since pause now s) = session_key s"
  by (simp add: pause_session_def Let_def session_key_def)

lemma session_step_row:
  "session_at (fst (session_step commits since pause now (s, errs) sess)) k =
     (if session_key sess = k \<and> sess_State sess = SessionRunning then map_option (pause_session since pause now) (session_at s k) else session_at s k)"
  using UpdateSession_table[of commits "session_key sess" "\<lambda>x. (pause_session since pause now x, None)" s]
  by (auto simp: update_conv' split: prod.splits option.splits)

lemma pause_fold_row:
  "distinct (map session_key xs) \<Longrightarrow> session_at (fst (foldl (session_step commits since pause now) acc xs)) k =
     (if \<exists>x\<in>set xs. session_key x = k \<and> sess_State x = SessionRunning then map_option (pause_session since pause now) (session_at (fst acc) k)
      else session_at (fst acc) k)"
proof (induction xs arbitrary: acc)
  case (Cons x xs)
  obtain s errs where acc: "acc = (s, errs)" by (cases acc)
  have "\<forall>y\<in>set xs. session_key y \<noteq> session_key x" using Cons.prems by (auto simp: image_iff)
  then show ?case using Cons.prems by (auto simp: Cons.IH acc session_step_row simp del: session_step.simps)
qed simp

lemma pause_sessions_row:
  assumes "keyed (st_sessions store)" and "session_at store k = Some s"
  shows "session_at (fst (pause_sessions commits since pause now store)) k =
    Some (if sess_State s = SessionRunning then pause_session since pause now s else s)"
proof -
  have keys: "map session_key (ListSessions store) = map fst (st_sessions store)"
    using assms(1) by (auto simp: keyed_def ListSessions_def list_all_iff)
  then have d: "distinct (map session_key (ListSessions store))" using assms(1) by (simp add: keyed_def)
  have "(k, s) \<in> set (st_sessions store)" using assms(2) by (rule map_of_SomeD)
  then have s: "s \<in> set (ListSessions store)" "session_key s = k"
    using assms(1) by (force simp: ListSessions_def keyed_def list_all_iff)+
  have "x = s" if "x \<in> set (ListSessions store)" "session_key x = k" for x
    using d that s by (metis distinct_map inj_onD)
  then have only: "(\<exists>x\<in>set (ListSessions store). session_key x = k \<and> sess_State x = SessionRunning) \<longleftrightarrow> sess_State s = SessionRunning"
    using s by blast
  show ?thesis using pause_fold_row[OF d, of commits since pause now "(store, [])" k] by (simp add: pause_sessions_def only assms(2))
qed

section \<open>The controller\<close>

lemma shift_role_health_sessions: "st_sessions (c_store (shift_role_health commits pause since now c)) = st_sessions (c_store c)"
proof -
  have "st_sessions (c_store (foldl (health_step commits pause since now) c xs)) = st_sessions (c_store c)" for xs
    by (induction xs arbitrary: c) (auto simp: health_step_def Let_def)
  then show ?thesis by (simp add: shift_role_health_def)
qed

lemma status_step_sessions: "st_sessions (fst (status_step commits pause since acc st)) = st_sessions (fst acc)"
proof -
  obtain s errs where acc: "acc = (s, errs)" by (cases acc)
  have "UpdateScheduleStatus commits k f s = (s', r) \<Longrightarrow> st_sessions s' = st_sessions s" for k f s' r
    using UpdateScheduleStatus_sessions by (metis fst_conv)
  then show ?thesis by (auto simp: acc split: prod.splits option.splits)
qed

lemma shiftScheduleStatuses_sessions: "st_sessions (fst (shiftScheduleStatuses commits pause since s)) = st_sessions s"
proof -
  have "st_sessions (fst (foldl (status_step commits pause since) acc xs)) = st_sessions (fst acc)" for xs acc
    by (induction xs arbitrary: acc) (auto simp: status_step_sessions simp del: status_step.simps)
  then show ?thesis by (simp add: shiftScheduleStatuses_def)
qed

lemma ShiftForPause_sessions:
  "st_sessions (c_store (tm_ctl (fst (ShiftForPause commits pause since now tm)))) = st_sessions (c_store (tm_ctl tm))"
  using shiftScheduleStatuses_sessions[of commits pause since "c_store (shift_role_health commits pause since now (tm_ctl tm))"]
  by (auto simp: ShiftForPause_def Let_def shift_role_health_sessions split: prod.splits)

lemma applyPause_row:
  assumes "keyed (st_sessions (c_store (tm_ctl tm)))" and "session_at (c_store (tm_ctl tm)) k = Some s" "applyPause commits rec now tm = (tm', errs)"
  shows "session_at (c_store (tm_ctl tm')) k = Some (if sess_State s = SessionRunning then pause_session (su_Since rec) (PauseOf rec now) now s else s)"
proof -
  obtain store es where p: "pause_sessions commits (su_Since rec) (PauseOf rec now) now (c_store (tm_ctl tm)) = (store, es)" by (metis surj_pair)
  have "st_sessions (c_store (tm_ctl tm')) = st_sessions store"
    using assms(3) ShiftForPause_sessions[of commits "PauseOf rec now" "su_Since rec" now "tm\<lparr>tm_ctl := (tm_ctl tm)\<lparr>c_store := store\<rparr>\<rparr>"]
    by (auto simp: applyPause_def p Let_def split: prod.splits)
  then show ?thesis using pause_sessions_row[OF assms(1,2), of commits "su_Since rec" "PauseOf rec now" now] by (simp add: p)
qed

section \<open>The health tick after a pause\<close>

text \<open>A session whose stamps are from before the suspend, and that this pause was not counted for.\<close>

definition stamped_before :: "time \<Rightarrow> time \<Rightarrow> Session \<Rightarrow> bool" where
  "stamped_before since now s \<longleftrightarrow>
     0 \<le> sess_LastHeartbeat s \<and> sess_LastHeartbeat s \<le> since \<and> 0 \<le> sess_ContextAt s \<and> sess_ContextAt s \<le> since \<and>
     sess_CreatedAt s \<le> since \<and> now - sess_CreatedAt s \<le> max_duration \<and> 0 \<le> sess_PausedTotal s \<and> sess_PauseAppliedSince s \<noteq> since"

lemma paused_stamps:
  assumes "0 < pause" "now = since + pause" "stamped_before since now s" "s' = pause_session since pause now s"
  shows "sess_LastHeartbeat s' = (if sess_LastHeartbeat s = 0 then 0 else sess_LastHeartbeat s + pause)"
    "sess_ContextAt s' = (if sess_ContextAt s = 0 then 0 else sess_ContextAt s + pause)"
    "sess_PausedTotal s' = sess_PausedTotal s + pause" "sess_PauseAppliedSince s' = since" "sess_FailureCount s' = 0"
    "sess_CreatedAt s' = sess_CreatedAt s" "sess_Runtime s' = sess_Runtime s" "sess_HealthState s' = sess_HealthState s"
  using assms ShiftedHeartbeat_before[of pause _ since now]
  by (auto simp: pause_session_def Let_def stamped_before_def)

text \<open>Its age, the age of its heartbeat and what the quiet test says of it are at the resume what they were at the
  suspend.\<close>

lemma paused_reads:
  assumes "0 < pause" "now = since + pause" "stamped_before since now s" "s' = pause_session since pause now s"
  shows "AgeAt s' now = AgeAt s since" "is_zero (sess_LastHeartbeat s') \<longleftrightarrow> is_zero (sess_LastHeartbeat s)"
    "\<not> is_zero (sess_LastHeartbeat s) \<Longrightarrow> time_sub now (sess_LastHeartbeat s') = time_sub since (sess_LastHeartbeat s)"
    "is_zero (sess_ContextAt s') \<longleftrightarrow> is_zero (sess_ContextAt s)" "Quiet s' w now \<longleftrightarrow> Quiet s w since"
    "activityObservable s' role = activityObservable s role"
  using assms(1-3)
  by (auto simp: AgeAt_def Let_def paused_stamps[OF assms] stamped_before_def time_sub_def max_duration_def min_duration_def
      is_zero_def Quiet_def activityObservable_def)

lemma paused_activity:
  assumes "0 < pause" "now = since + pause" "stamped_before since now s" "s' = pause_session since pause now s"
  shows "evaluateActivity s' role now = evaluateActivity s role since"
  by (cases role) (simp_all add: evaluateActivity_def paused_reads[OF assms])

text \<open>A verdict reads the row through these, and writes the health and activity state.\<close>

lemma paused_health:
  assumes "0 < pause" "now = since + pause" "stamped_before since now s" "s' = pause_session since pause now s"
  shows "sess_HealthState (hv_session (health_eval role now s')) = sess_HealthState (hv_session (health_eval role since s)) \<and>
    sess_ActivityState (hv_session (health_eval role now s')) = sess_ActivityState (hv_session (health_eval role since s)) \<and>
    (hv_restart (health_eval role now s') \<longrightarrow> sess_HealthState (hv_session (health_eval role since s)) = HealthUnhealthy)"
proof -
  have [simp]: "AgeAt (x\<lparr>sess_ActivityState := a\<rparr>) t = AgeAt x t" "AgeAt (x\<lparr>sess_LastHealthCheck := b\<rparr>) t = AgeAt x t" for x a b t
    by (simp_all add: AgeAt_def Let_def)
  show ?thesis
    by (auto simp: health_eval_def Let_def quiet_verdict_def failed_verdict_def paused_activity[OF assms] paused_reads[OF assms]
        split: option.splits)
qed

section \<open>Roles and schedules\<close>

lemma persistRoleHealth_health [simp]: "c_roleHealth (persistRoleHealth commits key rh c) = c_roleHealth c"
  by (simp add: persistRoleHealth_def)

lemma shift_role_health_row:
  assumes "distinct (map fst (c_roleHealth c))"
  shows "health_at (shift_role_health commits pause since now c) key = map_option (pause_health pause since now) (health_at c key)"
proof -
  have step: "c_roleHealth (health_step commits pause since now c x) = AList.update (fst x) (pause_health pause since now (snd x)) (c_roleHealth c)" for c x
    by (simp add: health_step_def Let_def set_health_def)
  have "health_at (foldl (health_step commits pause since now) c xs) key
      = (case map_of xs key of Some rh \<Rightarrow> Some (pause_health pause since now rh) | None \<Rightarrow> health_at c key)" if "distinct (map fst xs)" for xs c
    using that
  proof (induction xs arbitrary: c)
    case (Cons x xs)
    have "map_of xs (fst x) = None" using Cons.prems by (simp add: map_of_eq_None_iff)
    then show ?case using Cons.prems by (auto simp: Cons.IH step update_conv' split: option.splits)
  qed simp
  from this[OF assms, of c] show ?thesis by (simp add: shift_role_health_def split: option.splits)
qed

lemma pause_sessions_status: "st_scheduleStatus (fst (pause_sessions commits since pause now store)) = st_scheduleStatus store"
proof -
  have step: "st_scheduleStatus (fst (session_step commits since pause now acc x)) = st_scheduleStatus (fst acc)" for acc x
  proof -
    obtain s errs where acc: "acc = (s, errs)" by (cases acc)
    have "st_scheduleStatus (fst (UpdateSession commits k f s)) = st_scheduleStatus s" for k f
      by (auto simp: UpdateSession_def Let_def store_simps split: option.splits prod.splits)
    then have "UpdateSession commits k f s = (s', e) \<Longrightarrow> st_scheduleStatus s' = st_scheduleStatus s" for k f s' e by (metis fst_conv)
    then show ?thesis by (auto simp: acc split: prod.splits option.splits)
  qed
  have "st_scheduleStatus (fst (foldl (session_step commits since pause now) acc xs)) = st_scheduleStatus (fst acc)" for acc xs
    by (induction xs arbitrary: acc) (auto simp: step simp del: session_step.simps)
  then show ?thesis by (simp add: pause_sessions_def)
qed

lemma shift_role_health_status: "st_scheduleStatus (c_store (shift_role_health commits pause since now c)) = st_scheduleStatus (c_store c)"
proof -
  have "st_scheduleStatus (fst (PersistRoleHealth commits r s)) = st_scheduleStatus s" for r s
    by (auto simp: PersistRoleHealth_def same_tables_def persist_tables_fst split: prod.splits option.splits dest!: persist_tables)
  then have "st_scheduleStatus (c_store (foldl (health_step commits pause since now) c xs)) = st_scheduleStatus (c_store c)" for xs
    by (induction xs arbitrary: c) (auto simp: health_step_def Let_def persistRoleHealth_def set_health_def)
  then show ?thesis by (simp add: shift_role_health_def)
qed

text \<open>A status that is written keeps its key, and a failed write is reported.\<close>

definition keyed_status :: "Store \<Rightarrow> bool" where
  "keyed_status s \<longleftrightarrow> list_all (\<lambda>(k, st). ss_Key st = k) (st_scheduleStatus s) \<and> distinct (map fst (st_scheduleStatus s))"

lemma UpdateScheduleStatus_row:
  assumes "UpdateScheduleStatus commits k fn s = (s', r, None)" and "schedule_at s k = Some st"
  shows "schedule_at s' = (schedule_at s)(k \<mapsto> (if snd (fn st) then (fst (fn st))\<lparr>ss_Key := k\<rparr> else st))"
proof -
  obtain work changed where fn: "fn st = (work, changed)" by (cases "fn st")
  show ?thesis
  proof (cases changed)
    case True
    with assms fn obtain s1 where "persistPut commits bucketScheduleStatus k True (VSchedule (work\<lparr>ss_Key := k\<rparr>)) s = (s1, None)"
      "s' = s1\<lparr>st_scheduleStatus := AList.update k (work\<lparr>ss_Key := k\<rparr>) (st_scheduleStatus s1)\<rparr>"
      by (auto simp: UpdateScheduleStatus_def Let_def split: prod.splits option.splits)
    moreover from this(1) have "st_scheduleStatus s1 = st_scheduleStatus s" by (auto simp: same_tables_def dest!: persist_tables)
    ultimately show ?thesis using True by (simp add: fn update_conv')
  next
    case False
    with assms fn show ?thesis by (auto simp: UpdateScheduleStatus_def Let_def)
  qed
qed

lemma status_step_row:
  assumes "status_step commits pause since (s, errs) st = (s', errs')" and "errs' = []" and "schedule_at s (ss_Key st) = Some st"
  shows "errs = [] \<and> schedule_at s' k = (if k = ss_Key st then Some (fst (pause_status pause since st)) else schedule_at s k)"
proof -
  obtain r where u: "UpdateScheduleStatus commits (ss_Key st) (pause_status pause since) s = (s', r, None)" "errs = []"
    using assms(1,2) by (auto split: prod.splits option.splits)
  have "(if snd (pause_status pause since st) then (fst (pause_status pause since st))\<lparr>ss_Key := ss_Key st\<rparr> else st) = fst (pause_status pause since st)"
    by (simp add: pause_status_def)
  then show ?thesis using UpdateScheduleStatus_row[OF u(1) assms(3)] u(2) by simp
qed

text \<open>The controller after the pause: its sessions, its roles and its schedules each moved by their own step.\<close>

lemma applyPause_parts:
  assumes "applyPause commits rec now tm = (tm', errs)" and "su_Since rec < now"
  obtains store es c es' where
    "pause_sessions commits (su_Since rec) (PauseOf rec now) now (c_store (tm_ctl tm)) = (store, es)"
    "c = shift_role_health commits (PauseOf rec now) (su_Since rec) now ((tm_ctl tm)\<lparr>c_store := store\<rparr>)"
    "shiftScheduleStatuses commits (PauseOf rec now) (su_Since rec) (c_store c) = (c_store (tm_ctl tm'), es')"
    "c_roleHealth (tm_ctl tm') = c_roleHealth c" "errs = es @ es'" "tm_rings tm' = map_option (ring_Shift (PauseOf rec now) now) \<circ> tm_rings tm"
proof -
  have "0 < PauseOf rec now" using assms(2) by (simp add: PauseOf_def time_sub_def max_duration_def)
  then show thesis using assms(1)
    by (auto simp: applyPause_def ShiftForPause_def Let_def split: prod.splits intro!: that)
qed

lemma status_fold_row:
  "foldl (status_step commits pause since) (s, errs) xs = (s', []) \<Longrightarrow> distinct (map ss_Key xs) \<Longrightarrow> \<forall>st\<in>set xs. schedule_at s (ss_Key st) = Some st \<Longrightarrow>
   errs = [] \<and> schedule_at s' k = (case find (\<lambda>st. ss_Key st = k) xs of Some st \<Rightarrow> Some (fst (pause_status pause since st)) | None \<Rightarrow> schedule_at s k)"
proof (induction xs arbitrary: s errs)
  case (Cons x xs)
  obtain s1 errs1 where step: "status_step commits pause since (s, errs) x = (s1, errs1)" by (metis surj_pair)
  have row: "errs1 = [] \<Longrightarrow> errs = [] \<and> schedule_at s1 k = (if k = ss_Key x then Some (fst (pause_status pause since x)) else schedule_at s k)" for k
    using status_step_row[OF step, of k] Cons.prems(3) by simp
  have fold: "foldl (status_step commits pause since) (s1, errs1) xs = (s', [])" using Cons.prems(1) step by simp
  have errs1: "errs1 = []" using fold
  proof (rule contrapos_pp)
    have "errs1 \<noteq> [] \<Longrightarrow> snd (foldl (status_step commits pause since) (s1, errs1) xs) \<noteq> []" for xs s1 errs1
    proof (induction xs arbitrary: s1 errs1)
      case (Cons y ys)
      obtain s2 errs2 where "status_step commits pause since (s1, errs1) y = (s2, errs2)" by (metis surj_pair)
      moreover from this Cons.prems have "errs2 \<noteq> []" by (auto split: prod.splits option.splits)
      ultimately show ?case using Cons.IH by (simp del: status_step.simps)
    qed simp
    then show "errs1 \<noteq> [] \<Longrightarrow> foldl (status_step commits pause since) (s1, errs1) xs \<noteq> (s', [])" by (metis snd_conv)
  qed
  have others: "ss_Key st \<noteq> ss_Key x" if "st \<in> set xs" for st using Cons.prems(2) that by (auto simp: image_iff)
  have rows: "\<forall>st\<in>set xs. schedule_at s1 (ss_Key st) = Some st" using row[OF errs1] others Cons.prems(3) by auto
  have "find (\<lambda>st. ss_Key st = k) xs = None" if "k = ss_Key x" using others that by (auto simp: find_None_iff)
  then show ?case using Cons.IH[OF fold _ rows] Cons.prems(2) row[OF errs1, of k] by (auto split: option.splits)
qed simp

lemma shiftScheduleStatuses_row:
  assumes "shiftScheduleStatuses commits pause since s = (s', [])" and "keyed_status s" and "schedule_at s k = Some st"
  shows "schedule_at s' k = Some (fst (pause_status pause since st))"
proof -
  have "map ss_Key (ListScheduleStatus s) = map fst (st_scheduleStatus s)"
    using assms(2) by (auto simp: ListScheduleStatus_def keyed_status_def list_all_iff)
  then have d: "distinct (map ss_Key (ListScheduleStatus s))" using assms(2) by (simp add: keyed_status_def)
  have rows: "\<forall>x\<in>set (ListScheduleStatus s). schedule_at s (ss_Key x) = Some x"
    using assms(2) by (auto simp: ListScheduleStatus_def keyed_status_def list_all_iff)
  have "(k, st) \<in> set (st_scheduleStatus s)" using assms(3) by (rule map_of_SomeD)
  then have st: "st \<in> set (ListScheduleStatus s)" "ss_Key st = k"
    using assms(2) by (force simp: ListScheduleStatus_def keyed_status_def list_all_iff)+
  have "find (\<lambda>x. ss_Key x = k) (ListScheduleStatus s) = Some st"
  proof (cases "find (\<lambda>x. ss_Key x = k) (ListScheduleStatus s)")
    case None
    then show ?thesis using st by (auto simp: find_None_iff)
  next
    case (Some y)
    then have "y \<in> set (ListScheduleStatus s)" "ss_Key y = k" by (auto simp: find_Some_iff)
    then show ?thesis using Some rows assms(3) by force
  qed
  then show ?thesis using status_fold_row[OF assms(1)[unfolded shiftScheduleStatuses_def] d rows, of k] by simp
qed

section \<open>Tick rings\<close>

definition ring_before :: "time \<Rightarrow> TickRing \<Rightarrow> bool" where
  "ring_before since r \<longleftrightarrow> 0 \<le> tr_since r \<and> tr_since r \<le> since \<and>
     list_all (\<lambda>s. 0 < tk_at s \<and> tk_at s \<le> since \<and> 0 \<le> tk_contextAt s \<and> tk_contextAt s \<le> since) (tr_samples r)"

text \<open>A ring reads after the pause what it read before it.\<close>

lemma ring_Shift_counts:
  assumes "0 < pause" "now = since + pause" "ring_before since r"
  shows "ring_Counts window now (ring_Shift pause now r) = ring_Counts window since r"
proof -
  let ?f = "\<lambda>s. \<lparr>tk_at = ShiftedHeartbeat (tk_at s) pause now, tk_contextAt = ShiftedHeartbeat (tk_contextAt s) pause now\<rparr>"
  have at: "ShiftedHeartbeat (tk_at s) pause now = tk_at s + pause" "time_sub now (tk_at s + pause) = time_sub since (tk_at s)"
    "sample_quiet window (?f s) = sample_quiet window s" if "s \<in> set (tr_samples r)" for s
    using that assms ShiftedHeartbeat_before[of pause _ since now]
    by (auto simp: ring_before_def list_all_iff sample_quiet_def is_zero_def time_sub_shift)
  have "filter (\<lambda>s. \<not> TickRingWindow \<le> time_sub now (tk_at s)) (map ?f (tr_samples r)) = map ?f (filter (\<lambda>s. \<not> TickRingWindow \<le> time_sub since (tk_at s)) (tr_samples r))"
    by (auto simp: filter_map comp_def at intro!: arg_cong[of _ _ "map ?f"] filter_cong)
  moreover have "filter (\<lambda>s. \<not> sample_quiet window s) (map ?f (filter P (tr_samples r))) = map ?f (filter (\<lambda>s. \<not> sample_quiet window s) (filter P (tr_samples r)))" for P
    unfolding filter_map comp_def by (intro arg_cong[of _ _ "map ?f"] filter_cong refl) (use at(3) in auto)
  moreover have "ShiftedHeartbeat (tr_since r) pause now = (if tr_since r = 0 then 0 else tr_since r + pause)"
    using assms ShiftedHeartbeat_before[of pause "tr_since r" since now] by (simp add: ring_before_def)
  ultimately show ?thesis
    using assms by (auto simp: ring_Counts_def ring_Shift_def Let_def is_zero_def time_sub_shift ring_before_def)
qed

section \<open>A repeated pause\<close>

lemma session_step_keyed:
  assumes "keyed (st_sessions (fst acc))"
  shows "keyed (st_sessions (fst (session_step commits since pause now acc sess)))"
proof -
  obtain s errs where acc: "acc = (s, errs)" by (cases acc)
  have "keyed (st_sessions (fst (UpdateSession commits k (\<lambda>x. (pause_session since pause now x, None)) s)))" for k
  proof (cases "session_at s k")
    case None
    then show ?thesis using assms by (simp add: acc UpdateSession_table)
  next
    case (Some x)
    then have "session_key x = k" using assms map_of_SomeD[OF Some] by (auto simp: acc keyed_def list_all_iff)
    then show ?thesis using assms Some
      by (simp add: acc UpdateSession_table keyed_def distinct_update list_all_AList_update)
  qed
  then have "UpdateSession commits k (\<lambda>x. (pause_session since pause now x, None)) s = (s', e) \<Longrightarrow> keyed (st_sessions s')" for k s' e
    by (metis fst_conv)
  then show ?thesis using assms by (auto simp: acc split: prod.splits option.splits)
qed

lemma applyPause_keyed:
  assumes "applyPause commits rec now tm = (tm', errs)" and "keyed (st_sessions (c_store (tm_ctl tm)))"
  shows "keyed (st_sessions (c_store (tm_ctl tm')))"
proof -
  let ?tm = "tm\<lparr>tm_ctl := (tm_ctl tm)\<lparr>c_store := fst (pause_sessions commits (su_Since rec) (PauseOf rec now) now (c_store (tm_ctl tm)))\<rparr>\<rparr>"
  have fold: "keyed (st_sessions (fst acc)) \<Longrightarrow> keyed (st_sessions (fst (foldl (session_step commits since pause now) acc xs)))" for acc since pause now xs
    by (induction xs arbitrary: acc) (auto simp: session_step_keyed simp del: session_step.simps)
  have "tm' = fst (ShiftForPause commits (PauseOf rec now) (su_Since rec) now ?tm)"
    using assms(1) by (auto simp: applyPause_def Let_def split: prod.splits)
  then have "st_sessions (c_store (tm_ctl tm')) = st_sessions (fst (pause_sessions commits (su_Since rec) (PauseOf rec now) now (c_store (tm_ctl tm))))"
    by (simp add: ShiftForPause_sessions)
  then show ?thesis using fold[of "(c_store (tm_ctl tm), [])"] assms(2) by (simp add: pause_sessions_def)
qed

lemma pause_once: "sess_PauseAppliedSince s = since \<Longrightarrow> sess_PausedTotal (pause_session since pause now s) = sess_PausedTotal s"
  by (simp add: pause_session_def Let_def)

section \<open>Properties\<close>

text \<open>C11. A suspend trips no health check. For a running session whose stamps are from before the suspend, a health
  tick at the moment of the resume reads the row \<open>applyPause\<close> left just as a tick at the moment of the suspend
  would have read the row before: the same health state and the same activity state, and a restart only for
  a seat that already read unhealthy. Its creation time is untouched and its paused total grew by the
  pause; running \<open>applyPause\<close> again for the same record, at any time and with any writes failing, adds
  nothing to it.\<close>

theorem pause_trips_no_health_check:
  assumes "applyPause commits rec now tm = (tm', errs)" and "su_Since rec < now" "now - su_Since rec \<le> max_duration"
    and "keyed (st_sessions (c_store (tm_ctl tm)))" and "session_at (c_store (tm_ctl tm)) k = Some s"
    and "sess_State s = SessionRunning" "stamped_before (su_Since rec) now s"
  shows "\<exists>s'. session_at (c_store (tm_ctl tm')) k = Some s' \<and>
    sess_HealthState (hv_session (health_eval role now s')) = sess_HealthState (hv_session (health_eval role (su_Since rec) s)) \<and>
    sess_ActivityState (hv_session (health_eval role now s')) = sess_ActivityState (hv_session (health_eval role (su_Since rec) s)) \<and>
    (hv_restart (health_eval role now s') \<longrightarrow> sess_HealthState (hv_session (health_eval role (su_Since rec) s)) = HealthUnhealthy) \<and>
    sess_CreatedAt s' = sess_CreatedAt s \<and> sess_PausedTotal s' = sess_PausedTotal s + (now - su_Since rec) \<and>
    (\<forall>commits2 now2 tm2 errs2. applyPause commits2 rec now2 tm' = (tm2, errs2) \<longrightarrow>
      (\<exists>s2. session_at (c_store (tm_ctl tm2)) k = Some s2 \<and> sess_PausedTotal s2 = sess_PausedTotal s' \<and> sess_CreatedAt s2 = sess_CreatedAt s))"
proof -
  let ?s = "pause_session (su_Since rec) (PauseOf rec now) now s"
  have p: "PauseOf rec now = now - su_Since rec" "0 < PauseOf rec now" "now = su_Since rec + PauseOf rec now"
    using assms(2,3) by (auto simp: PauseOf_def time_sub_def min_duration_def)
  note st = paused_stamps[OF p(2,3) assms(7) refl] and h = paused_health[OF p(2,3) assms(7) refl]
  have row: "session_at (c_store (tm_ctl tm')) k = Some ?s" using applyPause_row[OF assms(4,5,1)] assms(6) by simp
  have run: "sess_State ?s = SessionRunning" using assms(6) by (simp add: pause_session_def Let_def)
  have "\<exists>s2. session_at (c_store (tm_ctl tm2)) k = Some s2 \<and> sess_PausedTotal s2 = sess_PausedTotal ?s \<and> sess_CreatedAt s2 = sess_CreatedAt s"
    if again: "applyPause commits2 rec now2 tm' = (tm2, errs2)" for commits2 now2 tm2 errs2
    using applyPause_row[OF applyPause_keyed[OF assms(1,4)] row again] run pause_once[OF st(4)] st(6)
    by (auto simp: pause_session_def Let_def)
  then show ?thesis using row h st(3,6) p(1) by auto
qed

text \<open>C12. A suspend runs no backoff down and forgives none. After \<open>applyPause\<close> a role whose backoff was still ahead
  when the suspend began has exactly as much of it left, a backoff that had run out stays as it was, a
  role frozen for its restarts stays frozen, its restart count is untouched and its healthy streak is as
  long as it was; and every session's tick ring counts what it counted.\<close>

theorem pause_keeps_backoff:
  assumes "applyPause commits rec now tm = (tm', errs)" and "0 \<le> su_Since rec" "su_Since rec < now" "now - su_Since rec \<le> max_duration"
    and "distinct (map fst (c_roleHealth (tm_ctl tm)))" and "health_at (tm_ctl tm) key = Some rh"
  shows "\<exists>rh'. health_at (tm_ctl tm') key = Some rh' \<and> rh_RestartCount rh' = rh_RestartCount rh \<and> rh_LastRestartAt rh' = rh_LastRestartAt rh \<and>
    (rh_BackoffUntil rh = saturationFreezeUntil \<longrightarrow> rh_BackoffUntil rh' = saturationFreezeUntil) \<and>
    (rh_BackoffUntil rh \<noteq> saturationFreezeUntil \<and> su_Since rec < rh_BackoffUntil rh \<longrightarrow> rh_BackoffUntil rh' - now = rh_BackoffUntil rh - su_Since rec) \<and>
    (rh_BackoffUntil rh \<le> su_Since rec \<longrightarrow> rh_BackoffUntil rh' = rh_BackoffUntil rh) \<and>
    (rh_HealthySince rh \<noteq> 0 \<and> rh_HealthySince rh \<le> su_Since rec \<longrightarrow> now - rh_HealthySince rh' = su_Since rec - rh_HealthySince rh) \<and>
    (\<forall>s r w. tm_rings tm s = Some r \<and> ring_before (su_Since rec) r \<longrightarrow> ActiveTicksOf s w now tm' = ActiveTicksOf s w (su_Since rec) tm)"
proof -
  have p: "PauseOf rec now = now - su_Since rec" "0 < PauseOf rec now" "now = su_Since rec + PauseOf rec now"
    using assms(3,4) by (auto simp: PauseOf_def time_sub_def min_duration_def)
  obtain store c where parts: "c = shift_role_health commits (PauseOf rec now) (su_Since rec) now ((tm_ctl tm)\<lparr>c_store := store\<rparr>)"
    "c_roleHealth (tm_ctl tm') = c_roleHealth c" "tm_rings tm' = map_option (ring_Shift (PauseOf rec now) now) \<circ> tm_rings tm"
    using assms(1,3) by (rule applyPause_parts) blast
  have "health_at (tm_ctl tm') key = Some (pause_health (PauseOf rec now) (su_Since rec) now rh)"
    using parts(1,2) shift_role_health_row[of "(tm_ctl tm)\<lparr>c_store := store\<rparr>"] assms(5,6) by simp
  moreover have "ActiveTicksOf s w now tm' = ActiveTicksOf s w (su_Since rec) tm" if "tm_rings tm s = Some r" "ring_before (su_Since rec) r" for s r w
    using ring_Shift_counts[OF p(2,3) that(2)] that(1) by (simp add: ActiveTicksOf_def parts(3))
  ultimately show ?thesis
    using p assms(2) by (auto simp: pause_health_def ShiftedDeadline_def is_zero_def ShiftedHeartbeat_before)
qed

text \<open>C13. A suspend makes no schedule stale. When \<open>applyPause\<close> returns no error, a freshness check at the resume finds a
  schedule stale exactly when one at the suspend would have: the anchor and the other recorded facts are
  untouched and the pause is counted beside them; a retry wait still ahead at the suspend has as much of
  it left. A pause already counted for the schedule is not counted again.\<close>

theorem pause_keeps_freshness:
  assumes "applyPause commits rec now tm = (tm', [])" and "0 \<le> su_Since rec" "su_Since rec < now" "now - su_Since rec \<le> max_duration"
    and "keyed_status (c_store (tm_ctl tm))" and "schedule_at (c_store (tm_ctl tm)) key = Some st"
    and "0 \<le> staleAfter" "0 \<le> ss_PausedSinceAnchor st" "fresh_anchor (su_Since rec) st \<le> su_Since rec" "now - fresh_anchor (su_Since rec) st \<le> max_duration"
  shows "\<exists>st'. schedule_at (c_store (tm_ctl tm')) key = Some st' \<and> ss_Since st' = ss_Since st \<and> ss_LastSucceededAt st' = ss_LastSucceededAt st \<and>
    ss_FiringDueAt st' = ss_FiringDueAt st \<and>
    (if ss_PauseAppliedSince st = su_Since rec then st' = st
     else ss_Stale (fst (EvaluateFreshness now staleAfter st')) = ss_Stale (fst (EvaluateFreshness (su_Since rec) staleAfter st)) \<and>
       (su_Since rec < ss_RetryAfter st \<longrightarrow> ss_RetryAfter st' - now = ss_RetryAfter st - su_Since rec))"
proof -
  have p: "PauseOf rec now = now - su_Since rec" "0 < PauseOf rec now" using assms(3,4) by (auto simp: PauseOf_def time_sub_def min_duration_def)
  obtain store es c es' where parts: "pause_sessions commits (su_Since rec) (PauseOf rec now) now (c_store (tm_ctl tm)) = (store, es)"
    "c = shift_role_health commits (PauseOf rec now) (su_Since rec) now ((tm_ctl tm)\<lparr>c_store := store\<rparr>)"
    "shiftScheduleStatuses commits (PauseOf rec now) (su_Since rec) (c_store c) = (c_store (tm_ctl tm'), es')" "[] = es @ es'"
    using assms(1,3) by (rule applyPause_parts) blast
  have same: "st_scheduleStatus (c_store c) = st_scheduleStatus (c_store (tm_ctl tm))"
    using pause_sessions_status[of commits "su_Since rec" "PauseOf rec now" now "c_store (tm_ctl tm)"] parts(1,2) by (simp add: shift_role_health_status)
  let ?st = "fst (pause_status (PauseOf rec now) (su_Since rec) st)"
  have row: "schedule_at (c_store (tm_ctl tm')) key = Some ?st"
    using shiftScheduleStatuses_row[of commits "PauseOf rec now" "su_Since rec" "c_store c" "c_store (tm_ctl tm')" key st] parts(3,4) assms(5,6)
    by (simp add: same keyed_status_def)
  have stale: "ss_Stale (fst (EvaluateFreshness t a x)) \<longleftrightarrow> a < time_sub t (fresh_anchor t x) - max (ss_PausedSinceAnchor x) 0" for t a x
    by (auto simp: EvaluateFreshness_def Let_def fresh_anchor_def is_zero_def)
  have "ss_Stale (fst (EvaluateFreshness now staleAfter ?st)) = ss_Stale (fst (EvaluateFreshness (su_Since rec) staleAfter st))" if "ss_PauseAppliedSince st \<noteq> su_Since rec"
    unfolding stale using that p assms(2,4,7-10)
    by (auto simp: pause_status_def fresh_anchor_def time_sub_def min_duration_def split: if_splits)
  then show ?thesis using row p assms(2) by (auto simp: pause_status_def ShiftedDeadline_def is_zero_def)
qed

section \<open>A pause of an hour\<close>

text \<open>A seat that beat ten seconds before the suspend, with a timeout of thirty; a role with twenty seconds of
  backoff left; a schedule that last succeeded at 1000 s.\<close>

definition paused_seat :: Session where
  "paused_seat = example_session ''squad-dev-1'' ''dev'' 1 (1000 * second)"

definition paused_role :: Role where
  "paused_role = (example_role ''dev'' 1)\<lparr>role_HealthCheck := Some \<lparr>hc_Type = HealthCheckHeartbeat, hc_Timeout = 30 * second, hc_FailureThreshold = 1\<rparr>\<rparr>"

definition paused_health_row :: RoleHealth where
  "paused_health_row = \<lparr>rh_RestartCount = 1, rh_LastRestartAt = 1000 * second, rh_BackoffUntil = 1030 * second, rh_HealthySince = 0\<rparr>"

definition paused_status_row :: ScheduleStatus where
  "paused_status_row = (new_status ''ws/squad/nightly'')\<lparr>ss_Since := 900 * second, ss_LastSucceededAt := 1000 * second, ss_RetryAfter := 1020 * second\<rparr>"

definition paused_timers :: Timers where
  "paused_timers = \<lparr>tm_ctl = (NewController (NewStore\<lparr>st_sessions := [(session_key paused_seat, paused_seat)],
       st_scheduleStatus := [(''ws/squad/nightly'', paused_status_row)]\<rparr>))\<lparr>c_roleHealth := [(''ws/squad/dev'', paused_health_row)]\<rparr>,
     tm_rings = Map.empty, tm_clusterWindow = 0, tm_suspended = window_set 0 0\<rparr>"

definition pause_rec :: SuspendRecord where
  "pause_rec = \<lparr>su_State = StateResuming, su_Actor = ''op'', su_Source = ''cli'', su_Since = 1010 * second,
     su_Server = \<lparr>px_Pid = 10, px_Identity = \<lparr>id_Start = ''t'', id_Exe = ''tmux'', id_Argv = [], id_Pgid = 10, id_Ppid = 1\<rparr>\<rparr>, su_Seats = []\<rparr>"

definition pause_end :: time where "pause_end = 4610 * second"

lemma pause_span: "su_Since pause_rec < pause_end" "pause_end - su_Since pause_rec \<le> max_duration" "0 \<le> su_Since pause_rec"
  by (simp_all add: pause_rec_def pause_end_def second_def max_duration_def)

lemma pause_no_errors: "snd (applyPause (\<lambda>_. True) pause_rec pause_end paused_timers) = []"
  by (simp add: applyPause_def PauseOf_def pause_sessions_def ListSessions_def paused_timers_def NewController_def NewStore_def
      UpdateSession_def Let_def ShiftForPause_def shift_role_health_def shiftScheduleStatuses_def ListScheduleStatus_def health_step_def
      persistRoleHealth_def set_health_def PersistRoleHealth_def UpdateScheduleStatus_def persistPutIfChanged_def persistPut_def
      case_prod_beta' split: prod.split)

theorem pause_trips_no_health_check_witness:
  "\<exists>s'. session_at (c_store (tm_ctl (fst (applyPause (\<lambda>_. True) pause_rec pause_end paused_timers)))) (session_key paused_seat) = Some s' \<and>
    sess_HealthState (hv_session (health_eval (Some paused_role) pause_end s')) = HealthHealthy \<and> sess_PausedTotal s' = 3600 * second"
proof -
  have run: "applyPause (\<lambda>_. True) pause_rec pause_end paused_timers = (fst (applyPause (\<lambda>_. True) pause_rec pause_end paused_timers), [])"
    using pause_no_errors by (metis prod.collapse)
  have "keyed (st_sessions (c_store (tm_ctl paused_timers)))" "session_at (c_store (tm_ctl paused_timers)) (session_key paused_seat) = Some paused_seat"
    by (simp_all add: paused_timers_def NewController_def keyed_def)
  moreover have "sess_State paused_seat = SessionRunning" "stamped_before (su_Since pause_rec) pause_end paused_seat"
    by (simp_all add: paused_seat_def example_session_def stamped_before_def pause_rec_def pause_end_def second_def max_duration_def)
  moreover have "sess_HealthState (hv_session (health_eval (Some paused_role) (su_Since pause_rec) paused_seat)) = HealthHealthy"
    by (simp add: health_eval_def paused_role_def paused_seat_def example_session_def pause_rec_def second_def is_zero_def time_sub_def
        min_duration_def max_duration_def quiet_verdict_def Let_def)
  moreover have "sess_PausedTotal paused_seat = 0" "pause_end - su_Since pause_rec = 3600 * second"
    by (simp_all add: paused_seat_def example_session_def pause_rec_def pause_end_def)
  ultimately show ?thesis
    using pause_trips_no_health_check[OF run pause_span(1,2), of "session_key paused_seat" paused_seat "Some paused_role"] by auto
qed

theorem pause_keeps_backoff_witness:
  "\<exists>rh'. health_at (tm_ctl (fst (applyPause (\<lambda>_. True) pause_rec pause_end paused_timers))) ''ws/squad/dev'' = Some rh' \<and> rh_BackoffUntil rh' - pause_end = 20 * second"
proof -
  have run: "applyPause (\<lambda>_. True) pause_rec pause_end paused_timers = (fst (applyPause (\<lambda>_. True) pause_rec pause_end paused_timers), [])"
    using pause_no_errors by (metis prod.collapse)
  have "distinct (map fst (c_roleHealth (tm_ctl paused_timers)))" "health_at (tm_ctl paused_timers) ''ws/squad/dev'' = Some paused_health_row"
    by (simp_all add: paused_timers_def)
  moreover have "rh_BackoffUntil paused_health_row \<noteq> saturationFreezeUntil" by (simp add: paused_health_row_def) code_simp
  moreover have "rh_BackoffUntil paused_health_row = su_Since pause_rec + 20 * second" "0 < second"
    by (simp_all add: paused_health_row_def pause_rec_def second_def)
  ultimately show ?thesis using pause_keeps_backoff[OF run pause_span(3,1,2), of "''ws/squad/dev''" paused_health_row] by auto
qed

theorem pause_keeps_freshness_witness:
  "\<exists>st'. schedule_at (c_store (tm_ctl (fst (applyPause (\<lambda>_. True) pause_rec pause_end paused_timers)))) ''ws/squad/nightly'' = Some st' \<and>
    \<not> ss_Stale (fst (EvaluateFreshness pause_end minute st')) \<and> ss_RetryAfter st' - pause_end = 10 * second"
proof -
  have run: "applyPause (\<lambda>_. True) pause_rec pause_end paused_timers = (fst (applyPause (\<lambda>_. True) pause_rec pause_end paused_timers), [])"
    using pause_no_errors by (metis prod.collapse)
  have "keyed_status (c_store (tm_ctl paused_timers))" "schedule_at (c_store (tm_ctl paused_timers)) ''ws/squad/nightly'' = Some paused_status_row"
    by (simp_all add: paused_timers_def NewController_def keyed_status_def paused_status_row_def new_status_def)
  moreover have "0 \<le> minute" "0 \<le> ss_PausedSinceAnchor paused_status_row" "fresh_anchor (su_Since pause_rec) paused_status_row \<le> su_Since pause_rec"
    "pause_end - fresh_anchor (su_Since pause_rec) paused_status_row \<le> max_duration" "ss_PauseAppliedSince paused_status_row \<noteq> su_Since pause_rec"
    by (simp_all add: paused_status_row_def new_status_def fresh_anchor_def pause_rec_def pause_end_def second_def minute_def max_duration_def)
  moreover have "\<not> ss_Stale (fst (EvaluateFreshness (su_Since pause_rec) minute paused_status_row))"
    by (simp add: EvaluateFreshness_def paused_status_row_def new_status_def pause_rec_def second_def minute_def is_zero_def time_sub_def
        min_duration_def max_duration_def Let_def)
  moreover have "ss_RetryAfter paused_status_row = su_Since pause_rec + 10 * second" "0 < second"
    by (simp_all add: paused_status_row_def pause_rec_def second_def)
  ultimately show ?thesis
    using pause_keeps_freshness[OF run pause_span(3,1,2), of "''ws/squad/nightly''" paused_status_row minute] by auto
qed

end
