(* ===== verification/Spec2Isabelle.thy ===== *)
theory Spec2Isabelle
  imports Store_Properties Crash_Loop Firing_Properties Session_Lifecycle Adoption Health_Properties
    Retirement_Properties Shift_Progress Cold_Start Collect_Properties Pause_Properties
begin

text \<open>
  \<^bold>\<open>Marvel, a control plane for agent sessions.\<close> A daemon keeps teams of long-running sessions in tmux
  panes at the replica counts a manifest declares. It has a resource store with a file behind it, a
  session manager that creates, deletes and reaps panes, a team controller that runs one reconcile
  pass every few seconds, an admission gate, a schedule clock for roles that run on a cron, and an
  event stream. This library models these parts of \<open>src/internal\<close> and proves what they promise.

  \<^bold>\<open>How the program's parts map to theories.\<close>

  \<^item> \<^bold>\<open>Vocabulary.\<close> \<open>Marvel_Prelude\<close>: times, durations, the parts of \<open>strconv\<close>, \<open>strings\<close> and \<open>sort\<close> the code
    calls. \<open>Calendar\<close>: dates, weekdays, zones and the two time layouts. \<open>Resources\<close>
    (\<open>api/types.go\<close>, \<open>api/replicas.go\<close>, \<open>api/quiet.go\<close>, \<open>api/hibernate.go\<close>): sessions, roles, teams and the
    liveness and slot predicates; a field of a Go struct that no modelled code reads is left out.
  \<^item> \<^bold>\<open>Store.\<close> \<open>Store\<close> (\<open>api/store.go\<close>, \<open>api/bolt.go\<close>, \<open>api/write_set.go\<close>): the tables, every operation on sessions,
    teams, schedule status, role health and readiness records, the file behind them and the batched
    writes. \<open>Store_Durability\<close> is the restart, \<open>Store_Properties\<close> the failed write.
  \<^item> \<^bold>\<open>Gates.\<close> \<open>Backoff\<close> (\<open>backoff/backoff.go\<close>), \<open>Admission\<close> (\<open>admission/admission.go\<close>, \<open>api/budget.go\<close>),
    \<open>Exposure\<close> (\<open>api/exposure.go\<close>), \<open>Readiness\<close> (\<open>api/readiness.go\<close>, \<open>asof/asof.go\<close>).
  \<^item> \<^bold>\<open>Schedules.\<close> \<open>Schedule_Status\<close> (\<open>api/schedule_status.go\<close>), \<open>Cron\<close> and \<open>Next_Firing\<close> (\<open>api/schedule.go\<close>,
    \<open>api/schedule_clock.go\<close>), \<open>Firing\<close> (the retry ladder and \<open>advanceFiring\<close> of \<open>team/schedule_clock.go\<close>);
    properties in \<open>Clock_Properties\<close> and \<open>Firing_Properties\<close>.
  \<^item> \<^bold>\<open>Sessions.\<close> \<open>Session_Manager\<close> (\<open>session/manager.go\<close>, \<open>session/run_record.go\<close>): create, delete, reap, run records;
    \<open>Adoption\<close>: what a starting daemon does with the panes it finds. Properties in
    \<open>Session_Properties\<close>, \<open>Session_Lifecycle\<close> and \<open>Adoption\<close>.
  \<^item> \<^bold>\<open>Controller.\<close> \<open>Role_Health\<close> and \<open>Crash_Loop\<close>: the crash-loop accounting. \<open>Planner\<close>: \<open>planRole\<close>, the
    decision. \<open>Fleet\<close>: the controller and its manager as one state, with the bus, exposure and
    admission holds. \<open>Retirement\<close> (\<open>team/retire.go\<close>): a seat is asked to leave. \<open>Role_Apply\<close>: the effects of a
    plan. \<open>Health\<close>: the health tick. \<open>Shift\<close>: the rolling shift. \<open>Handoff\<close> (\<open>team/shift_handoff.go\<close>): the automatic
    shift triggers and the handoffs they ask for. \<open>Prune\<close> (\<open>api/prune_plan.go\<close>, \<open>api/prune_apply.go\<close>): the
    prune's plan and checks. \<open>Reconcile\<close>: posture, dropped roles, the prune of \<open>team/prune.go\<close>, the clock's
    round over teams. \<open>Hibernate\<close> (\<open>team/hibernate.go\<close>): the sign-off and the wake, and \<open>reconcileTeam\<close>, the whole
    pass over a team; \<open>Team_Pass\<close> shows what the pass stays within, \<open>Cold_Start\<close> what it does for a team that holds.
  \<^item> \<^bold>\<open>Suspend.\<close> \<open>Child_Proof\<close> (\<open>childproof/childproof.go\<close>): a pid is signalled only through a proved identity.
    \<open>Suspend\<close> (\<open>suspend/suspend.go\<close>): stopping every process of the fleet in place and resuming it; properties in
    \<open>Suspend_Properties\<close>. \<open>Collect\<close> (\<open>suspend/collect.go\<close>): the processes it records; properties in
    \<open>Collect_Properties\<close>. \<open>Pause\<close> (\<open>suspend/heartbeat.go\<close>, \<open>team/pause.go\<close>, \<open>team/tickring.go\<close> and \<open>applyPause\<close> of
    \<open>daemon/suspend.go\<close>): the timers a resume moves, and the tick rings; properties in \<open>Pause_Properties\<close>.
    \<open>Child_Proof\<close> and \<open>Suspend\<close> keep a log of the calls made of the kernel and the store, in order, and
    the answer to a call is a function of the number of calls before it.
  \<^item> \<^bold>\<open>Events.\<close> \<open>Event_Ring\<close> (\<open>events/events.go\<close>): the ring, its filter and its watches.

  State is a record that every operation takes and returns: \<open>Store\<close>, \<open>Manager\<close>, \<open>Controller\<close>, \<open>Fleet\<close>. A Go
  error is a value of a sum or option type, with one constructor per source of error; a Go panic of
  the cron compiler is \<open>CronPanic\<close> or \<open>None\<close>. A reconcile pass works on a copy of a team it keeps in
  step with the record, so its operations act on the pair of that copy and the fleet. A Go map whose
  iteration order cannot matter is a function; where the code writes in its order, or where a finite
  listing is needed, it is an association list.

  \<^bold>\<open>What is a parameter.\<close> The outside of the process is passed in: \<open>commits\<close> says which file transactions
  commit, \<open>tx\<close> answers the tmux calls, \<open>le\<close> is the outcome of preparing a launch, \<open>src\<close> the reader of exposure
  records, \<open>bus\<close> the bus verdict, \<open>tzdb\<close> the time-zone database, \<open>jit\<close> the random jitter. A reconcile pass
  reads them from one record, \<open>tick_env\<close>, with one clock reading for the pass; the code reads the clock
  anew for each step, a few milliseconds apart. The theorems hold for every value of these
  parameters unless a hypothesis restricts one: \<open>all_commit\<close> and \<open>kills_take\<close> say that writes commit and
  that a killed pane is gone.

  \<^bold>\<open>Interfaces.\<close> Six contracts are locales with the model's own operations as instances:
  \<open>record_table\<close> (a table of the store: what a lookup returns after a create or an update; sessions and
  teams), \<open>restart_schedule\<close> (a wait that grows to a cap; the restart ladder), \<open>spawn_gate\<close> (a gate never grants
  more than is asked and refuses exactly when it grants less; the admission check of a repair),
  \<open>seat_operation\<close> (an operation on a seat that stays within its slots; the delete, the delete with its home,
  and the retirement), \<open>signal_client\<close> (a component that knows the identities it may signal) and its extension
  \<open>suspend_client\<close> (the loops of a freeze keep such a client's log guarded; once with the record on disk, once
  with the set of pids a freeze may signal).

  \<^bold>\<open>What the theorems show.\<close>

  \<^item> Durability: the teams, and the crash-loop state, that a restart loads are those the store held.
  \<^item> Decisions: a plan spawns what admission grants with every gate open and nothing otherwise, never
    more than the deficit, and sheds the oldest seats first; the gates fail closed; a looser budget never
    grants less; a seat's readiness is the newest word on each duty, and it ages.
  \<^item> Seats: a reap charges exactly the crashed rows, a create leaves a running row or nothing
    (what it leaves when a write fails is stated too), a delete removes the row or keeps it failed under its
    name, adoption kills only unrecorded panes and the sessions of unrecorded workspaces.
  \<^item> Passes: a role's reconcile stays within the role (\<open>Role_Frame\<close>); after a cold start a pass
    over a team that holds brings up nothing unless the file recorded a shift under way; a
    shift launches before it drains, drains one oldest seat per tick, ends within its time limit, and
    its drain terminates; it starts by itself only on an observed handoff; a retiring seat leaves when
    due; the health tick keeps a seat it hears from; the drain of a dropped role and a prune touch no
    live seat; a hibernate ends no seat that has not handed off and nothing starts for a role it covers;
    the whole pass over a team touches no other team.
  \<^item> Schedules: \<open>NextFiring\<close> is the least matching instant, \<open>CatchUp\<close> counts the due times of the span, no due
    time fires twice, retries stay within their budget.
  \<^item> Suspend: a process is signalled only while the record on disk names it and a read just showed it; a
    freeze stops everything or resumes what it stopped; a thaw drops the record only when every recorded
    process was resumed or read as gone; on a steady host a thaw undoes a freeze; what is recorded is exactly the panes'
    descendants less the exclusions, so the daemon itself is never signalled; after the resume
    a health check, a backoff, a tick ring and a freshness check read as they did at the suspend.
  \<^item> Events: the ring is the tail of the log and a watch loses nothing silently.
  \<^item> What the code does against its own comments is proved as such: the cron step that panics the
    compiler, the day that never comes, the seat a failed tmux session leaks, the seat parked in
    crash-loop backoff, the restart policy that charges nothing, the stopped process a thaw cannot read.

  \<^bold>\<open>Bounds and termination.\<close> Every function here terminates. The search for the next firing looks
  \<open>maxScheduleScanDays\<close> days ahead, as the code does, and its not finding one is the code's error; the gap
  search halves the span between the two offsets until it is a second; the month search of the calendar has twelve steps. The
  loops over sessions, teams and candidates are recursions over the lists the code ranges over.
  Counters are unbounded integers; where the width decides (the 64-bit shift of the backoff, the bit
  sets of the cron compiler, the session sum of the admission gate, \<open>Time.Sub\<close>) it is written out.

  \<^bold>\<open>Not modelled.\<close> \<open>reconcileOnceLocked\<close>, which calls the reap, the health tick, the clocks and the pass over each
  team in order; the suspend handlers of the daemon and its start with a record; the messages
  about a missing handoff and the files it is written to; the cadence
  clock and the freshness alarm's pass; recording and sealing exposure records; the
  wording of messages, events' actors and log lines; manifests, the daemon's RPC, the command line and
  every adapter to a file format, a harness, tmux or the network. Concurrency is not modelled: every
  operation runs under the controller's or the store's lock, as a step of its own.
\<close>

end
